(* ===== verification/Prelude.thy ===== *)
theory Prelude
  imports Main "HOL-Library.AList" "HOL-Library.Char_ord" "HOL-Library.List_Lexorder"
    "HOL-Library.Multiset"
begin

text \<open>
  What the components share of JavaScript's own data types, and the generic lemmas on them.
  \<^item> A JS string is a \<^typ>\<open>string\<close>; \<open><\<close> and \<open>\<le>\<close> on strings are lexicographic by
    character, as JavaScript's relational operators are (by code unit; every string the
    program compares, slices or measures is ASCII: ISO dates, ids, digits).
  \<^item> \<open>null\<close> and \<open>undefined\<close> are \<^const>\<open>None\<close>; where the source distinguishes
    the two, the model uses a nested option or a datatype.
  \<^item> A \<open>Set\<close> built from an array is the list of first occurrences (\<open>uniq\<close>), because
    iteration order is insertion order; a \<open>Map\<close> is an association list updated with
    \<^const>\<open>AList.update\<close>, which overwrites in place or appends, as \<open>Map.prototype.set\<close>.
  \<^item> \<open>Array.prototype.sort\<close> is stable: \<^const>\<open>sort_key\<close> for a numeric or string
    key, \<open>sort_by\<close> for a comparison function.
\<close>

named_theorems js_simps \<open>equations that evaluate the JavaScript helpers\<close>
named_theorems cal_simps \<open>rules of the civil calendar\<close>
named_theorems iso_simps \<open>rules that read and compare ISO date strings\<close>

section \<open>Options and truthiness\<close>

text \<open>\<open>a ?? b\<close>.\<close>

definition nullish :: "'a option \<Rightarrow> 'a \<Rightarrow> 'a" where
  "nullish a b = (case a of None \<Rightarrow> b | Some x \<Rightarrow> x)"

text \<open>\<open>!!s\<close> on \<open>string | null | undefined\<close>: a string is truthy unless it is empty.\<close>

definition truthy :: "string option \<Rightarrow> bool" where
  "truthy s = (case s of None \<Rightarrow> False | Some x \<Rightarrow> x \<noteq> [])"

text \<open>\<open>s || b\<close> on strings.\<close>

definition or_str :: "string option \<Rightarrow> string \<Rightarrow> string" where
  "or_str s b = (case s of None \<Rightarrow> b | Some x \<Rightarrow> if x = [] then b else x)"

lemma nullish_simps [simp, js_simps]: "nullish None b = b" "nullish (Some x) b = x"
  by (simp_all add: nullish_def)

lemma truthy_simps [simp, js_simps]: "\<not> truthy None" "truthy (Some x) \<longleftrightarrow> x \<noteq> []"
  by (simp_all add: truthy_def)

lemma or_str_simps [simp, js_simps]:
  "or_str None b = b" "or_str (Some x) b = (if x = [] then b else x)"
  by (simp_all add: or_str_def)

lemma truthy_iff: "truthy s \<longleftrightarrow> (\<exists>x. s = Some x \<and> x \<noteq> [])"
  by (cases s) auto

lemma or_str_idem [simp]: "or_str (Some (or_str s b)) b = or_str s b"
  by (cases s) auto

section \<open>Arrays\<close>

text \<open>\<open>xs[i]\<close> for an index the source computes: \<open>undefined\<close> out of range.\<close>

definition nth_opt :: "'a list \<Rightarrow> nat \<Rightarrow> 'a option" where
  "nth_opt xs i = (if i < length xs then Some (xs ! i) else None)"

definition last_opt :: "'a list \<Rightarrow> 'a option" where
  "last_opt xs = (if xs = [] then None else Some (last xs))"

definition find_last :: "('a \<Rightarrow> bool) \<Rightarrow> 'a list \<Rightarrow> 'a option" where
  "find_last P xs = find P (rev xs)"

lemma nth_opt_simps [simp, js_simps]:
  "nth_opt [] i = None" "nth_opt (x # xs) 0 = Some x" "nth_opt (x # xs) (Suc i) = nth_opt xs i"
  by (simp_all add: nth_opt_def)

lemma last_opt_simps [simp, js_simps]: "last_opt [] = None" "last_opt (xs @ [x]) = Some x"
  by (simp_all add: last_opt_def)

lemma nth_opt_Some: "nth_opt xs i = Some x \<longleftrightarrow> i < length xs \<and> xs ! i = x"
  by (auto simp: nth_opt_def)

lemma last_opt_Some: "last_opt xs = Some x \<longleftrightarrow> xs \<noteq> [] \<and> last xs = x"
  by (auto simp: last_opt_def)

lemma last_opt_in_set: "last_opt xs = Some x \<Longrightarrow> x \<in> set xs"
  by (auto simp: last_opt_Some)

lemma sorted_last: "sorted xs \<Longrightarrow> x \<in> set xs \<Longrightarrow> x \<le> last xs"
  by (induction xs) (auto split: if_splits)

lemma last_opt_sort: "last_opt (sort xs) = (if xs = [] then None else Some (Max (set xs)))"
proof (cases "xs = []")
  case False
  then have "sort xs \<noteq> []" by (metis length_sort length_0_conv)
  moreover from this have "last (sort xs) = Max (set (sort xs))"
    by (metis Max_eqI List.finite_set last_in_set sorted_last sorted_sort)
  ultimately show ?thesis using False by (simp add: last_opt_def)
qed simp

lemma those_map_Some: "(\<And>x. x \<in> set xs \<Longrightarrow> f x = Some (g x)) \<Longrightarrow> those (map f xs) = Some (map g xs)"
  by (induction xs) auto

lemma find_in_set: "find P xs = Some x \<Longrightarrow> x \<in> set xs \<and> P x"
  by (auto simp: find_Some_iff)

lemma find_isSome: "(\<exists>x. find P xs = Some x) \<longleftrightarrow> (\<exists>x \<in> set xs. P x)"
  by (metis find_None_iff find_in_set not_None_eq)

lemma find_last_in_set: "find_last P xs = Some x \<Longrightarrow> x \<in> set xs \<and> P x"
  unfolding find_last_def by (drule find_in_set) simp

lemma find_last_None: "find_last P xs = None \<longleftrightarrow> (\<forall>x \<in> set xs. \<not> P x)"
  by (auto simp: find_last_def find_None_iff)

text \<open>A \<open>Set\<close> made from an array, in insertion order.\<close>

fun uniq :: "'a list \<Rightarrow> 'a list" where
  "uniq [] = []"
| "uniq (x # xs) = x # filter (\<lambda>y. y \<noteq> x) (uniq xs)"

lemma set_uniq [simp]: "set (uniq xs) = set xs"
  by (induction xs) auto

lemma distinct_uniq [simp]: "distinct (uniq xs)"
  by (induction xs) auto

lemma length_uniq: "length (uniq xs) = card (set xs)"
  by (metis distinct_card distinct_uniq set_uniq)

lemma uniq_distinct: "distinct xs \<Longrightarrow> uniq xs = xs"
proof (induction xs)
  case (Cons x xs)
  then have "filter (\<lambda>y. y \<noteq> x) xs = xs"
    by (auto simp: filter_id_conv)
  with Cons show ?case by simp
qed simp

lemma uniq_Nil_iff [simp]: "uniq xs = [] \<longleftrightarrow> xs = []"
  by (cases xs) simp_all

text \<open>\<open>find\<close> an entry and mutate it, or push a new one.\<close>

fun update_first :: "('a \<Rightarrow> bool) \<Rightarrow> ('a \<Rightarrow> 'a) \<Rightarrow> 'a \<Rightarrow> 'a list \<Rightarrow> 'a list" where
  "update_first P f new [] = [new]"
| "update_first P f new (x # xs) = (if P x then f x # xs else x # update_first P f new xs)"

lemma mset_update_first:
  assumes "\<And>x. P x \<Longrightarrow> h (f x) = h x + d" "h new = d"
  shows "sum_list (map h (update_first P f new xs)) = sum_list (map h xs) + (d :: 'b :: comm_monoid_add)"
  using assms by (induction xs) (simp_all add: ac_simps)

lemma update_first_all:
  "list_all Q xs \<Longrightarrow> (\<And>x. P x \<Longrightarrow> Q x \<Longrightarrow> Q (f x)) \<Longrightarrow> Q new \<Longrightarrow> list_all Q (update_first P f new xs)"
  by (induction xs) auto

subsection \<open>Stable sorting with a comparison function\<close>

text \<open>\<open>le a b\<close> stands for \<open>compare(a, b) <= 0\<close>.\<close>

fun insert_by :: "('a \<Rightarrow> 'a \<Rightarrow> bool) \<Rightarrow> 'a \<Rightarrow> 'a list \<Rightarrow> 'a list" where
  "insert_by le x [] = [x]"
| "insert_by le x (y # ys) = (if le x y then x # y # ys else y # insert_by le x ys)"

definition sort_by :: "('a \<Rightarrow> 'a \<Rightarrow> bool) \<Rightarrow> 'a list \<Rightarrow> 'a list" where
  "sort_by le xs = foldr (insert_by le) xs []"

lemma mset_insert_by [simp]: "mset (insert_by le x xs) = add_mset x (mset xs)"
  by (induction xs) auto

lemma set_insert_by [simp]: "set (insert_by le x xs) = insert x (set xs)"
  by (induction xs) auto

lemma sort_by_simps [simp]:
  "sort_by le [] = []" "sort_by le (x # xs) = insert_by le x (sort_by le xs)"
  by (simp_all add: sort_by_def)

lemma mset_sort_by [simp]: "mset (sort_by le xs) = mset xs"
  by (induction xs) auto

lemma set_sort_by [simp]: "set (sort_by le xs) = set xs"
  by (metis mset_sort_by set_mset_mset)

lemma length_sort_by [simp]: "length (sort_by le xs) = length xs"
  by (metis mset_sort_by size_mset)

lemma distinct_sort_by [simp]: "distinct (sort_by le xs) = distinct xs"
  by (metis mset_eq_imp_distinct_iff mset_sort_by)

lemma sorted_insert_by:
  assumes "transp le" "totalp le" "reflp le" "sorted_wrt le xs"
  shows "sorted_wrt le (insert_by le x xs)"
  using assms(4)
proof (induction xs)
  case (Cons y ys)
  show ?case
  proof (cases "le x y")
    case True
    with Cons.prems assms(1) show ?thesis by (auto elim: transpE)
  next
    case False
    with assms(2,3) have "le y x" by (metis reflpD totalpD)
    with False Cons show ?thesis by simp
  qed
qed simp

lemma sorted_sort_by:
  assumes "transp le" "totalp le" "reflp le"
  shows "sorted_wrt le (sort_by le xs)"
  using assms by (induction xs) (auto intro: sorted_insert_by)

lemma insert_by_map:
  "(\<And>y. y \<in> set ys \<Longrightarrow> le' (f x) (f y) \<longleftrightarrow> le x y) \<Longrightarrow> insert_by le' (f x) (map f ys) = map f (insert_by le x ys)"
  by (induction ys) auto

lemma sort_by_map:
  "(\<And>x y. x \<in> set xs \<Longrightarrow> y \<in> set xs \<Longrightarrow> le' (f x) (f y) \<longleftrightarrow> le x y) \<Longrightarrow>
     sort_by le' (map f xs) = map f (sort_by le xs)"
proof (induction xs)
  case (Cons x xs)
  then have "sort_by le' (map f xs) = map f (sort_by le xs)" by simp
  moreover have "insert_by le' (f x) (map f (sort_by le xs)) = map f (insert_by le x (sort_by le xs))"
    by (rule insert_by_map) (use Cons.prems in simp)
  ultimately show ?case by simp
qed simp

section \<open>Strings\<close>

text \<open>\<open>xs.join(sep)\<close>.\<close>

fun join :: "string \<Rightarrow> string list \<Rightarrow> string" where
  "join sep [] = []"
| "join sep [x] = x"
| "join sep (x # y # ys) = x @ sep @ join sep (y # ys)"

text \<open>\<open>s.split(c)\<close> for a one-character separator: never empty, \<open>''.split(',')\<close> is \<open>['']\<close>.\<close>

fun split_on :: "char \<Rightarrow> string \<Rightarrow> string list" where
  "split_on c [] = [[]]"
| "split_on c (x # xs) =
     (if x = c then [] # split_on c xs
      else (x # hd (split_on c xs)) # tl (split_on c xs))"

definition is_ws :: "char \<Rightarrow> bool" where
  "is_ws c \<longleftrightarrow> c \<in> {CHR '' '', CHR 0x09, CHR 0x0A, CHR 0x0B, CHR 0x0C, CHR 0x0D}"

definition trim :: "string \<Rightarrow> string" where
  "trim s = rev (dropWhile is_ws (rev (dropWhile is_ws s)))"

definition is_digit :: "char \<Rightarrow> bool" where
  "is_digit c \<longleftrightarrow> CHR ''0'' \<le> c \<and> c \<le> CHR ''9''"

definition starts_with :: "string \<Rightarrow> string \<Rightarrow> bool" where
  "starts_with p s \<longleftrightarrow> take (length p) s = p"

definition ends_with :: "string \<Rightarrow> string \<Rightarrow> bool" where
  "ends_with p s \<longleftrightarrow> starts_with (rev p) (rev s)"

text \<open>The en dash U+2013 of labels such as a season's, in UTF-8.\<close>

definition en_dash :: string where
  "en_dash = [CHR 0xE2, CHR 0x80, CHR 0x93]"

text \<open>The dash shown for no value, U+2014 in UTF-8.\<close>

definition em_dash :: string where
  "em_dash = [CHR 0xE2, CHR 0x80, CHR 0x94]"

text \<open>The middle dot \<open>' \<cdot> '\<close> that joins two texts, in UTF-8.\<close>

definition middle_dot :: string where
  "middle_dot = '' '' @ [CHR 0xC2, CHR 0xB7] @ '' ''"

text \<open>\<open>s.slice(i, j)\<close> for \<open>0 <= i <= j\<close>.\<close>

definition slice :: "nat \<Rightarrow> nat \<Rightarrow> string \<Rightarrow> string" where
  "slice i j s = take (j - i) (drop i s)"

lemma split_on_not_Nil [simp]: "split_on c xs \<noteq> []"
  by (cases xs) auto

lemma join_split_on: "join [c] (split_on c xs) = xs"
proof (induction xs)
  case (Cons x xs)
  then show ?case
    by (cases "split_on c xs"; cases "tl (split_on c xs)") auto
qed simp

lemma split_on_no_sep: "c \<notin> set xs \<Longrightarrow> split_on c xs = [xs]"
  by (induction xs) auto

lemma split_on_append: "c \<notin> set xs \<Longrightarrow> split_on c (xs @ c # ys) = xs # split_on c ys"
  by (induction xs) auto

lemma split_on_join:
  "xs \<noteq> [] \<Longrightarrow> (\<And>x. x \<in> set xs \<Longrightarrow> c \<notin> set x) \<Longrightarrow> split_on c (join [c] xs) = xs"
  by (induction "[c]" xs rule: join.induct) (auto simp: split_on_no_sep split_on_append)

lemma trim_Nil [simp]: "trim [] = []"
  by (simp add: trim_def)

lemma trim_id: "(\<And>x. x \<in> set s \<Longrightarrow> \<not> is_ws x) \<Longrightarrow> trim s = s"
  unfolding trim_def by (metis dropWhile_eq_self_iff hd_in_set rev_rev_ident set_rev)

lemma dropWhile_rev_dropWhile:
  "xs = [] \<or> \<not> P (hd xs) \<Longrightarrow>
     rev (dropWhile P (rev xs)) = [] \<or> \<not> P (hd (rev (dropWhile P (rev xs))))"
proof (cases xs)
  case (Cons x ys)
  assume "xs = [] \<or> \<not> P (hd xs)"
  with Cons have "\<not> P x" by simp
  then have "rev (dropWhile P (rev xs)) = x # rev (dropWhile P (rev ys))"
    unfolding Cons by (simp add: dropWhile_append dropWhile_eq_Nil_conv)
  with \<open>\<not> P x\<close> show ?thesis by simp
qed simp

lemma trim_trim [simp]: "trim (trim s) = trim s"
proof -
  let ?a = "dropWhile is_ws s"
  have a: "?a = [] \<or> \<not> is_ws (hd ?a)"
    by (metis hd_dropWhile)
  have b: "rev (dropWhile is_ws (rev ?a)) = [] \<or> \<not> is_ws (hd (rev (dropWhile is_ws (rev ?a))))"
    using a by (rule dropWhile_rev_dropWhile)
  then have "dropWhile is_ws (trim s) = trim s"
    by (simp add: trim_def dropWhile_eq_self_iff)
  moreover have "dropWhile is_ws (rev (trim s)) = rev (trim s)"
    by (metis (no_types) dropWhile_eq_self_iff hd_dropWhile rev_rev_ident trim_def)
  ultimately show ?thesis
    unfolding trim_def [of "trim s"] by simp
qed

lemma digit_not_ws: "is_digit c \<Longrightarrow> \<not> is_ws c"
  by (auto simp: is_digit_def is_ws_def less_eq_char_def)

section \<open>Decimal digits\<close>

definition digit :: "nat \<Rightarrow> char" where
  "digit d = char_of (48 + d)"

definition digit_val :: "char \<Rightarrow> nat" where
  "digit_val c = of_char c - 48"

text \<open>The last \<open>k\<close> decimal digits of \<open>n\<close>, with leading zeros.\<close>

fun digs :: "nat \<Rightarrow> nat \<Rightarrow> string" where
  "digs 0 n = []"
| "digs (Suc k) n = digs k (n div 10) @ [digit (n mod 10)]"

text \<open>\<open>String(n)\<close> for a natural number.\<close>

fun nat_str :: "nat \<Rightarrow> string" where
  "nat_str n = (if n < 10 then [digit n] else nat_str (n div 10) @ [digit (n mod 10)])"

declare nat_str.simps [simp del]

definition int_str :: "int \<Rightarrow> string" where
  "int_str i = (if i < 0 then CHR ''-'' # nat_str (nat (- i)) else nat_str (nat i))"

definition padStart :: "nat \<Rightarrow> char \<Rightarrow> string \<Rightarrow> string" where
  "padStart k c s = replicate (k - length s) c @ s"

text \<open>The value of a string of digits (\<open>parseInt(s, 10)\<close> on such a string).\<close>

definition digits_val :: "string \<Rightarrow> nat" where
  "digits_val s = foldl (\<lambda>a c. 10 * a + digit_val c) 0 s"

lemma of_char_digit: "d < 10 \<Longrightarrow> of_char (digit d) = (48 + d :: nat)"
  by (simp add: digit_def)

lemma digit_val_digit [simp]: "d < 10 \<Longrightarrow> digit_val (digit d) = d"
  by (simp add: digit_val_def of_char_digit)

lemma is_digit_iff: "is_digit c \<longleftrightarrow> 48 \<le> (of_char c :: nat) \<and> of_char c \<le> (57::nat)"
  by (simp add: is_digit_def less_eq_char_def)

lemma is_digit_digit [simp]: "d < 10 \<Longrightarrow> is_digit (digit d)"
  by (simp add: is_digit_iff of_char_digit)

lemma digit_less_iff: "a < 10 \<Longrightarrow> b < 10 \<Longrightarrow> digit a < digit b \<longleftrightarrow> a < b"
  by (simp add: less_char_def of_char_digit)

lemma digit_inject: "a < 10 \<Longrightarrow> b < 10 \<Longrightarrow> digit a = digit b \<longleftrightarrow> a = b"
  by (metis digit_val_digit)

lemma digit_digit_val [simp]: "is_digit c \<Longrightarrow> digit (digit_val c) = c"
  by (simp add: is_digit_iff digit_def digit_val_def)

lemma digit_val_less: "is_digit c \<Longrightarrow> digit_val c < 10"
  by (auto simp: is_digit_iff digit_val_def)

lemma digit_0: "digit 0 = CHR ''0''"
  by code_simp

lemma length_digs [simp]: "length (digs k n) = k"
  by (induction k arbitrary: n) auto

lemma digs_digits: "c \<in> set (digs k n) \<Longrightarrow> is_digit c"
  by (induction k arbitrary: n) auto

lemma digs_2: "digs 2 n = [digit (n div 10 mod 10), digit (n mod 10)]"
  by (simp add: numeral_2_eq_2)

lemma digs_4: "digs 4 n = [digit (n div 1000 mod 10), digit (n div 100 mod 10),
    digit (n div 10 mod 10), digit (n mod 10)]"
proof -
  have four: "(4::nat) = Suc (Suc (Suc (Suc 0)))" by simp
  show ?thesis unfolding four digs.simps by (simp add: div_mult2_eq [symmetric])
qed

lemma digits_val_snoc [simp]: "digits_val (s @ [c]) = 10 * digits_val s + digit_val c"
  by (simp add: digits_val_def)

lemma digits_val_Nil [simp]: "digits_val [] = 0"
  by (simp add: digits_val_def)

lemma digits_val_digs: "digits_val (digs k n) = n mod 10 ^ k"
proof (induction k arbitrary: n)
  case (Suc k)
  have "10 * (n div 10 mod 10 ^ k) + n mod 10 = n mod (10 * 10 ^ k)"
    by (simp add: mod_mult2_eq)
  with Suc show ?case by simp
qed simp

lemma digits_val_bound: "(\<And>c. c \<in> set s \<Longrightarrow> is_digit c) \<Longrightarrow> digits_val s < 10 ^ length s"
proof (induction s rule: rev_induct)
  case (snoc c s)
  then have "digits_val s < 10 ^ length s" "digit_val c < 10"
    by (auto intro: digit_val_less)
  then show ?case by simp
qed simp

lemma digs_digits_val: "(\<And>c. c \<in> set s \<Longrightarrow> is_digit c) \<Longrightarrow> digs (length s) (digits_val s) = s"
  by (induction s rule: rev_induct) (auto simp: digit_val_less)

lemma nat_str_digits: "c \<in> set (nat_str n) \<Longrightarrow> is_digit c"
proof (induction n rule: nat_str.induct)
  case (1 n)
  then show ?case
    by (cases "n < 10") (auto simp: nat_str.simps [of n])
qed

lemma nat_str_not_Nil [simp]: "nat_str n \<noteq> []"
  by (simp add: nat_str.simps [of n])

lemma digits_val_nat_str [simp]: "digits_val (nat_str n) = n"
proof (induction n rule: nat_str.induct)
  case (1 n)
  then show ?case
    by (cases "n < 10") (auto simp: nat_str.simps [of n] digits_val_def)
qed

lemma nat_str_inject [simp]: "nat_str m = nat_str n \<longleftrightarrow> m = n"
  by (metis digits_val_nat_str)

lemma nat_str_digs:
  "(if k = 0 then n < 10 else 10 ^ k \<le> n \<and> n < 10 ^ Suc k) \<Longrightarrow> nat_str n = digs (Suc k) n"
proof (induction k arbitrary: n)
  case 0
  then show ?case by (simp add: nat_str.simps [of n])
next
  case (Suc k)
  then have "10 \<le> n" by (simp add: power_Suc) (metis le_trans mult_le_mono2 nat_mult_1_right one_le_numeral one_le_power)
  moreover have "nat_str (n div 10) = digs (Suc k) (n div 10)"
  proof (rule Suc.IH)
    from Suc.prems have a: "10 * 10 ^ k \<le> n" "n < 10 * (10 * 10 ^ k)" by simp_all
    then have "10 ^ k \<le> n div 10" "n div 10 < 10 * 10 ^ k"
      by (simp_all add: less_eq_div_iff_mult_less_eq mult.commute div_less_iff_less_mult)
    then show "if k = 0 then n div 10 < 10 else 10 ^ k \<le> n div 10 \<and> n div 10 < 10 ^ Suc k"
      by (cases "k = 0") simp_all
  qed
  ultimately show ?case by (simp add: nat_str.simps [of n])
qed

lemma nat_str_4: "1000 \<le> n \<Longrightarrow> n < 10000 \<Longrightarrow> nat_str n = digs 4 n"
proof -
  assume "1000 \<le> n" "n < 10000"
  then have "nat_str n = digs (Suc 3) n"
    by (intro nat_str_digs) simp
  also have "Suc 3 = 4" by simp
  finally show ?thesis .
qed

lemma padStart_2: "n < 100 \<Longrightarrow> padStart 2 (CHR ''0'') (nat_str n) = digs 2 n"
proof (cases "n < 10")
  case True
  then show ?thesis
    by (simp add: padStart_def nat_str.simps [of n] digs_2 digit_0)
next
  case False
  moreover assume "n < 100"
  ultimately show ?thesis
    using nat_str_digs [of 1 n] by (simp add: padStart_def numeral_2_eq_2)
qed

lemma int_str_nat [simp]: "0 \<le> i \<Longrightarrow> int_str i = nat_str (nat i)"
  by (simp add: int_str_def)

section \<open>Evaluating digits with binary numerals\<close>

text \<open>
  Code equations under which the simplifier evaluates dates and numbers without counting a natural
  number up one by one: years and prices stay \<^typ>\<open>int\<close> numerals.
\<close>

fun int_digs :: "nat \<Rightarrow> int \<Rightarrow> string" where
  "int_digs 0 i = []"
| "int_digs (Suc k) i = int_digs k (i div 10) @ [digit (nat (i mod 10))]"

lemma digs_nat: "0 \<le> i \<Longrightarrow> digs k (nat i) = int_digs k i"
proof (induction k arbitrary: i)
  case (Suc k)
  then have "digs k (nat (i div 10)) = int_digs k (i div 10)" by simp
  then show ?case using Suc.prems by (simp add: nat_div_distrib nat_mod_distrib)
qed simp

lemma digs_code [code_unfold]: "digs k (nat i) = int_digs k (if i < 0 then 0 else i)"
  using digs_nat [of i k] digs_nat [of 0 k] by simp

definition digit_table :: "(char \<times> int) list" where
  "digit_table = zip ''0123456789'' [0, 1, 2, 3, 4, 5, 6, 7, 8, 9]"

lemma less_10_cases: "n < 10 \<Longrightarrow> n = 0 \<or> n = 1 \<or> n = 2 \<or> n = 3 \<or> n = 4 \<or> n = 5 \<or> n = 6 \<or> n = 7 \<or> n = 8 \<or> n = (9::nat)"
  by arith

lemma digit_table: "n < 10 \<Longrightarrow> ''0123456789'' ! n = digit n"
proof -
  assume "n < 10"
  then have "of_char (''0123456789'' ! n) = 48 + n" by (elim less_10_cases [THEN disjE] disjE) simp_all
  then show ?thesis unfolding digit_def by (metis char_of_char)
qed

lemma digit_table_length: "length ''0123456789'' = 10"
  by simp

lemma digit_code [code]: "digit n = (if n < 10 then ''0123456789'' ! n else char_of (48 + n))"
  by (cases "n < 10") (simp_all only: if_True if_False digit_table digit_def)

lemma is_digit_code [code]: "is_digit c \<longleftrightarrow> c \<in> set ''0123456789''"
proof
  assume "is_digit c"
  then have "c = digit (digit_val c)" "digit_val c < 10" by (simp_all add: digit_digit_val digit_val_less)
  then show "c \<in> set ''0123456789''" by (metis digit_table nth_mem digit_table_length)
next
  assume "c \<in> set ''0123456789''"
  then show "is_digit c" by (auto simp: is_digit_def less_eq_char_def)
qed

definition int_digit_val :: "char \<Rightarrow> int" where
  "int_digit_val c = (case map_of digit_table c of Some v \<Rightarrow> v | None \<Rightarrow> int (digit_val c))"

lemma int_digit_val: "int_digit_val c = int (digit_val c)"
  by (simp add: int_digit_val_def digit_table_def digit_val_def split: option.split)

definition digits_int :: "string \<Rightarrow> int" where
  "digits_int s = foldl (\<lambda>a c. 10 * a + int_digit_val c) 0 s"

lemma int_digits_val [code_unfold]: "int (digits_val s) = digits_int s"
proof -
  have "int (foldl (\<lambda>a c. 10 * a + digit_val c) n s) = foldl (\<lambda>a c. 10 * a + int (digit_val c)) (int n) s" for n
    by (induction s arbitrary: n) simp_all
  from this [of 0] show ?thesis by (simp add: digits_val_def digits_int_def int_digit_val)
qed

function int_nat_str :: "int \<Rightarrow> string" where
  "int_nat_str i = (if i < 10 then [digit (nat i)] else int_nat_str (i div 10) @ [digit (nat (i mod 10))])"
  by pat_completeness auto

termination
  by (relation "measure nat") auto

declare int_nat_str.simps [simp del]

lemma nat_str_code [code_unfold]: "nat_str (nat i) = int_nat_str i"
proof (induction i rule: int_nat_str.induct)
  case (1 i)
  have "nat_str (nat i) = nat_str (nat i div 10) @ [digit (nat i mod 10)]" if "\<not> i < 10"
    using that by (subst nat_str.simps) (simp add: nat_less_iff)
  moreover have "nat i div 10 = nat (i div 10)" "nat i mod 10 = nat (i mod 10)" if "\<not> i < 10"
    using that by (simp_all add: nat_div_distrib nat_mod_distrib)
  moreover have "nat_str (nat i) = [digit (nat i)]" if "i < 10"
    using that by (subst nat_str.simps) (simp add: nat_less_iff)
  ultimately show ?case
    using "1.IH" by (cases "i < 10") (simp_all only: int_nat_str.simps [of i] if_True if_False not_False_eq_True)
qed

section \<open>Lexicographic comparison of strings\<close>

lemma append_less_append:
  "length (a :: string) = length b \<Longrightarrow> a @ x < b @ y \<longleftrightarrow> a < b \<or> a = b \<and> x < y"
proof (induction a b rule: list_induct2)
  case (Cons c a d b)
  then show ?case by auto
qed simp

lemma digs_less_iff:
  "m < 10 ^ k \<Longrightarrow> n < 10 ^ k \<Longrightarrow> digs k m < digs k n \<longleftrightarrow> m < n"
proof (induction k arbitrary: m n)
  case (Suc k)
  then have h: "m div 10 < 10 ^ k" "n div 10 < 10 ^ k" by auto
  have inj: "digs k (m div 10) = digs k (n div 10) \<longleftrightarrow> m div 10 = n div 10"
    using h by (metis digits_val_digs mod_less)
  have "digs (Suc k) m < digs (Suc k) n \<longleftrightarrow>
      m div 10 < n div 10 \<or> m div 10 = n div 10 \<and> m mod 10 < n mod 10"
    using h Suc.IH [of "m div 10" "n div 10"] inj
    by (simp add: append_less_append digit_less_iff)
  also have "\<dots> \<longleftrightarrow> m < n"
    by (smt (verit) div_le_mono div_mult_mod_eq mod_less_divisor nat_add_left_cancel_less
        not_less_iff_gr_or_eq zero_less_numeral linorder_not_less)
  finally show ?case .
qed simp

lemma digs_inject: "m < 10 ^ k \<Longrightarrow> n < 10 ^ k \<Longrightarrow> digs k m = digs k n \<longleftrightarrow> m = n"
  by (metis digits_val_digs mod_less)

section \<open>Form schemas\<close>

text \<open>The field an issue of a schema names, and the message of an issue the refinements add.\<close>

type_synonym zod_issue = "string \<times> string option"

definition issue_if :: "bool \<Rightarrow> string \<Rightarrow> string \<Rightarrow> zod_issue list" where
  "issue_if c path message = (if c then [(path, Some message)] else [])"

lemma issue_if_Nil [simp]: "issue_if c path message = [] \<longleftrightarrow> \<not> c"
  by (simp add: issue_if_def)

end
