(* ===== verification/Calendar.thy ===== *)
theory Calendar
  imports Prelude
begin

text \<open>
  The part of ECMAScript's \<open>Date\<close> the program uses: days are counted from 1 January 1970
  in the proleptic Gregorian calendar (\<open>DayFromYear\<close>, \<open>MakeDay\<close>, \<open>YearFromTime\<close>,
  \<open>MonthFromTime\<close>, \<open>DateFromTime\<close>, \<open>WeekDay\<close> of the specification), months are
  numbered 0 to 11, and a two-digit year given as a number means 1900 plus that year.
  A \<open>Date\<close> the program reads through its local getters is always a local midnight, so
  it is modelled by its civil day number. The theory proves that day numbers and civil
  dates correspond one to one, and that ISO strings of four-digit years sort as the days
  they name.
\<close>

section \<open>Years and months\<close>

definition leap :: "int \<Rightarrow> bool" where
  "leap y \<longleftrightarrow> y mod 4 = 0 \<and> (y mod 100 \<noteq> 0 \<or> y mod 400 = 0)"

definition DayFromYear :: "int \<Rightarrow> int" where
  "DayFromYear y = 365 * (y - 1970) + (y - 1969) div 4 - (y - 1901) div 100 + (y - 1601) div 400"

definition DaysInYear :: "int \<Rightarrow> int" where
  "DaysInYear y = (if leap y then 366 else 365)"

definition month_lengths :: "bool \<Rightarrow> int list" where
  "month_lengths lp = [31, if lp then 29 else 28, 31, 30, 31, 30, 31, 31, 30, 31, 30, 31]"

definition days_in_month :: "int \<Rightarrow> int \<Rightarrow> int" where
  "days_in_month y m = month_lengths (leap y) ! nat m"

definition days_before_month :: "bool \<Rightarrow> int \<Rightarrow> int" where
  "days_before_month lp m = sum_list (take (nat m) (month_lengths lp))"

text \<open>\<open>MakeDay(year, month, date)\<close>: the month may lie outside 0 to 11, the date anywhere.\<close>

definition MakeDay :: "int \<Rightarrow> int \<Rightarrow> int \<Rightarrow> int" where
  "MakeDay y m dt =
     (let ym = y + m div 12; mn = m mod 12
      in DayFromYear ym + days_before_month (leap ym) mn + dt - 1)"

text \<open>The year a day falls in: an estimate from the mean year length, corrected by one.\<close>

definition YearFromDay :: "int \<Rightarrow> int" where
  "YearFromDay d =
     (let y = 1970 + (400 * d) div 146097
      in if DayFromYear y > d then y - 1
         else if DayFromYear (y + 1) \<le> d then y + 1 else y)"

fun find_month :: "int \<Rightarrow> int list \<Rightarrow> int \<times> int" where
  "find_month r [] = (0, r)"
| "find_month r (l # ls) =
     (if r < l then (0, r) else (let (m, r') = find_month (r - l) ls in (m + 1, r')))"

definition MonthFromDay :: "int \<Rightarrow> int" where
  "MonthFromDay d =
     (let y = YearFromDay d in fst (find_month (d - DayFromYear y) (month_lengths (leap y))))"

definition DateFromDay :: "int \<Rightarrow> int" where
  "DateFromDay d =
     (let y = YearFromDay d in snd (find_month (d - DayFromYear y) (month_lengths (leap y))) + 1)"

text \<open>Weekday with 0 for Sunday, as \<open>getDay()\<close> and \<open>getUTCDay()\<close>.\<close>

definition WeekDay :: "int \<Rightarrow> int" where
  "WeekDay d = (d + 4) mod 7"

definition valid_civil :: "int \<Rightarrow> int \<Rightarrow> int \<Rightarrow> bool" where
  "valid_civil y m dt \<longleftrightarrow> 0 \<le> m \<and> m < 12 \<and> 1 \<le> dt \<and> dt \<le> days_in_month y m"

text \<open>
  \<open>MakeFullYear\<close>: the \<open>Date\<close> constructor and \<open>Date.UTC\<close> read the years 0 to 99 as
  1900 to 1999.
\<close>

definition full_year :: "int \<Rightarrow> int" where
  "full_year y = (if 0 \<le> y \<and> y \<le> 99 then 1900 + y else y)"

text \<open>\<open>new Date(year, month, date)\<close> and \<open>Date.UTC(year, month, date)\<close> as a day number.\<close>

definition date_of :: "int \<Rightarrow> int \<Rightarrow> int \<Rightarrow> int" where
  "date_of y m dt = MakeDay (full_year y) m dt"

section \<open>Consecutive years\<close>

lemma DaysInYear_bounds: "365 \<le> DaysInYear y" "DaysInYear y \<le> 366" "0 < DaysInYear y"
  by (simp_all add: DaysInYear_def)

lemma floor_div:
  assumes "0 < (n::int)"
  shows "n * (x div n) \<le> x" "x < n * (x div n) + n"
  using assms pos_mod_sign [of n x] pos_mod_bound [of n x] mult_div_mod_eq [of n x] by linarith+

lemma div_step:
  assumes n: "0 < (n::int)"
  shows "(x + 1) div n = x div n + (if (x + 1) mod n = 0 then 1 else 0)"
proof (cases "(x + 1) mod n = 0")
  case True
  then have "x = n * ((x + 1) div n - 1) + (n - 1)"
    using mult_div_mod_eq [of n "x + 1"] by (simp add: algebra_simps)
  then have "x div n = (x + 1) div n - 1" using n by (intro int_div_pos_eq [where r = "n - 1"]) simp_all
  with True show ?thesis by simp
next
  case False
  have "0 < (x + 1) mod n" "(x + 1) mod n < n"
    using n False pos_mod_sign [of n "x + 1"] pos_mod_bound [of n "x + 1"] by linarith+
  moreover have "x = n * ((x + 1) div n) + ((x + 1) mod n - 1)"
    using mult_div_mod_eq [of n "x + 1"] by linarith
  ultimately have "x div n = (x + 1) div n"
    by (intro int_div_pos_eq [where r = "(x + 1) mod n - 1"]) simp_all
  with False show ?thesis by simp
qed

lemma DayFromYear_Suc: "DayFromYear (y + 1) = DayFromYear y + DaysInYear y"
proof -
  have shift: "(y - k * n) mod n = y mod n" for k n :: int
    by (metis mod_mult_self3 add.commute diff_add_cancel mult.commute)
  have q: "(y + 1 - (1 + k * n)) div n = (y - (1 + k * n)) div n + (if y mod n = 0 then 1 else 0)"
    if "0 < n" for n k :: int
    using div_step [OF that, of "y - (1 + k * n)"] shift [of k n] by (simp add: algebra_simps)
  have imp: "y mod 400 = 0 \<Longrightarrow> y mod 100 = 0" "y mod 100 = 0 \<Longrightarrow> y mod 4 = 0"
    using mod_mod_cancel [of 100 400 y] mod_mod_cancel [of 4 100 y] by simp_all
  define a b c where abc: "a = (y - 1969) div 4" "b = (y - 1901) div 100" "c = (y - 1601) div 400"
  have q4: "(y + 1 - 1969) div 4 = a + (if y mod 4 = 0 then 1 else 0)"
    using q [of 4 492] unfolding abc by simp
  have q100: "(y + 1 - 1901) div 100 = b + (if y mod 100 = 0 then 1 else 0)"
    using q [of 100 19] unfolding abc by simp
  have q400: "(y + 1 - 1601) div 400 = c + (if y mod 400 = 0 then 1 else 0)"
    using q [of 400 4] unfolding abc by simp
  have "DayFromYear y = 365 * (y - 1970) + a - b + c"
    by (simp only: DayFromYear_def abc)
  moreover have "DayFromYear (y + 1) = 365 * (y + 1 - 1970) + (a + (if y mod 4 = 0 then 1 else 0))
      - (b + (if y mod 100 = 0 then 1 else 0)) + (c + (if y mod 400 = 0 then 1 else 0))"
    by (simp only: DayFromYear_def q4 q100 q400)
  ultimately have "DayFromYear (y + 1) = DayFromYear y + 365 + (if y mod 4 = 0 then 1 else 0)
      - (if y mod 100 = 0 then 1 else 0) + (if y mod 400 = 0 then 1 else 0)"
    by (simp add: algebra_simps)
  then show ?thesis
    unfolding DaysInYear_def leap_def
    by (cases "y mod 4 = 0"; cases "y mod 100 = 0"; cases "y mod 400 = 0") (use imp in simp_all)
qed

lemma DayFromYear_add: "DayFromYear y + 365 * int n \<le> DayFromYear (y + int n)"
proof (induction n)
  case (Suc n)
  have "DayFromYear (y + int (Suc n)) = DayFromYear (y + int n) + DaysInYear (y + int n)"
    using DayFromYear_Suc [of "y + int n"] by (simp add: add.assoc add.commute [of 1])
  with Suc DaysInYear_bounds(1) [of "y + int n"] show ?case by simp
qed simp

lemma DayFromYear_less: "y < z \<Longrightarrow> DayFromYear y < DayFromYear z"
  using DayFromYear_add [of y "nat (z - y)"] by simp

lemma DayFromYear_mono: "y \<le> z \<Longrightarrow> DayFromYear y \<le> DayFromYear z"
  using DayFromYear_less [of y z] by (cases "y = z") auto

lemma year_estimate:
  defines "y \<equiv> \<lambda>d. 1970 + (400 * d) div (146097::int)"
  shows "DayFromYear (y d - 1) \<le> d" and "d < DayFromYear (y d + 2)"
proof -
  define q where "q = (400 * d) div (146097::int)"
  have q: "146097 * q \<le> 400 * d" "400 * d < 146097 * q + 146097"
    unfolding q_def by (rule floor_div, simp)+
  have up: "400 * DayFromYear (1970 + p) \<le> 146097 * p + 589" for p
    using floor_div [of 4 "p + 1"] floor_div [of 100 "p + 69"] floor_div [of 400 "p + 369"]
    unfolding DayFromYear_def by (simp add: algebra_simps)
  have lo: "146097 * p - 506 \<le> 400 * DayFromYear (1970 + p)" for p
    using floor_div [of 4 "p + 1"] floor_div [of 100 "p + 69"] floor_div [of 400 "p + 369"]
    unfolding DayFromYear_def by (simp add: algebra_simps)
  show "DayFromYear (y d - 1) \<le> d"
    using up [of "q - 1"] q unfolding y_def q_def [symmetric] by (simp add: algebra_simps)
  show "d < DayFromYear (y d + 2)"
    using lo [of "q + 2"] q unfolding y_def q_def [symmetric] by (simp add: algebra_simps)
qed

lemma YearFromDay_bounds:
  "DayFromYear (YearFromDay d) \<le> d" "d < DayFromYear (YearFromDay d + 1)"
  using year_estimate [of d] unfolding YearFromDay_def Let_def by (auto simp: algebra_simps)

lemma YearFromDay_unique:
  assumes "DayFromYear y \<le> d" "d < DayFromYear (y + 1)"
  shows "YearFromDay d = y"
proof (rule ccontr)
  assume "YearFromDay d \<noteq> y"
  then consider "YearFromDay d + 1 \<le> y" | "y + 1 \<le> YearFromDay d" by linarith
  then show False
    using assms YearFromDay_bounds [of d] DayFromYear_mono by cases fastforce+
qed

section \<open>Months within a year\<close>

lemma length_month_lengths [simp]: "length (month_lengths lp) = 12"
  by (simp add: month_lengths_def)

lemma month_lengths_pos: "l \<in> set (month_lengths lp) \<Longrightarrow> 28 \<le> l \<and> l \<le> 31"
  by (auto simp: month_lengths_def split: if_splits)

lemma sum_month_lengths: "sum_list (month_lengths (leap y)) = DaysInYear y"
  by (simp add: month_lengths_def DaysInYear_def)

lemma days_in_month_bounds: "0 \<le> m \<Longrightarrow> m < 12 \<Longrightarrow> 28 \<le> days_in_month y m \<and> days_in_month y m \<le> 31"
  unfolding days_in_month_def by (rule month_lengths_pos [of _ "leap y"]) simp

lemma find_month_correct:
  assumes "0 \<le> r" "r < sum_list ls"
  shows "find_month r ls = (m, r') \<Longrightarrow>
    0 \<le> m \<and> m < int (length ls) \<and> 0 \<le> r' \<and> r' < ls ! nat m \<and> r = sum_list (take (nat m) ls) + r'"
  using assms
proof (induction ls arbitrary: r m r')
  case (Cons l ls)
  show ?case
  proof (cases "r < l")
    case True
    with Cons.prems show ?thesis by simp
  next
    case False
    obtain m1 where m1: "find_month (r - l) ls = (m1, r')" and m: "m = m1 + 1"
      using Cons.prems(1) False by (auto split: prod.splits)
    have "0 \<le> m1 \<and> m1 < int (length ls) \<and> 0 \<le> r' \<and> r' < ls ! nat m1
        \<and> r - l = sum_list (take (nat m1) ls) + r'"
      using Cons.IH [OF m1] Cons.prems False by simp
    moreover from this have "nat m = Suc (nat m1)" unfolding m by (simp add: nat_add_distrib)
    ultimately show ?thesis unfolding m by simp
  qed
qed simp

lemma find_month_unique:
  assumes "0 \<le> r'" "n < length ls" "r' < ls ! n" "\<And>l. l \<in> set ls \<Longrightarrow> 0 < l"
  shows "find_month (sum_list (take n ls) + r') ls = (int n, r')"
  using assms
proof (induction ls arbitrary: n)
  case (Cons l ls)
  show ?case
  proof (cases n)
    case 0
    with Cons.prems show ?thesis by simp
  next
    case (Suc k)
    have "0 \<le> sum_list (take k ls)"
      by (rule sum_list_nonneg) (use Cons.prems(4) in \<open>auto dest: in_set_takeD intro: less_imp_le\<close>)
    with Cons.prems have "\<not> l + sum_list (take k ls) + r' < l" by simp
    moreover have "find_month (sum_list (take k ls) + r') ls = (int k, r')"
      using Cons.prems Suc by (intro Cons.IH) auto
    ultimately show ?thesis using Suc by (simp add: add.assoc)
  qed
qed simp

section \<open>Days and civil dates correspond\<close>

lemma civil_of_day:
  shows valid_civil_of_day: "valid_civil (YearFromDay d) (MonthFromDay d) (DateFromDay d)"
    and MakeDay_of_day [simp]: "MakeDay (YearFromDay d) (MonthFromDay d) (DateFromDay d) = d"
proof -
  define y where "y = YearFromDay d"
  obtain m r where mr: "find_month (d - DayFromYear y) (month_lengths (leap y)) = (m, r)"
    by fastforce
  have "0 \<le> d - DayFromYear y" "d - DayFromYear y < sum_list (month_lengths (leap y))"
    using YearFromDay_bounds [of d] DayFromYear_Suc [of y]
    unfolding sum_month_lengths y_def by simp_all
  from find_month_correct [OF this mr]
  have h: "0 \<le> m" "m < 12" "0 \<le> r" "r < days_in_month y m"
    "d - DayFromYear y = days_before_month (leap y) m + r"
    by (simp_all add: days_in_month_def days_before_month_def)
  have md: "MonthFromDay d = m" "DateFromDay d = r + 1"
    using mr by (simp_all add: MonthFromDay_def DateFromDay_def y_def Let_def)
  show "valid_civil (YearFromDay d) (MonthFromDay d) (DateFromDay d)"
    using h md by (simp add: valid_civil_def y_def)
  show "MakeDay (YearFromDay d) (MonthFromDay d) (DateFromDay d) = d"
    using h md by (simp add: MakeDay_def y_def Let_def)
qed

lemma days_before_month_bound:
  assumes "0 \<le> m" "m < 12"
  shows "0 \<le> days_before_month (leap y) m"
    "days_before_month (leap y) m + days_in_month y m \<le> DaysInYear y"
proof -
  have pos: "0 \<le> sum_list xs" if "set xs \<subseteq> set (month_lengths (leap y))" for xs
    by (rule sum_list_nonneg) (use that month_lengths_pos in force)
  show "0 \<le> days_before_month (leap y) m"
    unfolding days_before_month_def by (rule pos) (rule set_take_subset)
  have "nat m < length (month_lengths (leap y))" using assms by simp
  then have "month_lengths (leap y) = take (nat m) (month_lengths (leap y)) @
      month_lengths (leap y) ! nat m # drop (Suc (nat m)) (month_lengths (leap y))"
    by (simp add: id_take_nth_drop)
  then have "sum_list (month_lengths (leap y)) = days_before_month (leap y) m +
      days_in_month y m + sum_list (drop (Suc (nat m)) (month_lengths (leap y)))"
    unfolding days_before_month_def days_in_month_def
    by (metis (no_types, lifting) add.assoc sum_list.Cons sum_list.append)
  moreover have "0 \<le> sum_list (drop (Suc (nat m)) (month_lengths (leap y)))"
    by (rule pos) (rule set_drop_subset)
  ultimately show "days_before_month (leap y) m + days_in_month y m \<le> DaysInYear y"
    unfolding sum_month_lengths by linarith
qed

lemma civil_MakeDay:
  assumes "valid_civil y m dt"
  shows "YearFromDay (MakeDay y m dt) = y" "MonthFromDay (MakeDay y m dt) = m"
    "DateFromDay (MakeDay y m dt) = dt"
proof -
  from assms have m: "0 \<le> m" "m < 12" and dt: "1 \<le> dt" "dt \<le> days_in_month y m"
    by (simp_all add: valid_civil_def)
  have mk: "MakeDay y m dt = DayFromYear y + days_before_month (leap y) m + (dt - 1)"
    using m by (simp add: MakeDay_def Let_def)
  show y: "YearFromDay (MakeDay y m dt) = y"
    using days_before_month_bound [OF m, of y] dt
    by (intro YearFromDay_unique) (simp_all add: mk DayFromYear_Suc)
  have "find_month (days_before_month (leap y) m + (dt - 1)) (month_lengths (leap y))
      = (int (nat m), dt - 1)"
    unfolding days_before_month_def
    using m dt month_lengths_pos
    by (intro find_month_unique) (auto simp: days_in_month_def dest: month_lengths_pos)
  then show "MonthFromDay (MakeDay y m dt) = m" "DateFromDay (MakeDay y m dt) = dt"
    using m y by (simp_all add: MonthFromDay_def DateFromDay_def Let_def mk algebra_simps)
qed

lemmas civil_day_simps [cal_simps] = civil_MakeDay MakeDay_of_day valid_civil_of_day

lemma day_eqI:
  "YearFromDay a = YearFromDay b \<Longrightarrow> MonthFromDay a = MonthFromDay b \<Longrightarrow>
     DateFromDay a = DateFromDay b \<Longrightarrow> a = b"
  by (metis MakeDay_of_day)

lemma month_range: "0 \<le> MonthFromDay d" "MonthFromDay d < 12"
  and date_range: "1 \<le> DateFromDay d" "DateFromDay d \<le> 31"
  using valid_civil_of_day [of d] days_in_month_bounds [of "MonthFromDay d" "YearFromDay d"]
  by (auto simp: valid_civil_def)

section \<open>The order of days is the order of their dates\<close>

lemma days_before_month_Suc:
  assumes "0 \<le> m" "m < 12"
  shows "days_before_month (leap y) (m + 1) = days_before_month (leap y) m + days_in_month y m"
proof -
  have "nat (m + 1) = Suc (nat m)" "nat m < length (month_lengths (leap y))"
    using assms by (simp_all add: nat_add_distrib)
  then show ?thesis
    by (simp add: days_before_month_def days_in_month_def take_Suc_conv_app_nth)
qed

lemma days_before_month_mono:
  assumes "0 \<le> m" "m \<le> n" "n < 12"
  shows "days_before_month (leap y) m \<le> days_before_month (leap y) n"
  using assms(2,3)
proof (induction n rule: int_ge_induct)
  case (step n)
  then have "days_before_month (leap y) (n + 1) = days_before_month (leap y) n + days_in_month y n"
    using assms(1) by (intro days_before_month_Suc) simp_all
  moreover have "28 \<le> days_in_month y n"
    using step assms(1) days_in_month_bounds [of n y] by simp
  ultimately show ?case using step by simp
qed simp

lemma day_decomp:
  "d = DayFromYear (YearFromDay d) + days_before_month (leap (YearFromDay d)) (MonthFromDay d)
     + DateFromDay d - 1"
  using MakeDay_of_day [of d] month_range [of d] by (simp add: MakeDay_def Let_def)

lemma day_lessI_year: "YearFromDay a < YearFromDay b \<Longrightarrow> a < b"
  using YearFromDay_bounds [of a] YearFromDay_bounds [of b]
    DayFromYear_mono [of "YearFromDay a + 1" "YearFromDay b"] by linarith

lemma day_lessI_month:
  assumes "YearFromDay a = YearFromDay b" "MonthFromDay a < MonthFromDay b"
  shows "a < b"
proof -
  let ?y = "YearFromDay b"
  have "days_before_month (leap ?y) (MonthFromDay a) + days_in_month ?y (MonthFromDay a)
      \<le> days_before_month (leap ?y) (MonthFromDay b)"
    using days_before_month_mono [of "MonthFromDay a + 1" "MonthFromDay b" ?y] assms(2)
      month_range [of a] month_range [of b] by (simp add: days_before_month_Suc)
  moreover have "DateFromDay a \<le> days_in_month ?y (MonthFromDay a)"
    using valid_civil_of_day [of a] assms(1) by (simp add: valid_civil_def)
  ultimately show ?thesis
    using day_decomp [of a] day_decomp [of b] date_range [of b] assms(1) by simp
qed

lemma day_less_iff [cal_simps]:
  "a < b \<longleftrightarrow> YearFromDay a < YearFromDay b \<or> YearFromDay a = YearFromDay b \<and>
     (MonthFromDay a < MonthFromDay b \<or>
      MonthFromDay a = MonthFromDay b \<and> DateFromDay a < DateFromDay b)"
  (is "?l \<longleftrightarrow> ?r a b")
proof
  have imp: "c < d" if "?r c d" for c d
    using that day_lessI_year day_lessI_month day_decomp [of c] day_decomp [of d] by auto
  show "?r a b \<Longrightarrow> ?l" by (rule imp)
  show "?r a b" if ?l
  proof (rule ccontr)
    assume "\<not> ?r a b"
    then have "?r b a \<or> a = b" using day_eqI [of a b] by linarith
    with imp [of b a] that show False by linarith
  qed
qed

lemma YearFromDay_mono: "a \<le> b \<Longrightarrow> YearFromDay a \<le> YearFromDay b"
  using day_lessI_year [of b a] by linarith

section \<open>ISO strings\<close>

text \<open>\<open>date.toISOString().slice(0, 10)\<close> of the UTC midnight of a day.\<close>

definition iso_year :: "int \<Rightarrow> string" where
  "iso_year y =
     (if 0 \<le> y \<and> y \<le> 9999 then digs 4 (nat y)
      else (if y < 0 then CHR ''-'' else CHR ''+'') # digs 6 (nat \<bar>y\<bar>))"

definition toISODate :: "int \<Rightarrow> string" where
  "toISODate d =
     take 10 (iso_year (YearFromDay d) @ ''-'' @ digs 2 (nat (MonthFromDay d + 1)) @ ''-''
       @ digs 2 (nat (DateFromDay d)))"

text \<open>
  The date-only forms \<open>YYYY\<close>, \<open>YYYY-MM\<close> and \<open>YYYY-MM-DD\<close> of the Date Time String
  Format, with four-digit or signed six-digit years; what \<open>Date.parse\<close> reads before
  \<open>T00:00:00Z\<close>. \<^const>\<open>None\<close> is \<open>NaN\<close>: a string of another shape, an
  illegal element value, or a time value out of range.
\<close>

definition all_digits :: "string \<Rightarrow> bool" where
  "all_digits s = list_all is_digit s"

definition parse_year :: "string \<Rightarrow> int option" where
  "parse_year s =
     (case s of [] \<Rightarrow> None
      | c # ds \<Rightarrow>
          if length s = 4 \<and> all_digits s then Some (int (digits_val s))
          else if length s = 7 \<and> all_digits ds \<and> c = CHR ''+'' then Some (int (digits_val ds))
          else if length s = 7 \<and> all_digits ds \<and> c = CHR ''-'' \<and> digits_val ds \<noteq> 0
            then Some (- int (digits_val ds))
          else None)"

definition two_digits :: "string \<Rightarrow> int option" where
  "two_digits s = (if length s = 2 \<and> all_digits s then Some (int (digits_val s)) else None)"

definition parse_month_day :: "string \<Rightarrow> (int \<times> int) option" where
  "parse_month_day r =
     (if r = [] then Some (0, 1)
      else if length r = 3 \<and> hd r = CHR ''-''
        then map_option (\<lambda>m. (m - 1, 1)) (two_digits (drop 1 r))
      else if length r = 6 \<and> hd r = CHR ''-'' \<and> r ! 3 = CHR ''-''
        then (case (two_digits (slice 1 3 r), two_digits (drop 4 r)) of
                (Some m, Some dt) \<Rightarrow> Some (m - 1, dt) | _ \<Rightarrow> None)
      else None)"

definition parse_day :: "string \<Rightarrow> int option" where
  "parse_day s =
     (let k = (if s \<noteq> [] \<and> hd s \<in> {CHR ''+'', CHR ''-''} then 7 else 4)
      in case (parse_year (take k s), parse_month_day (drop k s)) of
           (Some y, Some (m, dt)) \<Rightarrow>
             if valid_civil y m dt \<and> \<bar>MakeDay y m dt\<bar> \<le> 100000000
             then Some (MakeDay y m dt) else None
         | _ \<Rightarrow> None)"

text \<open>A \<open>YYYY-MM-DD\<close> string of a real calendar day, and the day it names.\<close>

definition valid_iso :: "string \<Rightarrow> bool" where
  "valid_iso s = (case parse_day s of None \<Rightarrow> False
     | Some d \<Rightarrow> toISODate d = s \<and> 0 \<le> YearFromDay d \<and> YearFromDay d \<le> 9999)"

definition iso_day :: "string \<Rightarrow> int" where
  "iso_day s = (case parse_day s of None \<Rightarrow> 0 | Some d \<Rightarrow> d)"

abbreviation four_digit_year :: "int \<Rightarrow> bool" where
  "four_digit_year d \<equiv> 0 \<le> YearFromDay d \<and> YearFromDay d \<le> 9999"

lemma nat_bounds_of_day:
  "nat (MonthFromDay d + 1) < 100" "nat (DateFromDay d) < 100"
  using month_range [of d] date_range [of d] by simp_all

lemma toISODate_eq:
  assumes "four_digit_year d"
  shows "toISODate d = digs 4 (nat (YearFromDay d)) @ ''-'' @ digs 2 (nat (MonthFromDay d + 1))
    @ ''-'' @ digs 2 (nat (DateFromDay d))"
  using assms by (simp add: toISODate_def iso_year_def)

lemma length_toISODate: "four_digit_year d \<Longrightarrow> length (toISODate d) = 10"
  by (simp add: toISODate_eq)

lemma toISODate_less_iff [iso_simps]:
  assumes "four_digit_year a" "four_digit_year b"
  shows "toISODate a < toISODate b \<longleftrightarrow> a < b"
proof -
  have n: "nat (YearFromDay a) < 10 ^ 4" "nat (YearFromDay b) < 10 ^ 4"
    using assms by auto
  note m = nat_bounds_of_day [of a] nat_bounds_of_day [of b] month_range [of a] month_range [of b]
    date_range [of a] date_range [of b]
  have "toISODate a < toISODate b \<longleftrightarrow>
      nat (YearFromDay a) < nat (YearFromDay b) \<or> nat (YearFromDay a) = nat (YearFromDay b) \<and>
      (nat (MonthFromDay a + 1) < nat (MonthFromDay b + 1) \<or>
       nat (MonthFromDay a + 1) = nat (MonthFromDay b + 1) \<and> nat (DateFromDay a) < nat (DateFromDay b))"
    unfolding toISODate_eq [OF assms(1)] toISODate_eq [OF assms(2)]
    using n m digs_less_iff [of _ 2] digs_inject [of _ 2]
    by (simp add: append_less_append digs_less_iff digs_inject)
  also have "\<dots> \<longleftrightarrow> a < b"
    unfolding day_less_iff [of a b] using assms m by auto
  finally show ?thesis .
qed

lemma toISODate_inject [iso_simps]:
  "four_digit_year a \<Longrightarrow> four_digit_year b \<Longrightarrow> toISODate a = toISODate b \<longleftrightarrow> a = b"
  using toISODate_less_iff [of a b] toISODate_less_iff [of b a] by (metis linorder_neq_iff)

lemma toISODate_le_iff [iso_simps]:
  "four_digit_year a \<Longrightarrow> four_digit_year b \<Longrightarrow> toISODate a \<le> toISODate b \<longleftrightarrow> a \<le> b"
  using toISODate_less_iff [of b a] by (simp add: linorder_not_less [symmetric])

lemma all_digits_digs [simp]: "all_digits (digs k n)"
  by (simp add: all_digits_def list_all_iff digs_digits)

lemma two_digits_digs: "n < 100 \<Longrightarrow> two_digits (digs 2 n) = Some (int n)"
  by (simp add: two_digits_def digits_val_digs)

lemma parse_year_digs: "n < 10000 \<Longrightarrow> parse_year (digs 4 n) = Some (int n)"
proof -
  assume n: "n < 10000"
  obtain c ds where eq: "digs 4 n = c # ds"
    by (cases "digs 4 n") (use length_digs [of 4 n] in auto)
  have "length (c # ds) = 4" "all_digits (c # ds)" "digits_val (c # ds) = n"
    using n digits_val_digs [of 4 n] unfolding eq [symmetric] by simp_all
  then show ?thesis unfolding parse_year_def eq by simp
qed

lemma hd_digs_4: "hd (digs 4 n) \<notin> {CHR ''+'', CHR ''-''}"
proof -
  have "is_digit (hd (digs 4 n))"
    by (rule digs_digits [of _ 4 n]) (simp add: digs_4)
  then show ?thesis by (auto simp: is_digit_def less_eq_char_def)
qed

lemma four_digit_year_bound: "four_digit_year d \<Longrightarrow> \<bar>d\<bar> \<le> 100000000"
proof -
  assume h: "four_digit_year d"
  have "DayFromYear 0 \<le> d" "d < DayFromYear 10000"
    using YearFromDay_bounds [of d] h DayFromYear_mono [of 0 "YearFromDay d"]
      DayFromYear_mono [of "YearFromDay d + 1" 10000] by simp_all
  then show ?thesis by (simp add: DayFromYear_def)
qed

lemma parse_day_toISODate [simp, iso_simps]:
  assumes "four_digit_year d"
  shows "parse_day (toISODate d) = Some d"
proof -
  let ?y = "digs 4 (nat (YearFromDay d))" and ?m = "digs 2 (nat (MonthFromDay d + 1))"
    and ?d = "digs 2 (nat (DateFromDay d))"
  let ?r = "CHR ''-'' # ?m @ CHR ''-'' # ?d"
  have eq: "toISODate d = ?y @ ?r" using toISODate_eq [OF assms] by simp
  have hd: "hd (toISODate d) \<notin> {CHR ''+'', CHR ''-''}"
    unfolding eq using hd_digs_4 [of "nat (YearFromDay d)"] by (simp add: digs_4)
  have y: "parse_year ?y = Some (YearFromDay d)"
    using assms by (subst parse_year_digs) auto
  have "slice 1 3 ?r = ?m" "drop 4 ?r = ?d" "?r ! 3 = CHR ''-''" "length ?r = 6"
    by (simp_all add: slice_def nth_append digs_2)
  then have md: "parse_month_day ?r = Some (MonthFromDay d, DateFromDay d)"
    using nat_bounds_of_day [of d] month_range [of d] date_range [of d]
    by (simp add: parse_month_day_def two_digits_digs)
  show ?thesis
    using hd y md four_digit_year_bound [OF assms] valid_civil_of_day [of d]
    unfolding parse_day_def eq by (simp add: Let_def)
qed

lemma valid_iso_toISODate [simp, iso_simps]: "four_digit_year d \<Longrightarrow> valid_iso (toISODate d)"
  and iso_day_toISODate [simp, iso_simps]: "four_digit_year d \<Longrightarrow> iso_day (toISODate d) = d"
  by (simp_all add: valid_iso_def iso_day_def)

lemma valid_isoE:
  assumes "valid_iso s"
  obtains d where "four_digit_year d" "s = toISODate d" "parse_day s = Some d" "iso_day s = d"
  using assms by (auto simp: valid_iso_def iso_day_def split: option.splits)

lemma toISODate_iso_day [simp]: "valid_iso s \<Longrightarrow> toISODate (iso_day s) = s"
  and parse_day_valid: "valid_iso s \<Longrightarrow> parse_day s = Some (iso_day s)"
  and four_digit_year_iso_day: "valid_iso s \<Longrightarrow> four_digit_year (iso_day s)"
  by (auto elim: valid_isoE)

lemma iso_less_iff [iso_simps]:
  "valid_iso a \<Longrightarrow> valid_iso b \<Longrightarrow> a < b \<longleftrightarrow> iso_day a < iso_day b"
  by (auto elim!: valid_isoE simp: toISODate_less_iff)

lemma iso_le_iff [iso_simps]:
  "valid_iso a \<Longrightarrow> valid_iso b \<Longrightarrow> a \<le> b \<longleftrightarrow> iso_day a \<le> iso_day b"
  by (auto elim!: valid_isoE simp: toISODate_le_iff)

lemma iso_eq_iff [iso_simps]:
  "valid_iso a \<Longrightarrow> valid_iso b \<Longrightarrow> a = b \<longleftrightarrow> iso_day a = iso_day b"
  by (metis toISODate_iso_day)

lemma valid_iso_not_Nil: "valid_iso s \<Longrightarrow> s \<noteq> []"
  by (metis four_digit_year_iso_day length_toISODate list.size(3) toISODate_iso_day zero_neq_numeral)

section \<open>Months counted from year 0\<close>

definition month_index :: "int \<Rightarrow> int" where
  "month_index d = 12 * YearFromDay d + MonthFromDay d"

definition month_day :: "int \<Rightarrow> int" where
  "month_day i = MakeDay (i div 12) (i mod 12) 1"

lemma MakeDay_month_day: "MakeDay y m dt = month_day (12 * y + m) + dt - 1"
  by (simp add: month_day_def MakeDay_def Let_def)

lemma valid_civil_first: "0 \<le> m \<Longrightarrow> m < 12 \<Longrightarrow> valid_civil y m 1"
  using days_in_month_bounds [of m y] by (simp add: valid_civil_def)

lemma civil_month_day [simp, cal_simps]:
  "YearFromDay (month_day i) = i div 12" "MonthFromDay (month_day i) = i mod 12"
  "DateFromDay (month_day i) = 1"
  unfolding month_day_def by (simp_all add: civil_MakeDay valid_civil_first)

lemma month_index_month_day [simp, cal_simps]: "month_index (month_day i) = i"
  by (simp add: month_index_def)

lemma month_index_mono: "a \<le> b \<Longrightarrow> month_index a \<le> month_index b"
  using day_less_iff [of b a] month_range [of a] month_range [of b]
  unfolding month_index_def by linarith

lemma month_day_of_day: "d = month_day (month_index d) + DateFromDay d - 1"
  using MakeDay_month_day [of "YearFromDay d" "MonthFromDay d" "DateFromDay d"]
  by (simp add: month_index_def)

lemma month_day_le_iff [cal_simps]: "month_day i \<le> d \<longleftrightarrow> i \<le> month_index d"
proof
  show "i \<le> month_index d" if "month_day i \<le> d"
    using month_index_mono [OF that] by simp
  have mono: "month_day i \<le> month_day j" if "i \<le> j" for i j
    using that by (metis antisym linear month_index_month_day month_index_mono)
  show "month_day i \<le> d" if "i \<le> month_index d"
    using mono [OF that] month_day_of_day [of d] date_range [of d] by linarith
qed

lemma less_month_day_iff [cal_simps]: "d < month_day i \<longleftrightarrow> month_index d < i"
  using month_day_le_iff [of i d] by linarith

lemma month_day_less_iff [simp, cal_simps]: "month_day i < month_day j \<longleftrightarrow> i < j"
  by (simp add: less_month_day_iff)

lemma month_day_inject [simp, cal_simps]: "month_day i = month_day j \<longleftrightarrow> i = j"
  by (metis month_index_month_day)

lemma YearFromDay_month_index: "YearFromDay d = month_index d div 12"
  and MonthFromDay_month_index: "MonthFromDay d = month_index d mod 12"
  using month_range [of d] by (simp_all add: month_index_def)

lemma month_index_year_bounds:
  "12 * YearFromDay d \<le> month_index d" "month_index d \<le> 12 * YearFromDay d + 11"
  using month_range [of d] by (simp_all add: month_index_def)

end
