(* ===== verification/Dates.thy ===== *)
theory Dates
  imports Calendar
begin

text \<open>
  \<open>frontend/src/lib/dates.ts\<close> and \<open>dateRangePresets.ts\<close>. A JavaScript \<open>Date\<close> built
  from a civil date is a day number, or \<^const>\<open>None\<close> for an invalid date, whose getters
  return \<open>NaN\<close>; an instant is a number of milliseconds since the epoch. The clock
  (\<open>new Date()\<close>) is an argument, and so is the offset of the business time zone
  \<open>Europe/Zurich\<close>, which the code reads from the time zone database through \<open>Intl\<close>.
\<close>

type_synonym js_date = "int option"
type_synonym instant = int

abbreviation day_ms :: int where
  "day_ms \<equiv> 86400000"

section \<open>Constructing and printing dates\<close>

text \<open>\<open>new Date(year, month, date)\<close>, with the specification's bound on time values.\<close>

definition mk_date :: "int \<Rightarrow> int \<Rightarrow> int \<Rightarrow> js_date" where
  "mk_date y m dt = (if \<bar>date_of y m dt\<bar> \<le> 100000000 then Some (date_of y m dt) else None)"

text \<open>\<open>new Date(`${isoDate}T00:00:00`)\<close>.\<close>

definition local_date :: "string \<Rightarrow> js_date" where
  "local_date isoDate = parse_day isoDate"

definition formatIsoDate :: "js_date \<Rightarrow> string" where
  "formatIsoDate date =
     (case date of
        None \<Rightarrow> ''NaN-NaN-NaN''
      | Some d \<Rightarrow>
          int_str (YearFromDay d) @ ''-'' @ padStart 2 (CHR ''0'') (int_str (MonthFromDay d + 1))
          @ ''-'' @ padStart 2 (CHR ''0'') (int_str (DateFromDay d)))"

text \<open>The UTC getters of an instant read the day its milliseconds fall in.\<close>

definition formatUtcIsoDate :: "instant \<Rightarrow> string" where
  "formatUtcIsoDate t =
     (let d = t div day_ms
      in int_str (YearFromDay d) @ ''-'' @ padStart 2 (CHR ''0'') (int_str (MonthFromDay d + 1))
         @ ''-'' @ padStart 2 (CHR ''0'') (int_str (DateFromDay d)))"

text \<open>\<open>Date.parse(`${isoDate}T00:00:00Z`)\<close>.\<close>

definition utc_midnight :: "string \<Rightarrow> instant option" where
  "utc_midnight isoDate = map_option (\<lambda>d. d * day_ms) (parse_day isoDate)"

definition nextIsoDate :: "string \<Rightarrow> string" where
  "nextIsoDate isoDate =
     (case utc_midnight isoDate of
        None \<Rightarrow> ''NaN-NaN-NaN''
      | Some t \<Rightarrow> formatUtcIsoDate (t + day_ms))"

definition daysInPeriod :: "string \<Rightarrow> string \<Rightarrow> int" where
  "daysInPeriod frm til =
     (if frm = [] \<or> til = [] then 0
      else case (utc_midnight frm, utc_midnight til) of
             (Some f, Some t) \<Rightarrow> (t - f) div day_ms + 1
           | _ \<Rightarrow> 0)"

section \<open>The business time zone\<close>

record ZonedParts =
  zp_year :: int
  zp_month :: int
  zp_day :: int
  zp_hours :: int
  zp_minutes :: int

text \<open>\<open>off t\<close> is how far Swiss wall-clock time is ahead of UTC at the instant \<open>t\<close>, in ms.\<close>

definition zonedParts :: "(instant \<Rightarrow> int) \<Rightarrow> instant \<Rightarrow> ZonedParts" where
  "zonedParts off t =
     (let w = t + off t; d = w div day_ms; r = w mod day_ms
      in \<lparr>zp_year = YearFromDay d, zp_month = MonthFromDay d + 1, zp_day = DateFromDay d,
          zp_hours = r div 3600000, zp_minutes = r mod 3600000 div 60000\<rparr>)"

definition formatBusinessIsoDate :: "(instant \<Rightarrow> int) \<Rightarrow> instant \<Rightarrow> string" where
  "formatBusinessIsoDate off t =
     (let p = zonedParts off t
      in int_str (zp_year p) @ ''-'' @ padStart 2 (CHR ''0'') (int_str (zp_month p))
         @ ''-'' @ padStart 2 (CHR ''0'') (int_str (zp_day p)))"

definition businessOffsetMs :: "(instant \<Rightarrow> int) \<Rightarrow> instant \<Rightarrow> int" where
  "businessOffsetMs off t =
     (let p = zonedParts off t;
          wall = date_of (zp_year p) (zp_month p - 1) (zp_day p) * day_ms
                 + zp_hours p * 3600000 + zp_minutes p * 60000
      in wall - t div 60000 * 60000)"

definition businessDayStartMs :: "(instant \<Rightarrow> int) \<Rightarrow> string \<Rightarrow> instant option" where
  "businessDayStartMs off isoDate =
     (case utc_midnight isoDate of
        None \<Rightarrow> None
      | Some utcMidnight \<Rightarrow>
          let estimate = utcMidnight - businessOffsetMs off utcMidnight
          in Some (utcMidnight - businessOffsetMs off estimate))"

definition todayBusinessIso :: "(instant \<Rightarrow> int) \<Rightarrow> instant \<Rightarrow> string" where
  "todayBusinessIso off now = formatBusinessIsoDate off now"

section \<open>Quick ranges\<close>

datatype QuickRangePreset = this_month | last_month | this_quarter | last_quarter | this_year | last_year

text \<open>\<open>today\<close> is the local civil day of the clock.\<close>

fun quickRangeToDates :: "int \<Rightarrow> QuickRangePreset \<Rightarrow> string \<times> string" where
  "quickRangeToDates today this_month =
     (formatIsoDate (mk_date (YearFromDay today) (MonthFromDay today) 1), formatIsoDate (Some today))"
| "quickRangeToDates today last_month =
     (formatIsoDate (mk_date (YearFromDay today) (MonthFromDay today - 1) 1),
      formatIsoDate (mk_date (YearFromDay today) (MonthFromDay today) 0))"
| "quickRangeToDates today this_quarter =
     (formatIsoDate (mk_date (YearFromDay today) (MonthFromDay today div 3 * 3) 1),
      formatIsoDate (Some today))"
| "quickRangeToDates today last_quarter =
     (formatIsoDate (mk_date (YearFromDay today) (MonthFromDay today div 3 * 3 - 3) 1),
      formatIsoDate (mk_date (YearFromDay today) (MonthFromDay today div 3 * 3) 0))"
| "quickRangeToDates today this_year =
     (formatIsoDate (mk_date (YearFromDay today) 0 1), formatIsoDate (Some today))"
| "quickRangeToDates today last_year =
     (formatIsoDate (mk_date (YearFromDay today - 1) 0 1),
      formatIsoDate (mk_date (YearFromDay today - 1) 11 31))"

section \<open>Printing agrees with the ISO form\<close>

text \<open>
  \<open>formatIsoDate\<close> does not pad the year, so it prints the ISO form exactly for the years
  1000 to 9999; \<open>padded_year\<close> names that range.
\<close>

abbreviation padded_year :: "int \<Rightarrow> bool" where
  "padded_year d \<equiv> 1000 \<le> YearFromDay d \<and> YearFromDay d \<le> 9999"

lemma print_fields:
  assumes "padded_year d"
  shows "int_str (YearFromDay d) @ ''-'' @ padStart 2 (CHR ''0'') (int_str (MonthFromDay d + 1))
     @ ''-'' @ padStart 2 (CHR ''0'') (int_str (DateFromDay d)) = toISODate d"
proof -
  have "int_str (YearFromDay d) = digs 4 (nat (YearFromDay d))"
    using assms nat_str_4 [of "nat (YearFromDay d)"] by auto
  moreover have "padStart 2 (CHR ''0'') (int_str (MonthFromDay d + 1)) = digs 2 (nat (MonthFromDay d + 1))"
    "padStart 2 (CHR ''0'') (int_str (DateFromDay d)) = digs 2 (nat (DateFromDay d))"
    using month_range [of d] date_range [of d] nat_bounds_of_day [of d] by (simp_all add: padStart_2)
  ultimately show ?thesis using assms by (simp add: toISODate_eq)
qed

lemma formatIsoDate_Some [iso_simps]: "padded_year d \<Longrightarrow> formatIsoDate (Some d) = toISODate d"
  unfolding formatIsoDate_def option.case by (rule print_fields)

lemma formatUtcIsoDate_eq [iso_simps]:
  "padded_year (t div day_ms) \<Longrightarrow> formatUtcIsoDate t = toISODate (t div day_ms)"
  unfolding formatUtcIsoDate_def Let_def by (rule print_fields)

lemma formatBusinessIsoDate_eq [iso_simps]:
  "padded_year ((t + off t) div day_ms) \<Longrightarrow>
     formatBusinessIsoDate off t = toISODate ((t + off t) div day_ms)"
  unfolding formatBusinessIsoDate_def zonedParts_def Let_def using print_fields by simp

lemma padded_imp_four: "padded_year d \<Longrightarrow> four_digit_year d"
  by simp

lemma mk_date_month_day:
  assumes "100 \<le> y" "y \<le> 9999" "-1200 \<le> m" "m \<le> 1200" "-1000 \<le> dt" "dt \<le> 1000"
  shows "mk_date y m dt = Some (month_day (12 * y + m) + dt - 1)"
proof -
  have eq: "date_of y m dt = month_day (12 * y + m) + dt - 1"
    using assms by (simp add: date_of_def full_year_def MakeDay_month_day)
  have "month_day 0 \<le> month_day (12 * y + m)" "month_day (12 * y + m) \<le> month_day 140000"
    using assms by (simp_all add: month_day_le_iff)
  moreover have "month_day 0 = - 719528" "month_day 140000 = 3541635" by code_simp+
  ultimately show ?thesis using assms unfolding mk_date_def eq by simp
qed

lemma nextIsoDate_valid [iso_simps]:
  assumes "valid_iso isoDate" "padded_year (iso_day isoDate + 1)"
  shows "nextIsoDate isoDate = toISODate (iso_day isoDate + 1)"
proof -
  have e: "(iso_day isoDate * day_ms + day_ms) div day_ms = iso_day isoDate + 1" by simp
  then have "formatUtcIsoDate (iso_day isoDate * day_ms + day_ms) = toISODate (iso_day isoDate + 1)"
    using assms(2) formatUtcIsoDate_eq [of "iso_day isoDate * day_ms + day_ms"] by simp
  then show ?thesis
    unfolding nextIsoDate_def utc_midnight_def parse_day_valid [OF assms(1)] by simp
qed

lemma daysInPeriod_valid:
  "valid_iso a \<Longrightarrow> valid_iso b \<Longrightarrow> daysInPeriod a b = iso_day b - iso_day a + 1"
proof -
  assume a: "valid_iso a" and b: "valid_iso b"
  have "iso_day b * day_ms - iso_day a * day_ms = (iso_day b - iso_day a) * day_ms"
    by (rule left_diff_distrib [symmetric])
  then have "(iso_day b * day_ms - iso_day a * day_ms) div day_ms = iso_day b - iso_day a"
    by simp
  then show ?thesis
    unfolding daysInPeriod_def utc_midnight_def parse_day_valid [OF a] parse_day_valid [OF b]
    using valid_iso_not_Nil [OF a] valid_iso_not_Nil [OF b] by (simp only: option.map prod.case option.case if_False simp_thms)
qed

end
