(* ===== verification/Billing_Period.thy ===== *)
theory Billing_Period
  imports Dates
begin

text \<open>
  \<open>frontend/src/lib/billingPeriod.ts\<close>: the whole months, quarters, half-years and years an
  energy community is billed in. The abstract view is a grid of intervals (\<open>period_grid\<close>)
  that tiles the calendar; the functions of the source are shown to compute its cells, step
  along it and enumerate it. Dates are local civil days (theory Dates), the clock is an
  argument \<open>today\<close>.
\<close>

section \<open>Model of the source\<close>

datatype BillingInterval = monthly | quarterly | semi_annual | annual

record BillingRange =
  range_from :: string
  range_to :: string

definition mk_range :: "js_date \<Rightarrow> js_date \<Rightarrow> BillingRange" where
  "mk_range a b = \<lparr>range_from = formatIsoDate a, range_to = formatIsoDate b\<rparr>"

text \<open>The conditional that turns an interval into months, as it occurs in several functions.\<close>

definition interval_months :: "BillingInterval \<Rightarrow> int" where
  "interval_months interval =
     (if interval = monthly then 1 else if interval = quarterly then 3
      else if interval = semi_annual then 6 else 12)"

definition startOfBillingPeriod :: "js_date \<Rightarrow> BillingInterval \<Rightarrow> js_date" where
  "startOfBillingPeriod today interval =
     Option.bind today (\<lambda>d.
       let year = YearFromDay d; month = MonthFromDay d
       in if interval = monthly then mk_date year month 1
          else if interval = quarterly then mk_date year (month div 3 * 3) 1
          else if interval = semi_annual then mk_date year (if month < 6 then 0 else 6) 1
          else mk_date year 0 1)"

definition endOfBillingPeriod :: "js_date \<Rightarrow> BillingInterval \<Rightarrow> js_date" where
  "endOfBillingPeriod start interval =
     Option.bind start (\<lambda>s.
       Option.bind (mk_date (YearFromDay s) (MonthFromDay s + interval_months interval) 1) (\<lambda>nextStart.
         mk_date (YearFromDay nextStart) (MonthFromDay nextStart) 0))"

definition getCurrentBillingPeriod :: "js_date \<Rightarrow> BillingInterval \<Rightarrow> BillingRange" where
  "getCurrentBillingPeriod today interval =
     (let start = startOfBillingPeriod today interval
      in mk_range start (endOfBillingPeriod start interval))"

definition ISO_DAY :: "string \<Rightarrow> bool" where
  "ISO_DAY s \<longleftrightarrow> length s = 10 \<and> all_digits (take 4 s) \<and> s ! 4 = CHR ''-'' \<and>
     all_digits (slice 5 7 s) \<and> s ! 7 = CHR ''-'' \<and> all_digits (slice 8 10 s)"

definition isValidIsoDay :: "string \<Rightarrow> bool" where
  "isValidIsoDay s =
     (ISO_DAY s \<and>
      (case map (\<lambda>p. int (digits_val p)) (split_on (CHR ''-'') s) of
         [year, month, day] \<Rightarrow>
           (let check = date_of year (month - 1) day
            in YearFromDay check = year \<and> MonthFromDay check = month - 1 \<and> DateFromDay check = day)
       | _ \<Rightarrow> False))"

definition billingRangeFromParams :: "string option \<Rightarrow> string option \<Rightarrow> BillingRange option" where
  "billingRangeFromParams fromIso toIso =
     (case (fromIso, toIso) of
        (Some f, Some t) \<Rightarrow>
          if f = [] \<or> t = [] \<or> \<not> isValidIsoDay f \<or> \<not> isValidIsoDay t then None
          else if f > t then None
          else Some \<lparr>range_from = f, range_to = t\<rparr>
      | _ \<Rightarrow> None)"

definition invoiceRangeFromParams ::
    "string option \<Rightarrow> string option \<Rightarrow> string option \<Rightarrow> BillingRange option" where
  "invoiceRangeFromParams fromIso toIso communityStartIso =
     (case billingRangeFromParams fromIso toIso of
        None \<Rightarrow> None
      | Some rng \<Rightarrow>
          if truthy communityStartIso \<and> range_from rng < nullish communityStartIso [] then None
          else Some rng)"

definition shiftBillingPeriod :: "string \<Rightarrow> BillingInterval \<Rightarrow> int \<Rightarrow> BillingRange" where
  "shiftBillingPeriod fromIso interval direction =
     (let shiftedStart = Option.bind (local_date fromIso) (\<lambda>fromDate.
            mk_date (YearFromDay fromDate) (MonthFromDay fromDate + interval_months interval * direction) 1)
      in mk_range shiftedStart (endOfBillingPeriod shiftedStart interval))"

text \<open>The loop of \<open>recentBillingPeriods\<close>: \<open>count\<close> (here \<open>cnt\<close>) more periods after the last one.\<close>

fun push_previous :: "BillingInterval \<Rightarrow> nat \<Rightarrow> BillingRange list \<Rightarrow> BillingRange list" where
  "push_previous interval 0 periods = periods"
| "push_previous interval (Suc i) periods =
     push_previous interval i
       (periods @ [shiftBillingPeriod (range_from (last periods)) interval (- 1)])"

definition recentBillingPeriods ::
    "js_date \<Rightarrow> BillingInterval \<Rightarrow> nat \<Rightarrow> string option \<Rightarrow> BillingRange list" where
  "recentBillingPeriods today interval cnt minFrom =
     filter (\<lambda>rng. \<not> truthy minFrom \<or> range_from rng \<ge> nullish minFrom [])
       (push_previous interval cnt [getCurrentBillingPeriod today interval])"

definition isBillingAlignedPeriod :: "string \<Rightarrow> string \<Rightarrow> BillingInterval \<Rightarrow> bool" where
  "isBillingAlignedPeriod frm til interval =
     (if frm = [] \<or> til = [] then False
      else let start = startOfBillingPeriod (local_date frm) interval
           in formatIsoDate start = frm \<and> formatIsoDate (endOfBillingPeriod start interval) = til)"

definition adjacentBillingPeriod :: "string \<Rightarrow> BillingInterval \<Rightarrow> int \<Rightarrow> BillingRange" where
  "adjacentBillingPeriod fromIso interval direction =
     (let containing = formatIsoDate (startOfBillingPeriod (local_date fromIso) interval)
      in if direction = - 1 \<and> containing < fromIso
         then \<lparr>range_from = containing,
               range_to = formatIsoDate (endOfBillingPeriod (local_date containing) interval)\<rparr>
         else shiftBillingPeriod containing interval direction)"

text \<open>The \<open>while\<close> loop of \<open>billingPeriodsOfYear\<close>; \<^const>\<open>None\<close> is a run that never ends.\<close>

partial_function (option) periods_loop ::
    "string \<Rightarrow> BillingInterval \<Rightarrow> string \<Rightarrow> BillingRange list \<Rightarrow> BillingRange list option" where
  "periods_loop fromIso interval start periods =
     (if slice 0 4 start = slice 0 4 fromIso
      then periods_loop fromIso interval (range_from (shiftBillingPeriod start interval 1))
             (periods @ [\<lparr>range_from = start,
                range_to = formatIsoDate (endOfBillingPeriod (local_date start) interval)\<rparr>])
      else Some periods)"

definition billingPeriodsOfYear :: "string \<Rightarrow> BillingInterval \<Rightarrow> BillingRange list option" where
  "billingPeriodsOfYear fromIso interval =
     periods_loop fromIso interval (slice 0 4 fromIso @ ''-01-01'') []"

definition firstAlignedBillingPeriod :: "string option \<Rightarrow> BillingInterval \<Rightarrow> BillingRange option" where
  "firstAlignedBillingPeriod startIso interval =
     (case startIso of
        None \<Rightarrow> None
      | Some s \<Rightarrow>
          if s = [] \<or> \<not> isValidIsoDay s then None
          else
            (let step = interval_months interval;
                 firstStart = Option.bind (local_date s) (\<lambda>start.
                   let monthIndex = YearFromDay start * 12 + MonthFromDay start - MonthFromDay start mod step
                   in Option.bind (mk_date (monthIndex div 12) (monthIndex mod 12) 1) (\<lambda>containing.
                        if DateFromDay start = 1 \<and> MonthFromDay start mod step = 0
                        then Some containing
                        else mk_date (YearFromDay containing) (MonthFromDay containing + step) 1))
             in Some (mk_range firstStart (endOfBillingPeriod firstStart interval))))"

definition getPreviousBillingPeriod :: "js_date \<Rightarrow> BillingInterval \<Rightarrow> BillingRange" where
  "getPreviousBillingPeriod today interval =
     shiftBillingPeriod (formatIsoDate (startOfBillingPeriod today interval)) interval (- 1)"

definition alignedPeriodEndingWith :: "BillingRange \<Rightarrow> BillingInterval \<Rightarrow> BillingRange" where
  "alignedPeriodEndingWith rng interval =
     (let start = startOfBillingPeriod (local_date (range_to rng)) interval
      in mk_range start (endOfBillingPeriod start interval))"

section \<open>A grid of periods\<close>

text \<open>
  A tiling of the integers by intervals: \<open>start k\<close> is the first day of the cell \<open>k\<close>,
  \<open>cell d\<close> the cell of the day \<open>d\<close>.
\<close>

locale period_grid =
  fixes start :: "int \<Rightarrow> int" and cell :: "int \<Rightarrow> int"
  assumes start_le_iff: "start k \<le> d \<longleftrightarrow> k \<le> cell d"
    and cell_start [simp]: "cell (start k) = k"
begin

lemma less_start_iff: "d < start k \<longleftrightarrow> cell d < k"
  using start_le_iff [of k d] by linarith

lemma cell_bounds: "start (cell d) \<le> d" "d < start (cell d + 1)"
  by (simp_all add: start_le_iff less_start_iff)

lemma cell_unique: "start k \<le> d \<Longrightarrow> d < start (k + 1) \<Longrightarrow> cell d = k"
  by (simp add: start_le_iff less_start_iff)

lemma start_less_iff [simp]: "start k < start l \<longleftrightarrow> k < l"
  by (simp add: less_start_iff)

lemma start_inject [simp]: "start k = start l \<longleftrightarrow> k = l"
  by (metis cell_start)

lemma cell_last: "cell (start (k + 1) - 1) = k"
  by (rule cell_unique) (use start_less_iff [of k "k + 1"] in linarith)+

text \<open>The cell after \<open>d\<close>, the last one to start before \<open>d\<close> and the first to start no earlier.\<close>

lemma next_start: "d < start (cell d + 1)" "d < start k \<Longrightarrow> start (cell d + 1) \<le> start k"
  by (simp_all add: less_start_iff start_le_iff)

lemma previous_start:
  defines "p \<equiv> \<lambda>d. if start (cell d) < d then cell d else cell d - 1"
  shows "start (p d) < d" "start k < d \<Longrightarrow> start k \<le> start (p d)"
proof -
  have b: "start (cell d) \<le> d" by (rule cell_bounds)
  show "start (p d) < d"
    using b start_less_iff [of "cell d - 1" "cell d"] unfolding p_def by (cases "start (cell d) < d") auto
  show "start k \<le> start (p d)" if "start k < d"
  proof -
    have "k \<le> cell d" using that start_le_iff [of k d] by simp
    moreover have "k \<noteq> cell d" if "\<not> start (cell d) < d" using \<open>start k < d\<close> that by auto
    ultimately show ?thesis unfolding p_def by (auto simp: start_le_iff)
  qed
qed

lemma first_start:
  defines "f \<equiv> \<lambda>d. if start (cell d) = d then cell d else cell d + 1"
  shows "d \<le> start (f d)" "d \<le> start k \<Longrightarrow> start (f d) \<le> start k"
proof -
  show "d \<le> start (f d)" using cell_bounds [of d] unfolding f_def by simp
  show "start (f d) \<le> start k" if "d \<le> start k"
  proof (cases "start (cell d) = d")
    case True
    with that show ?thesis unfolding f_def by simp
  next
    case False
    have "d \<noteq> start k" using False by (metis cell_start)
    with that have "d < start k" by simp
    with False show ?thesis unfolding f_def by (simp add: next_start)
  qed
qed

end

section \<open>The billing periods are such a grid\<close>

definition pstart :: "BillingInterval \<Rightarrow> int \<Rightarrow> int" where
  "pstart iv k = month_day (interval_months iv * k)"

definition pcell :: "BillingInterval \<Rightarrow> int \<Rightarrow> int" where
  "pcell iv d = month_index d div interval_months iv"

lemma interval_months_cases:
  "interval_months iv = 1 \<or> interval_months iv = 3 \<or> interval_months iv = 6 \<or> interval_months iv = 12"
  by (cases iv) (simp_all add: interval_months_def)

lemma interval_months_bounds: "0 < interval_months iv" "interval_months iv \<le> 12"
  using interval_months_cases [of iv] by auto

lemma mult_le_iff_le_div:
  assumes "0 < (s::int)"
  shows "s * k \<le> i \<longleftrightarrow> k \<le> i div s"
proof
  show "k \<le> i div s" if "s * k \<le> i"
    using zdiv_mono1 [OF that assms] assms by simp
  show "s * k \<le> i" if "k \<le> i div s"
    using mult_left_mono [OF that, of s] floor_div(1) [OF assms, of i] assms by linarith
qed

interpretation grid: period_grid "pstart iv" "pcell iv" for iv
proof
  show "pstart iv k \<le> d \<longleftrightarrow> k \<le> pcell iv d" for k d
    using interval_months_bounds [of iv]
    by (simp add: pstart_def pcell_def month_day_le_iff mult_le_iff_le_div)
  show "pcell iv (pstart iv k) = k" for k
    using interval_months_bounds [of iv] by (simp add: pstart_def pcell_def)
qed

text \<open>The range that spells out a cell.\<close>

definition period_range :: "BillingInterval \<Rightarrow> int \<Rightarrow> BillingRange" where
  "period_range iv k =
     \<lparr>range_from = toISODate (pstart iv k), range_to = toISODate (pstart iv (k + 1) - 1)\<rparr>"

lemma month_index_pstart [simp]: "month_index (pstart iv k) = interval_months iv * k"
  by (simp add: pstart_def)

lemma pstart_civil:
  "YearFromDay (pstart iv k) = interval_months iv * k div 12"
  "MonthFromDay (pstart iv k) = interval_months iv * k mod 12"
  "DateFromDay (pstart iv k) = 1"
  by (simp_all add: pstart_def)

section \<open>The functions of the source compute the grid\<close>

text \<open>
  Years are printed with four digits from 1000 on, so the correspondence is stated for
  periods that start between the years 1000 and 9998.
\<close>

definition in_era :: "BillingInterval \<Rightarrow> int \<Rightarrow> bool" where
  "in_era iv k \<longleftrightarrow> 12000 \<le> interval_months iv * k \<and> interval_months iv * k < 119988"

lemma in_era_years:
  assumes "in_era iv k"
  shows "1000 \<le> YearFromDay (pstart iv k)" "YearFromDay (pstart iv k) \<le> 9998"
    "padded_year (pstart iv k)" "padded_year (pstart iv (k + 1))" "padded_year (pstart iv (k + 1) - 1)"
proof -
  let ?s = "interval_months iv"
  have k: "12000 \<le> ?s * k" "?s * k \<le> 119987" using assms by (simp_all add: in_era_def)
  then show a: "1000 \<le> YearFromDay (pstart iv k)" "YearFromDay (pstart iv k) \<le> 9998"
    unfolding pstart_civil by auto
  then show "padded_year (pstart iv k)" by simp
  have "12000 \<le> ?s * (k + 1)" "?s * (k + 1) < 120000"
    using k interval_months_bounds [of iv] by (auto simp: distrib_left)
  then show b: "padded_year (pstart iv (k + 1))"
    unfolding pstart_civil by auto
  have "pstart iv k \<le> pstart iv (k + 1) - 1"
    using grid.start_less_iff [of iv k "k + 1"] by linarith
  then show "padded_year (pstart iv (k + 1) - 1)"
    using a b YearFromDay_mono [of "pstart iv k" "pstart iv (k + 1) - 1"]
      YearFromDay_mono [of "pstart iv (k + 1) - 1" "pstart iv (k + 1)"] by linarith
qed

lemma in_era_of_year:
  assumes "1000 \<le> YearFromDay d" "YearFromDay d \<le> 9998"
  shows "in_era iv (pcell iv d)"
proof -
  let ?s = "interval_months iv"
  have i: "12000 \<le> month_index d" "month_index d < 119988"
    using assms month_index_year_bounds [of d] by linarith+
  have "?s * (12000 div ?s) = 12000" using interval_months_cases [of iv] by auto
  moreover have "12000 div ?s \<le> pcell iv d"
    unfolding pcell_def by (rule zdiv_mono1) (use i interval_months_bounds [of iv] in auto)
  then have "?s * (12000 div ?s) \<le> ?s * pcell iv d"
    using interval_months_bounds [of iv] by simp
  moreover have "?s * pcell iv d \<le> month_index d"
    unfolding pcell_def by (rule floor_div) (rule interval_months_bounds)
  ultimately show ?thesis using i by (simp add: in_era_def)
qed

lemma startOfBillingPeriod_grid:
  assumes "100 \<le> YearFromDay d" "YearFromDay d \<le> 9999"
  shows "startOfBillingPeriod (Some d) iv = Some (pstart iv (pcell iv d))"
proof -
  let ?y = "YearFromDay d" and ?m = "MonthFromDay d"
  have m: "0 \<le> ?m" "?m < 12" by (rule month_range)+
  have mk: "mk_date ?y n 1 = Some (month_day (12 * ?y + n))" if "0 \<le> n" "n < 12" for n
    using mk_date_month_day [of ?y n 1] assms that by simp
  show ?thesis
  proof (cases iv)
    case monthly
    then show ?thesis
      using mk [of ?m] m by (simp add: startOfBillingPeriod_def Let_def pstart_def pcell_def
          interval_months_def month_index_def)
  next
    case quarterly
    have "(12 * ?y + ?m) div 3 = 4 * ?y + ?m div 3" by presburger
    then show ?thesis
      using quarterly mk [of "?m div 3 * 3"] m by (simp add: startOfBillingPeriod_def Let_def pstart_def
          pcell_def interval_months_def month_index_def algebra_simps)
  next
    case semi_annual
    have "(12 * ?y + ?m) div 6 = 2 * ?y + (if ?m < 6 then 0 else 1)" using m by auto
    then show ?thesis
      using semi_annual mk [of 0] mk [of 6] by (simp add: startOfBillingPeriod_def Let_def pstart_def
          pcell_def interval_months_def month_index_def algebra_simps)
  next
    case annual
    have "(12 * ?y + ?m) div 12 = ?y" using m by simp
    then show ?thesis
      using annual mk [of 0] by (simp add: startOfBillingPeriod_def Let_def pstart_def
          pcell_def interval_months_def month_index_def)
  qed
qed

lemma shifted_start:
  assumes "in_era iv k" "100 \<le> YearFromDay d" "YearFromDay d \<le> 9999"
    "month_index d + n = interval_months iv * k" "-1200 \<le> n" "n \<le> 1100"
  shows "mk_date (YearFromDay d) (MonthFromDay d + n) 1 = Some (pstart iv k)"
proof -
  have "12 * YearFromDay d + (MonthFromDay d + n) = interval_months iv * k"
    using assms(4) by (simp add: month_index_def)
  then show ?thesis
    using mk_date_month_day [of "YearFromDay d" "MonthFromDay d + n" 1] assms month_range [of d]
    by (simp add: pstart_def)
qed

lemma endOfBillingPeriod_grid:
  assumes "in_era iv k"
  shows "endOfBillingPeriod (Some (pstart iv k)) iv = Some (pstart iv (k + 1) - 1)"
proof -
  let ?s = "interval_months iv" and ?a = "pstart iv k" and ?b = "pstart iv (k + 1)"
  note y = in_era_years [OF assms]
  have "12 * YearFromDay ?a + (MonthFromDay ?a + ?s) = ?s * (k + 1)"
    using month_index_pstart [of iv k] by (simp add: month_index_def distrib_left)
  then have next_start: "mk_date (YearFromDay ?a) (MonthFromDay ?a + ?s) 1 = Some ?b"
    using mk_date_month_day [of "YearFromDay ?a" "MonthFromDay ?a + ?s" 1] y
      month_range [of ?a] interval_months_bounds [of iv] by (simp add: pstart_def)
  have "mk_date (YearFromDay ?b) (MonthFromDay ?b) 0 = Some (?b - 1)"
    using mk_date_month_day [of "YearFromDay ?b" "MonthFromDay ?b" 0] y(4) month_range [of ?b]
      month_index_pstart [of iv "k + 1"] by (simp add: month_index_def pstart_def)
  with next_start show ?thesis by (simp add: endOfBillingPeriod_def)
qed

lemma mk_range_grid:
  assumes "in_era iv k"
  shows "mk_range (Some (pstart iv k)) (endOfBillingPeriod (Some (pstart iv k)) iv) = period_range iv k"
  using in_era_years [OF assms]
  by (simp add: mk_range_def endOfBillingPeriod_grid [OF assms] period_range_def formatIsoDate_Some)

lemma local_date_valid [simp]: "valid_iso s \<Longrightarrow> local_date s = Some (iso_day s)"
  by (simp add: local_date_def parse_day_valid)

lemma period_range_valid:
  assumes "in_era iv k"
  shows "valid_iso (range_from (period_range iv k))" "iso_day (range_from (period_range iv k)) = pstart iv k"
    "valid_iso (range_to (period_range iv k))" "iso_day (range_to (period_range iv k)) = pstart iv (k + 1) - 1"
  using in_era_years [OF assms] by (simp_all add: period_range_def)

lemma shiftBillingPeriod_grid:
  assumes "valid_iso s" "100 \<le> YearFromDay (iso_day s)" "in_era iv k"
    "month_index (iso_day s) + interval_months iv * n = interval_months iv * k" "-1 \<le> n" "n \<le> 1"
  shows "shiftBillingPeriod s iv n = period_range iv k"
proof -
  have "- 12 \<le> interval_months iv * n" "interval_months iv * n \<le> 12"
    using assms(5,6) interval_months_cases [of iv] by auto
  then have "mk_date (YearFromDay (iso_day s)) (MonthFromDay (iso_day s) + interval_months iv * n) 1
      = Some (pstart iv k)"
    using assms four_digit_year_iso_day [OF assms(1)] by (intro shifted_start) simp_all
  then show ?thesis
    using assms(1) mk_range_grid [OF assms(3)] by (simp add: shiftBillingPeriod_def)
qed

lemma shift_period_range:
  assumes "in_era iv k" "in_era iv (k + n)" "-1 \<le> n" "n \<le> 1"
  shows "shiftBillingPeriod (range_from (period_range iv k)) iv n = period_range iv (k + n)"
  using assms period_range_valid [OF assms(1)] in_era_years [OF assms(1)]
  by (intro shiftBillingPeriod_grid) (simp_all add: distrib_left)

lemma startOf_valid:
  assumes "valid_iso s" "1000 \<le> YearFromDay (iso_day s)" "YearFromDay (iso_day s) \<le> 9998"
  shows "startOfBillingPeriod (local_date s) iv = Some (pstart iv (pcell iv (iso_day s)))"
  using assms by (simp add: startOfBillingPeriod_grid)

section \<open>Which strings are accepted as dates\<close>

lemma ISO_DAY_shape:
  assumes "ISO_DAY s"
  shows "s = take 4 s @ CHR ''-'' # slice 5 7 s @ CHR ''-'' # slice 8 10 s"
    "length (slice 5 7 s) = 2" "length (slice 8 10 s) = 2"
proof -
  have len: "length s = 10" and dash: "s ! 4 = CHR ''-''" "s ! 7 = CHR ''-''"
    using assms by (simp_all add: ISO_DAY_def)
  show "length (slice 5 7 s) = 2" "length (slice 8 10 s) = 2"
    using len by (simp_all add: slice_def)
  have "drop 4 s = CHR ''-'' # drop 5 s" "drop 7 s = CHR ''-'' # drop 8 s"
    using len dash Cons_nth_drop_Suc [of 4 s] Cons_nth_drop_Suc [of 7 s] by simp_all
  moreover have "drop 5 s = slice 5 7 s @ drop 7 s"
    using append_take_drop_id [of 2 "drop 5 s"] by (simp add: slice_def)
  moreover have "slice 8 10 s = drop 8 s" using len by (simp add: slice_def)
  ultimately show "s = take 4 s @ CHR ''-'' # slice 5 7 s @ CHR ''-'' # slice 8 10 s"
    by (metis append_take_drop_id)
qed

lemma no_dash_in_digits: "all_digits s \<Longrightarrow> CHR ''-'' \<notin> set s"
  by (auto simp: all_digits_def list_all_iff is_digit_def less_eq_char_def)

lemma ISO_DAY_split:
  assumes "ISO_DAY s"
  shows "split_on (CHR ''-'') s = [take 4 s, slice 5 7 s, slice 8 10 s]"
proof -
  have d: "all_digits (take 4 s)" "all_digits (slice 5 7 s)" "all_digits (slice 8 10 s)"
    using assms by (simp_all add: ISO_DAY_def)
  show ?thesis
    by (subst ISO_DAY_shape(1) [OF assms])
      (simp add: split_on_append split_on_no_sep no_dash_in_digits d)
qed

lemma digs_of_digits: "all_digits s \<Longrightarrow> length s = k \<Longrightarrow> digs k (digits_val s) = s"
  by (auto simp: all_digits_def list_all_iff digs_digits_val)

lemma digits_val_less: "all_digits s \<Longrightarrow> digits_val s < 10 ^ length s"
  by (simp add: all_digits_def list_all_iff digits_val_bound)

lemma early_year_check:
  assumes "0 \<le> y" "y \<le> 99" "-1 \<le> m" "0 \<le> dt"
  shows "YearFromDay (date_of y m dt) \<noteq> y"
proof -
  have "month_day 22799 \<le> month_day (12 * (1900 + y) + m)"
    using assms by (simp add: month_day_le_iff)
  then have "month_day 22799 - 1 \<le> date_of y m dt"
    using assms by (simp add: date_of_def full_year_def MakeDay_month_day)
  then have "YearFromDay (month_day 22799 - 1) \<le> YearFromDay (date_of y m dt)"
    by (rule YearFromDay_mono)
  moreover have "YearFromDay (month_day 22799 - 1) = 1899" by code_simp
  ultimately show ?thesis using assms by linarith
qed

lemma isValidIsoDay_imp:
  assumes "isValidIsoDay s"
  shows "valid_iso s \<and> 100 \<le> YearFromDay (iso_day s)"
proof -
  define y m dt where ymd: "y = int (digits_val (take 4 s))" "m = int (digits_val (slice 5 7 s))"
    "dt = int (digits_val (slice 8 10 s))"
  have shape: "ISO_DAY s" using assms by (simp add: isValidIsoDay_def)
  have d: "all_digits (take 4 s)" "all_digits (slice 5 7 s)" "all_digits (slice 8 10 s)" "length s = 10"
    using shape by (simp_all add: ISO_DAY_def)
  let ?D = "date_of y (m - 1) dt"
  have chk: "YearFromDay ?D = y" "MonthFromDay ?D = m - 1" "DateFromDay ?D = dt"
    using assms by (simp_all add: isValidIsoDay_def ISO_DAY_split [OF shape] ymd Let_def)
  have "0 \<le> y" "y \<le> 9999" "0 \<le> m" "0 \<le> dt"
    using digits_val_less [OF d(1)] d(4) by (simp_all add: ymd)
  moreover from this have "100 \<le> y"
    using early_year_check [of y "m - 1" dt] chk(1) by linarith
  ultimately have four: "four_digit_year ?D" and "100 \<le> YearFromDay ?D" using chk by simp_all
  have "digs 4 (nat y) = take 4 s" "digs 2 (nat m) = slice 5 7 s" "digs 2 (nat dt) = slice 8 10 s"
    using d ISO_DAY_shape(2,3) [OF shape] by (simp_all add: ymd digs_of_digits)
  moreover have "toISODate ?D = digs 4 (nat y) @ ''-'' @ digs 2 (nat m) @ ''-'' @ digs 2 (nat dt)"
    unfolding toISODate_eq [OF four] chk by simp
  ultimately have "toISODate ?D = s"
    using ISO_DAY_shape(1) [OF shape] by simp
  then show ?thesis
    using four \<open>100 \<le> YearFromDay ?D\<close> valid_iso_toISODate [OF four] iso_day_toISODate [OF four] by metis
qed

lemma isValidIsoDay_toISODate:
  assumes "100 \<le> YearFromDay d" "YearFromDay d \<le> 9999"
  shows "isValidIsoDay (toISODate d)"
proof -
  let ?y = "digs 4 (nat (YearFromDay d))" and ?m = "digs 2 (nat (MonthFromDay d + 1))"
    and ?d = "digs 2 (nat (DateFromDay d))"
  have eq: "toISODate d = ?y @ CHR ''-'' # ?m @ CHR ''-'' # ?d"
    using assms toISODate_eq [of d] by simp
  have parts: "take 4 (toISODate d) = ?y" "slice 5 7 (toISODate d) = ?m" "slice 8 10 (toISODate d) = ?d"
    unfolding eq by (simp_all add: slice_def)
  have shape: "ISO_DAY (toISODate d)"
    unfolding ISO_DAY_def parts unfolding eq by (simp add: nth_append digs_4 digs_2 flip: digs_4 digs_2)
  have "nat (YearFromDay d) < 10 ^ 4" using assms by auto
  then have "int (digits_val ?y) = YearFromDay d" "int (digits_val ?m) = MonthFromDay d + 1"
    "int (digits_val ?d) = DateFromDay d"
    using assms nat_bounds_of_day [of d] month_range [of d] date_range [of d]
    by (simp_all add: digits_val_digs)
  moreover have "date_of (YearFromDay d) (MonthFromDay d) (DateFromDay d) = d"
    using assms by (simp add: date_of_def full_year_def)
  ultimately show ?thesis
    unfolding isValidIsoDay_def ISO_DAY_split [OF shape] parts using shape by (simp add: Let_def)
qed

lemma isValidIsoDay_iff: "isValidIsoDay s \<longleftrightarrow> valid_iso s \<and> 100 \<le> YearFromDay (iso_day s)"
proof
  show "isValidIsoDay s \<Longrightarrow> valid_iso s \<and> 100 \<le> YearFromDay (iso_day s)"
    by (rule isValidIsoDay_imp)
  show "isValidIsoDay s" if "valid_iso s \<and> 100 \<le> YearFromDay (iso_day s)"
    using that isValidIsoDay_toISODate [of "iso_day s"] four_digit_year_iso_day [of s] by simp
qed

section \<open>Properties\<close>

text \<open>Dates for which every function below prints four-digit years.\<close>

definition era_day :: "int \<Rightarrow> bool" where
  "era_day d \<longleftrightarrow> 1000 \<le> YearFromDay d \<and> YearFromDay d \<le> 9998"

definition era_iso :: "string \<Rightarrow> bool" where
  "era_iso s \<longleftrightarrow> valid_iso s \<and> era_day (iso_day s)"

lemma in_era_pcell: "era_day d \<Longrightarrow> in_era iv (pcell iv d)"
  by (simp add: era_day_def in_era_of_year)

lemma current_grid:
  assumes "era_day d"
  shows "getCurrentBillingPeriod (Some d) iv = period_range iv (pcell iv d)"
  using assms mk_range_grid [OF in_era_pcell [OF assms]]
  by (simp add: getCurrentBillingPeriod_def startOfBillingPeriod_grid era_day_def)

lemma period_range_inject:
  "in_era iv k \<Longrightarrow> in_era iv l \<Longrightarrow> range_from (period_range iv k) = range_from (period_range iv l) \<longleftrightarrow> k = l"
  by (metis grid.start_inject period_range_valid(2))

text \<open>
  the current billing period contains today, begins on the first of a month that is a
  multiple of the interval counted from January, and the next period begins the day after it
  ends, so the periods of an interval tile the calendar.
\<close>

theorem current_period_contains_today:
  assumes "era_day d"
  shows "let r = getCurrentBillingPeriod (Some d) iv
    in valid_iso (range_from r) \<and> valid_iso (range_to r)
    \<and> iso_day (range_from r) \<le> d \<and> d \<le> iso_day (range_to r)
    \<and> DateFromDay (iso_day (range_from r)) = 1
    \<and> MonthFromDay (iso_day (range_from r)) mod interval_months iv = 0
    \<and> range_from (getCurrentBillingPeriod (Some (iso_day (range_to r) + 1)) iv) = nextIsoDate (range_to r)"
proof -
  let ?k = "pcell iv d"
  define r where "r = getCurrentBillingPeriod (Some d) iv"
  have era: "in_era iv ?k" using assms(1) by (rule in_era_pcell)
  have r: "r = period_range iv ?k" unfolding r_def by (rule current_grid [OF assms(1)])
  note v = period_range_valid [OF era]
  have "interval_months iv * ?k mod 12 mod interval_months iv = 0"
    using interval_months_cases [of iv] by (auto simp: mod_mod_cancel)
  moreover have "iso_day (range_from r) \<le> d" "d \<le> iso_day (range_to r)"
    unfolding r v using grid.cell_bounds [where iv = iv and d = d] by simp_all
  moreover have nxt: "range_from (getCurrentBillingPeriod (Some (iso_day (range_to r) + 1)) iv)
      = nextIsoDate (range_to r)"
  proof -
    let ?b = "pstart iv (?k + 1)"
    have b: "padded_year ?b" by (rule in_era_years(4) [OF era])
    then have "startOfBillingPeriod (Some ?b) iv = Some ?b"
      using startOfBillingPeriod_grid [of ?b iv] by simp
    moreover have "nextIsoDate (range_to r) = toISODate ?b"
      unfolding r using nextIsoDate_valid [OF v(3)] v(4) b by simp
    ultimately show ?thesis
      unfolding r v getCurrentBillingPeriod_def mk_range_def using b by (simp add: formatIsoDate_Some Let_def)
  qed
  ultimately show ?thesis using v unfolding Let_def r_def [symmetric] r by (simp add: pstart_civil)
qed

theorem current_period_contains_today_witness:
  "era_day 20600 \<and> DateFromDay (iso_day (range_from (getCurrentBillingPeriod (Some 20600) quarterly))) = 1"
proof -
  have h: "era_day 20600" by code_simp
  show ?thesis using h current_period_contains_today [OF h, of quarterly] by (simp add: Let_def)
qed

text \<open>
  C33: a range is accepted as aligned exactly when it is the billing period of some day of the
  supported years.
\<close>

theorem aligned_iff_billing_period:
  assumes "era_iso f" "valid_iso t"
  shows "isBillingAlignedPeriod f t iv \<longleftrightarrow>
    (\<exists>d. era_day d \<and> getCurrentBillingPeriod (Some d) iv = \<lparr>range_from = f, range_to = t\<rparr>)"
proof -
  have f: "valid_iso f" "era_day (iso_day f)" using assms by (simp_all add: era_iso_def)
  let ?k = "pcell iv (iso_day f)"
  note era = in_era_pcell [OF f(2), of iv]
  have "isBillingAlignedPeriod f t iv \<longleftrightarrow> period_range iv ?k = \<lparr>range_from = f, range_to = t\<rparr>"
    using f valid_iso_not_Nil [OF f(1)] valid_iso_not_Nil [OF assms(2)] in_era_years [OF era]
      endOfBillingPeriod_grid [OF era]
    by (simp add: isBillingAlignedPeriod_def startOfBillingPeriod_grid era_day_def period_range_def
        formatIsoDate_Some Let_def)
  also have "\<dots> \<longleftrightarrow> (\<exists>d. era_day d \<and> getCurrentBillingPeriod (Some d) iv = \<lparr>range_from = f, range_to = t\<rparr>)"
  proof
    show "\<exists>d. era_day d \<and> getCurrentBillingPeriod (Some d) iv = \<lparr>range_from = f, range_to = t\<rparr>"
      if "period_range iv ?k = \<lparr>range_from = f, range_to = t\<rparr>"
      using that f(2) current_grid [OF f(2)] by metis
  next
    assume "\<exists>d. era_day d \<and> getCurrentBillingPeriod (Some d) iv = \<lparr>range_from = f, range_to = t\<rparr>"
    then obtain d where d: "era_day d" "period_range iv (pcell iv d) = \<lparr>range_from = f, range_to = t\<rparr>"
      using current_grid by metis
    then have "iso_day f = pstart iv (pcell iv d)"
      using period_range_valid(2) [OF in_era_pcell [OF d(1), of iv]] by simp
    then have "?k = pcell iv d" by simp
    with d(2) show "period_range iv ?k = \<lparr>range_from = f, range_to = t\<rparr>" by simp
  qed
  finally show ?thesis .
qed

theorem aligned_iff_billing_period_witness:
  "isBillingAlignedPeriod ''2026-04-01'' ''2026-06-30'' quarterly \<and>
   (\<exists>d. era_day d \<and> getCurrentBillingPeriod (Some d) quarterly
     = \<lparr>range_from = ''2026-04-01'', range_to = ''2026-06-30''\<rparr>)"
proof -
  have f: "era_iso ''2026-04-01''" and t: "valid_iso ''2026-06-30''" by code_simp+
  have a: "isBillingAlignedPeriod ''2026-04-01'' ''2026-06-30'' quarterly" by code_simp
  show ?thesis using a aligned_iff_billing_period [OF f t, of quarterly] by blast
qed

end
