(* ===== verification/Billing_Navigation.thy ===== *)
theory Billing_Navigation
  imports Billing_Period
begin

text \<open>
  Moving along the billing periods: stepping to the neighbouring period, the first billable
  period of a community, the presets of the period menu, the periods of a calendar year, and
  the ranges accepted from a URL. Every function is related to the grid of theory
  Billing_Period.
\<close>

lemma era_iso_grid:
  assumes "era_iso s"
  shows "valid_iso s" "era_day (iso_day s)" "in_era iv (pcell iv (iso_day s))"
    "startOfBillingPeriod (local_date s) iv = Some (pstart iv (pcell iv (iso_day s)))"
  using assms startOf_valid [of s iv] in_era_pcell by (simp_all add: era_iso_def era_day_def)

lemma formatIsoDate_pstart: "in_era iv k \<Longrightarrow> formatIsoDate (Some (pstart iv k)) = range_from (period_range iv k)"
  using in_era_years(3) [of iv k] by (simp add: formatIsoDate_Some period_range_def)

lemma endOf_period_from:
  assumes "in_era iv k"
  shows "formatIsoDate (endOfBillingPeriod (local_date (range_from (period_range iv k))) iv)
      = range_to (period_range iv k)"
  using period_range_valid [OF assms] endOfBillingPeriod_grid [OF assms] in_era_years(5) [OF assms]
  by (simp add: formatIsoDate_Some) (simp add: period_range_def)

lemma in_era_between: "in_era iv a \<Longrightarrow> in_era iv b \<Longrightarrow> a \<le> k \<Longrightarrow> k \<le> b \<Longrightarrow> in_era iv k"
  using interval_months_bounds [of iv] mult_left_mono [of a k "interval_months iv"]
    mult_left_mono [of k b "interval_months iv"] unfolding in_era_def by linarith

section \<open>Stepping\<close>

text \<open>
  C36: stepping forward and back again returns to the same period, and the next period starts
  on the day after the last day of the current one.
\<close>

theorem shift_round_trip:
  assumes "era_iso f" "isBillingAlignedPeriod f t iv"
    and "YearFromDay (iso_day f) < 9997"
  shows "shiftBillingPeriod (range_from (shiftBillingPeriod f iv 1)) iv (- 1) = \<lparr>range_from = f, range_to = t\<rparr>
    \<and> range_from (shiftBillingPeriod f iv 1) = nextIsoDate t"
proof -
  have g: "valid_iso f" "era_day (iso_day f)" "in_era iv (pcell iv (iso_day f))"
    "startOfBillingPeriod (local_date f) iv = Some (pstart iv (pcell iv (iso_day f)))"
    using era_iso_grid [OF assms(1)] by simp_all
  let ?k = "pcell iv (iso_day f)"
  have tne: "t \<noteq> []" "f \<noteq> []" using assms(2) by (auto simp: isBillingAlignedPeriod_def split: if_splits)
  have ft: "period_range iv ?k = \<lparr>range_from = f, range_to = t\<rparr>"
    using assms(2) g(4) tne in_era_years [OF g(3)] endOfBillingPeriod_grid [OF g(3)]
    by (simp add: isBillingAlignedPeriod_def period_range_def formatIsoDate_Some Let_def)
  have y: "YearFromDay (pstart iv ?k) < 9997"
    using assms(3) grid.cell_bounds(1) [where iv = iv and d = "iso_day f"]
      YearFromDay_mono [of "pstart iv ?k" "iso_day f"] by linarith
  have era': "in_era iv (?k + 1)"
    using g(3) y interval_months_bounds [of iv] unfolding pstart_civil in_era_def
    by (auto simp: distrib_left)
  have one: "shiftBillingPeriod f iv 1 = period_range iv (?k + 1)"
    using shift_period_range [OF g(3) era'] ft by simp
  have "shiftBillingPeriod (range_from (period_range iv (?k + 1))) iv (- 1) = period_range iv ?k"
    using shift_period_range [OF era', of "- 1"] g(3) by simp
  moreover have "nextIsoDate t = toISODate (pstart iv (?k + 1))"
    using nextIsoDate_valid [of t] period_range_valid(3,4) [OF g(3)] ft in_era_years(4) [OF g(3)] by simp
  ultimately show ?thesis
    unfolding one ft using in_era_years(4) [OF g(3)] by (simp add: period_range_def)
qed

theorem shift_round_trip_witness:
  "shiftBillingPeriod (range_from (shiftBillingPeriod ''2026-10-01'' quarterly 1)) quarterly (- 1)
     = \<lparr>range_from = ''2026-10-01'', range_to = ''2026-12-31''\<rparr>
   \<and> range_from (shiftBillingPeriod ''2026-10-01'' quarterly 1) = nextIsoDate ''2026-12-31''"
proof (rule shift_round_trip)
  show "era_iso ''2026-10-01''" by code_simp
  show "isBillingAlignedPeriod ''2026-10-01'' ''2026-12-31'' quarterly" by code_simp
  show "YearFromDay (iso_day ''2026-10-01'') < 9997" by code_simp
qed

text \<open>
  C32: from any date, the arrow of the period selector leads to the nearest whole period: the
  last period that starts before the date, or the first one that starts after it.
\<close>

theorem adjacent_is_nearest:
  assumes "era_iso f" "1000 < YearFromDay (iso_day f)" "YearFromDay (iso_day f) < 9997"
  shows "(\<exists>p. adjacentBillingPeriod f iv (- 1) = period_range iv p \<and> pstart iv p < iso_day f
           \<and> (\<forall>k. pstart iv k < iso_day f \<longrightarrow> pstart iv k \<le> pstart iv p))
    \<and> (\<exists>n. adjacentBillingPeriod f iv 1 = period_range iv n \<and> iso_day f < pstart iv n
           \<and> (\<forall>k. iso_day f < pstart iv k \<longrightarrow> pstart iv n \<le> pstart iv k))"
proof -
  have g: "valid_iso f" "era_day (iso_day f)" "in_era iv (pcell iv (iso_day f))"
    "startOfBillingPeriod (local_date f) iv = Some (pstart iv (pcell iv (iso_day f)))"
    using era_iso_grid [OF assms(1)] by simp_all
  let ?d = "iso_day f" and ?k = "pcell iv (iso_day f)"
  have k: "12000 \<le> interval_months iv * ?k" "interval_months iv * ?k < 119988" using g(3) by (simp_all add: in_era_def)
  have "12012 \<le> month_index ?d" "month_index ?d < 119964"
    using assms(2,3) month_index_year_bounds [of ?d] by linarith+
  moreover have "month_index ?d < interval_months iv * ?k + interval_months iv"
    "interval_months iv * ?k \<le> month_index ?d"
    using floor_div [OF interval_months_bounds(1) [of iv], of "month_index ?d"] by (simp_all add: pcell_def)
  ultimately have lo: "12012 - interval_months iv < interval_months iv * ?k"
    and hi: "interval_months iv * ?k < 119964"
    by linarith+
  have lo': "12000 \<le> interval_months iv * (?k - 1)"
  proof -
    have "interval_months iv * ?k \<ge> 12012"
      using lo interval_months_cases [of iv] by auto
    then show ?thesis using interval_months_bounds [of iv] by (simp add: right_diff_distrib)
  qed
  have prev: "in_era iv (?k - 1)" and succ: "in_era iv (?k + 1)"
    using lo' hi interval_months_bounds [of iv] k by (simp_all add: in_era_def algebra_simps)
  have c: "formatIsoDate (startOfBillingPeriod (local_date f) iv) = range_from (period_range iv ?k)"
    by (simp only: g(4) formatIsoDate_pstart [OF g(3)])
  have less: "range_from (period_range iv ?k) < f \<longleftrightarrow> pstart iv ?k < ?d"
    using period_range_valid [OF g(3)] iso_less_iff g(1) by simp
  have bwd: "adjacentBillingPeriod f iv (- 1) = period_range iv (if pstart iv ?k < ?d then ?k else ?k - 1)"
    using shift_period_range [OF g(3), of "- 1"] prev
    by (simp add: adjacentBillingPeriod_def Let_def c less endOf_period_from [OF g(3)])
  have fwd: "adjacentBillingPeriod f iv 1 = period_range iv (?k + 1)"
    using shift_period_range [OF g(3) succ] by (simp add: adjacentBillingPeriod_def Let_def c)
  show ?thesis
    using bwd fwd grid.previous_start [where iv = iv and d = ?d] grid.next_start [where iv = iv and d = ?d]
    by blast
qed

theorem adjacent_is_nearest_witness:
  "\<exists>p. adjacentBillingPeriod ''2026-02-15'' monthly (- 1) = period_range monthly p
     \<and> pstart monthly p < iso_day ''2026-02-15''"
proof -
  have h: "era_iso ''2026-02-15''" "1000 < YearFromDay (iso_day ''2026-02-15'')"
    "YearFromDay (iso_day ''2026-02-15'') < 9997" by code_simp+
  show ?thesis using adjacent_is_nearest [OF h, of monthly] by blast
qed

text \<open>
  The first billable period of a community is the first aligned period that starts on or
  after its start date; a start inside a period skips that partial period.
\<close>

theorem first_aligned_is_least:
  assumes "era_iso s" "YearFromDay (iso_day s) < 9997"
  shows "\<exists>k. firstAlignedBillingPeriod (Some s) iv = Some (period_range iv k)
    \<and> iso_day s \<le> pstart iv k \<and> (\<forall>l. iso_day s \<le> pstart iv l \<longrightarrow> pstart iv k \<le> pstart iv l)"
proof -
  have g: "valid_iso s" "era_day (iso_day s)" "in_era iv (pcell iv (iso_day s))"
    "startOfBillingPeriod (local_date s) iv = Some (pstart iv (pcell iv (iso_day s)))"
    using era_iso_grid [OF assms(1)] by simp_all
  let ?d = "iso_day s" and ?k = "pcell iv (iso_day s)" and ?s = "interval_months iv"
  have y: "1000 \<le> YearFromDay ?d" using g(2) by (simp add: era_day_def)
  have valid: "isValidIsoDay s" using g(1) y by (simp add: isValidIsoDay_iff)
  have m12: "MonthFromDay ?d mod ?s = month_index ?d mod ?s"
  proof -
    have "?s dvd 12" using interval_months_cases [of iv] by auto
    then show ?thesis by (simp add: MonthFromDay_month_index mod_mod_cancel)
  qed
  have mi: "YearFromDay ?d * 12 + MonthFromDay ?d - MonthFromDay ?d mod ?s = ?s * ?k"
    unfolding m12 pcell_def using mult_div_mod_eq [of ?s "month_index ?d"]
    by (simp add: month_index_def algebra_simps)
  have containing: "mk_date (?s * ?k div 12) (?s * ?k mod 12) 1 = Some (pstart iv ?k)"
    using mk_date_month_day [of "?s * ?k div 12" "?s * ?k mod 12" 1] in_era_years(1,2) [OF g(3)]
    by (simp add: pstart_civil) (simp add: pstart_def)
  have al: "DateFromDay ?d = 1 \<and> MonthFromDay ?d mod ?s = 0 \<longleftrightarrow> pstart iv ?k = ?d"
  proof
    assume h: "DateFromDay ?d = 1 \<and> MonthFromDay ?d mod ?s = 0"
    then have "?s * ?k = month_index ?d"
      using m12 mult_div_mod_eq [of ?s "month_index ?d"] by (simp add: pcell_def)
    then show "pstart iv ?k = ?d"
      using h month_day_of_day [of ?d] by (simp add: pstart_def)
  next
    assume h: "pstart iv ?k = ?d"
    then have "month_index ?d = ?s * ?k" by (metis month_index_pstart)
    with h show "DateFromDay ?d = 1 \<and> MonthFromDay ?d mod ?s = 0"
      unfolding m12 by (metis mod_mult_self1_is_0 pstart_civil(3))
  qed
  have hi: "in_era iv (?k + 1)"
  proof -
    have "month_index ?d < 119964" using assms(2) month_index_year_bounds [of ?d] by linarith
    moreover have "?s * ?k \<le> month_index ?d"
      using floor_div(1) [OF interval_months_bounds(1) [of iv], of "month_index ?d"] by (simp add: pcell_def)
    ultimately show ?thesis
      using g(3) interval_months_bounds [of iv] by (simp add: in_era_def distrib_left)
  qed
  have nxt: "mk_date (YearFromDay (pstart iv ?k)) (MonthFromDay (pstart iv ?k) + ?s) 1 = Some (pstart iv (?k + 1))"
    using hi in_era_years [OF g(3)] interval_months_bounds [of iv]
    by (intro shifted_start) (simp_all add: distrib_left)
  let ?f = "if pstart iv ?k = ?d then ?k else ?k + 1"
  have "firstAlignedBillingPeriod (Some s) iv = Some (period_range iv ?f)"
    using valid valid_iso_not_Nil [OF g(1)] g(1) mk_range_grid [OF g(3)] mk_range_grid [OF hi]
    by (cases "pstart iv ?k = ?d") (simp_all add: firstAlignedBillingPeriod_def Let_def mi containing al nxt)
  then show ?thesis using grid.first_start [where iv = iv and d = ?d] by blast
qed

theorem first_aligned_is_least_witness:
  "\<exists>k. firstAlignedBillingPeriod (Some ''2026-02-15'') quarterly = Some (period_range quarterly k)
     \<and> iso_day ''2026-02-15'' \<le> pstart quarterly k"
proof -
  have h: "era_iso ''2026-02-15''" "YearFromDay (iso_day ''2026-02-15'') < 9997" by code_simp+
  show ?thesis using first_aligned_is_least [OF h, of quarterly] by blast
qed

section \<open>The preset menu and the periods of a year\<close>

lemma push_previous_grid:
  "in_era iv k \<Longrightarrow> in_era iv (k - int n) \<Longrightarrow>
     push_previous iv n (ps @ [period_range iv k]) = ps @ map (\<lambda>i. period_range iv (k - int i)) [0..<Suc n]"
proof (induction n arbitrary: k ps)
  case (Suc n)
  have era: "in_era iv (k - 1)" by (rule in_era_between [OF Suc.prems(2,1)]) simp_all
  have "push_previous iv (Suc n) (ps @ [period_range iv k])
      = push_previous iv n ((ps @ [period_range iv k]) @ [period_range iv (k - 1)])"
    using shift_period_range [OF Suc.prems(1), of "- 1"] era by simp
  also have "\<dots> = (ps @ [period_range iv k]) @ map (\<lambda>i. period_range iv (k - 1 - int i)) [0..<Suc n]"
    by (rule Suc.IH) (use era Suc.prems in \<open>simp_all add: algebra_simps\<close>)
  also have "map (\<lambda>i. period_range iv (k - 1 - int i)) [0..<Suc n]
      = map (\<lambda>i. period_range iv (k - int i)) (map Suc [0..<Suc n])"
    by (simp add: comp_def algebra_simps)
  finally show ?case
    by (simp add: map_Suc_upt upt_conv_Cons [of 0 "Suc (Suc n)"] del: upt_Suc)
qed simp

text \<open>
  The preset menu lists the period of today and the \<open>count\<close> periods before it, newest
  first and without a gap, less those that start before the first period of the community.
\<close>

theorem recent_periods_newest_first:
  assumes "era_day d" "in_era iv (pcell iv d - int n)" "era_iso m"
  shows "recentBillingPeriods (Some d) iv n (Some m) =
    map (period_range iv) (filter (\<lambda>k. iso_day m \<le> pstart iv k) (map (\<lambda>i. pcell iv d - int i) [0..<Suc n]))"
proof -
  let ?c = "pcell iv d"
  have era: "in_era iv ?c" by (rule in_era_pcell [OF assms(1)])
  have m: "valid_iso m" "m \<noteq> []" using assms(3) valid_iso_not_Nil by (auto simp: era_iso_def)
  have "push_previous iv n [period_range iv ?c] = map (\<lambda>i. period_range iv (?c - int i)) [0..<Suc n]"
    using push_previous_grid [OF era assms(2), of "[]"] by simp
  moreover have "m \<le> range_from (period_range iv (?c - int i)) \<longleftrightarrow> iso_day m \<le> pstart iv (?c - int i)"
    if "i \<in> set [0..<Suc n]" for i
  proof -
    have "in_era iv (?c - int i)" by (rule in_era_between [OF assms(2) era]) (use that in auto)
    then show ?thesis using period_range_valid iso_le_iff [OF m(1)] by simp
  qed
  then have "filter (\<lambda>i. m \<le> range_from (period_range iv (?c - int i))) [0..<Suc n]
      = filter (\<lambda>i. iso_day m \<le> pstart iv (?c - int i)) [0..<Suc n]"
    by (rule filter_cong [OF refl])
  ultimately show ?thesis
    using m(2) by (simp add: recentBillingPeriods_def current_grid [OF assms(1)] filter_map comp_def
        del: upt_Suc)
qed

theorem recent_periods_newest_first_witness:
  "recentBillingPeriods (Some 20600) quarterly 1 (Some ''2025-11-01'')
     = map (period_range quarterly) (filter (\<lambda>k. iso_day ''2025-11-01'' \<le> pstart quarterly k)
         (map (\<lambda>i. pcell quarterly 20600 - int i) [0..<Suc 1]))"
proof -
  have h: "era_day 20600" "in_era quarterly (pcell quarterly 20600 - int 1)" "era_iso ''2025-11-01''"
    by code_simp+
  show ?thesis by (rule recent_periods_newest_first [OF h])
qed

lemma slice_toISODate: "padded_year d \<Longrightarrow> slice 0 4 (toISODate d) = digs 4 (nat (YearFromDay d))"
  using toISODate_eq [of d] by (simp add: slice_def)

lemma periods_loop_grid:
  assumes "slice 0 4 f = digs 4 (nat y)" "1000 \<le> y" "y \<le> 9997" "interval_months iv * N = 12 * (y + 1)"
  shows "k + int n = N \<Longrightarrow> 12 * y \<le> interval_months iv * k \<Longrightarrow>
    periods_loop f iv (range_from (period_range iv k)) acc
      = Some (acc @ map (\<lambda>i. period_range iv (k + int i)) [0..<n])"
proof (induction n arbitrary: k acc)
  let ?s = "interval_months iv"
  have yr: "slice 0 4 (range_from (period_range iv k)) = slice 0 4 f \<longleftrightarrow> ?s * k < ?s * N"
    if "12 * y \<le> ?s * k" "?s * k \<le> ?s * N" for k
  proof -
    have era: "in_era iv k" using that assms(2-4) by (simp add: in_era_def)
    have "?s * k div 12 = (if ?s * k < ?s * N then y else y + 1)" using that assms(4) by auto
    then have "slice 0 4 (range_from (period_range iv k)) = digs 4 (nat (if ?s * k < ?s * N then y else y + 1))"
      using slice_toISODate [OF in_era_years(3) [OF era]] by (simp add: period_range_def pstart_civil)
    moreover have "nat y < 10 ^ 4" "nat (y + 1) < 10 ^ 4" "nat y \<noteq> nat (y + 1)" using assms(2,3) by auto
    ultimately show ?thesis using assms(1) digs_inject by auto
  qed
  {
    case 0
    then have "slice 0 4 (range_from (period_range iv k)) \<noteq> slice 0 4 f" using yr [of k] by simp
    then show ?case by (simp add: periods_loop.simps [of f iv])
  next
    case (Suc n)
    have lt: "?s * k < ?s * N" "?s * (k + 1) \<le> ?s * N"
      using Suc.prems(1) interval_months_bounds(1) [of iv] by simp_all
    have era: "in_era iv k" "in_era iv (k + 1)"
      using lt Suc.prems(2) assms(2-4) interval_months_bounds(1) [of iv] by (simp_all add: in_era_def distrib_left)
    have "periods_loop f iv (range_from (period_range iv k)) acc
        = periods_loop f iv (range_from (period_range iv (k + 1))) (acc @ [period_range iv k])"
      using yr [of k] lt Suc.prems(2) shift_period_range [OF era] endOf_period_from [OF era(1)]
      by (simp add: periods_loop.simps [of f iv "range_from (period_range iv k)"])
        (simp add: period_range_def)
    also have "\<dots> = Some ((acc @ [period_range iv k]) @ map (\<lambda>i. period_range iv (k + 1 + int i)) [0..<n])"
      by (rule Suc.IH) (use Suc.prems interval_months_bounds(1) [of iv] in \<open>simp_all add: distrib_left\<close>)
    also have "map (\<lambda>i. period_range iv (k + 1 + int i)) [0..<n]
        = map (\<lambda>i. period_range iv (k + int i)) (map Suc [0..<n])"
      by (simp add: comp_def algebra_simps)
    finally show ?case
      by (simp add: map_Suc_upt upt_conv_Cons [of 0 "Suc n"] del: upt_Suc)
  }
qed

text \<open>
  C37: the loop that lists the periods of a calendar year ends, and it lists exactly the periods
  that start in that year, in order: twelve months, four quarters, two half-years or one year,
  the first one starting on 1 January.
\<close>

theorem periods_of_year_complete:
  assumes "era_iso f" "YearFromDay (iso_day f) < 9998"
  shows "\<exists>k. billingPeriodsOfYear f iv
      = Some (map (\<lambda>i. period_range iv (k + int i)) [0..<nat (12 div interval_months iv)])
    \<and> pstart iv k = MakeDay (YearFromDay (iso_day f)) 0 1
    \<and> (\<forall>l. YearFromDay (pstart iv l) = YearFromDay (iso_day f) \<longleftrightarrow> k \<le> l \<and> l < k + 12 div interval_months iv)"
proof -
  let ?y = "YearFromDay (iso_day f)" and ?s = "interval_months iv"
  define k where "k = 12 div ?s * ?y"
  have v: "valid_iso f" "1000 \<le> ?y" "padded_year (iso_day f)"
    using assms by (auto simp: era_iso_def era_day_def)
  have sk: "?s * (12 div ?s) = 12" "0 < ?s" using interval_months_cases [of iv] by auto
  then have k: "?s * k = 12 * ?y" unfolding k_def by (metis mult.assoc)
  have N: "?s * (k + 12 div ?s) = 12 * (?y + 1)" using k sk by (simp add: distrib_left)
  have era: "in_era iv k" using k v assms(2) by (simp add: in_era_def)
  have f4: "slice 0 4 f = digs 4 (nat ?y)"
    using slice_toISODate [OF v(3)] toISODate_iso_day [OF v(1)] by simp
  have start: "slice 0 4 f @ ''-01-01'' = range_from (period_range iv k)"
  proof -
    have "YearFromDay (pstart iv k) = ?y" "MonthFromDay (pstart iv k) = 0" "DateFromDay (pstart iv k) = 1"
      unfolding pstart_civil k by simp_all
    moreover have "digs 2 (nat (0 + 1)) = ''01''" "digs 2 (nat 1) = ''01''" by code_simp+
    ultimately show ?thesis
      using toISODate_eq [of "pstart iv k"] v(2,3) f4 by (simp add: period_range_def)
  qed
  have "k + int (nat (12 div ?s)) = k + 12 div ?s" using sk by (simp add: pos_imp_zdiv_nonneg_iff)
  then have "billingPeriodsOfYear f iv = Some ([] @ map (\<lambda>i. period_range iv (k + int i)) [0..<nat (12 div ?s)])"
    unfolding billingPeriodsOfYear_def start
    by (intro periods_loop_grid [OF f4 v(2) _ N]) (use assms(2) k in auto)
  moreover have "pstart iv k = MakeDay ?y 0 1"
    unfolding pstart_def k by (simp add: MakeDay_month_day)
  moreover have "YearFromDay (pstart iv l) = ?y \<longleftrightarrow> k \<le> l \<and> l < k + 12 div ?s" for l
  proof -
    have "YearFromDay (pstart iv l) = ?y \<longleftrightarrow> 12 * ?y \<le> ?s * l \<and> ?s * l < 12 * (?y + 1)"
      unfolding pstart_civil by presburger
    also have "\<dots> \<longleftrightarrow> k \<le> l \<and> l < k + 12 div ?s"
      unfolding k [symmetric] N [symmetric] using sk(2) by simp
    finally show ?thesis .
  qed
  ultimately show ?thesis by auto
qed

theorem periods_of_year_complete_witness:
  "\<exists>k. billingPeriodsOfYear ''2026-05-17'' quarterly
      = Some (map (\<lambda>i. period_range quarterly (k + int i)) [0..<nat (12 div interval_months quarterly)])"
proof -
  have h: "era_iso ''2026-05-17''" "YearFromDay (iso_day ''2026-05-17'') < 9998" by code_simp+
  show ?thesis using periods_of_year_complete [OF h, of quarterly] by blast
qed

section \<open>Ranges from the URL\<close>

lemma billingRangeFromParams_Some:
  "billingRangeFromParams f t = Some r \<longleftrightarrow>
     f = Some (range_from r) \<and> t = Some (range_to r) \<and> isValidIsoDay (range_from r)
     \<and> isValidIsoDay (range_to r) \<and> range_from r \<le> range_to r"
proof -
  have "\<not> isValidIsoDay []" by code_simp
  then show ?thesis
    by (cases r) (auto simp: billingRangeFromParams_def not_less split: option.splits)
qed

text \<open>
  C38: the range in the URL of the invoice page is used exactly when both ends are real calendar
  dates (of the year 100 or later), the end is not before the start, and the start is not before
  the start of the community when that is known; it is then used unchanged.
\<close>

theorem url_range_accepted_iff:
  assumes "truthy s \<longrightarrow> valid_iso (the s)"
  shows "invoiceRangeFromParams f t s = Some r \<longleftrightarrow>
    f = Some (range_from r) \<and> t = Some (range_to r)
    \<and> valid_iso (range_from r) \<and> 100 \<le> YearFromDay (iso_day (range_from r))
    \<and> valid_iso (range_to r) \<and> iso_day (range_from r) \<le> iso_day (range_to r)
    \<and> (truthy s \<longrightarrow> iso_day (the s) \<le> iso_day (range_from r))"
proof -
  have "invoiceRangeFromParams f t s = Some r \<longleftrightarrow>
      billingRangeFromParams f t = Some r \<and> (truthy s \<longrightarrow> the s \<le> range_from r)"
    by (cases s) (auto simp: invoiceRangeFromParams_def not_less split: option.splits)
  also have "\<dots> \<longleftrightarrow> f = Some (range_from r) \<and> t = Some (range_to r)
    \<and> valid_iso (range_from r) \<and> 100 \<le> YearFromDay (iso_day (range_from r))
    \<and> valid_iso (range_to r) \<and> iso_day (range_from r) \<le> iso_day (range_to r)
    \<and> (truthy s \<longrightarrow> iso_day (the s) \<le> iso_day (range_from r))"
    unfolding billingRangeFromParams_Some isValidIsoDay_iff
    using assms YearFromDay_mono [of "iso_day (range_from r)" "iso_day (range_to r)"]
    by (auto simp: iso_le_iff)
  finally show ?thesis .
qed

theorem url_range_accepted_iff_witness:
  "invoiceRangeFromParams (Some ''2026-02-01'') (Some ''2026-02-28'') (Some ''2026-01-15'')
     = Some \<lparr>range_from = ''2026-02-01'', range_to = ''2026-02-28''\<rparr>
   \<and> invoiceRangeFromParams (Some ''2026-02-01'') (Some ''2026-02-30'') (Some ''2026-01-15'')
     \<noteq> Some \<lparr>range_from = ''2026-02-01'', range_to = ''2026-02-30''\<rparr>"
proof -
  have s: "truthy (Some ''2026-01-15'') \<longrightarrow> valid_iso (the (Some ''2026-01-15''))" by code_simp
  have ok: "valid_iso ''2026-02-01''" "valid_iso ''2026-02-28''" "\<not> valid_iso ''2026-02-30''"
    "100 \<le> YearFromDay (iso_day ''2026-02-01'')" "iso_day ''2026-02-01'' \<le> iso_day ''2026-02-28''"
    "iso_day ''2026-01-15'' \<le> iso_day ''2026-02-01''" by code_simp+
  show ?thesis using ok by (simp add: url_range_accepted_iff [OF s])
qed

text \<open>The default period of the billing pages and the period a list filter falls back to.\<close>

lemma previous_in_era:
  assumes "era_day d" "1000 < YearFromDay d"
  shows "in_era iv (pcell iv d - 1)"
proof -
  have era: "in_era iv (pcell iv d)" by (rule in_era_pcell [OF assms(1)])
  have "12012 \<le> month_index d" using assms(2) month_index_year_bounds [of d] by linarith
  moreover have "month_index d < interval_months iv * pcell iv d + interval_months iv"
    using floor_div [OF interval_months_bounds(1) [of iv], of "month_index d"] by (simp add: pcell_def)
  ultimately have "12000 \<le> interval_months iv * (pcell iv d - 1)"
    using interval_months_cases [of iv] by (auto simp: right_diff_distrib)
  then show ?thesis
    using era interval_months_bounds [of iv] by (simp add: in_era_def right_diff_distrib)
qed

lemma getPreviousBillingPeriod_grid:
  assumes "era_day d" "1000 < YearFromDay d"
  shows "getPreviousBillingPeriod (Some d) iv = period_range iv (pcell iv d - 1)"
  using in_era_pcell [OF assms(1)] previous_in_era [OF assms] shift_period_range [of iv "pcell iv d" "- 1"]
    assms(1) startOfBillingPeriod_grid [of d iv]
  by (simp add: getPreviousBillingPeriod_def era_day_def formatIsoDate_pstart)

lemma alignedPeriodEndingWith_grid:
  assumes "era_iso (range_to r)"
  shows "alignedPeriodEndingWith r iv = period_range iv (pcell iv (iso_day (range_to r)))"
  using era_iso_grid [OF assms] mk_range_grid [of iv] by (simp add: alignedPeriodEndingWith_def)

end
