(* ===== verification/Billing_Params.thy ===== *)
theory Billing_Params
  imports Billing_Navigation
begin

text \<open>
  \<open>frontend/src/lib/useBillingPeriodParams.ts\<close>, with \<open>updateParams\<close> of
  \<open>usePageNavigation.ts\<close> and \<open>billingPeriodName\<close> of \<open>billingPeriod.ts\<close>: the
  billing period of a page lives in the query string of its URL. When the community changes, an
  effect rewrites the URL, possibly several times, until URL and community agree. The state is the
  query string and the context the hook last resolved; one run of the effect is a function on it.
\<close>

section \<open>Query strings\<close>

text \<open>\<open>URLSearchParams\<close>: pairs in order, \<open>get\<close> reads the first one of a name.\<close>

type_synonym params = "(string \<times> string) list"

definition params_has :: "params \<Rightarrow> string \<Rightarrow> bool" where
  "params_has ps k \<longleftrightarrow> k \<in> set (map fst ps)"

definition params_get :: "params \<Rightarrow> string \<Rightarrow> string option" where
  "params_get ps k = map_of ps k"

definition params_delete :: "string \<Rightarrow> params \<Rightarrow> params" where
  "params_delete k ps = filter (\<lambda>p. fst p \<noteq> k) ps"

text \<open>\<open>set\<close> overwrites the first pair of the name and drops its others, or appends.\<close>

fun params_set :: "string \<Rightarrow> string \<Rightarrow> params \<Rightarrow> params" where
  "params_set k v [] = [(k, v)]"
| "params_set k v (p # ps) = (if fst p = k then (k, v) # params_delete k ps else p # params_set k v ps)"

section \<open>Model of the source\<close>

datatype fallback_policy = current | previous_complete

datatype scope_change = preserve_url | reset | align

record BillingPeriodParamsPolicy =
  pol_interval :: "BillingInterval option"
  pol_ready :: bool
  pol_scopeId :: string
  pol_fallback :: fallback_policy
  pol_minimumRangeStart :: "string option"
  pol_minimumFallback :: "BillingRange option"
  pol_legacyParams :: bool
  pol_scopeChange :: scope_change

definition readBillingPeriodParams :: "params \<Rightarrow> bool \<Rightarrow> BillingRange option" where
  "readBillingPeriodParams ps legacyParams =
     (if params_has ps ''period_start'' \<or> params_has ps ''period_end''
      then billingRangeFromParams (params_get ps ''period_start'') (params_get ps ''period_end'')
      else if legacyParams then billingRangeFromParams (params_get ps ''from'') (params_get ps ''to'')
      else None)"

definition UNRESOLVED_RANGE :: BillingRange where
  "UNRESOLVED_RANGE = \<lparr>range_from = [], range_to = []\<rparr>"

definition resolveBillingPeriodTarget ::
    "bool \<Rightarrow> scope_change \<Rightarrow> BillingInterval \<Rightarrow> BillingRange option \<Rightarrow> bool \<Rightarrow> BillingRange
     \<Rightarrow> string option \<Rightarrow> BillingRange option \<Rightarrow> BillingRange option" where
  "resolveBillingPeriodTarget scopeChanged scopeChange interval validRange hasRangeParams
       fallbackRange minimumRangeStart minimumFallback =
     (if scopeChanged \<and> scopeChange = reset then Some fallbackRange
      else if scopeChange \<noteq> align then None
      else if hasRangeParams \<and> validRange = None then Some fallbackRange
      else case validRange of
             None \<Rightarrow> None
           | Some valid \<Rightarrow>
               if \<not> scopeChanged \<or> isBillingAlignedPeriod (range_from valid) (range_to valid) interval then None
               else let aligned = alignedPeriodEndingWith valid interval
                    in if invoiceRangeFromParams (Some (range_from aligned)) (Some (range_to aligned)) minimumRangeStart = None
                          \<or> (case minimumFallback of None \<Rightarrow> False | Some m \<Rightarrow> range_from aligned < range_from m)
                       then Some fallbackRange
                       else Some aligned)"

text \<open>The text an interval contributes to the context key.\<close>

definition interval_str :: "BillingInterval option \<Rightarrow> string" where
  "interval_str iv = (case iv of None \<Rightarrow> ''undefined'' | Some monthly \<Rightarrow> ''monthly''
     | Some quarterly \<Rightarrow> ''quarterly'' | Some semi_annual \<Rightarrow> ''semi_annual'' | Some annual \<Rightarrow> ''annual'')"

record hook_state =
  searchParams :: params
  resolvedContext :: "string option"

text \<open>What one render of the hook computes, in the order of the source.\<close>

definition is_ready :: "BillingPeriodParamsPolicy \<Rightarrow> bool" where
  "is_ready pol \<longleftrightarrow> pol_ready pol \<and> pol_interval pol \<noteq> None"

definition context_key :: "BillingPeriodParamsPolicy \<Rightarrow> string" where
  "context_key pol = pol_scopeId pol @ ''|'' @ interval_str (pol_interval pol)"

definition initial_context :: "BillingPeriodParamsPolicy \<Rightarrow> string option" where
  "initial_context pol = (if is_ready pol then Some (context_key pol) else None)"

definition scope_changed :: "BillingPeriodParamsPolicy \<Rightarrow> hook_state \<Rightarrow> bool" where
  "scope_changed pol st \<longleftrightarrow>
     is_ready pol \<and> resolvedContext st \<noteq> None \<and> resolvedContext st \<noteq> Some (context_key pol)"

definition fallback_range :: "js_date \<Rightarrow> BillingPeriodParamsPolicy \<Rightarrow> BillingRange" where
  "fallback_range today pol =
     (let defaultRange = (case pol_interval pol of
            None \<Rightarrow> UNRESOLVED_RANGE
          | Some iv \<Rightarrow> if pol_fallback pol = previous_complete then getPreviousBillingPeriod today iv
                       else getCurrentBillingPeriod today iv)
      in case pol_minimumFallback pol of
           None \<Rightarrow> defaultRange
         | Some m \<Rightarrow> if range_from defaultRange < range_from m then m else defaultRange)"

definition requested :: "BillingPeriodParamsPolicy \<Rightarrow> params \<Rightarrow> BillingRange option" where
  "requested pol ps = readBillingPeriodParams ps (pol_legacyParams pol)"

definition valid_range :: "BillingPeriodParamsPolicy \<Rightarrow> params \<Rightarrow> BillingRange option" where
  "valid_range pol ps =
     invoiceRangeFromParams (map_option range_from (requested pol ps)) (map_option range_to (requested pol ps))
       (pol_minimumRangeStart pol)"

definition has_range_params :: "BillingPeriodParamsPolicy \<Rightarrow> params \<Rightarrow> bool" where
  "has_range_params pol ps \<longleftrightarrow>
     params_has ps ''period_start'' \<or> params_has ps ''period_end''
     \<or> pol_legacyParams pol \<and> (params_has ps ''from'' \<or> params_has ps ''to'')"

definition rejected :: "BillingPeriodParamsPolicy \<Rightarrow> params \<Rightarrow> bool" where
  "rejected pol ps \<longleftrightarrow>
     is_ready pol \<and> pol_scopeChange pol = align \<and> has_range_params pol ps \<and> valid_range pol ps = None"

definition target :: "js_date \<Rightarrow> BillingPeriodParamsPolicy \<Rightarrow> hook_state \<Rightarrow> BillingRange option" where
  "target today pol st =
     (case pol_interval pol of
        None \<Rightarrow> None
      | Some iv \<Rightarrow>
          if is_ready pol
          then resolveBillingPeriodTarget (scope_changed pol st) (pol_scopeChange pol) iv
                 (valid_range pol (searchParams st)) (has_range_params pol (searchParams st))
                 (fallback_range today pol) (pol_minimumRangeStart pol) (pol_minimumFallback pol)
          else None)"

definition period :: "js_date \<Rightarrow> BillingPeriodParamsPolicy \<Rightarrow> hook_state \<Rightarrow> BillingRange" where
  "period today pol st =
     (if \<not> is_ready pol then UNRESOLVED_RANGE
      else nullish (target today pol st) (nullish (valid_range pol (searchParams st)) (fallback_range today pol)))"

definition setPeriod :: "BillingPeriodParamsPolicy \<Rightarrow> BillingRange \<Rightarrow> params \<Rightarrow> params" where
  "setPeriod pol next ps =
     (if \<not> is_ready pol \<or> invoiceRangeFromParams (Some (range_from next)) (Some (range_to next))
           (pol_minimumRangeStart pol) = None
      then ps
      else let qs = params_set ''period_end'' (range_to next) (params_set ''period_start'' (range_from next) ps)
           in if pol_legacyParams pol then params_delete ''to'' (params_delete ''from'' qs) else qs)"

text \<open>One run of the effect.\<close>

definition run_effect :: "js_date \<Rightarrow> BillingPeriodParamsPolicy \<Rightarrow> hook_state \<Rightarrow> hook_state" where
  "run_effect today pol st =
     (if \<not> is_ready pol \<or> resolvedContext st = Some (context_key pol) \<and> \<not> rejected pol (searchParams st)
      then st
      else case target today pol st of
             Some t \<Rightarrow>
               if range_from t \<noteq> [] \<and> range_to t \<noteq> [] \<and> requested pol (searchParams st) \<noteq> Some t
               then st\<lparr>searchParams := setPeriod pol t (searchParams st)\<rparr>
               else st\<lparr>resolvedContext := Some (context_key pol)\<rparr>
           | None \<Rightarrow> st\<lparr>resolvedContext := Some (context_key pol)\<rparr>)"

text \<open>
  \<open>billingPeriodName\<close>: the two \<open>Intl\<close> formatters of the locale and its upper-casing are
  arguments; a date is read at UTC midnight.
\<close>

definition billingPeriodName ::
    "(js_date \<Rightarrow> string) \<Rightarrow> (js_date \<Rightarrow> string) \<Rightarrow> (string \<Rightarrow> string) \<Rightarrow> string \<Rightarrow> string \<Rightarrow> string" where
  "billingPeriodName monthFmt monthYearFmt upper fromIso toIso =
     (let dash = '' '' @ en_dash @ '' '';
          frm = parse_day fromIso; til = parse_day toIso;
          name = (if slice 0 7 fromIso = slice 0 7 toIso then monthYearFmt frm
                  else if slice 0 4 fromIso = slice 0 4 toIso then monthFmt frm @ dash @ monthYearFmt til
                  else monthYearFmt frm @ dash @ monthYearFmt til)
      in upper (take 1 name) @ drop 1 name)"

section \<open>Query string laws\<close>

lemma params_get_delete [simp]: "params_get (params_delete k ps) j = (if j = k then None else params_get ps j)"
  by (induction ps) (auto simp: params_get_def params_delete_def)

lemma params_get_set [simp]: "params_get (params_set k v ps) j = (if j = k then Some v else params_get ps j)"
proof (induction ps)
  case (Cons p ps)
  then show ?case
    using params_get_delete [of k ps j] by (auto simp: params_get_def)
qed (simp add: params_get_def)

lemma params_has_get: "params_has ps k \<longleftrightarrow> params_get ps k \<noteq> None"
  by (auto simp: params_has_def params_get_def map_of_eq_None_iff)

section \<open>Settling\<close>

definition accepted :: "BillingPeriodParamsPolicy \<Rightarrow> BillingRange \<Rightarrow> bool" where
  "accepted pol r \<longleftrightarrow>
     invoiceRangeFromParams (Some (range_from r)) (Some (range_to r)) (pol_minimumRangeStart pol) = Some r"

lemma invoiceRange_Some:
  "invoiceRangeFromParams (Some a) (Some b) m = Some r \<Longrightarrow> r = \<lparr>range_from = a, range_to = b\<rparr>"
  by (auto simp: invoiceRangeFromParams_def billingRangeFromParams_def split: if_splits option.splits)

lemma accepted_iff:
  "accepted pol r \<longleftrightarrow>
     invoiceRangeFromParams (Some (range_from r)) (Some (range_to r)) (pol_minimumRangeStart pol) \<noteq> None"
  using invoiceRange_Some [of "range_from r" "range_to r"] by (cases r) (auto simp: accepted_def)

lemma accepted_nonempty: "accepted pol r \<Longrightarrow> range_from r \<noteq> [] \<and> range_to r \<noteq> []"
  by (auto simp: accepted_def invoiceRangeFromParams_def billingRangeFromParams_def split: if_splits option.splits)

lemma requested_setPeriod:
  assumes "is_ready pol" "accepted pol r"
  shows "requested pol (setPeriod pol r ps) = Some r" "valid_range pol (setPeriod pol r ps) = Some r"
    "\<not> rejected pol (setPeriod pol r ps)"
proof -
  have b: "billingRangeFromParams (Some (range_from r)) (Some (range_to r)) = Some r"
    using assms(2) by (auto simp: accepted_def invoiceRangeFromParams_def split: option.splits if_splits)
  show req: "requested pol (setPeriod pol r ps) = Some r"
    using assms b by (simp add: requested_def readBillingPeriodParams_def setPeriod_def accepted_def
        params_has_get Let_def)
  then show v: "valid_range pol (setPeriod pol r ps) = Some r"
    using assms(2) by (simp add: valid_range_def accepted_def)
  show "\<not> rejected pol (setPeriod pol r ps)" using v by (simp add: rejected_def)
qed

lemma valid_range_accepted: "valid_range pol ps = Some r \<Longrightarrow> accepted pol r"
  by (auto simp: valid_range_def accepted_def invoiceRangeFromParams_def billingRangeFromParams_def
      split: option.splits if_splits)

lemma period_range_aligned:
  assumes "in_era iv k"
  shows "isBillingAlignedPeriod (range_from (period_range iv k)) (range_to (period_range iv k)) iv"
proof -
  note v = period_range_valid [OF assms]
  have "startOfBillingPeriod (Some (pstart iv k)) iv = Some (pstart iv k)"
    using startOfBillingPeriod_grid [of "pstart iv k" iv] in_era_years [OF assms] by simp
  then show ?thesis
    using v valid_iso_not_Nil [OF v(1)] valid_iso_not_Nil [OF v(3)] endOf_period_from [OF assms]
      formatIsoDate_pstart [OF assms] by (simp add: isBillingAlignedPeriod_def Let_def)
qed

lemma period_range_accepted:
  assumes "in_era iv k" "truthy (pol_minimumRangeStart pol) \<longrightarrow> the (pol_minimumRangeStart pol) \<le> range_from (period_range iv k)"
  shows "accepted pol (period_range iv k)"
proof -
  note v = period_range_valid [OF assms(1)] and y = in_era_years [OF assms(1)]
  have "pstart iv k \<le> pstart iv (k + 1) - 1" using grid.start_less_iff [of iv k "k + 1"] by linarith
  then have "billingRangeFromParams (Some (range_from (period_range iv k))) (Some (range_to (period_range iv k)))
      = Some (period_range iv k)"
    unfolding billingRangeFromParams_Some isValidIsoDay_iff using v y by (simp add: iso_le_iff)
  then show ?thesis
    using assms(2) by (cases "pol_minimumRangeStart pol") (auto simp: accepted_def invoiceRangeFromParams_def)
qed

text \<open>The hook has settled when its context is the current one and its URL is not rejected.\<close>

definition settled :: "BillingPeriodParamsPolicy \<Rightarrow> hook_state \<Rightarrow> bool" where
  "settled pol st \<longleftrightarrow> resolvedContext st = Some (context_key pol) \<and> \<not> rejected pol (searchParams st)"

text \<open>What the caller has to provide: an aligned default that its own bound accepts.\<close>

definition sound_policy :: "js_date \<Rightarrow> BillingPeriodParamsPolicy \<Rightarrow> bool" where
  "sound_policy today pol =
     (is_ready pol \<and> accepted pol (fallback_range today pol) \<and>
      (case pol_interval pol of None \<Rightarrow> False
       | Some iv \<Rightarrow> isBillingAlignedPeriod (range_from (fallback_range today pol)) (range_to (fallback_range today pol)) iv))"

definition url_in_era :: "BillingPeriodParamsPolicy \<Rightarrow> params \<Rightarrow> bool" where
  "url_in_era pol ps =
     (case (valid_range pol ps, pol_interval pol) of
        (Some r, Some iv) \<Rightarrow> isBillingAlignedPeriod (range_from r) (range_to r) iv \<or> era_iso (range_to r)
      | _ \<Rightarrow> True)"

lemma default_policy_sound:
  assumes "is_ready pol" "pol_minimumFallback pol = None" "pol_minimumRangeStart pol = None"
    "era_day d" "1000 < YearFromDay d"
  shows "sound_policy (Some d) pol"
proof -
  obtain iv where iv: "pol_interval pol = Some iv" using assms(1) by (auto simp: is_ready_def)
  have "in_era iv (pcell iv d - 1)" "in_era iv (pcell iv d)"
    using previous_in_era [OF assms(4,5)] in_era_pcell [OF assms(4)] by simp_all
  moreover have "fallback_range (Some d) pol = period_range iv (pcell iv d - 1)
      \<or> fallback_range (Some d) pol = period_range iv (pcell iv d)"
    using iv assms by (simp add: fallback_range_def getPreviousBillingPeriod_grid current_grid)
  ultimately show ?thesis
    using assms(1,3) iv period_range_aligned period_range_accepted unfolding sound_policy_def by auto
qed

lemma settled_target: "settled pol st \<Longrightarrow> target today pol st = None"
  by (auto simp: target_def settled_def scope_changed_def rejected_def resolveBillingPeriodTarget_def
      split: option.splits if_splits)

lemma settled_effect: "settled pol st \<Longrightarrow> run_effect today pol st = st"
  by (simp add: run_effect_def settled_def)

lemma target_sound:
  assumes "sound_policy today pol" "url_in_era pol (searchParams st)" "target today pol st = Some t"
  shows "accepted pol t"
    and "\<And>iv. pol_interval pol = Some iv \<Longrightarrow> isBillingAlignedPeriod (range_from t) (range_to t) iv"
proof -
  obtain iv where iv: "pol_interval pol = Some iv" and fb: "accepted pol (fallback_range today pol)"
    "isBillingAlignedPeriod (range_from (fallback_range today pol)) (range_to (fallback_range today pol)) iv"
    using assms(1) by (auto simp: sound_policy_def split: option.splits)
  consider "t = fallback_range today pol"
    | r where "valid_range pol (searchParams st) = Some r" "t = alignedPeriodEndingWith r iv"
      "accepted pol t" "\<not> isBillingAlignedPeriod (range_from r) (range_to r) iv"
    using assms(3) iv
    by (auto simp: target_def resolveBillingPeriodTarget_def accepted_iff Let_def
        split: if_splits option.splits)
  then have "accepted pol t \<and> isBillingAlignedPeriod (range_from t) (range_to t) iv"
  proof cases
    case 2
    then have era: "era_iso (range_to r)" using assms(2) iv by (simp add: url_in_era_def)
    show ?thesis
      using 2 alignedPeriodEndingWith_grid [OF era] period_range_aligned era_iso_grid(3) [OF era] by metis
  qed (use fb in simp)
  with iv show "accepted pol t"
    and "\<And>iv. pol_interval pol = Some iv \<Longrightarrow> isBillingAlignedPeriod (range_from t) (range_to t) iv"
    by simp_all
qed

text \<open>
  After a rewrite of the URL the only target left is the one just written, and it is \<open>period\<close>.
\<close>

lemma target_after_rewrite:
  assumes "sound_policy today pol" "url_in_era pol (searchParams st)" "target today pol st = Some t"
  defines "st' \<equiv> st\<lparr>searchParams := setPeriod pol t (searchParams st)\<rparr>"
  shows "target today pol st' \<in> {None, Some t}" "url_in_era pol (searchParams st')"
    "valid_range pol (searchParams st') = Some t" "requested pol (searchParams st') = Some t"
    "\<not> rejected pol (searchParams st')"
proof -
  have ready: "is_ready pol" using assms(1) by (simp add: sound_policy_def)
  note acc = target_sound [OF assms(1-3)]
  show v: "valid_range pol (searchParams st') = Some t" "requested pol (searchParams st') = Some t"
    "\<not> rejected pol (searchParams st')"
    using requested_setPeriod [OF ready acc(1)] by (simp_all add: st'_def)
  then show "url_in_era pol (searchParams st')" using acc(2) by (auto simp: url_in_era_def split: option.splits)
  have sc: "scope_changed pol st' = scope_changed pol st" by (simp add: scope_changed_def st'_def)
  show "target today pol st' \<in> {None, Some t}"
    using assms(3) acc(2) v unfolding target_def sc
    by (auto simp: resolveBillingPeriodTarget_def split: option.splits if_splits)
qed

lemma effect_cases:
  assumes "is_ready pol" "\<not> settled pol st"
  obtains (resolve) "run_effect today pol st = st\<lparr>resolvedContext := Some (context_key pol)\<rparr>"
      "target today pol st = None \<or> (\<exists>t. target today pol st = Some t \<and>
        (requested pol (searchParams st) = Some t \<or> range_from t = [] \<or> range_to t = []))"
    | (rewrite) t where "target today pol st = Some t" "requested pol (searchParams st) \<noteq> Some t"
      "run_effect today pol st = st\<lparr>searchParams := setPeriod pol t (searchParams st)\<rparr>"
proof (cases "target today pol st")
  case None
  then show ?thesis using assms resolve by (simp add: run_effect_def settled_def)
next
  case (Some t)
  then have "run_effect today pol st =
      (if range_from t \<noteq> [] \<and> range_to t \<noteq> [] \<and> requested pol (searchParams st) \<noteq> Some t
       then st\<lparr>searchParams := setPeriod pol t (searchParams st)\<rparr>
       else st\<lparr>resolvedContext := Some (context_key pol)\<rparr>)"
    using assms by (auto simp: run_effect_def settled_def)
  with Some show ?thesis
    using resolve rewrite by (metis (no_types))
qed

lemma resolve_settles:
  assumes "sound_policy today pol" "url_in_era pol (searchParams st)"
    "target today pol st = None \<or> target today pol st = requested pol (searchParams st)"
  defines "st' \<equiv> st\<lparr>resolvedContext := Some (context_key pol)\<rparr>"
  shows "settled pol st'" "period today pol st' = period today pol st"
proof -
  have ready: "is_ready pol" using assms(1) by (simp add: sound_policy_def)
  have t: "nullish (target today pol st) (nullish (valid_range pol (searchParams st)) (fallback_range today pol))
      = nullish (valid_range pol (searchParams st)) (fallback_range today pol) \<and> \<not> rejected pol (searchParams st)"
  proof (cases "target today pol st")
    case None
    then have "\<not> rejected pol (searchParams st)"
      by (auto simp: target_def rejected_def resolveBillingPeriodTarget_def is_ready_def split: if_splits option.splits)
    with None show ?thesis by simp
  next
    case (Some r)
    then have "requested pol (searchParams st) = Some r" using assms(3) by simp
    then have "valid_range pol (searchParams st) = Some r"
      using target_sound(1) [OF assms(1,2) Some] by (simp add: valid_range_def accepted_def)
    with Some show ?thesis by (simp add: rejected_def)
  qed
  then show s: "settled pol st'" by (simp add: settled_def st'_def)
  show "period today pol st' = period today pol st"
    using t settled_target [OF s] ready by (simp add: period_def) (simp add: st'_def)
qed

lemma effect_progress:
  assumes "sound_policy today pol" "url_in_era pol (searchParams st)"
  shows "period today pol (run_effect today pol st) = period today pol st"
    "url_in_era pol (searchParams (run_effect today pol st))"
    "settled pol (run_effect today pol st) \<or> requested pol (searchParams (run_effect today pol st))
       = target today pol (run_effect today pol st) \<or> target today pol (run_effect today pol st) = None"
proof -
  let ?st = "run_effect today pol st"
  have ready: "is_ready pol" using assms(1) by (simp add: sound_policy_def)
  have "period today pol ?st = period today pol st \<and> url_in_era pol (searchParams ?st) \<and>
    (settled pol ?st \<or> requested pol (searchParams ?st) = target today pol ?st \<or> target today pol ?st = None)"
  proof (cases "settled pol st")
    case True
    then show ?thesis using assms(2) by (simp add: settled_effect)
  next
    case False
    show ?thesis
    proof (rule effect_cases [OF ready False, of today])
      assume r: "?st = st\<lparr>resolvedContext := Some (context_key pol)\<rparr>"
        "target today pol st = None \<or> (\<exists>t. target today pol st = Some t \<and>
          (requested pol (searchParams st) = Some t \<or> range_from t = [] \<or> range_to t = []))"
      then have "target today pol st = None \<or> target today pol st = requested pol (searchParams st)"
        using target_sound(1) [OF assms] accepted_nonempty by metis
      from resolve_settles [OF assms this] show ?thesis using r(1) assms(2) by simp
    next
      fix t assume w: "target today pol st = Some t"
        "?st = st\<lparr>searchParams := setPeriod pol t (searchParams st)\<rparr>"
      note a = target_after_rewrite [OF assms w(1), folded w(2)]
      then show ?thesis using ready w(1) by (auto simp: period_def)
    qed
  qed
  then show "period today pol ?st = period today pol st" "url_in_era pol (searchParams ?st)"
    "settled pol ?st \<or> requested pol (searchParams ?st) = target today pol ?st \<or> target today pol ?st = None"
    by simp_all
qed

lemma effect_settles:
  assumes "sound_policy today pol" "url_in_era pol (searchParams st)"
  shows "settled pol (run_effect today pol (run_effect today pol st))"
proof -
  let ?st = "run_effect today pol st"
  have ready: "is_ready pol" using assms(1) by (simp add: sound_policy_def)
  note p = effect_progress [OF assms]
  show ?thesis
  proof (cases "settled pol ?st")
    case True
    then show ?thesis by (simp add: settled_effect)
  next
    case False
    then have "target today pol ?st = None \<or> target today pol ?st = requested pol (searchParams ?st)"
      using p(3) by auto
    moreover from this False have "run_effect today pol ?st = ?st\<lparr>resolvedContext := Some (context_key pol)\<rparr>"
      using ready by (auto simp: run_effect_def settled_def split: option.splits)
    ultimately show ?thesis using resolve_settles(1) [OF assms(1) p(2)] by simp
  qed
qed

text \<open>
  C2: whenever the caller's default period is aligned and accepted by its own bound, the URL and
  the community agree after at most two runs of the effect and stay so, and the period the page
  shows never changes on the way: no query sees the old range with the new community.
\<close>

theorem billing_params_settle:
  assumes "sound_policy today pol" "url_in_era pol (searchParams st)"
  shows "period today pol ((run_effect today pol ^^ n) st) = period today pol st
    \<and> settled pol ((run_effect today pol ^^ (n + 2)) st)
    \<and> (run_effect today pol ^^ (n + 2)) st = (run_effect today pol ^^ 2) st"
proof -
  let ?f = "run_effect today pol"
  have inv: "period today pol ((?f ^^ n) st) = period today pol st \<and> url_in_era pol (searchParams ((?f ^^ n) st))" for n
    by (induction n) (use assms effect_progress [OF assms(1)] in auto)
  have two: "settled pol ((?f ^^ 2) st)"
    using effect_settles [OF assms] by (simp add: numeral_2_eq_2)
  have stay: "(?f ^^ n) x = x" if "settled pol x" for n x
    by (induction n) (use that in \<open>simp_all add: settled_effect\<close>)
  have fix2: "(?f ^^ (n + 2)) st = (?f ^^ 2) st" for n
    unfolding funpow_add comp_def by (rule stay [OF two])
  show ?thesis using inv two fix2 by metis
qed

theorem billing_params_settle_witness:
  "let pol = \<lparr>pol_interval = Some quarterly, pol_ready = True, pol_scopeId = ''zev-2'', pol_fallback = previous_complete,
        pol_minimumRangeStart = None, pol_minimumFallback = None, pol_legacyParams = False,
        pol_scopeChange = align\<rparr>;
       st = \<lparr>searchParams = [(''period_start'', ''2026-02-01''), (''period_end'', ''2026-02-28'')],
        resolvedContext = Some ''zev-1|monthly''\<rparr>
   in settled pol ((run_effect (Some 20600) pol ^^ (0 + 2)) st)"
proof -
  let ?pol = "\<lparr>pol_interval = Some quarterly, pol_ready = True, pol_scopeId = ''zev-2'', pol_fallback = previous_complete,
        pol_minimumRangeStart = None, pol_minimumFallback = None, pol_legacyParams = False,
        pol_scopeChange = align\<rparr>"
  let ?st = "\<lparr>searchParams = [(''period_start'', ''2026-02-01''), (''period_end'', ''2026-02-28'')],
        resolvedContext = Some ''zev-1|monthly''\<rparr>"
  have "era_day 20600" "1000 < YearFromDay 20600" by code_simp+
  then have h: "sound_policy (Some 20600) ?pol" by (intro default_policy_sound) (simp_all add: is_ready_def)
  have "era_iso ''2026-02-28''" by code_simp
  then have u: "url_in_era ?pol (searchParams ?st)"
    by (auto simp: url_in_era_def valid_range_def requested_def readBillingPeriodParams_def params_has_def
        params_get_def invoiceRangeFromParams_def billingRangeFromParams_def split: option.splits)
  show ?thesis using billing_params_settle [OF h u, of 0] unfolding Let_def by blast
qed

end
