(* ===== verification/Business_Day.thy ===== *)
theory Business_Day
  imports Dates
begin

text \<open>
  Civil days of the business time zone as intervals of instants. What the code relies on of
  the time zone database is the contract \<open>business_zone\<close>: Swiss time is one or two whole
  hours ahead of UTC, and the offset changes only at 01:00 UTC (the European summer-time
  rule, in force in Switzerland since 1981). The two-pass \<open>businessDayStartMs\<close> then
  returns the instant of local midnight, and an instant is printed as a civil date exactly
  when it lies between that date's midnight and the next one's.
\<close>

locale business_zone =
  fixes off :: "int \<Rightarrow> int"
  assumes whole_hours: "off t = 3600000 \<or> off t = 7200000"
    and changes_at_one: "(t - 3600000) div day_ms = (u - 3600000) div day_ms \<Longrightarrow> off t = off u"
begin

lemma off_bounds: "3600000 \<le> off t" "off t \<le> 7200000"
  using whole_hours [of t] by auto

lemma off_minutes: "off t div 60000 * 60000 = off t" "off t mod 60000 = 0"
  using whole_hours [of t] by auto

lemma wall_clock:
  assumes "100 \<le> YearFromDay ((t + off t) div day_ms)"
  shows "businessOffsetMs off t = off t"
proof -
  define w where "w = t + off t"
  have date: "date_of (YearFromDay (w div day_ms)) (MonthFromDay (w div day_ms))
      (DateFromDay (w div day_ms)) = w div day_ms"
    using assms by (simp add: date_of_def full_year_def w_def)
  have split: "w div day_ms * day_ms + w mod day_ms div 3600000 * 3600000
      + w mod day_ms mod 3600000 div 60000 * 60000 = w div 60000 * 60000"
  proof -
    have "w mod day_ms mod 3600000 mod 60000 = w mod 60000"
      by (simp add: mod_mod_cancel)
    then show ?thesis
      using mult_div_mod_eq [of day_ms w] mult_div_mod_eq [of 3600000 "w mod day_ms"]
        mult_div_mod_eq [of 60000 "w mod day_ms mod 3600000"] mult_div_mod_eq [of 60000 w]
      by linarith
  qed
  have "w div 60000 = t div 60000 + off t div 60000"
    using off_minutes(2) [of t] unfolding w_def by (simp add: div_plus_div_distrib_dvd_right mod_0_imp_dvd)
  then show ?thesis
    using date split off_minutes(1) [of t]
    unfolding businessOffsetMs_def zonedParts_def Let_def w_def [symmetric]
    by (simp add: algebra_simps)
qed

lemma off_before_midnight:
  assumes "D * day_ms - 7200000 \<le> t" "t \<le> D * day_ms"
  shows "off t = off (D * day_ms)"
proof (rule changes_at_one)
  have "(u - 3600000) div day_ms = D - 1" if "D * day_ms - 7200000 \<le> u" "u \<le> D * day_ms" for u
  proof (rule int_div_pos_eq)
    show "u - 3600000 = day_ms * (D - 1) + (u - 3600000 - (D - 1) * day_ms)" by simp
    show "0 \<le> u - 3600000 - (D - 1) * day_ms" using that by (simp add: left_diff_distrib)
    show "u - 3600000 - (D - 1) * day_ms < day_ms" using that by (simp add: left_diff_distrib)
  qed
  from this [OF assms] this [of "D * day_ms"]
  show "(t - 3600000) div day_ms = (D * day_ms - 3600000) div day_ms" by simp
qed

text \<open>Local midnight of the day \<open>D\<close>.\<close>

definition midnight :: "int \<Rightarrow> int" where
  "midnight D = D * day_ms - off (D * day_ms)"

lemma at_or_after_midnight: "midnight D \<le> t \<longleftrightarrow> D * day_ms \<le> t + off t"
proof -
  consider "t < D * day_ms - 7200000" | "D * day_ms - 7200000 \<le> t" "t \<le> D * day_ms" | "D * day_ms < t"
    by linarith
  then show ?thesis
    using off_before_midnight [of D t] off_bounds [of t] off_bounds [of "D * day_ms"]
    unfolding midnight_def by cases linarith+
qed

lemma local_day_iff: "(t + off t) div day_ms = D \<longleftrightarrow> midnight D \<le> t \<and> t < midnight (D + 1)"
proof -
  have "(t + off t) div day_ms = D \<longleftrightarrow> D * day_ms \<le> t + off t \<and> t + off t < (D + 1) * day_ms"
    using floor_div [of day_ms "t + off t"]
    by (auto intro: int_div_pos_eq [where r = "t + off t - D * day_ms"])
  then show ?thesis
    using at_or_after_midnight [of D t] at_or_after_midnight [of "D + 1" t] by linarith
qed

lemma midnight_local_time: "midnight D + off (midnight D) = D * day_ms"
  using off_before_midnight [of D "midnight D"] off_bounds [of "D * day_ms"]
  by (simp add: midnight_def)

lemma businessDayStartMs_eq:
  assumes "valid_iso s" "1000 \<le> YearFromDay (iso_day s)"
  shows "businessDayStartMs off s = Some (midnight (iso_day s))"
proof -
  let ?D = "iso_day s"
  let ?U = "?D * day_ms"
  have day: "(u + off u) div day_ms = ?D" if "?U \<le> u + off u" "u + off u \<le> ?U + 7200000" for u
    using that by (intro int_div_pos_eq [where r = "u + off u - ?U"]) simp_all
  have "(?U + off ?U) div day_ms = ?D"
    using off_bounds [of ?U] by (intro day) simp_all
  then have first: "businessOffsetMs off ?U = off ?U"
    using assms(2) by (intro wall_clock) simp
  have "(midnight ?D + off (midnight ?D)) div day_ms = ?D"
    using midnight_local_time [of ?D] by (intro day) simp_all
  then have "businessOffsetMs off (midnight ?D) = off (midnight ?D)"
    using assms(2) by (intro wall_clock) simp
  also have "\<dots> = off ?U" using midnight_local_time [of ?D] by (simp add: midnight_def)
  finally have "businessOffsetMs off (?U - off ?U) = off ?U" by (simp add: midnight_def)
  with first show ?thesis
    using parse_day_valid [OF assms(1)]
    unfolding businessDayStartMs_def utc_midnight_def by (simp add: midnight_def Let_def)
qed

lemma day_length: "82800000 \<le> midnight (D + 1) - midnight D" "midnight (D + 1) - midnight D \<le> 90000000"
  using off_bounds [of "D * day_ms"] off_bounds [of "(D + 1) * day_ms"]
  unfolding midnight_def by (simp_all add: left_diff_distrib distrib_right)

lemma business_date_iff:
  assumes "valid_iso s" "1000 \<le> YearFromDay (iso_day s)" "YearFromDay (iso_day s + 1) \<le> 9999"
    and "padded_year ((t + off t) div day_ms)"
  shows "formatBusinessIsoDate off t = s \<longleftrightarrow>
    (\<exists>a b. businessDayStartMs off s = Some a \<and> businessDayStartMs off (nextIsoDate s) = Some b
      \<and> a \<le> t \<and> t < b)"
proof -
  have y: "1000 \<le> YearFromDay (iso_day s + 1)"
    using assms(2) YearFromDay_mono [of "iso_day s" "iso_day s + 1"] by simp
  have nxt: "nextIsoDate s = toISODate (iso_day s + 1)"
    using assms(1,3) y by (intro nextIsoDate_valid) simp_all
  have "businessDayStartMs off (nextIsoDate s) = Some (midnight (iso_day s + 1))"
    unfolding nxt using y assms(3) by (subst businessDayStartMs_eq) simp_all
  moreover have "formatBusinessIsoDate off t = s \<longleftrightarrow> (t + off t) div day_ms = iso_day s"
    unfolding formatBusinessIsoDate_eq [of t off, OF assms(4)]
    using assms(4) four_digit_year_iso_day [OF assms(1)] toISODate_iso_day [OF assms(1)]
    by (metis (no_types, lifting) iso_day_toISODate padded_imp_four)
  ultimately show ?thesis
    using businessDayStartMs_eq [OF assms(1,2)] local_day_iff [of t "iso_day s"] by simp
qed

end

section \<open>The European summer-time rule satisfies the contract\<close>

definition last_sunday :: "int \<Rightarrow> int \<Rightarrow> int" where
  "last_sunday y m = (let d = month_day (12 * y + m + 1) - 1 in d - WeekDay d)"

text \<open>
  Two hours from 01:00 UTC on the last Sunday of March to 01:00 UTC on the last Sunday of
  October, one hour otherwise.
\<close>

definition eu_offset :: "int \<Rightarrow> int" where
  "eu_offset t =
     (let k = (t - 3600000) div day_ms; y = YearFromDay k
      in if last_sunday y 2 \<le> k \<and> k < last_sunday y 9 then 7200000 else 3600000)"

interpretation eu: business_zone eu_offset
  by unfold_locales (auto simp: eu_offset_def Let_def)

section \<open>Civil days as intervals of instants\<close>

text \<open>
  C31: in any time zone that is one or two hours ahead of UTC and changes its offset only at 01:00
  UTC, an instant is printed as the civil date \<open>s\<close> exactly when it lies between the start of
  that day and the start of the next one, also on the two days of the year that have 23 or 25 hours.
\<close>

theorem business_day_interval:
  assumes "business_zone off"
    "valid_iso s" "1000 \<le> YearFromDay (iso_day s)" "YearFromDay (iso_day s + 1) \<le> 9999"
    "padded_year ((t + off t) div day_ms)"
  shows "formatBusinessIsoDate off t = s \<longleftrightarrow>
    (\<exists>a b. businessDayStartMs off s = Some a \<and> businessDayStartMs off (nextIsoDate s) = Some b
      \<and> a \<le> t \<and> t < b \<and> 82800000 \<le> b - a \<and> b - a \<le> 90000000)"
proof -
  have y: "1000 \<le> YearFromDay (iso_day s + 1)"
    using assms(3) YearFromDay_mono [of "iso_day s" "iso_day s + 1"] by simp
  have "nextIsoDate s = toISODate (iso_day s + 1)"
    using assms(2,4) y by (intro nextIsoDate_valid) simp_all
  then have nxt: "businessDayStartMs off (nextIsoDate s) = Some (business_zone.midnight off (iso_day s + 1))"
    using y assms(4) business_zone.businessDayStartMs_eq [OF assms(1), of "nextIsoDate s"] by simp
  show ?thesis
    unfolding business_zone.business_date_iff [OF assms]
    using business_zone.day_length [OF assms(1), of "iso_day s"] nxt
      business_zone.businessDayStartMs_eq [OF assms(1-3)] by auto
qed

theorem business_day_interval_witness:
  "formatBusinessIsoDate eu_offset 1774742400000 = ''2026-03-29'' \<longleftrightarrow>
    (\<exists>a b. businessDayStartMs eu_offset ''2026-03-29'' = Some a
      \<and> businessDayStartMs eu_offset (nextIsoDate ''2026-03-29'') = Some b
      \<and> a \<le> 1774742400000 \<and> 1774742400000 < b \<and> 82800000 \<le> b - a \<and> b - a \<le> 90000000)"
proof (rule business_day_interval [OF eu.business_zone_axioms])
  show "valid_iso ''2026-03-29''" by code_simp
  show "1000 \<le> YearFromDay (iso_day ''2026-03-29'')" by code_simp
  show "YearFromDay (iso_day ''2026-03-29'' + 1) \<le> 9999" by code_simp
  show "padded_year ((1774742400000 + eu_offset 1774742400000) div day_ms)" by code_simp
qed

end
