(* ===== verification/JS_Number.thy ===== *)
theory JS_Number
  imports Complex_Main Prelude
begin

text \<open>
  JavaScript numbers as the components need them: an IEEE 754 double is \<open>NaN\<close>, an infinity or
  a rational, every arithmetic result and every literal is rounded to 53 bits (to nearest, ties to
  even), and \<open>Number(s)\<close> follows the grammar of the ECMAScript specification. Negative zero is
  identified with zero: no modelled function observes the difference.
\<close>

section \<open>Doubles\<close>

datatype jsnum = NaN | Infty bool | Fin rat

text \<open>The number of binary digits.\<close>

function bitlen :: "int \<Rightarrow> int" where
  "bitlen n = (if n \<le> 0 then 0 else 1 + bitlen (n div 2))"
  by auto
termination by (relation "measure nat") auto

declare bitlen.simps [simp del]

definition two_pow :: "int \<Rightarrow> rat" where
  "two_pow e = (if 0 \<le> e then 2 ^ nat e else 1 / 2 ^ nat (- e))"

text \<open>\<open>\<lfloor>log\<^sub>2 q\<rfloor>\<close> for positive \<open>q\<close>.\<close>

definition floor_log2 :: "rat \<Rightarrow> int" where
  "floor_log2 q =
     (let (a, b) = quotient_of q; k = bitlen a - bitlen b
      in if two_pow k \<le> q then k else k - 1)"

definition round_half_even :: "rat \<Rightarrow> int" where
  "round_half_even q =
     (let f = \<lfloor>q\<rfloor>; r = q - of_int f
      in if r < 1 / 2 then f else if r > 1 / 2 then f + 1 else if even f then f else f + 1)"

definition fl :: "rat \<Rightarrow> rat" where
  "fl q = (if q = 0 then 0
     else let e = max (floor_log2 \<bar>q\<bar> - 52) (- 1074)
          in of_int (round_half_even (q / two_pow e)) * two_pow e)"

definition to_num :: "rat \<Rightarrow> jsnum" where
  "to_num q = (let r = fl q in if r \<noteq> 0 \<and> floor_log2 \<bar>r\<bar> \<ge> 1024 then Infty (0 < r) else Fin r)"

fun js_add :: "jsnum \<Rightarrow> jsnum \<Rightarrow> jsnum" where
  "js_add (Fin a) (Fin b) = to_num (a + b)"
| "js_add NaN y = NaN"
| "js_add x NaN = NaN"
| "js_add (Infty p) (Infty q) = (if p = q then Infty p else NaN)"
| "js_add (Infty p) (Fin b) = Infty p"
| "js_add (Fin a) (Infty q) = Infty q"

fun js_neg :: "jsnum \<Rightarrow> jsnum" where
  "js_neg NaN = NaN"
| "js_neg (Infty p) = Infty (\<not> p)"
| "js_neg (Fin a) = Fin (- a)"

definition js_sub :: "jsnum \<Rightarrow> jsnum \<Rightarrow> jsnum" where
  "js_sub x y = js_add x (js_neg y)"

fun js_mul :: "jsnum \<Rightarrow> jsnum \<Rightarrow> jsnum" where
  "js_mul (Fin a) (Fin b) = to_num (a * b)"
| "js_mul NaN y = NaN"
| "js_mul x NaN = NaN"
| "js_mul (Infty p) (Infty q) = Infty (p = q)"
| "js_mul (Infty p) (Fin b) = (if b = 0 then NaN else Infty (p = (0 < b)))"
| "js_mul (Fin a) (Infty q) = (if a = 0 then NaN else Infty (q = (0 < a)))"

text \<open>Division; \<open>x / 0\<close> is signed by \<open>x\<close>, zero being positive.\<close>

fun js_div :: "jsnum \<Rightarrow> jsnum \<Rightarrow> jsnum" where
  "js_div (Fin a) (Fin b) = (if b = 0 then if a = 0 then NaN else Infty (0 < a) else to_num (a / b))"
| "js_div NaN y = NaN"
| "js_div x NaN = NaN"
| "js_div (Infty p) (Infty q) = NaN"
| "js_div (Infty p) (Fin b) = Infty (p = (0 \<le> b))"
| "js_div (Fin a) (Infty q) = Fin 0"

text \<open>\<open>Math.round\<close>: halves go up.\<close>

fun js_round :: "jsnum \<Rightarrow> jsnum" where
  "js_round (Fin a) = Fin (of_int \<lfloor>a + 1 / 2\<rfloor>)"
| "js_round x = x"

fun js_less :: "jsnum \<Rightarrow> jsnum \<Rightarrow> bool" where
  "js_less (Fin a) (Fin b) \<longleftrightarrow> a < b"
| "js_less NaN y \<longleftrightarrow> False"
| "js_less x NaN \<longleftrightarrow> False"
| "js_less (Infty p) (Infty q) \<longleftrightarrow> \<not> p \<and> q"
| "js_less (Infty p) (Fin b) \<longleftrightarrow> \<not> p"
| "js_less (Fin a) (Infty q) \<longleftrightarrow> q"

text \<open>\<open>===\<close>: \<open>NaN\<close> differs from itself.\<close>

definition js_eq :: "jsnum \<Rightarrow> jsnum \<Rightarrow> bool" where
  "js_eq x y \<longleftrightarrow> x = y \<and> x \<noteq> NaN"

definition js_le :: "jsnum \<Rightarrow> jsnum \<Rightarrow> bool" where
  "js_le x y \<longleftrightarrow> js_less x y \<or> js_eq x y"

text \<open>\<open>Math.max\<close> and \<open>Math.min\<close>: \<open>NaN\<close> when either argument is.\<close>

definition js_max :: "jsnum \<Rightarrow> jsnum \<Rightarrow> jsnum" where
  "js_max x y = (if x = NaN \<or> y = NaN then NaN else if js_less x y then y else x)"

definition js_min :: "jsnum \<Rightarrow> jsnum \<Rightarrow> jsnum" where
  "js_min x y = (if x = NaN \<or> y = NaN then NaN else if js_less y x then y else x)"

definition js_isFinite :: "jsnum \<Rightarrow> bool" where
  "js_isFinite x = (case x of Fin _ \<Rightarrow> True | _ \<Rightarrow> False)"

text \<open>\<open>Number.isInteger(x)\<close>, with the integer.\<close>

definition num_int :: "jsnum \<Rightarrow> int option" where
  "num_int x = (case x of Fin q \<Rightarrow> (if of_int \<lfloor>q\<rfloor> = q then Some \<lfloor>q\<rfloor> else None) | _ \<Rightarrow> None)"

text \<open>The integer part towards zero, as \<open>Date\<close> reads its numeric arguments.\<close>

definition trunc :: "rat \<Rightarrow> int" where
  "trunc q = (if 0 \<le> q then \<lfloor>q\<rfloor> else \<lceil>q\<rceil>)"

lemma trunc_of_int [simp]: "trunc (of_int k) = k"
  by (simp add: trunc_def)

text \<open>
  What \<open>Array.prototype.sort\<close> makes of the result of a comparison function: not positive means
  no exchange, and \<open>NaN\<close> counts as zero.
\<close>

definition cmp_le :: "jsnum \<Rightarrow> bool" where
  "cmp_le c \<longleftrightarrow> \<not> js_less (Fin 0) c"

section \<open>Reading numbers\<close>

definition hex_val :: "char \<Rightarrow> nat option" where
  "hex_val c =
     (if is_digit c then Some (digit_val c)
      else if CHR ''a'' \<le> c \<and> c \<le> CHR ''f'' then Some (of_char c - 87)
      else if CHR ''A'' \<le> c \<and> c \<le> CHR ''F'' then Some (of_char c - 55)
      else None)"

fun radix_val :: "nat \<Rightarrow> nat \<Rightarrow> string \<Rightarrow> nat option" where
  "radix_val b acc [] = Some acc"
| "radix_val b acc (c # cs) =
     (case hex_val c of None \<Rightarrow> None
      | Some d \<Rightarrow> if d < b then radix_val b (acc * b + d) cs else None)"

definition radix_num :: "nat \<Rightarrow> string \<Rightarrow> jsnum" where
  "radix_num b s = (if s = [] then NaN else case radix_val b 0 s of None \<Rightarrow> NaN | Some n \<Rightarrow> to_num (of_nat n))"

text \<open>\<open>m * 10\<^sup>e\<close>.\<close>

definition ten_scale :: "nat \<Rightarrow> int \<Rightarrow> rat" where
  "ten_scale m e = (if 0 \<le> e then of_nat m * 10 ^ nat e else of_nat m / 10 ^ nat (- e))"

definition exponent_part :: "string \<Rightarrow> int option" where
  "exponent_part s =
     (let neg = (s \<noteq> [] \<and> hd s = CHR ''-'');
          ds = (if s \<noteq> [] \<and> (hd s = CHR ''-'' \<or> hd s = CHR ''+'') then tl s else s)
      in if ds = [] \<or> \<not> list_all is_digit ds then None
         else Some (if neg then - int (digits_val ds) else int (digits_val ds)))"

definition unsigned_decimal :: "string \<Rightarrow> rat option" where
  "unsigned_decimal s =
     (let ip = takeWhile is_digit s; r = dropWhile is_digit s;
          dot = (r \<noteq> [] \<and> hd r = CHR ''.'');
          fp = (if dot then takeWhile is_digit (tl r) else []);
          r2 = (if dot then dropWhile is_digit (tl r) else r);
          m = digits_val (ip @ fp)
      in if ip = [] \<and> fp = [] then None
         else if r2 = [] then Some (ten_scale m (- int (length fp)))
         else if hd r2 = CHR ''e'' \<or> hd r2 = CHR ''E''
         then map_option (\<lambda>e. ten_scale m (e - int (length fp))) (exponent_part (tl r2))
         else None)"

definition int_ten_scale :: "int \<Rightarrow> int \<Rightarrow> rat" where
  "int_ten_scale m e = (if 0 \<le> e then of_int (m * 10 ^ nat e) else Fract m (10 ^ nat (- e)))"

lemma ten_scale_digits: "ten_scale (digits_val s) e = int_ten_scale (digits_int s) e"
  by (simp add: ten_scale_def int_ten_scale_def int_digits_val [symmetric] Fract_of_int_quotient)

lemma unsigned_decimal_code [code]:
  "unsigned_decimal s =
     (let ip = takeWhile is_digit s; r = dropWhile is_digit s;
          dot = (r \<noteq> [] \<and> hd r = CHR ''.'');
          fp = (if dot then takeWhile is_digit (tl r) else []);
          r2 = (if dot then dropWhile is_digit (tl r) else r);
          m = digits_int (ip @ fp)
      in if ip = [] \<and> fp = [] then None
         else if r2 = [] then Some (int_ten_scale m (- int (length fp)))
         else if hd r2 = CHR ''e'' \<or> hd r2 = CHR ''E''
         then map_option (\<lambda>e. int_ten_scale m (e - int (length fp))) (exponent_part (tl r2))
         else None)"
  by (simp only: unsigned_decimal_def Let_def ten_scale_digits)

lemma rat_digits_val [code_unfold]: "(of_nat (digits_val s) :: rat) = of_int (digits_int s)"
  by (simp add: int_digits_val [symmetric])

definition signed_decimal :: "string \<Rightarrow> jsnum" where
  "signed_decimal s =
     (let neg = (s \<noteq> [] \<and> hd s = CHR ''-'');
          u = (if s \<noteq> [] \<and> (hd s = CHR ''-'' \<or> hd s = CHR ''+'') then tl s else s)
      in if u = ''Infinity'' then Infty (\<not> neg)
         else case unsigned_decimal u of None \<Rightarrow> NaN | Some q \<Rightarrow> to_num (if neg then - q else q))"

definition js_Number :: "string \<Rightarrow> jsnum" where
  "js_Number s =
     (let t = trim s
      in if t = [] then Fin 0
         else if take 2 t = ''0x'' \<or> take 2 t = ''0X'' then radix_num 16 (drop 2 t)
         else if take 2 t = ''0o'' \<or> take 2 t = ''0O'' then radix_num 8 (drop 2 t)
         else if take 2 t = ''0b'' \<or> take 2 t = ''0B'' then radix_num 2 (drop 2 t)
         else signed_decimal t)"

text \<open>\<open>Number(s ?? 0)\<close>.\<close>

definition js_Number_or0 :: "string option \<Rightarrow> jsnum" where
  "js_Number_or0 s = (case s of None \<Rightarrow> Fin 0 | Some x \<Rightarrow> js_Number x)"

text \<open>
  \<open>parseInt(s, 10)\<close>: the longest run of digits after white space and a sign, whatever follows it.
\<close>

definition js_parseInt :: "string \<Rightarrow> jsnum" where
  "js_parseInt s =
     (let u = dropWhile is_ws s; neg = (u \<noteq> [] \<and> hd u = CHR ''-'');
          ds = takeWhile is_digit (if u \<noteq> [] \<and> (hd u = CHR ''-'' \<or> hd u = CHR ''+'') then tl u else u)
      in if ds = [] then NaN
         else to_num (if neg then - of_nat (digits_val ds) else of_nat (digits_val ds)))"

section \<open>Integers below \<open>2\<^sup>5\<^sup>3\<close> are exact\<close>

lemma bitlen_le: "n < 2 ^ k \<Longrightarrow> bitlen n \<le> int k"
proof (induction k arbitrary: n)
  case 0
  then show ?case by (simp add: bitlen.simps)
next
  case (Suc k)
  then have "n div 2 < 2 ^ k" by auto
  from Suc.IH [OF this] show ?case by (subst bitlen.simps) simp
qed

lemma quotient_of_of_nat: "quotient_of (of_nat n) = (int n, 1)"
  by (simp add: of_nat_rat quotient_of_Fract normalize_def)

lemma floor_log2_nat:
  assumes "n < 2 ^ 53"
  shows "floor_log2 (of_nat n) \<le> 52"
proof -
  have "bitlen 1 = 1" by (simp add: bitlen.simps)
  moreover have "int n < 2 ^ 53" using assms by (metis of_nat_less_iff of_nat_numeral of_nat_power)
  then have "bitlen (int n) \<le> int 53" by (rule bitlen_le)
  ultimately show ?thesis by (simp add: floor_log2_def quotient_of_of_nat Let_def)
qed

lemma round_half_even_int [simp]: "round_half_even (of_int i) = i"
  by (simp add: round_half_even_def Let_def)

lemma two_pow_cancel: "e \<le> 0 \<Longrightarrow> q / two_pow e = q * 2 ^ nat (- e)"
  by (simp add: two_pow_def)

lemma fl_int:
  assumes "\<bar>i\<bar> < 2 ^ 53"
  shows "fl (of_int i) = of_int i"
proof (cases "i = 0")
  case False
  define e where "e = max (floor_log2 \<bar>of_int i :: rat\<bar> - 52) (- 1074)"
  have nat: "\<bar>of_int i :: rat\<bar> = of_nat (nat \<bar>i\<bar>)" by simp
  have "floor_log2 \<bar>of_int i\<bar> \<le> 52" unfolding nat by (rule floor_log2_nat) (use assms in auto)
  then have "e \<le> 0" by (simp add: e_def)
  have q: "(of_int i :: rat) / two_pow e = of_int (i * 2 ^ nat (- e))"
    using \<open>e \<le> 0\<close> by (simp add: two_pow_cancel)
  have "fl (of_int i) = of_int (i * 2 ^ nat (- e)) * two_pow e"
    using False q unfolding fl_def e_def [symmetric] Let_def by (metis of_int_eq_0_iff round_half_even_int)
  also have "\<dots> = of_int i"
    using \<open>e \<le> 0\<close> by (simp add: two_pow_def)
  finally show ?thesis .
qed (simp add: fl_def)

lemma to_num_int:
  assumes "\<bar>i\<bar> < 2 ^ 53"
  shows "to_num (of_int i) = Fin (of_int i)"
proof -
  have nat: "\<bar>of_int i :: rat\<bar> = of_nat (nat \<bar>i\<bar>)" by simp
  have "floor_log2 \<bar>of_int i\<bar> \<le> 52" unfolding nat by (rule floor_log2_nat) (use assms in auto)
  then show ?thesis by (simp add: to_num_def fl_int [OF assms] Let_def)
qed

lemma to_num_nat: "n < 2 ^ 53 \<Longrightarrow> to_num (of_nat n) = Fin (of_nat n)"
proof -
  assume "n < 2 ^ 53"
  then have "int n < 2 ^ 53" by (metis of_nat_less_iff of_nat_numeral of_nat_power)
  then show ?thesis using to_num_int [of "int n"] by simp
qed

lemma num_int_of_int [simp]: "num_int (Fin (of_int i)) = Some i"
  by (simp add: num_int_def)

lemma num_int_Some: "num_int x = Some i \<longleftrightarrow> x = Fin (of_int i)"
  by (cases x) (auto simp: num_int_def)

lemma js_Number_digits:
  assumes "s \<noteq> []" "list_all is_digit s" "digits_val s < 2 ^ 53"
  shows "js_Number s = Fin (of_nat (digits_val s))"
proof -
  have d: "\<And>c. c \<in> set s \<Longrightarrow> is_digit c" using assms(2) by (simp add: list_all_iff)
  have t: "trim s = s" by (rule trim_id) (use d digit_not_ws in blast)
  have no: "take 2 s \<noteq> [a, b]" if "\<not> is_digit b" for a b
  proof
    assume "take 2 s = [a, b]"
    then have "b \<in> set s" by (metis in_set_takeD list.set_intros(1,2))
    with d that show False by blast
  qed
  have pre: "take 2 s \<noteq> ''0x''" "take 2 s \<noteq> ''0X''" "take 2 s \<noteq> ''0o''" "take 2 s \<noteq> ''0O''"
    "take 2 s \<noteq> ''0b''" "take 2 s \<noteq> ''0B''"
    by (rule no, code_simp)+
  have hd: "is_digit (hd s)" using d assms(1) by simp
  have sgn: "hd s \<noteq> CHR ''-''" "hd s \<noteq> CHR ''+''"
    using hd by (auto simp: is_digit_def less_eq_char_def)
  have inf: "s \<noteq> ''Infinity''" using hd by (auto simp: is_digit_def less_eq_char_def)
  have tw: "takeWhile is_digit s = s" "dropWhile is_digit s = []"
    using d by (simp_all add: takeWhile_eq_all_conv dropWhile_eq_Nil_conv)
  have "unsigned_decimal s = Some (of_nat (digits_val s))"
    using assms(1) by (simp add: unsigned_decimal_def tw ten_scale_def)
  then show ?thesis
    using assms(1) t pre sgn inf to_num_nat [OF assms(3)]
    by (simp add: js_Number_def signed_decimal_def)
qed

lemma js_Number_digs:
  assumes "0 < k" "k \<le> 15"
  shows "js_Number (digs k n) = Fin (of_nat (n mod 10 ^ k))"
proof -
  have "n mod 10 ^ k < 10 ^ k" by simp
  also have "(10::nat) ^ k \<le> 10 ^ 15" using assms(2) by (rule power_increasing) simp
  also have "(10::nat) ^ 15 < 2 ^ 53" by simp
  finally have v: "digits_val (digs k n) < 2 ^ 53" by (simp add: digits_val_digs)
  have "digs k n \<noteq> []" using assms(1) length_digs [of k n] by (metis length_0_conv less_numeral_extra(3))
  moreover have "list_all is_digit (digs k n)" using digs_digits by (auto simp: list_all_iff)
  ultimately show ?thesis using js_Number_digits [OF _ _ v] by (simp add: digits_val_digs)
qed

lemma js_Number_nat_str: "n < 2 ^ 53 \<Longrightarrow> js_Number (nat_str n) = Fin (of_nat n)"
  using js_Number_digits [of "nat_str n"] nat_str_digits by (simp add: list_all_iff)

lemma js_parseInt_digits:
  assumes "s \<noteq> []" "list_all is_digit s" "digits_val s < 2 ^ 53"
  shows "js_parseInt s = Fin (of_nat (digits_val s))"
proof -
  have d: "\<And>c. c \<in> set s \<Longrightarrow> is_digit c" using assms(2) by (simp add: list_all_iff)
  have hd: "is_digit (hd s)" using d assms(1) by simp
  have "hd s \<noteq> CHR ''-''" "hd s \<noteq> CHR ''+''" using hd by (auto simp: is_digit_def less_eq_char_def)
  moreover have "dropWhile is_ws s = s" using hd digit_not_ws assms(1) by (cases s) auto
  moreover have tw: "takeWhile is_digit s = s" using d by (simp add: takeWhile_eq_all_conv)
  ultimately show ?thesis
    using assms(1) to_num_nat [OF assms(3)] by (simp add: js_parseInt_def Let_def tw)
qed

lemma js_parseInt_nat_str: "n < 2 ^ 53 \<Longrightarrow> js_parseInt (nat_str n) = Fin (of_nat n)"
  using js_parseInt_digits [of "nat_str n"] nat_str_digits by (simp add: list_all_iff)

lemma js_sub_int: "\<bar>a - b\<bar> < 2 ^ 53 \<Longrightarrow> js_sub (Fin (of_int a)) (Fin (of_int b)) = Fin (of_int (a - b))"
  using to_num_int [of "a - b"] by (simp add: js_sub_def)

lemma js_add_int: "\<bar>a + b\<bar> < 2 ^ 53 \<Longrightarrow> js_add (Fin (of_int a)) (Fin (of_int b)) = Fin (of_int (a + b))"
  using to_num_int [of "a + b"] by simp

section \<open>Rounding keeps the sign and the unit interval\<close>

lemma bitlen_mono: "a \<le> b \<Longrightarrow> bitlen a \<le> bitlen b"
proof (induction a arbitrary: b rule: bitlen.induct)
  case (1 a)
  have "0 \<le> bitlen b" for b by (induction b rule: bitlen.induct) (subst bitlen.simps, simp)
  moreover have "bitlen (a div 2) \<le> bitlen (b div 2)" if "0 < a" using that 1 by (simp add: zdiv_mono1)
  ultimately show ?case using 1(2) by (subst (1 2) bitlen.simps) simp
qed

lemma floor_log2_unit:
  assumes "0 < q" "q \<le> 1"
  shows "floor_log2 q \<le> 0"
proof -
  obtain a b where q: "quotient_of q = (a, b)" by (cases "quotient_of q") simp
  then have "0 < b" "q = of_int a / of_int b" using quotient_of_denom_pos quotient_of_div by blast+
  then have "a \<le> b" using assms(2) by (simp add: divide_le_eq_1)
  then show ?thesis using bitlen_mono [of a b] q by (simp add: floor_log2_def Let_def)
qed

lemma round_half_even_bounds:
  "0 \<le> q \<Longrightarrow> 0 \<le> round_half_even q" "q \<le> of_int n \<Longrightarrow> round_half_even q \<le> n"
  unfolding round_half_even_def Let_def by (auto; linarith)+

lemma two_pow_pos: "0 < two_pow e"
  by (simp add: two_pow_def)

lemma fl_nonneg: "0 \<le> q \<Longrightarrow> 0 \<le> fl q"
  using two_pow_pos by (simp add: fl_def Let_def round_half_even_bounds less_imp_le)

lemma fl_unit:
  assumes "0 \<le> q" "q \<le> 1"
  shows "fl q \<le> 1"
proof (cases "q = 0")
  case False
  define e where "e = max (floor_log2 q - 52) (- 1074)"
  have e: "e \<le> 0" using floor_log2_unit [of q] assms False by (simp add: e_def)
  then have "q / two_pow e \<le> of_int (2 ^ nat (- e))" using assms(2) by (simp add: two_pow_cancel)
  then have "round_half_even (q / two_pow e) \<le> 2 ^ nat (- e)" by (rule round_half_even_bounds)
  then have "of_int (round_half_even (q / two_pow e)) \<le> (of_int (2 ^ nat (- e)) :: rat)" by (simp only: of_int_le_iff)
  then have "of_int (round_half_even (q / two_pow e)) * two_pow e \<le> 2 ^ nat (- e) * two_pow e"
    using two_pow_pos [of e] by (intro mult_right_mono) simp_all
  also have "\<dots> = 1" using e by (cases "e = 0") (simp_all add: two_pow_def)
  finally show ?thesis using assms False by (simp add: fl_def e_def [symmetric])
qed (simp add: fl_def)

lemma to_num_nonneg: "0 \<le> q \<Longrightarrow> to_num q = Fin r \<Longrightarrow> 0 \<le> r"
  using fl_nonneg [of q] by (auto simp: to_num_def Let_def split: if_splits)

lemma to_num_unit:
  assumes "0 \<le> q" "q \<le> 1"
  shows "\<exists>r. to_num q = Fin r \<and> 0 \<le> r \<and> r \<le> 1"
proof -
  have "floor_log2 \<bar>fl q\<bar> \<le> 0" if "fl q \<noteq> 0" using that floor_log2_unit [of "fl q"] fl_nonneg [of q] fl_unit [of q] assms by simp
  then show ?thesis using fl_nonneg [of q] fl_unit [of q] assms by (auto simp: to_num_def Let_def)
qed

end
