(* ===== verification/Recurrence.thy ===== *)
theory Recurrence
  imports JS_Number
begin

text \<open>
  \<open>frontend/src/features/tariffs/recurrence.ts\<close> and \<open>bands.ts\<close>: the months and weekdays a
  price band applies to, stored as comma-separated numbers, and the names of seasons, weekday
  runs and bands. Translated names are arguments.
\<close>

section \<open>Model of the source\<close>

definition WEEKDAY_KEYS :: "string list" where
  "WEEKDAY_KEYS = [''mon'', ''tue'', ''wed'', ''thu'', ''fri'', ''sat'', ''sun'']"

definition MONTH_KEYS :: "string list" where
  "MONTH_KEYS = [''jan'', ''feb'', ''mar'', ''apr'', ''may'', ''jun'',
     ''jul'', ''aug'', ''sep'', ''oct'', ''nov'', ''dec'']"

definition parseMonths :: "string option \<Rightarrow> int list" where
  "parseMonths raw =
     (case raw of
        None \<Rightarrow> []
      | Some s \<Rightarrow>
          if s = [] then []
          else sort (filter (\<lambda>month. 1 \<le> month \<and> month \<le> 12)
            (List.map_filter (\<lambda>part. num_int (js_Number (trim part))) (split_on (CHR '','') s))))"

text \<open>One iteration of the loop that collects runs of consecutive numbers.\<close>

definition push_run :: "int list list \<Rightarrow> int \<Rightarrow> int list list" where
  "push_run runs month =
     (if runs \<noteq> [] \<and> month = last (last runs) + 1 then butlast runs @ [last runs @ [month]]
      else runs @ [[month]])"

definition collect_runs :: "int list \<Rightarrow> int list list" where
  "collect_runs months = foldl push_run [] months"

definition monthRanges :: "int list \<Rightarrow> (int \<times> int) list" where
  "monthRanges months =
     (if length months = 0 \<or> length months = 12 then []
      else let runs = collect_runs months;
               joined = (if 1 < length runs \<and> hd (hd runs) = 1 \<and> last (last runs) = 12
                         then butlast (tl runs) @ [last (tl runs) @ hd runs]
                         else runs)
           in map (\<lambda>run. (hd run, last run)) joined)"

text \<open>\<open>names[i]\<close>, and how it prints inside a template literal.\<close>

definition name_at :: "string list \<Rightarrow> int \<Rightarrow> string option" where
  "name_at names i = (if i < 0 then None else nth_opt names (nat i))"

definition in_template :: "string option \<Rightarrow> string" where
  "in_template s = nullish s ''undefined''"

definition formatSeason :: "string option \<Rightarrow> string list \<Rightarrow> string" where
  "formatSeason raw monthNames =
     join '', '' (map (\<lambda>(first, lst).
       if first = lst then nullish (name_at monthNames (first - 1)) []
       else in_template (name_at monthNames (first - 1)) @ en_dash @ in_template (name_at monthNames (lst - 1)))
       (monthRanges (parseMonths raw)))"

definition weekday_numbers :: "string option \<Rightarrow> int list" where
  "weekday_numbers raw =
     sort (filter (\<lambda>day. 0 \<le> day \<and> day \<le> 6)
       (List.map_filter num_int
         (uniq (map js_Number (filter (\<lambda>p. p \<noteq> []) (map trim (split_on (CHR '','') (nullish raw []))))))))"

definition formatWeekdays :: "string option \<Rightarrow> string list \<Rightarrow> string" where
  "formatWeekdays raw dayNames =
     (let days = weekday_numbers raw
      in if length days = 0 \<or> length days = 7 then []
         else join '', '' (map (\<lambda>run.
           if length run = 1 then nullish (name_at dayNames (hd run)) []
           else in_template (name_at dayNames (hd run)) @ en_dash @ in_template (name_at dayNames (last run)))
           (collect_runs days)))"

definition seasonSortKey :: "string option \<Rightarrow> int" where
  "seasonSortKey raw =
     (let ranges = monthRanges (parseMonths raw)
      in if ranges = [] then - 1 else fst (hd ranges))"

definition selectedRecurrence :: "string option \<Rightarrow> int list \<Rightarrow> string list" where
  "selectedRecurrence val allValues =
     (let parsed = filter (\<lambda>p. p \<noteq> []) (map trim (split_on (CHR '','') (nullish val [])))
      in if 0 < length parsed then parsed else map int_str allValues)"

definition recurrenceValue :: "string list \<Rightarrow> nat \<Rightarrow> string option" where
  "recurrenceValue next optionCount =
     (if length next = 0 then None
      else if length next \<ge> optionCount then Some []
      else Some (join '','' (sort_by (\<lambda>left right. cmp_le (js_sub (js_Number left) (js_Number right))) next)))"

section \<open>Names of bands\<close>

datatype TariffPeriodType = flat | high | low | band

record BandLike =
  bl_period_type :: TariffPeriodType
  bl_label :: "string option"
  bl_time_from :: "string option"
  bl_time_to :: "string option"

definition hhmm :: "string \<Rightarrow> string" where
  "hhmm v = slice 0 5 v"

definition bandWindow :: "BandLike \<Rightarrow> string option" where
  "bandWindow p =
     (if truthy (bl_time_from p) \<and> truthy (bl_time_to p)
      then Some (hhmm (nullish (bl_time_from p) []) @ en_dash @ hhmm (nullish (bl_time_to p) []))
      else None)"

definition bandName :: "BandLike \<Rightarrow> string \<Rightarrow> string" where
  "bandName p translatedType =
     (if bl_period_type p \<noteq> band then translatedType
      else or_str (bl_label p) (or_str (bandWindow p) translatedType))"

section \<open>Runs of consecutive numbers\<close>

definition interval_run :: "int list \<Rightarrow> bool" where
  "interval_run r \<longleftrightarrow> r \<noteq> [] \<and> hd r \<le> last r \<and> set r = {hd r..last r}"

definition apart :: "int list \<Rightarrow> int list \<Rightarrow> bool" where
  "apart r s \<longleftrightarrow> last r + 1 < hd s"

lemma collect_runs_snoc: "collect_runs (xs @ [x]) = push_run (collect_runs xs) x"
  by (simp add: collect_runs_def)

lemma interval_run_snoc: "interval_run r \<Longrightarrow> interval_run (r @ [last r + 1])"
  by (auto simp: interval_run_def)

lemma interval_run_not_Nil: "interval_run r \<Longrightarrow> r \<noteq> []"
  by (simp add: interval_run_def)

lemma collect_runs_Nil_iff: "collect_runs xs = [] \<longleftrightarrow> xs = []"
  by (cases xs rule: rev_cases) (auto simp: collect_runs_def push_run_def)

text \<open>The runs of an ascending list are its maximal intervals, in order.\<close>

lemma collect_runs_inv:
  "sorted_wrt (<) xs \<Longrightarrow> concat (collect_runs xs) = xs \<and> list_all interval_run (collect_runs xs)
     \<and> sorted_wrt apart (collect_runs xs)"
proof (induction xs rule: rev_induct)
  case Nil
  show ?case by (simp add: collect_runs_def)
next
  case (snoc x xs)
  let ?rs = "collect_runs xs"
  have IH: "concat ?rs = xs" "list_all interval_run ?rs" "sorted_wrt apart ?rs"
    and above: "\<And>y. y \<in> set xs \<Longrightarrow> y < x"
    using snoc by (auto simp: sorted_wrt_append)
  show ?case
  proof (cases "?rs = []")
    case True
    then have "xs = []" by (simp add: collect_runs_Nil_iff)
    then show ?thesis by (simp add: collect_runs_def push_run_def interval_run_def)
  next
    case False
    then obtain rs r where rs: "?rs = rs @ [r]" by (metis append_butlast_last_id)
    have r: "interval_run r" "sorted_wrt apart rs" "\<And>s. s \<in> set rs \<Longrightarrow> apart s r"
      using IH rs by (auto simp: sorted_wrt_append)
    show ?thesis
    proof (cases "x = last r + 1")
      case True
      then show ?thesis
        using IH r rs interval_run_snoc [OF r(1)]
        by (auto simp: collect_runs_snoc push_run_def sorted_wrt_append apart_def [of _ "r @ _"] apart_def [of _ r]
            dest: interval_run_not_Nil)
    next
      case False
      have "last r \<in> set xs" using IH(1) rs r(1) by (auto simp: interval_run_def)
      then have "last r + 1 < x" using above False by force
      then have "apart s [x]" if "s \<in> set ?rs" for s
        using that r rs by (force simp: apart_def interval_run_def)
      then show ?thesis
        using False IH rs by (auto simp: collect_runs_snoc push_run_def sorted_wrt_append interval_run_def [of "[_]"])
    qed
  qed
qed

lemma sorted_wrt_linear:
  "sorted_wrt R xs \<Longrightarrow> x \<in> set xs \<Longrightarrow> y \<in> set xs \<Longrightarrow> x = y \<or> R x y \<or> R y x"
  by (induction xs) auto

lemma run_boundaries:
  assumes "sorted_wrt (<) xs" "r \<in> set (collect_runs xs)"
  shows "last r + 1 \<notin> set xs" "hd r - 1 \<notin> set xs" "set r = {hd r..last r}" "hd r \<le> last r" "set r \<subseteq> set xs"
proof -
  note inv = collect_runs_inv [OF assms(1)]
  have int: "interval_run s" if "s \<in> set (collect_runs xs)" for s
    using inv that by (simp add: list_all_iff)
  have "set (concat (collect_runs xs)) = set xs" using inv by simp
  then have un: "set xs = (\<Union>r \<in> set (collect_runs xs). set r)" by simp
  have in_run: "\<exists>s \<in> set (collect_runs xs). y \<in> set s" if "y \<in> set xs" for y
    using un that by blast
  show "set r = {hd r..last r}" "hd r \<le> last r" using int [OF assms(2)] by (simp_all add: interval_run_def)
  show "set r \<subseteq> set xs" using un assms(2) by blast
  have lin: "r = s \<or> apart r s \<or> apart s r" if "s \<in> set (collect_runs xs)" for s
    using sorted_wrt_linear [of apart "collect_runs xs" r s] inv assms(2) that by simp
  show "last r + 1 \<notin> set xs"
  proof
    assume "last r + 1 \<in> set xs"
    then obtain s where s: "s \<in> set (collect_runs xs)" "last r + 1 \<in> set s" using in_run by blast
    then show False using lin [OF s(1)] int [OF s(1)] int [OF assms(2)] by (auto simp: apart_def interval_run_def)
  qed
  show "hd r - 1 \<notin> set xs"
  proof
    assume "hd r - 1 \<in> set xs"
    then obtain s where s: "s \<in> set (collect_runs xs)" "hd r - 1 \<in> set s" using in_run by blast
    then show False using lin [OF s(1)] int [OF s(1)] int [OF assms(2)] by (auto simp: apart_def interval_run_def)
  qed
qed

lemma in_some_run:
  assumes "sorted_wrt (<) xs"
  shows "m \<in> set xs \<longleftrightarrow> (\<exists>r \<in> set (collect_runs xs). hd r \<le> m \<and> m \<le> last r)"
proof -
  have "set (concat (collect_runs xs)) = set xs" using collect_runs_inv [OF assms] by simp
  then have "set xs = (\<Union>r \<in> set (collect_runs xs). set r)" by simp
  then show ?thesis using run_boundaries(3) [OF assms] by force
qed

section \<open>Seasons\<close>

text \<open>The months of a range that may wrap past December.\<close>

definition in_season :: "int \<Rightarrow> int \<times> int \<Rightarrow> bool" where
  "in_season m p = (if fst p \<le> snd p then fst p \<le> m \<and> m \<le> snd p else fst p \<le> m \<or> m \<le> snd p)"

definition month_after :: "int \<Rightarrow> int" where
  "month_after m = (if m = 12 then 1 else m + 1)"

definition month_before :: "int \<Rightarrow> int" where
  "month_before m = (if m = 1 then 12 else m - 1)"

lemma run_ends_in: "sorted_wrt (<) xs \<Longrightarrow> r \<in> set (collect_runs xs) \<Longrightarrow> hd r \<in> set xs \<and> last r \<in> set xs"
  using run_boundaries(3-5) [of xs r] by force

text \<open>Unless the runs are joined, January and December do not both belong to the band.\<close>

lemma no_wrap:
  assumes "sorted_wrt (<) ms" "set ms \<subseteq> {1..12}" "length ms \<noteq> 12" "collect_runs ms \<noteq> []"
    "\<not> (1 < length (collect_runs ms) \<and> hd (hd (collect_runs ms)) = 1 \<and> last (last (collect_runs ms)) = 12)"
  shows "\<not> (1 \<in> set ms \<and> 12 \<in> set ms)"
proof
  let ?rs = "collect_runs ms"
  assume both: "1 \<in> set ms \<and> 12 \<in> set ms"
  note inv = collect_runs_inv [OF assms(1)]
  have bounds: "1 \<le> hd r \<and> hd r \<le> last r \<and> last r \<le> 12" if "r \<in> set ?rs" for r
    using run_ends_in [OF assms(1) that] run_boundaries(4) [OF assms(1) that] assms(2) by auto
  obtain r s where rs: "r \<in> set ?rs" "hd r = 1" "s \<in> set ?rs" "last s = 12"
    using both in_some_run [OF assms(1), of 1] in_some_run [OF assms(1), of 12] bounds by (metis order_antisym)
  have lin: "a = b \<or> apart a b \<or> apart b a" if "a \<in> set ?rs" "b \<in> set ?rs" for a b
    using sorted_wrt_linear [of apart ?rs a b] inv that by simp
  have f: "hd ?rs = r"
    using inv rs assms(4) bounds [of "hd ?rs"] by (cases ?rs) (auto simp: apart_def)
  have l: "last ?rs = s"
  proof -
    obtain as z where z: "?rs = as @ [z]" using assms(4) by (metis append_butlast_last_id)
    have "apart s z" if "s \<in> set as" using inv z that by (auto simp: sorted_wrt_append)
    then show ?thesis using rs z bounds [of z] by (auto simp: apart_def)
  qed
  have "length ?rs = 1" using assms(4,5) f l rs by (cases ?rs) auto
  then have "?rs = [r]" using rs(1) by (cases ?rs) auto
  then have "ms = r" "r = s" using inv l by auto
  then have "set ms = {1..12}" using run_boundaries(3) [OF assms(1) rs(1)] rs by simp
  moreover have "distinct ms" using assms(1) by (simp add: strict_sorted_iff)
  ultimately have "length ms = card {1..12::int}" by (metis distinct_card)
  then show False using assms(3) by simp
qed

text \<open>
  A season label names the months of a band exactly. The ranges of an ascending list of
  months cover precisely those months, a range that runs past December included, and each range
  is maximal: neither the month before it nor the month after it belongs to the band.
\<close>

theorem month_ranges_exact:
  assumes "sorted_wrt (<) ms" "set ms \<subseteq> {1..12}" "length ms \<noteq> 12"
  shows "(\<forall>m \<in> {1..12}. m \<in> set ms \<longleftrightarrow> (\<exists>p \<in> set (monthRanges ms). in_season m p))
    \<and> (\<forall>p \<in> set (monthRanges ms). month_before (fst p) \<notin> set ms \<and> month_after (snd p) \<notin> set ms)"
proof (cases "ms = []")
  case True
  then show ?thesis by (simp add: monthRanges_def)
next
  case False
  let ?rs = "collect_runs ms"
  note inv = collect_runs_inv [OF assms(1)] and bnd = run_boundaries [OF assms(1)]
    and mem = in_some_run [OF assms(1)]
  have ne: "?rs \<noteq> []" using False by (simp add: collect_runs_Nil_iff)
  have bounds: "1 \<le> hd r" "last r \<le> 12" if "r \<in> set ?rs" for r
    using bnd(3-5) [OF that] assms(2) by force+
  show ?thesis
  proof (cases "1 < length ?rs \<and> hd (hd ?rs) = 1 \<and> last (last ?rs) = 12")
    case True
    then obtain f mid l where rs: "?rs = f # mid @ [l]"
      by (cases ?rs; cases "tl ?rs" rule: rev_cases) auto
    have fl: "hd f = 1" "last l = 12" "last f + 1 < hd l" using True rs inv by (auto simp: apart_def)
    have mr: "set (monthRanges ms) = insert (hd l, last f) ((\<lambda>r. (hd r, last r)) ` set mid)"
      using True rs False assms(3) inv by (auto simp: monthRanges_def Let_def dest!: interval_run_not_Nil)
    have mid: "last f + 1 < hd r" "last r + 1 < hd l" if "r \<in> set mid" for r
      using that rs inv by (auto simp: apart_def sorted_wrt_append)
    have le: "hd r \<le> last r" if "r \<in> set ?rs" for r using bnd(4) that .
    have out: "last r + 1 \<notin> set ms" "hd r - 1 \<notin> set ms" if "r \<in> set ?rs" for r using bnd(1,2) that by auto
    have "m \<in> set ms \<longleftrightarrow> (\<exists>p \<in> set (monthRanges ms). in_season m p)" if "m \<in> {1..12}" for m
    proof -
      have "in_season m (hd r, last r) \<longleftrightarrow> hd r \<le> m \<and> m \<le> last r" if "r \<in> set mid" for r
        using le [of r] that rs by (simp add: in_season_def)
      moreover have "in_season m (hd l, last f) \<longleftrightarrow> hd l \<le> m \<or> m \<le> last f"
        using fl by (simp add: in_season_def)
      ultimately show ?thesis
        unfolding mr mem [of m] unfolding rs using fl that by auto
    qed
    moreover have "month_before (hd r) \<notin> set ms \<and> month_after (last r) \<notin> set ms" if "r \<in> set mid" for r
      using mid [OF that] out [of r] that rs le [of f] le [of l] fl by (simp add: month_before_def month_after_def)
    moreover have "month_before (hd l) \<notin> set ms \<and> month_after (last f) \<notin> set ms"
      using out [of f] out [of l] rs le [of f] le [of l] fl by (simp add: month_before_def month_after_def)
    ultimately show ?thesis unfolding mr by simp
  next
    case unjoined: False
    have mr: "set (monthRanges ms) = (\<lambda>r. (hd r, last r)) ` set ?rs"
      using unjoined False assms(3) by (auto simp: monthRanges_def Let_def)
    have not_both: "\<not> (1 \<in> set ms \<and> 12 \<in> set ms)"
      using no_wrap [OF assms ne unjoined] by blast
    have "m \<in> set ms \<longleftrightarrow> (\<exists>p \<in> set (monthRanges ms). in_season m p)" for m
      unfolding mr mem [of m] using bnd(4) by (auto simp: in_season_def)
    moreover have "month_before (hd r) \<notin> set ms \<and> month_after (last r) \<notin> set ms" if "r \<in> set ?rs" for r
      using bnd(1,2) [OF that] not_both run_ends_in [OF assms(1) that] by (auto simp: month_before_def month_after_def)
    ultimately show ?thesis unfolding mr by simp
  qed
qed

theorem month_ranges_exact_witness:
  "monthRanges [1, 2, 3, 6, 10, 11, 12] = [(6, 6), (10, 3)] \<and>
   month_after 3 \<notin> set [1, 2, 3, 6, 10, 11, 12 :: int]"
proof -
  have r: "monthRanges [1, 2, 3, 6, 10, 11, 12] = [(6, 6), (10, 3)]" by code_simp
  have h: "sorted_wrt (<) [1, 2, 3, 6, 10, 11, 12 :: int]" "set [1, 2, 3, 6, 10, 11, 12 :: int] \<subseteq> {1..12}"
    "length [1, 2, 3, 6, 10, 11, 12 :: int] \<noteq> 12" by simp_all
  have "(10, 3) \<in> set (monthRanges [1, 2, 3, 6, 10, 11, 12])" unfolding r by simp
  from bspec [OF conjunct2 [OF month_ranges_exact [OF h]] this] show ?thesis using r by simp
qed

section \<open>Toggle groups\<close>

lemma trim_nat_str [simp]: "trim (nat_str n) = nat_str n"
  by (rule trim_id) (use nat_str_digits digit_not_ws in blast)

lemma no_comma_nat_str: "CHR '','' \<notin> set (nat_str n)"
proof
  assume "CHR '','' \<in> set (nat_str n)"
  then have "is_digit (CHR '','')" by (rule nat_str_digits)
  then show False by code_simp
qed

lemma selected_of_join:
  assumes "xs \<noteq> []" "\<And>x. x \<in> set xs \<Longrightarrow> \<exists>n. x = nat_str n"
  shows "selectedRecurrence (Some (join '','' xs)) allValues = xs"
proof -
  have "split_on (CHR '','') (join '','' xs) = xs"
    by (rule split_on_join) (use assms no_comma_nat_str in auto)
  moreover have "map trim xs = xs" "filter (\<lambda>p. p \<noteq> []) xs = xs"
    using assms(2) by (auto intro!: map_idI simp: filter_id_conv) (metis trim_nat_str, metis nat_str_not_Nil)
  ultimately show ?thesis using assms(1) by (simp add: selectedRecurrence_def)
qed

text \<open>
  Storing the selection of a toggle group and reading it back lights the same chips. An
  empty selection is refused; a full one is stored blank and reads back as everything.
\<close>

theorem recurrence_round_trip:
  assumes "next \<noteq> []" "distinct next" "set next \<subseteq> set (map int_str allValues)" "\<forall>v \<in> set allValues. 0 \<le> v"
  shows "\<exists>v. recurrenceValue next (length allValues) = Some v
    \<and> set (selectedRecurrence (Some v) allValues) = set next
    \<and> (v = [] \<longleftrightarrow> set next = set (map int_str allValues) \<and> distinct allValues)"
proof -
  have num: "\<exists>n. x = nat_str n" if "x \<in> set next" for x
    using that assms(3,4) by auto
  have card: "card (set next) = length next" using assms(2) by (rule distinct_card)
  have inj: "inj_on int_str (set allValues)"
    using assms(4) by (auto simp: inj_on_def) (metis eq_nat_nat_iff)
  have cardv: "card (set (map int_str allValues)) = card (set allValues)"
    using inj by (simp add: card_image)
  have le: "card (set next) \<le> card (set allValues)"
    using card_mono [OF _ assms(3)] cardv by simp
  show ?thesis
  proof (cases "length next \<ge> length allValues")
    case True
    then have d: "card (set allValues) = length allValues"
      using le card card_length [of allValues] by linarith
    then have "distinct allValues" by (rule card_distinct)
    moreover have "set next = set (map int_str allValues)"
      by (rule card_subset_eq) (use assms(3) cardv d True card le in auto)
    ultimately show ?thesis
      using True assms(1) by (simp add: recurrenceValue_def selectedRecurrence_def)
  next
    case False
    let ?s = "sort_by (\<lambda>left right. cmp_le (js_sub (js_Number left) (js_Number right))) next"
    have ne: "?s \<noteq> []" using assms(1) by (metis set_empty set_sort_by)
    have "selectedRecurrence (Some (join '','' ?s)) allValues = ?s"
      by (rule selected_of_join [OF ne]) (use num in simp)
    moreover have "join '','' ?s \<noteq> []"
    proof -
      obtain n rest where "?s = nat_str n # rest" using ne num by (cases ?s) (metis list.set_intros(1) set_sort_by)+
      then show ?thesis by (cases rest) simp_all
    qed
    moreover have "\<not> (set next = set (map int_str allValues) \<and> distinct allValues)"
      using False card cardv by (metis distinct_card order_refl)
    ultimately show ?thesis using False assms(1) by (simp add: recurrenceValue_def)
  qed
qed

theorem recurrence_round_trip_witness:
  "\<exists>v. recurrenceValue [''5'', ''0''] (length [0, 1, 2, 3, 4, 5, 6]) = Some v
     \<and> set (selectedRecurrence (Some v) [0, 1, 2, 3, 4, 5, 6]) = {''5'', ''0''}"
proof -
  have h: "[''5'', ''0''] \<noteq> []" "distinct [''5'', ''0'']" "set [''5'', ''0''] \<subseteq> set (map int_str [0, 1, 2, 3, 4, 5, 6])"
    "\<forall>v \<in> set [0, 1, 2, 3, 4, 5, 6 :: int]. 0 \<le> v"
    by code_simp+
  show ?thesis using recurrence_round_trip [OF h] by auto
qed

end
