(* ===== verification/Band_Coverage.thy ===== *)
theory Band_Coverage
  imports Recurrence Calendar
begin

text \<open>
  \<open>frontend/src/features/tariffs/bandCoverage.ts\<close>: which hours of the year the price bands of a
  tariff version price, which they leave to the fallback and where they overlap. The source
  probes one instant per stretch between two window edges; the theory shows that the gaps it
  reports are exactly the seconds that no band prices. The collation used to order band ids
  (\<open>localeCompare\<close>) is an argument.
\<close>

section \<open>Model of the source\<close>

record CoverageBand =
  cb_id :: "string option"
  cb_period_type :: TariffPeriodType
  cb_label :: "string option"
  cb_price_chf_per_kwh :: "string option"
  cb_percentage :: "string option"
  cb_time_from :: "string option"
  cb_time_to :: "string option"
  cb_weekdays :: "string option"
  cb_months :: "string option"

record CoverageGap =
  g_months :: "int list"
  g_weekdays :: "int list"
  g_start :: jsnum
  g_end :: jsnum

text \<open>A band of the sorted array; \<open>pb_ref\<close> is its identity, the position in the input.\<close>

record prepared_band =
  pb_ref :: nat
  pb_band :: CoverageBand
  pb_start :: "jsnum option"
  pb_end :: "jsnum option"
  pb_months :: "int list"
  pb_days :: "jsnum list"

record band_coverage =
  uncovered :: bool
  overlaps :: bool
  gaps :: "CoverageGap list"
  fallbacks :: "(prepared_band \<times> int list) list"

definition DAY :: jsnum where
  "DAY = Fin 86400"

definition seconds :: "string option \<Rightarrow> jsnum option" where
  "seconds v =
     (if \<not> truthy v then None
      else let parts = map js_Number (split_on (CHR '':'') (nullish v []));
               hours = nullish (nth_opt parts 0) NaN;
               minutes = nullish (nth_opt parts 1) (Fin 0);
               secs = nullish (nth_opt parts 2) (Fin 0)
           in Some (js_add (js_add (js_mul hours (Fin 3600)) (js_mul minutes (Fin 60))) secs))"

definition parseWeekdays :: "string option \<Rightarrow> jsnum list" where
  "parseWeekdays raw =
     filter (\<lambda>day. js_le (Fin 0) day \<and> js_le day (Fin 6))
       (map js_Number (filter (\<lambda>p. p \<noteq> []) (map trim (split_on (CHR '','') (nullish raw [])))))"

definition add_pair :: "int \<Rightarrow> int list \<Rightarrow> int list" where
  "add_pair p ps = (if p \<in> set ps then ps else ps @ [p])"

function pairs_loop :: "int \<Rightarrow> int \<Rightarrow> int list \<Rightarrow> int list" where
  "pairs_loop day end pairs =
     (if day \<le> end \<and> length pairs < 84
      then pairs_loop (day + 1) end (add_pair (MonthFromDay day * 7 + (WeekDay day + 6) mod 7) pairs)
      else pairs)"
  by auto
termination by (relation "measure (\<lambda>(day, end, _). nat (end + 1 - day))") auto

declare pairs_loop.simps [simp del]

definition reachablePairs :: "string option \<Rightarrow> string option \<Rightarrow> int list option" where
  "reachablePairs validFrom validTo =
     (if \<not> truthy validFrom \<or> \<not> truthy validTo then None
      else case (parse_day (nullish validFrom []), parse_day (nullish validTo [])) of
             (Some day, Some end) \<Rightarrow> Some (pairs_loop day end [])
           | _ \<Rightarrow> None)"

definition period_type_str :: "TariffPeriodType \<Rightarrow> string" where
  "period_type_str p = (case p of flat \<Rightarrow> ''flat'' | high \<Rightarrow> ''high'' | low \<Rightarrow> ''low'' | band \<Rightarrow> ''band'')"

text \<open>\<open>a || b\<close> on numbers.\<close>

definition js_or :: "jsnum \<Rightarrow> jsnum \<Rightarrow> jsnum" where
  "js_or a b = (if a = NaN \<or> a = Fin 0 then b else a)"

definition band_cmp :: "(string \<Rightarrow> string \<Rightarrow> int) \<Rightarrow> prepared_band \<Rightarrow> prepared_band \<Rightarrow> jsnum" where
  "band_cmp localeCompare a b =
     (let ta = period_type_str (cb_period_type (pb_band a)); tb = period_type_str (cb_period_type (pb_band b))
      in js_or (if ta < tb then Fin (- 1) else if ta > tb then Fin 1 else Fin 0)
           (js_or (js_sub (nullish (pb_start a) (Fin (- 1))) (nullish (pb_start b) (Fin (- 1))))
             (Fin (of_int (localeCompare (nullish (cb_id (pb_band a)) []) (nullish (cb_id (pb_band b)) []))))))"

definition prepare :: "nat \<times> CoverageBand \<Rightarrow> prepared_band" where
  "prepare p = \<lparr>pb_ref = fst p, pb_band = snd p, pb_start = seconds (cb_time_from (snd p)),
     pb_end = seconds (cb_time_to (snd p)), pb_months = parseMonths (cb_months (snd p)),
     pb_days = parseWeekdays (cb_weekdays (snd p))\<rparr>"

definition ordered_bands :: "(string \<Rightarrow> string \<Rightarrow> int) \<Rightarrow> CoverageBand list \<Rightarrow> prepared_band list" where
  "ordered_bands localeCompare bands =
     sort_by (\<lambda>a b. cmp_le (band_cmp localeCompare a b)) (map prepare (enumerate 0 bands))"

definition option_list :: "'a option \<Rightarrow> 'a list" where
  "option_list x = (case x of None \<Rightarrow> [] | Some y \<Rightarrow> [y])"

definition window_edges :: "prepared_band list \<Rightarrow> jsnum list" where
  "window_edges ordered =
     sort_by (\<lambda>a b. cmp_le (js_sub a b))
       (uniq (Fin 0 # DAY # concat (map (\<lambda>p. option_list (pb_start p) @ option_list (pb_end p)) ordered)))"

definition in_month :: "int \<Rightarrow> prepared_band \<Rightarrow> bool" where
  "in_month month p \<longleftrightarrow> pb_months p = [] \<or> month \<in> set (pb_months p)"

definition on_day :: "int \<Rightarrow> prepared_band \<Rightarrow> bool" where
  "on_day day p \<longleftrightarrow> pb_days p = [] \<or> Fin (of_int day) \<in> set (pb_days p)"

definition is_catch_all :: "int \<Rightarrow> prepared_band \<Rightarrow> bool" where
  "is_catch_all day p \<longleftrightarrow>
     cb_period_type (pb_band p) \<noteq> flat \<and> (pb_start p = None \<or> pb_end p = None) \<and> on_day day p"

definition in_window :: "jsnum \<Rightarrow> jsnum \<Rightarrow> jsnum \<Rightarrow> bool" where
  "in_window start end time =
     (if js_less start end then js_le start time \<and> js_less time end else js_le start time \<or> js_less time end)"

definition matches :: "int \<Rightarrow> jsnum \<Rightarrow> prepared_band \<Rightarrow> bool" where
  "matches day time p \<longleftrightarrow>
     cb_period_type (pb_band p) = flat \<or>
     (case (pb_start p, pb_end p) of (Some s, Some e) \<Rightarrow> on_day day p \<and> in_window s e time | _ \<Rightarrow> False)"

definition is_reachable :: "int list option \<Rightarrow> int \<Rightarrow> int \<Rightarrow> bool" where
  "is_reachable reachable month day =
     (case reachable of None \<Rightarrow> True | Some ps \<Rightarrow> (month - 1) * 7 + day \<in> set ps)"

definition open_days :: "int list option \<Rightarrow> prepared_band list \<Rightarrow> int \<Rightarrow> jsnum \<Rightarrow> int list" where
  "open_days reachable inSeason month time =
     filter (\<lambda>day. is_reachable reachable month day
       \<and> filter (matches day time) inSeason = [] \<and> filter (is_catch_all day) inSeason = []) [0..6]"

definition overlap_at :: "int list option \<Rightarrow> prepared_band list \<Rightarrow> int \<Rightarrow> jsnum \<Rightarrow> bool" where
  "overlap_at reachable inSeason month time \<longleftrightarrow>
     list_ex (\<lambda>day. is_reachable reachable month day
       \<and> (1 < length (filter (is_catch_all day) inSeason) \<or> 1 < length (filter (matches day time) inSeason))) [0..6]"

text \<open>The stretches \<open>[edges[i], edges[i + 1])\<close>.\<close>

definition stretches :: "'a list \<Rightarrow> ('a \<times> 'a) list" where
  "stretches edges = zip (butlast edges) (tl edges)"

text \<open>A gap of one month: weekdays, start, end.\<close>

type_synonym month_gap = "int list \<times> jsnum \<times> jsnum"

definition push_gap :: "month_gap list \<Rightarrow> int list \<Rightarrow> jsnum \<Rightarrow> jsnum \<Rightarrow> month_gap list" where
  "push_gap mgs opn time nxt =
     (if opn = [] then mgs
      else case last_opt mgs of
             Some (wd, s, e) \<Rightarrow>
               if js_eq e time \<and> wd = opn then butlast mgs @ [(wd, s, nxt)] else mgs @ [(opn, time, nxt)]
           | None \<Rightarrow> mgs @ [(opn, time, nxt)])"

definition month_gaps :: "int list option \<Rightarrow> prepared_band list \<Rightarrow> int \<Rightarrow> (jsnum \<times> jsnum) list \<Rightarrow> month_gap list" where
  "month_gaps reachable inSeason month sts =
     foldl (\<lambda>mgs (time, nxt). push_gap mgs (open_days reachable inSeason month time) time nxt) [] sts"

definition add_gap :: "int \<Rightarrow> CoverageGap list \<Rightarrow> month_gap \<Rightarrow> CoverageGap list" where
  "add_gap month gs mg =
     (case mg of (wd, s, e) \<Rightarrow>
       update_first (\<lambda>g. js_eq (g_start g) s \<and> js_eq (g_end g) e \<and> g_weekdays g = wd)
         (\<lambda>g. g\<lparr>g_months := g_months g @ [month]\<rparr>)
         \<lparr>g_months = [month], g_weekdays = wd, g_start = s, g_end = e\<rparr> gs)"

definition add_fallback ::
    "int \<Rightarrow> prepared_band \<Rightarrow> (prepared_band \<times> int list) list \<Rightarrow> (prepared_band \<times> int list) list" where
  "add_fallback month b fbs =
     update_first (\<lambda>f. pb_ref (fst f) = pb_ref b) (\<lambda>f. (fst f, snd f @ [month])) (b, [month]) fbs"

definition month_step ::
    "int list option \<Rightarrow> prepared_band list \<Rightarrow> jsnum list \<Rightarrow> band_coverage \<Rightarrow> int \<Rightarrow> band_coverage" where
  "month_step reachable ordered edges result month =
     (let inSeason = filter (in_month month) ordered;
          sts = stretches edges;
          mgs = month_gaps reachable inSeason month sts;
          ov = list_ex (\<lambda>(time, _). overlap_at reachable inSeason month time) sts;
          un = list_ex (\<lambda>(time, _). open_days reachable inSeason month time \<noteq> []) sts;
          fallback = (if inSeason \<noteq> [] then Some (hd inSeason) else if ordered \<noteq> [] then Some (hd ordered) else None)
      in \<lparr>uncovered = (uncovered result \<or> un), overlaps = (overlaps result \<or> ov),
          gaps = foldl (add_gap month) (gaps result) mgs,
          fallbacks = (case fallback of
              Some b \<Rightarrow> if mgs \<noteq> [] then add_fallback month b (fallbacks result) else fallbacks result
            | None \<Rightarrow> fallbacks result)\<rparr>)"

definition bandCoverage ::
    "(string \<Rightarrow> string \<Rightarrow> int) \<Rightarrow> CoverageBand list \<Rightarrow> string option \<Rightarrow> string option \<Rightarrow> band_coverage" where
  "bandCoverage localeCompare bands valid_from valid_to =
     (let reachable = reachablePairs valid_from valid_to;
          ordered = ordered_bands localeCompare bands;
          edges = window_edges ordered
      in foldl (month_step reachable ordered edges)
           \<lparr>uncovered = False, overlaps = False, gaps = [], fallbacks = []\<rparr> [1..12])"

section \<open>What it means for a band to price a second\<close>

abbreviation sec :: "int \<Rightarrow> jsnum" where
  "sec k \<equiv> Fin (of_int k)"

definition sec_of :: "jsnum option \<Rightarrow> int option" where
  "sec_of x = Option.bind x num_int"

text \<open>
  The reference reading: in its months a flat band prices every second; any other band needs its
  weekday and, when it has a window, the second to lie in it, past midnight when the end is not
  after the start.
\<close>

definition prices :: "int \<Rightarrow> int \<Rightarrow> int \<Rightarrow> prepared_band \<Rightarrow> bool" where
  "prices month day t b \<longleftrightarrow> in_month month b \<and>
     (cb_period_type (pb_band b) = flat \<or>
      on_day day b \<and>
      (case (sec_of (pb_start b), sec_of (pb_end b)) of
         (Some s, Some e) \<Rightarrow> if s < e then s \<le> t \<and> t < e else s \<le> t \<or> t < e
       | _ \<Rightarrow> True))"

text \<open>Times are seconds of the day.\<close>

definition time_ok :: "jsnum option \<Rightarrow> bool" where
  "time_ok x = (case x of None \<Rightarrow> True
     | Some v \<Rightarrow> (case num_int v of None \<Rightarrow> False | Some k \<Rightarrow> 0 \<le> k \<and> k \<le> 86400))"

definition times_ok :: "prepared_band \<Rightarrow> bool" where
  "times_ok b \<longleftrightarrow> time_ok (pb_start b) \<and> time_ok (pb_end b)"

lemma time_ok_iff: "time_ok x \<longleftrightarrow> x = None \<or> (\<exists>k. x = Some (sec k) \<and> 0 \<le> k \<and> k \<le> 86400)"
  by (auto simp: time_ok_def num_int_Some split: option.splits)

lemma sec_simps [simp]:
  "js_less (sec a) (sec b) \<longleftrightarrow> a < b" "js_le (sec a) (sec b) \<longleftrightarrow> a \<le> b"
  "js_eq (sec a) (sec b) \<longleftrightarrow> a = b" "sec_of (Some (sec a)) = Some a" "sec_of None = None"
  by (auto simp: js_le_def js_eq_def sec_of_def)

section \<open>Window edges\<close>

lemma cmp_le_sec: "\<bar>a\<bar> \<le> 86400 \<Longrightarrow> \<bar>b\<bar> \<le> 86400 \<Longrightarrow> cmp_le (js_sub (sec a) (sec b)) \<longleftrightarrow> a \<le> b"
proof -
  assume "\<bar>a\<bar> \<le> 86400" "\<bar>b\<bar> \<le> 86400"
  then have "to_num (of_int (a - b)) = sec (a - b)" by (intro to_num_int) auto
  moreover have "js_sub (sec a) (sec b) = to_num (of_int (a - b))" by (simp add: js_sub_def)
  ultimately show ?thesis
    using sec_simps(1) [of 0 "a - b"] by (simp only: cmp_le_def) auto
qed

lemma sort_sec:
  "list_all (\<lambda>k. \<bar>k\<bar> \<le> 86400) ks \<Longrightarrow>
     sort_by (\<lambda>a b. cmp_le (js_sub a b)) (map sec ks) = map sec (sort_by (\<le>) ks)"
  by (rule sort_by_map) (simp add: list_all_iff cmp_le_sec)

lemma uniq_map_inj: "inj f \<Longrightarrow> uniq (map f xs) = map f (uniq xs)"
  by (induction xs) (auto simp: filter_map comp_def inj_eq)

lemma inj_sec: "inj sec"
  by (auto simp: inj_def)

lemma strict_sort: "distinct ks \<Longrightarrow> sorted_wrt (<) (sort_by (\<le>) (ks :: int list))"
proof -
  assume "distinct ks"
  moreover have "sorted_wrt (\<le>) (sort_by (\<le>) ks)"
    by (rule sorted_sort_by) (auto intro: transpI totalpI reflpI)
  ultimately show ?thesis by (simp add: strict_sorted_iff)
qed

text \<open>The edges are strictly increasing, start the day and end it.\<close>

lemma window_edges_sec:
  assumes "list_all times_ok ordered"
  shows "\<exists>es. window_edges ordered = map sec es \<and> sorted_wrt (<) es
    \<and> 0 \<in> set es \<and> 86400 \<in> set es \<and> set es \<subseteq> {0..86400}
    \<and> (\<forall>p \<in> set ordered. \<forall>k. sec_of (pb_start p) = Some k \<or> sec_of (pb_end p) = Some k \<longrightarrow> k \<in> set es)"
proof -
  let ?secs = "\<lambda>p. option_list (sec_of (pb_start p)) @ option_list (sec_of (pb_end p))"
  define ks where "ks = uniq (0 # 86400 # concat (map ?secs ordered))"
  have one: "option_list (pb_start p) @ option_list (pb_end p) = map sec (?secs p)" if "p \<in> set ordered" for p
    using assms that by (auto simp: list_all_iff times_ok_def time_ok_iff option_list_def)
  have "concat (map (\<lambda>p. option_list (pb_start p) @ option_list (pb_end p)) ordered)
      = concat (map (\<lambda>p. map sec (?secs p)) ordered)"
    by (rule arg_cong [where f = concat]) (simp add: one cong: map_cong)
  then have eq: "uniq (Fin 0 # DAY # concat (map (\<lambda>p. option_list (pb_start p) @ option_list (pb_end p)) ordered))
      = map sec ks"
    unfolding ks_def uniq_map_inj [OF inj_sec, symmetric] by (simp add: DAY_def map_concat comp_def)
  have mem: "set ks = insert 0 (insert 86400 (\<Union>p \<in> set ordered. set (?secs p)))" by (simp only: ks_def set_uniq) simp
  have rng: "set ks \<subseteq> {0..86400}"
    using assms unfolding mem by (fastforce simp: list_all_iff times_ok_def time_ok_iff option_list_def split: option.splits)
  have "window_edges ordered = map sec (sort_by (\<le>) ks)"
    unfolding window_edges_def eq by (rule sort_sec) (use rng in \<open>auto simp: list_all_iff\<close>)
  moreover have "sorted_wrt (<) (sort_by (\<le>) ks)" by (rule strict_sort) (simp add: ks_def)
  moreover have "k \<in> set ks" if "p \<in> set ordered" "sec_of (pb_start p) = Some k \<or> sec_of (pb_end p) = Some k" for p k
    using that unfolding mem by (intro insertI2 UN_I [OF that(1)]) (auto simp: option_list_def)
  moreover have "0 \<in> set ks" "86400 \<in> set ks" by (simp_all add: mem)
  ultimately show ?thesis
    using rng by (intro exI [of _ "sort_by (\<le>) ks"]) simp
qed

section \<open>One probe per stretch is enough\<close>

lemma stretches_Cons2: "stretches (a # b # xs) = (a, b) # stretches (b # xs)"
  by (simp add: stretches_def)

lemma stretches_single [simp]: "stretches [a] = []" "stretches [] = []"
  by (simp_all add: stretches_def)

lemma stretches_map: "stretches (map f xs) = map (\<lambda>(a, b). (f a, f b)) (stretches xs)"
  by (simp add: stretches_def map_butlast [symmetric] map_tl [symmetric] zip_map_map)

lemma stretch_cover:
  "sorted_wrt (<) es \<Longrightarrow> es \<noteq> [] \<Longrightarrow> hd es \<le> t \<Longrightarrow> t < last es \<Longrightarrow>
     \<exists>a b. (a, b) \<in> set (stretches es) \<and> a \<le> t \<and> t < (b :: int)"
proof (induction es rule: induct_list012)
  case (3 x y zs)
  then show ?case by (cases "t < y") (auto simp: stretches_Cons2)
qed auto

lemma stretch_no_edge:
  "sorted_wrt (<) es \<Longrightarrow> (a, b) \<in> set (stretches es) \<Longrightarrow> a < b \<and> a \<in> set es \<and> (\<forall>e \<in> set es. e \<le> a \<or> b \<le> (e :: int))"
proof (induction es rule: induct_list012)
  case (3 x y zs)
  have later: "x < e" if "e \<in> set (y # zs)" for e using 3(3) that by auto
  have from_y: "y \<le> e" if "e \<in> set (y # zs)" for e using 3(3) that by auto
  show ?case
  proof (cases "(a, b) = (x, y)")
    case True
    then show ?thesis using later from_y by auto
  next
    case False
    then have "(a, b) \<in> set (stretches (y # zs))" using 3(4) by (auto simp: stretches_Cons2)
    then have IH: "a < b \<and> a \<in> set (y # zs) \<and> (\<forall>e \<in> set (y # zs). e \<le> a \<or> b \<le> e)"
      using 3(2) 3(3) by simp
    moreover from IH have "x \<le> a" using later [of a] by linarith
    ultimately show ?thesis by auto
  qed
qed auto

lemma sorted_hd_last:
  "sorted_wrt (<) es \<Longrightarrow> (k :: int) \<in> set es \<Longrightarrow> hd es \<le> k \<and> k \<le> last es"
proof (induction es)
  case (Cons x es)
  then have "es \<noteq> [] \<Longrightarrow> x < last es" by simp
  then show ?case using Cons by (cases "k = x") (auto simp: less_imp_le)
qed simp

lemma matches_stretch:
  assumes "times_ok p" "\<And>k. sec_of (pb_start p) = Some k \<or> sec_of (pb_end p) = Some k \<Longrightarrow> k \<le> a \<or> b \<le> k"
    "a \<le> t" "t < b"
  shows "matches day (sec a) p \<longleftrightarrow> matches day (sec t) p"
proof (cases "pb_start p = None \<or> pb_end p = None")
  case False
  then obtain s e where se: "pb_start p = Some (sec s)" "pb_end p = Some (sec e)"
    using assms(1) by (auto simp: times_ok_def time_ok_iff)
  then have "s \<le> a \<or> b \<le> s" "e \<le> a \<or> b \<le> e" using assms(2) by auto
  then show ?thesis using se assms(3,4) by (auto simp: matches_def in_window_def)
qed (auto simp: matches_def split: option.splits)

lemma prices_iff:
  assumes "times_ok p"
  shows "prices month day t p \<longleftrightarrow> in_month month p \<and> (matches day (sec t) p \<or> is_catch_all day p)"
proof -
  consider "pb_start p = None \<or> pb_end p = None"
    | s e where "pb_start p = Some (sec s)" "pb_end p = Some (sec e)"
    using assms by (auto simp: times_ok_def time_ok_iff)
  then show ?thesis
  proof cases
    case 1
    then show ?thesis
      by (auto simp: prices_def matches_def is_catch_all_def split: option.splits)
  next
    case 2
    then show ?thesis
      by (auto simp: prices_def matches_def is_catch_all_def in_window_def)
  qed
qed

text \<open>The days left open at the start of a stretch are the days left open at any of its seconds.\<close>

lemma open_days_stretch:
  assumes "list_all times_ok ordered" "sorted_wrt (<) es" "(a, b) \<in> set (stretches es)" "a \<le> t" "t < b"
    "\<forall>p \<in> set ordered. \<forall>k. sec_of (pb_start p) = Some k \<or> sec_of (pb_end p) = Some k \<longrightarrow> k \<in> set es"
  shows "day \<in> set (open_days reach (filter (in_month month) ordered) month (sec a)) \<longleftrightarrow>
    0 \<le> day \<and> day \<le> 6 \<and> is_reachable reach month day \<and> (\<forall>p \<in> set ordered. \<not> prices month day t p)"
proof -
  note edge = stretch_no_edge [OF assms(2,3)]
  have "matches day (sec a) p \<longleftrightarrow> matches day (sec t) p" if "p \<in> set ordered" for p
    by (rule matches_stretch [OF _ _ assms(4,5)]) (use that assms(1,6) edge in \<open>auto simp: list_all_iff\<close>)
  then show ?thesis
    using assms(1) by (auto simp: open_days_def filter_empty_conv list_all_iff prices_iff)
qed

section \<open>Collecting the gaps\<close>

definition covers :: "month_gap list \<Rightarrow> int \<Rightarrow> int \<Rightarrow> bool" where
  "covers mgs day t \<longleftrightarrow> (\<exists>(wd, s, e) \<in> set mgs. day \<in> set wd \<and> js_le s (sec t) \<and> js_less (sec t) e)"

definition proper :: "month_gap \<Rightarrow> bool" where
  "proper g \<longleftrightarrow> (\<exists>i j. fst (snd g) = sec i \<and> snd (snd g) = sec j \<and> i < j)"

lemma covers_append: "covers (xs @ ys) day t \<longleftrightarrow> covers xs day t \<or> covers ys day t"
  by (auto simp: covers_def)

lemma covers_single: "covers [(wd, s, e)] day t \<longleftrightarrow> day \<in> set wd \<and> js_le s (sec t) \<and> js_less (sec t) e"
  by (simp add: covers_def)

lemma push_gap_covers:
  assumes "list_all proper mgs" "a < b"
  shows "list_all proper (push_gap mgs opn (sec a) (sec b))"
    and "covers (push_gap mgs opn (sec a) (sec b)) day t \<longleftrightarrow> covers mgs day t \<or> day \<in> set opn \<and> a \<le> t \<and> t < b"
proof -
  have fresh: "proper (opn, sec a, sec b)" using assms(2) by (simp add: proper_def)
  have "list_all proper (push_gap mgs opn (sec a) (sec b)) \<and>
    (covers (push_gap mgs opn (sec a) (sec b)) day t \<longleftrightarrow> covers mgs day t \<or> day \<in> set opn \<and> a \<le> t \<and> t < b)"
  proof (cases mgs rule: rev_cases)
    case Nil
    then show ?thesis using fresh by (auto simp: push_gap_def covers_def)
  next
    case (snoc ms g)
    obtain wd s e where g: "g = (wd, s, e)" by (metis prod_cases3)
    obtain i j where ij: "s = sec i" "e = sec j" "i < j" using assms(1) snoc g by (auto simp: proper_def)
    have ms: "list_all proper ms" "proper g" using assms(1) snoc by simp_all
    show ?thesis
    proof (cases "opn \<noteq> [] \<and> j = a \<and> wd = opn")
      case True
      then have "push_gap mgs opn (sec a) (sec b) = ms @ [(wd, sec i, sec b)]"
        using snoc g ij by (simp add: push_gap_def)
      moreover have "proper (wd, sec i, sec b)" using True ij assms(2) by (simp add: proper_def)
      ultimately show ?thesis
        using True ij assms(2) ms snoc g by (auto simp: covers_append covers_single)
    next
      case False
      then have "push_gap mgs opn (sec a) (sec b) = (if opn = [] then mgs else mgs @ [(opn, sec a, sec b)])"
        using snoc g ij by (auto simp: push_gap_def)
      then show ?thesis using fresh assms by (auto simp: covers_append covers_single)
    qed
  qed
  then show "list_all proper (push_gap mgs opn (sec a) (sec b))"
    and "covers (push_gap mgs opn (sec a) (sec b)) day t \<longleftrightarrow> covers mgs day t \<or> day \<in> set opn \<and> a \<le> t \<and> t < b"
    by simp_all
qed

lemma foldl_gaps_covers:
  assumes "\<And>a b. (a, b) \<in> set sts \<Longrightarrow> a < b" "list_all proper mgs"
  shows "covers (foldl (\<lambda>mgs (time, nxt). push_gap mgs (opn time) time nxt) mgs (map (\<lambda>(a, b). (sec a, sec b)) sts)) day t
    \<longleftrightarrow> covers mgs day t \<or> (\<exists>(a, b) \<in> set sts. day \<in> set (opn (sec a)) \<and> a \<le> t \<and> t < b)"
  using assms
proof (induction sts arbitrary: mgs)
  case (Cons st sts)
  obtain a b where st: "st = (a, b)" by (cases st)
  have "a < b" using Cons.prems(1) st by simp
  note pc = push_gap_covers [OF Cons.prems(2) this]
  show ?case
    using Cons.IH [OF Cons.prems(1) pc(1), of "opn (sec a)"] Cons.prems(1) pc(2) st by (auto simp: split_beta)
qed simp

definition gap_covers :: "CoverageGap list \<Rightarrow> int \<Rightarrow> int \<Rightarrow> int \<Rightarrow> bool" where
  "gap_covers gs month day t \<longleftrightarrow> (\<exists>g \<in> set gs. month \<in> set (g_months g) \<and> day \<in> set (g_weekdays g)
     \<and> js_le (g_start g) (sec t) \<and> js_less (sec t) (g_end g))"

lemma gap_covers_Cons:
  "gap_covers (g # gs) month day t \<longleftrightarrow> (month \<in> set (g_months g) \<and> day \<in> set (g_weekdays g)
     \<and> js_le (g_start g) (sec t) \<and> js_less (sec t) (g_end g)) \<or> gap_covers gs month day t"
  by (auto simp: gap_covers_def)

lemma add_gap_covers:
  "gap_covers (add_gap m gs mg) month day t \<longleftrightarrow> gap_covers gs month day t \<or> (month = m \<and> covers [mg] day t)"
proof -
  obtain wd s e where mg: "mg = (wd, s, e)" by (metis prod_cases3)
  show ?thesis
    unfolding add_gap_def mg prod.case
  proof (induction gs)
    case Nil
    show ?case by (auto simp: gap_covers_def covers_single)
  next
    case (Cons g gs)
    show ?case
    proof (cases "js_eq (g_start g) s \<and> js_eq (g_end g) e \<and> g_weekdays g = wd")
      case True
      then show ?thesis by (auto simp: gap_covers_Cons covers_single js_eq_def)
    next
      case False
      then show ?thesis using Cons by (auto simp: gap_covers_Cons)
    qed
  qed
qed

lemma foldl_add_gap_covers:
  "gap_covers (foldl (add_gap m) gs mgs) month day t \<longleftrightarrow> gap_covers gs month day t \<or> (month = m \<and> covers mgs day t)"
proof (induction mgs arbitrary: gs)
  case (Cons mg mgs)
  then show ?case
    using covers_append [of "[mg]" mgs day t] by (auto simp: add_gap_covers)
qed (simp add: covers_def)

lemma gaps_month_step:
  "gaps (month_step reach ordered edges result month) =
     foldl (add_gap month) (gaps result) (month_gaps reach (filter (in_month month) ordered) month (stretches edges))"
  by (simp add: month_step_def Let_def)

lemma foldl_months_covers:
  "gap_covers (gaps (foldl (month_step reach ordered edges) result ms)) month day t \<longleftrightarrow>
     gap_covers (gaps result) month day t \<or>
     month \<in> set ms \<and> covers (month_gaps reach (filter (in_month month) ordered) month (stretches edges)) day t"
  by (induction ms arbitrary: result) (auto simp: gaps_month_step foldl_add_gap_covers)

text \<open>
  C1: the gaps reported for a set of price bands are exact. A month, weekday and second of the day
  lie in a reported gap if and only if the version can meet that month and weekday at all and no
  band prices that second, catch-all bands and windows past midnight included.
\<close>

theorem coverage_gaps_exact:
  assumes "list_all times_ok (map prepare (enumerate 0 bands))"
    "1 \<le> month" "month \<le> 12" "0 \<le> day" "day \<le> 6" "0 \<le> t" "t < 86400"
  shows "gap_covers (gaps (bandCoverage localeCompare bands valid_from valid_to)) month day t \<longleftrightarrow>
    is_reachable (reachablePairs valid_from valid_to) month day
    \<and> (\<forall>b \<in> set (map prepare (enumerate 0 bands)). \<not> prices month day t b)"
proof -
  let ?ord = "ordered_bands localeCompare bands" and ?r = "reachablePairs valid_from valid_to"
  have set_ord: "set ?ord = set (map prepare (enumerate 0 bands))" by (simp add: ordered_bands_def)
  have ok: "list_all times_ok ?ord" using assms(1) set_ord by (simp only: list_all_iff)
  obtain es where es: "window_edges ?ord = map sec es" "sorted_wrt (<) es" "0 \<in> set es" "86400 \<in> set es"
    "\<forall>p \<in> set ?ord. \<forall>k. sec_of (pb_start p) = Some k \<or> sec_of (pb_end p) = Some k \<longrightarrow> k \<in> set es"
    using window_edges_sec [OF ok] by blast
  let ?opn = "open_days ?r (filter (in_month month) ?ord) month"
  have "hd es \<le> 0" "86400 \<le> last es" "es \<noteq> []"
    using sorted_hd_last [OF es(2)] es(3,4) by auto
  then obtain a b where ab: "(a, b) \<in> set (stretches es)" "a \<le> t" "t < b"
    using stretch_cover [OF es(2), of t] assms(6,7) by auto
  have "covers (month_gaps ?r (filter (in_month month) ?ord) month (stretches (map sec es))) day t
      \<longleftrightarrow> (\<exists>(a, b) \<in> set (stretches es). day \<in> set (?opn (sec a)) \<and> a \<le> t \<and> t < b)"
    unfolding month_gaps_def stretches_map
    by (subst foldl_gaps_covers) (use stretch_no_edge [OF es(2)] in \<open>auto simp: covers_def\<close>)
  also have "\<dots> \<longleftrightarrow> is_reachable ?r month day \<and> (\<forall>p \<in> set ?ord. \<not> prices month day t p)"
    using open_days_stretch [OF ok es(2) _ _ _ es(5), where t = t and day = day] ab assms(4,5) by blast
  finally show ?thesis
    unfolding bandCoverage_def Let_def foldl_months_covers es(1) using assms(2,3) set_ord
    by (simp add: gap_covers_def)
qed

theorem coverage_gaps_exact_witness:
  "let b = \<lparr>cb_id = None, cb_period_type = high, cb_label = None, cb_price_chf_per_kwh = None, cb_percentage = None,
        cb_time_from = Some ''07:00'', cb_time_to = Some ''20:00'', cb_weekdays = None, cb_months = None\<rparr>
   in gap_covers (gaps (bandCoverage (\<lambda>_ _. 0) [b] None None)) 1 0 25199
      \<and> \<not> gap_covers (gaps (bandCoverage (\<lambda>_ _. 0) [b] None None)) 1 0 25200"
proof -
  let ?b = "\<lparr>cb_id = None, cb_period_type = high, cb_label = None, cb_price_chf_per_kwh = None, cb_percentage = None,
        cb_time_from = Some ''07:00'', cb_time_to = Some ''20:00'', cb_weekdays = None, cb_months = None\<rparr>"
  have h: "list_all times_ok (map prepare (enumerate 0 [?b]))" by code_simp
  have p: "\<not> prices 1 0 25199 (prepare (0, ?b))" "prices 1 0 25200 (prepare (0, ?b))" by code_simp+
  have r: "is_reachable (reachablePairs None None) 1 0" by code_simp
  show ?thesis
    unfolding Let_def
    using coverage_gaps_exact [OF h, where localeCompare = "\<lambda>_ _. 0" and month = 1 and day = 0 and t = 25199
        and valid_from = None and valid_to = None]
      coverage_gaps_exact [OF h, where localeCompare = "\<lambda>_ _. 0" and month = 1 and day = 0 and t = 25200
        and valid_from = None and valid_to = None] p r by simp
qed

end
