(* ===== verification/Tariff_Model.thy ===== *)
theory Tariff_Model
  imports Recurrence Calendar
begin

text \<open>
  The tariff data of \<open>frontend/src/types/api.ts\<close> and the rules of
  \<open>features/tariffs/validity.ts\<close>, \<open>vseImportSelection.ts\<close>, \<open>dynamicSources.ts\<close> and
  \<open>tariffOverview.ts\<close>: which version of a tariff is in force, how the overview groups the
  series, and which candidates of an imported document may be selected.
\<close>

section \<open>Tariffs\<close>

datatype TariffCategory = cat_energy | grid_fees | levies | cat_metering

datatype TariffBillingMode = mode_energy | percentage_of_energy | monthly_fee | yearly_fee
  | per_metering_point_monthly_fee | per_metering_point_yearly_fee | shared_monthly_fee | shared_yearly_fee

datatype TariffEnergyType = et_local | et_grid | et_feed_in

datatype split_key = split_equal | split_weight

datatype summary_status = complete | partial | unavailable

record DynamicPriceSummary =
  dps_status :: summary_status
  dps_average_chf_per_kwh :: "string option"
  dps_reference_from :: "string option"
  dps_reference_to :: "string option"

record percentage_base_summary =
  pbs_price_chf_per_kwh :: "string option"
  pbs_dynamic_status :: "summary_status option"
  pbs_reference_date :: string

record Tariff =
  t_id :: string
  t_zev :: string
  t_name :: string
  t_category :: TariffCategory
  t_billing_mode :: TariffBillingMode
  t_energy_type :: "TariffEnergyType option"
  t_fixed_price_chf :: "string option"
  t_split_key :: split_key
  t_valid_from :: string
  t_valid_to :: "string option"
  t_notes :: "string option"
  t_source_component :: "string option"
  t_source_series_name :: "string option"
  t_dynamic_source :: "string option"
  t_minimum_price_chf_per_kwh :: "string option"
  t_dynamic_price_summary :: "DynamicPriceSummary option"
  t_percentage_base_summary :: "percentage_base_summary option"

record TariffPeriod =
  p_id :: string
  p_tariff :: string
  p_period_type :: TariffPeriodType
  p_label :: "string option"
  p_price_chf_per_kwh :: "string option"
  p_percentage :: "string option"
  p_time_from :: "string option"
  p_time_to :: "string option"
  p_weekdays :: "string option"
  p_months :: "string option"

record TariffVersion = Tariff +
  tv_periods :: "TariffPeriod list"

record TariffGap =
  tg_start :: string
  tg_end :: string

record TariffSeries =
  ts_zev :: string
  ts_name :: string
  ts_category :: TariffCategory
  ts_billing_mode :: TariffBillingMode
  ts_energy_type :: "TariffEnergyType option"
  ts_version_count :: int
  ts_active_version_id :: "string option"
  ts_gaps :: "TariffGap list"
  ts_versions :: "TariffVersion list"

section \<open>Validity\<close>

datatype ValidityState = active | scheduled | expired

definition validityState :: "'a Tariff_scheme \<Rightarrow> string \<Rightarrow> ValidityState" where
  "validityState tariff today =
     (if t_valid_from tariff > today then scheduled
      else if truthy (t_valid_to tariff) \<and> nullish (t_valid_to tariff) [] < today then expired
      else active)"

definition isTariffCurrentlyValid :: "'a Tariff_scheme \<Rightarrow> string \<Rightarrow> bool" where
  "isTariffCurrentlyValid tariff today \<longleftrightarrow> validityState tariff today = active"

definition hasUpcomingVersion :: "'a Tariff_scheme list \<Rightarrow> string \<Rightarrow> bool" where
  "hasUpcomingVersion versions today = list_ex (\<lambda>v. validityState v today = scheduled) versions"

text \<open>The result is \<open>undefined\<close> (here \<^const>\<open>None\<close>) for an empty list.\<close>

definition listedVersion :: "'a Tariff_scheme list \<Rightarrow> string \<Rightarrow> bool \<Rightarrow> 'a Tariff_scheme option" where
  "listedVersion versions today upcoming =
     (let next = find_last (\<lambda>v. validityState v today = scheduled) versions
      in if upcoming \<and> next \<noteq> None then next
         else case find (\<lambda>v. validityState v today = active) versions of
                Some v \<Rightarrow> Some v
              | None \<Rightarrow> (case next of Some v \<Rightarrow> Some v | None \<Rightarrow> nth_opt versions 0))"

record TariffOverviewRow =
  row_series :: TariffSeries
  row_version :: TariffVersion
  row_upcomingVersion :: "TariffVersion option"

record TariffOverview =
  ov_current :: "TariffOverviewRow list"
  ov_upcoming :: "TariffOverviewRow list"
  ov_history :: "TariffOverviewRow list"

definition overview_step :: "string \<Rightarrow> TariffOverview \<Rightarrow> TariffSeries \<Rightarrow> TariffOverview" where
  "overview_step today overview entry =
     (let act = find (\<lambda>v. validityState v today = active) (ts_versions entry);
          next = find_last (\<lambda>v. validityState v today = scheduled) (ts_versions entry);
          ended = find (\<lambda>v. validityState v today = expired) (ts_versions entry)
      in case act of
           Some a \<Rightarrow> overview\<lparr>ov_current := ov_current overview
             @ [\<lparr>row_series = entry, row_version = a, row_upcomingVersion = next\<rparr>]\<rparr>
         | None \<Rightarrow>
             (case next of
                Some n \<Rightarrow> overview\<lparr>ov_upcoming := ov_upcoming overview
                  @ [\<lparr>row_series = entry, row_version = n, row_upcomingVersion = None\<rparr>]\<rparr>
              | None \<Rightarrow>
                  (case ended of
                     Some e \<Rightarrow> overview\<lparr>ov_history := ov_history overview
                       @ [\<lparr>row_series = entry, row_version = e, row_upcomingVersion = None\<rparr>]\<rparr>
                   | None \<Rightarrow> overview)))"

definition tariffOverview :: "TariffSeries list \<Rightarrow> string \<Rightarrow> TariffOverview" where
  "tariffOverview series today =
     foldl (overview_step today) \<lparr>ov_current = [], ov_upcoming = [], ov_history = []\<rparr> series"

section \<open>Selecting candidates of an imported document\<close>

datatype VseTariffCandidateStatus = cs_new | cs_new_version | cs_duplicate | cs_conflict | cs_unsupported

record VseTariffPeriodPreview =
  vp_period_type :: TariffPeriodType
  vp_label :: string
  vp_price_chf_per_kwh :: string
  vp_time_from :: "string option"
  vp_time_to :: "string option"
  vp_weekdays :: string
  vp_months :: string

record VseTariffCandidate =
  c_key :: string
  c_name :: string
  c_category :: TariffCategory
  c_billing_mode :: string
  c_billing_mode_options :: "string list"
  c_energy_type :: "string option"
  c_fixed_price_chf :: "string option"
  c_valid_from :: string
  c_valid_to :: "string option"
  c_notes :: string
  c_periods :: "VseTariffPeriodPreview list"
  c_source_tariff_name :: string
  c_source_tariff_type :: string
  c_source_customer_type :: string
  c_source_voltage_level :: "jsnum option"
  c_standard_basegroup :: bool
  c_dynamic_url :: string
  c_series_name :: string
  c_status :: VseTariffCandidateStatus
  c_detail :: string
  c_warnings :: "string list"
  c_recommended :: bool
  c_effective_valid_to :: "string option"

definition IMPORTABLE_STATUSES :: "VseTariffCandidateStatus list" where
  "IMPORTABLE_STATUSES = [cs_new, cs_new_version]"

definition isSelectable :: "VseTariffCandidate \<Rightarrow> bool" where
  "isSelectable candidate \<longleftrightarrow> c_status candidate \<in> set IMPORTABLE_STATUSES"

definition recommendedKeys :: "VseTariffCandidate list \<Rightarrow> string list" where
  "recommendedKeys candidates = uniq (map c_key (filter (\<lambda>c. c_recommended c \<and> isSelectable c) candidates))"

definition yearOf :: "string \<Rightarrow> jsnum" where
  "yearOf date = js_Number (slice 0 4 date)"

text \<open>The inner loop of \<open>candidateYears\<close>; \<^const>\<open>None\<close> is a run that never ends.\<close>

partial_function (option) years_loop :: "jsnum \<Rightarrow> jsnum \<Rightarrow> jsnum list \<Rightarrow> jsnum list option" where
  "years_loop year til years =
     (if js_le year til
      then years_loop (js_add year (Fin 1)) til (if year \<in> set years then years else years @ [year])
      else Some years)"

fun years_of :: "VseTariffCandidate list \<Rightarrow> jsnum list \<Rightarrow> jsnum list option" where
  "years_of [] years = Some years"
| "years_of (c # cs) years =
     (let frm = yearOf (c_valid_from c);
          til = (if truthy (c_valid_to c) then yearOf (nullish (c_valid_to c) []) else frm)
      in Option.bind (years_loop frm til years) (years_of cs))"

definition candidateYears :: "VseTariffCandidate list \<Rightarrow> jsnum list option" where
  "candidateYears candidates =
     map_option (sort_by (\<lambda>a b. cmp_le (js_sub a b))) (years_of candidates [])"

definition isValidInYear :: "VseTariffCandidate \<Rightarrow> jsnum option \<Rightarrow> bool" where
  "isValidInYear candidate year =
     (case year of
        None \<Rightarrow> True
      | Some y \<Rightarrow>
          if js_less y (yearOf (c_valid_from candidate)) then False
          else \<not> truthy (c_valid_to candidate) \<or> js_le y (yearOf (nullish (c_valid_to candidate) [])))"

definition canChooseBillingMode :: "VseTariffCandidate \<Rightarrow> bool" where
  "canChooseBillingMode candidate \<longleftrightarrow> 0 < length (c_billing_mode_options candidate) \<and> c_status candidate = cs_new"

definition defaultBillingModes :: "VseTariffCandidate list \<Rightarrow> (string \<times> string) list" where
  "defaultBillingModes candidates = foldl (\<lambda>m c. AList.update (c_key c) (c_billing_mode c) m) [] candidates"

definition selectionFor :: "VseTariffCandidate \<Rightarrow> string option \<Rightarrow> string \<times> string option" where
  "selectionFor candidate chosen =
     (if truthy chosen \<and> chosen \<noteq> Some (c_billing_mode candidate) then (c_key candidate, chosen)
      else (c_key candidate, None))"

definition toggleKey :: "string list \<Rightarrow> string \<Rightarrow> string list" where
  "toggleKey selected key = (if key \<in> set selected then removeAll key selected else selected @ [key])"

section \<open>Dynamic price sources\<close>

datatype DynamicTariffType = dt_electricity | dt_grid | dt_metering | dt_national_fees | dt_regional_fees
  | dt_dso | dt_dso_complete | dt_integrated | dt_integrated_complete | dt_feed_in | dt_refund

text \<open>Of a \<open>DynamicTariffSource\<close> the picker reads its id and its type.\<close>

record DynamicTariffSource =
  ds_id :: string
  ds_tariff_type :: DynamicTariffType

fun impliedEnergyType :: "DynamicTariffType \<Rightarrow> TariffEnergyType option" where
  "impliedEnergyType dt_feed_in = Some et_feed_in"
| "impliedEnergyType dt_refund = None"
| "impliedEnergyType _ = Some et_grid"

definition dynamicSourceOptions :: "DynamicTariffSource list \<Rightarrow> TariffEnergyType option \<Rightarrow> DynamicTariffSource list" where
  "dynamicSourceOptions sources lockedEnergyType =
     filter (\<lambda>source. let energyType = impliedEnergyType (ds_tariff_type source)
       in energyType \<noteq> None \<and> (lockedEnergyType = None \<or> energyType = lockedEnergyType)) sources"

section \<open>The overview PDF\<close>

datatype TariffValidityFilter = valid_only | all_versions

definition tariffOverviewParams :: "string \<Rightarrow> TariffValidityFilter \<Rightarrow> (string \<times> string) list" where
  "tariffOverviewParams zevId validityFilter =
     [(''zev_id'', zevId), (''scope'', if validityFilter = all_versions then ''all'' else ''valid'')]"

definition tariffOverviewFilename :: "string \<Rightarrow> string" where
  "tariffOverviewFilename asOfIso = ''tariff-overview-'' @ asOfIso @ ''.pdf''"

section \<open>The overview\<close>

lemma validityState_cases:
  "validityState v today \<noteq> active \<Longrightarrow> validityState v today \<noteq> scheduled \<Longrightarrow> validityState v today = expired"
  by (cases "validityState v today") auto

abbreviation act :: "string \<Rightarrow> TariffSeries \<Rightarrow> TariffVersion option" where
  "act today s \<equiv> find (\<lambda>v. validityState v today = active) (ts_versions s)"

abbreviation nxt :: "string \<Rightarrow> TariffSeries \<Rightarrow> TariffVersion option" where
  "nxt today s \<equiv> find_last (\<lambda>v. validityState v today = scheduled) (ts_versions s)"

lemma find_expired:
  assumes "act today s = None" "nxt today s = None"
  shows "find (\<lambda>v. validityState v today = expired) (ts_versions s) = nth_opt (ts_versions s) 0"
proof -
  have "validityState v today = expired" if "v \<in> set (ts_versions s)" for v
    using assms that unfolding find_None_iff find_last_None by (metis validityState_cases)
  then show ?thesis by (cases "ts_versions s") auto
qed

lemma overview_groups:
  "ov_current (tariffOverview ss today)
     = map (\<lambda>s. \<lparr>row_series = s, row_version = the (act today s), row_upcomingVersion = nxt today s\<rparr>)
         (filter (\<lambda>s. act today s \<noteq> None) ss)"
  "ov_upcoming (tariffOverview ss today)
     = map (\<lambda>s. \<lparr>row_series = s, row_version = the (nxt today s), row_upcomingVersion = None\<rparr>)
         (filter (\<lambda>s. act today s = None \<and> nxt today s \<noteq> None) ss)"
  "ov_history (tariffOverview ss today)
     = map (\<lambda>s. \<lparr>row_series = s, row_version = hd (ts_versions s), row_upcomingVersion = None\<rparr>)
         (filter (\<lambda>s. act today s = None \<and> nxt today s = None \<and> ts_versions s \<noteq> []) ss)"
proof (induction ss rule: rev_induct)
  case (snoc s ss)
  have step: "tariffOverview (ss @ [s]) today = overview_step today (tariffOverview ss today) s"
    by (simp add: tariffOverview_def)
  have ended: "act today s = None \<Longrightarrow> nxt today s = None \<Longrightarrow> ts_versions s \<noteq> [] \<Longrightarrow>
      find (\<lambda>v. validityState v today = expired) (ts_versions s) = Some (hd (ts_versions s))"
    using find_expired [of today s] by (cases "ts_versions s") simp_all
  { case 1 show ?case using snoc(1) unfolding step overview_step_def Let_def
      by (auto simp: find_last_def split: option.splits) }
  { case 2 show ?case using snoc(2) unfolding step overview_step_def Let_def
      by (auto simp: find_last_def split: option.splits) }
  { case 3 show ?case using snoc(3) ended unfolding step overview_step_def Let_def
      by (auto simp: find_last_def split: option.splits) }
qed (simp_all add: tariffOverview_def)

text \<open>
  The overview shows every tariff series that has a version exactly once: among the current
  ones with a version in force, else among the upcoming ones when a version is scheduled, else in
  the history when all its versions have ended. The row stands for the version the list would show.
\<close>

theorem tariff_overview_partition:
  "let ov = tariffOverview ss today
   in mset (map row_series (ov_current ov @ ov_upcoming ov @ ov_history ov)) = mset (filter (\<lambda>s. ts_versions s \<noteq> []) ss)
     \<and> (\<forall>r \<in> set (ov_current ov). validityState (row_version r) today = active)
     \<and> (\<forall>r \<in> set (ov_upcoming ov). validityState (row_version r) today = scheduled
          \<and> (\<forall>v \<in> set (ts_versions (row_series r)). validityState v today \<noteq> active))
     \<and> (\<forall>r \<in> set (ov_history ov). \<forall>v \<in> set (ts_versions (row_series r)). validityState v today = expired)
     \<and> (\<forall>r \<in> set (ov_current ov @ ov_upcoming ov @ ov_history ov).
          listedVersion (ts_versions (row_series r)) today False = Some (row_version r))"
proof -
  have none: "act today s = None \<and> nxt today s = None" if "ts_versions s = []" for s
    using that by (simp add: find_last_def)
  have parts: "mset (map row_series (ov_current (tariffOverview ss today) @ ov_upcoming (tariffOverview ss today)
      @ ov_history (tariffOverview ss today))) = mset (filter (\<lambda>s. ts_versions s \<noteq> []) ss)"
    unfolding overview_groups
    by (induction ss) (use none in \<open>auto simp: comp_def\<close>)
  have a: "validityState (the (act today s)) today = active" if "act today s \<noteq> None" for s
    using that find_in_set by fastforce
  have n: "validityState (the (nxt today s)) today = scheduled" if "nxt today s \<noteq> None" for s
    using that find_last_in_set by fastforce
  have na: "validityState v today \<noteq> active" if "act today s = None" "v \<in> set (ts_versions s)" for s v
    using that by (simp add: find_None_iff)
  have h: "validityState v today = expired"
    if "act today s = None" "nxt today s = None" "v \<in> set (ts_versions s)" for s v
  proof -
    have "validityState v today \<noteq> scheduled" using that(2,3) by (simp add: find_last_None)
    then show ?thesis by (rule validityState_cases [OF na [OF that(1,3)]])
  qed
  have l1: "listedVersion (ts_versions s) today False = Some (the (act today s))" if "act today s \<noteq> None" for s
    using that by (auto simp: listedVersion_def)
  have l2: "listedVersion (ts_versions s) today False = Some (the (nxt today s))"
    if "act today s = None" "nxt today s \<noteq> None" for s
    using that by (auto simp: listedVersion_def)
  have l3: "listedVersion (ts_versions s) today False = Some (hd (ts_versions s))"
    if "act today s = None" "nxt today s = None" "ts_versions s \<noteq> []" for s
    using that by (simp add: listedVersion_def nth_opt_def hd_conv_nth)
  have r1: "validityState (row_version r) today = active
      \<and> listedVersion (ts_versions (row_series r)) today False = Some (row_version r)"
    if "r \<in> set (ov_current (tariffOverview ss today))" for r
  proof -
    obtain s where "r = \<lparr>row_series = s, row_version = the (act today s), row_upcomingVersion = nxt today s\<rparr>"
      "act today s \<noteq> None" using \<open>r \<in> _\<close> unfolding overview_groups set_map set_filter by blast
    then show ?thesis using a [of s] l1 [of s] by simp
  qed
  have r2: "validityState (row_version r) today = scheduled
      \<and> (\<forall>v \<in> set (ts_versions (row_series r)). validityState v today \<noteq> active)
      \<and> listedVersion (ts_versions (row_series r)) today False = Some (row_version r)"
    if "r \<in> set (ov_upcoming (tariffOverview ss today))" for r
  proof -
    obtain s where "r = \<lparr>row_series = s, row_version = the (nxt today s), row_upcomingVersion = None\<rparr>"
      "act today s = None" "nxt today s \<noteq> None" using \<open>r \<in> _\<close> unfolding overview_groups set_map set_filter by blast
    then show ?thesis using n [of s] l2 [of s] na [of s] by simp
  qed
  have r3: "(\<forall>v \<in> set (ts_versions (row_series r)). validityState v today = expired)
      \<and> listedVersion (ts_versions (row_series r)) today False = Some (row_version r)"
    if "r \<in> set (ov_history (tariffOverview ss today))" for r
  proof -
    obtain s where s: "r = \<lparr>row_series = s, row_version = hd (ts_versions s), row_upcomingVersion = None\<rparr>"
      "act today s = None" "nxt today s = None" "ts_versions s \<noteq> []"
      using \<open>r \<in> _\<close> unfolding overview_groups set_map set_filter by blast
    show ?thesis unfolding s(1) TariffOverviewRow.simps using h [OF s(2,3)] l3 [OF s(2-4)] by blast
  qed
  show ?thesis
    unfolding Let_def set_append ball_Un using parts r1 r2 r3 by blast
qed

theorem tariff_overview_partition_witness:
  "\<exists>ss today. length (ov_current (tariffOverview ss today)) = 1
     \<and> (\<forall>r \<in> set (ov_current (tariffOverview ss today)). validityState (row_version r) today = active)"
proof -
  let ?v = "\<lparr>t_id = ''v'', t_zev = ''z'', t_name = ''n'', t_category = cat_energy, t_billing_mode = mode_energy,
      t_energy_type = None, t_fixed_price_chf = None, t_split_key = split_equal, t_valid_from = ''2026-01-01'',
      t_valid_to = None, t_notes = None, t_source_component = None, t_source_series_name = None,
      t_dynamic_source = None, t_minimum_price_chf_per_kwh = None, t_dynamic_price_summary = None,
      t_percentage_base_summary = None, tv_periods = []\<rparr>"
  let ?s = "\<lparr>ts_zev = ''z'', ts_name = ''n'', ts_category = cat_energy, ts_billing_mode = mode_energy,
      ts_energy_type = None, ts_version_count = 1, ts_active_version_id = None, ts_gaps = [], ts_versions = [?v]\<rparr>"
  have "length (ov_current (tariffOverview [?s] ''2026-06-01'')) = 1" by code_simp
  then show ?thesis
    using tariff_overview_partition [of "[?s]" "''2026-06-01''", unfolded Let_def] by blast
qed

section \<open>The years of a document\<close>

lemma yearOf_valid:
  assumes "valid_iso s"
  shows "yearOf s = Fin (of_int (YearFromDay (iso_day s)))" "0 \<le> YearFromDay (iso_day s)" "YearFromDay (iso_day s) \<le> 9999"
proof -
  have y: "four_digit_year (iso_day s)" by (rule four_digit_year_iso_day [OF assms])
  then show "0 \<le> YearFromDay (iso_day s)" "YearFromDay (iso_day s) \<le> 9999" by simp_all
  let ?n = "nat (YearFromDay (iso_day s))"
  have "slice 0 4 s = digs 4 ?n"
    using toISODate_eq [OF y] toISODate_iso_day [OF assms] by (metis append_eq_conv_conj diff_zero drop0 length_digs slice_def)
  moreover have v: "digits_val (digs 4 ?n) = ?n" using y by (simp add: digits_val_digs nat_less_iff)
  moreover have "js_Number (digs 4 ?n) = Fin (of_nat (digits_val (digs 4 ?n)))"
  proof (rule js_Number_digits)
    show "digs 4 ?n \<noteq> []" using length_digs [of 4 ?n] by (cases "digs 4 ?n") simp_all
    show "list_all is_digit (digs 4 ?n)" using digs_digits by (simp add: list_all_iff)
    show "digits_val (digs 4 ?n) < 2 ^ 53" using y unfolding v by (simp add: nat_less_iff)
  qed
  ultimately show "yearOf s = Fin (of_int (YearFromDay (iso_day s)))" using y by (simp add: yearOf_def)
qed

lemma years_loop_int:
  assumes "0 \<le> a" "b \<le> 9999"
  shows "\<exists>zs. years_loop (Fin (of_int a)) (Fin (of_int b)) ys = Some zs
    \<and> set zs = set ys \<union> {Fin (of_int y) | y. a \<le> y \<and> y \<le> b}"
  using assms
proof (induction "nat (b + 1 - a)" arbitrary: a ys)
  case 0
  then have "b < a" by simp
  then have "years_loop (Fin (of_int a)) (Fin (of_int b)) ys = Some ys"
    by (simp add: years_loop.simps js_le_def js_eq_def)
  with \<open>b < a\<close> show ?case by auto
next
  case (Suc n)
  then have ab: "a \<le> b" "n = nat (b + 1 - (a + 1))" by auto
  let ?ys = "if Fin (of_int a) \<in> set ys then ys else ys @ [Fin (of_int a)]"
  have "to_num (of_int (a + 1)) = Fin (of_int (a + 1))" by (rule to_num_int) (use Suc.prems ab in auto)
  then have add: "js_add (Fin (of_int a)) (Fin 1) = Fin (of_int (a + 1))" by simp
  have "years_loop (Fin (of_int a)) (Fin (of_int b)) ys = years_loop (Fin (of_int (a + 1))) (Fin (of_int b)) ?ys"
    using ab(1) by (subst years_loop.simps) (simp only: add, simp add: js_le_def js_eq_def)
  moreover obtain zs where "years_loop (Fin (of_int (a + 1))) (Fin (of_int b)) ?ys = Some zs"
    "set zs = set ?ys \<union> {Fin (of_int y) | y. a + 1 \<le> y \<and> y \<le> b}"
    using Suc(1) [OF ab(2), of ?ys] Suc.prems by auto
  moreover have "{Fin (of_int y) | y. a \<le> y \<and> y \<le> b} = insert (Fin (of_int a)) {Fin (of_int y) | y. a + 1 \<le> y \<and> y \<le> b}"
  proof -
    have "a \<le> y \<and> y \<le> b \<longleftrightarrow> y = a \<or> a + 1 \<le> y \<and> y \<le> b" for y using ab(1) by linarith
    then show ?thesis by (simp only:) blast
  qed
  ultimately show ?case by auto
qed

text \<open>The dates a candidate carries, as the preview sends them.\<close>

definition dated :: "VseTariffCandidate \<Rightarrow> bool" where
  "dated c \<longleftrightarrow> valid_iso (c_valid_from c) \<and>
     (truthy (c_valid_to c) \<longrightarrow> valid_iso (the (c_valid_to c)) \<and> c_valid_from c \<le> the (c_valid_to c))"

definition last_year :: "VseTariffCandidate \<Rightarrow> int" where
  "last_year c = YearFromDay (iso_day (if truthy (c_valid_to c) then the (c_valid_to c) else c_valid_from c))"

lemma years_of_dated:
  "list_all dated cs \<Longrightarrow> \<exists>zs. years_of cs ys = Some zs
    \<and> set zs = set ys \<union> {Fin (of_int y) | y. \<exists>c \<in> set cs. YearFromDay (iso_day (c_valid_from c)) \<le> y \<and> y \<le> last_year c}"
proof (induction cs arbitrary: ys)
  case (Cons c cs)
  let ?a = "YearFromDay (iso_day (c_valid_from c))"
  have v: "valid_iso (c_valid_from c)" "truthy (c_valid_to c) \<Longrightarrow> valid_iso (the (c_valid_to c))"
    using Cons.prems by (simp_all add: dated_def)
  have til: "(if truthy (c_valid_to c) then yearOf (nullish (c_valid_to c) []) else yearOf (c_valid_from c))
      = Fin (of_int (last_year c))" "last_year c \<le> 9999"
    using v yearOf_valid by (auto simp: last_year_def truthy_iff)
  obtain zs where z: "years_loop (Fin (of_int ?a)) (Fin (of_int (last_year c))) ys = Some zs"
    "set zs = set ys \<union> {Fin (of_int y) | y. ?a \<le> y \<and> y \<le> last_year c}"
    using years_loop_int [of ?a "last_year c" ys] yearOf_valid [OF v(1)] til(2) by blast
  have "years_of (c # cs) ys = years_of cs zs"
    unfolding years_of.simps Let_def til(1) unfolding yearOf_valid(1) [OF v(1)] z(1) by simp
  moreover obtain ws where "years_of cs zs = Some ws" "set ws = set zs \<union>
      {Fin (of_int y) | y. \<exists>c \<in> set cs. YearFromDay (iso_day (c_valid_from c)) \<le> y \<and> y \<le> last_year c}"
    using Cons.IH [of zs] Cons.prems by auto
  ultimately show ?case using z(2) by auto
qed simp

text \<open>
  the year filter of the import wizard ends and is exact: it offers a year if and only if a
  candidate is valid from that year or an earlier one until that year or a later one, an open end
  counting as its first year only; so no offered year is empty and no candidate is unreachable.
\<close>

theorem candidate_years_exact:
  assumes "list_all dated cs"
  shows "\<exists>ys. candidateYears cs = Some ys
    \<and> set ys = {Fin (of_int y) | y. \<exists>c \<in> set cs. YearFromDay (iso_day (c_valid_from c)) \<le> y \<and> y \<le> last_year c}
    \<and> (\<forall>y \<in> set ys. \<exists>c \<in> set cs. isValidInYear c (Some y))
    \<and> (\<forall>c \<in> set cs. \<exists>y \<in> set ys. isValidInYear c (Some y))"
proof -
  obtain zs where z: "years_of cs [] = Some zs"
    "set zs = {Fin (of_int y) | y. \<exists>c \<in> set cs. YearFromDay (iso_day (c_valid_from c)) \<le> y \<and> y \<le> last_year c}"
    using years_of_dated [OF assms, of "[]"] by auto
  have valid: "isValidInYear c (Some (Fin (of_int y)))"
    if "c \<in> set cs" "YearFromDay (iso_day (c_valid_from c)) \<le> y" "y \<le> last_year c" for c y
  proof -
    have d: "dated c" using assms that by (simp add: list_all_iff)
    then have f: "yearOf (c_valid_from c) = Fin (of_int (YearFromDay (iso_day (c_valid_from c))))"
      by (simp add: dated_def yearOf_valid)
    show ?thesis
    proof (cases "truthy (c_valid_to c)")
      case True
      then obtain x where x: "c_valid_to c = Some x" "x \<noteq> []" by (auto simp: truthy_iff)
      then have "yearOf x = Fin (of_int (YearFromDay (iso_day x)))" "y \<le> YearFromDay (iso_day x)"
        using d that(3) by (simp_all add: dated_def yearOf_valid last_year_def)
      then show ?thesis using f x that(2) by (auto simp: isValidInYear_def js_le_def js_eq_def)
    next
      case False
      then show ?thesis using f that(2) by (simp add: isValidInYear_def)
    qed
  qed
  have first: "YearFromDay (iso_day (c_valid_from c)) \<le> last_year c" if "c \<in> set cs" for c
  proof -
    have d: "dated c" using assms that by (simp add: list_all_iff)
    show ?thesis
    proof (cases "truthy (c_valid_to c)")
      case True
      with d have "iso_day (c_valid_from c) \<le> iso_day (the (c_valid_to c))"
        using iso_le_iff [of "c_valid_from c" "the (c_valid_to c)"] by (simp add: dated_def)
      then show ?thesis using True YearFromDay_mono by (simp add: last_year_def)
    qed (simp add: last_year_def)
  qed
  have "candidateYears cs = Some (sort_by (\<lambda>a b. cmp_le (js_sub a b)) zs)" using z(1) by (simp add: candidateYears_def)
  moreover have "\<exists>c \<in> set cs. isValidInYear c (Some y)" if "y \<in> set zs" for y
    using that valid unfolding z(2) by blast
  moreover have "\<exists>y \<in> set zs. isValidInYear c (Some y)" if "c \<in> set cs" for c
    unfolding z(2) using valid [OF that order_refl first [OF that]] first [OF that] that by blast
  ultimately show ?thesis using z(2) by simp
qed

theorem candidate_years_exact_witness:
  "\<exists>ys. candidateYears [\<lparr>c_key = ''k'', c_name = ''n'', c_category = cat_energy, c_billing_mode = ''energy'',
      c_billing_mode_options = [], c_energy_type = None, c_fixed_price_chf = None, c_valid_from = ''2026-01-01'',
      c_valid_to = Some ''2027-12-31'', c_notes = [], c_periods = [], c_source_tariff_name = [], c_source_tariff_type = [],
      c_source_customer_type = [], c_source_voltage_level = None, c_standard_basegroup = True, c_dynamic_url = [],
      c_series_name = [], c_status = cs_new, c_detail = [], c_warnings = [], c_recommended = True,
      c_effective_valid_to = None\<rparr>] = Some ys \<and> Fin 2026 \<in> set ys"
  (is "\<exists>ys. candidateYears [?c] = Some ys \<and> _")
proof -
  have h: "list_all dated [?c]" by code_simp
  have y: "YearFromDay (iso_day (c_valid_from ?c)) \<le> 2026" "2026 \<le> last_year ?c" by code_simp+
  obtain ys where ys: "candidateYears [?c] = Some ys"
    and mem: "set ys = {Fin (of_int y) | y. \<exists>c \<in> set [?c]. YearFromDay (iso_day (c_valid_from c)) \<le> y \<and> y \<le> last_year c}"
    using candidate_years_exact [OF h] by blast
  have "Fin (of_int 2026) \<in> set ys" unfolding mem using y by (intro CollectI exI [of _ 2026]) simp
  then show ?thesis using ys by (intro exI [of _ ys]) simp
qed

end
