(* ===== verification/Price_Gaps.thy ===== *)
theory Price_Gaps
  imports Business_Day JS_Number
begin

text \<open>
  \<open>frontend/src/features/tariffs/dynamicPriceGaps.ts\<close>: the holes of a fetched price series.
  \<open>Date.parse\<close> depends on the host for strings outside the ISO format and is an argument
  (\<^const>\<open>None\<close> is \<open>NaN\<close>); a function that returns an option of a list raises a
  \<open>RangeError\<close> on an invalid date, which is \<^const>\<open>None\<close>. Other arguments are \<open>toISOString\<close>, the
  collation of \<open>localeCompare\<close>, the offset of the business zone and the translated sentences.
\<close>

section \<open>Model of the source\<close>

record PriceGap =
  gap_from :: string
  gap_to :: string

record DynamicPricePoint =
  pt_valid_from :: string
  pt_valid_to :: string
  pt_price_chf_per_kwh :: string

text \<open>Comparisons and \<open>Math.min\<close>/\<open>Math.max\<close> of time values, \<open>NaN\<close> being \<^const>\<open>None\<close>.\<close>

definition ms_ge :: "instant option \<Rightarrow> instant option \<Rightarrow> bool" where
  "ms_ge a b = (case (a, b) of (Some x, Some y) \<Rightarrow> x \<ge> y | _ \<Rightarrow> False)"

definition ms_min :: "instant option \<Rightarrow> instant \<Rightarrow> instant option" where
  "ms_min a n = map_option (\<lambda>x. min x n) a"

definition ms_max :: "instant option \<Rightarrow> instant \<Rightarrow> instant option" where
  "ms_max a n = map_option (\<lambda>x. max x n) a"

definition elapsedPriceGaps ::
    "(string \<Rightarrow> instant option) \<Rightarrow> (instant \<Rightarrow> string) \<Rightarrow> PriceGap list \<Rightarrow> instant \<Rightarrow> PriceGap list option" where
  "elapsedPriceGaps dateParse toISOString gs now =
     map_option concat (those (map (\<lambda>gap.
       let end = ms_min (dateParse (gap_to gap)) now
       in if ms_ge (dateParse (gap_from gap)) end then Some []
          else case end of
                 None \<Rightarrow> None
               | Some e \<Rightarrow> Some [if end = dateParse (gap_to gap) then gap
                   else \<lparr>gap_from = gap_from gap, gap_to = toISOString e\<rparr>]) gs))"

text \<open>One iteration of the loop that merges civil days.\<close>

definition merge_day :: "(string \<times> string) list \<Rightarrow> string \<times> string \<Rightarrow> (string \<times> string) list" where
  "merge_day ranges day =
     (case last_opt ranges of
        Some previous \<Rightarrow>
          if fst day \<le> nextIsoDate (snd previous)
          then if snd day > snd previous then butlast ranges @ [(fst previous, snd day)] else ranges
          else ranges @ [day]
      | None \<Rightarrow> ranges @ [day])"

definition gap_days :: "(string \<Rightarrow> instant option) \<Rightarrow> (instant \<Rightarrow> int) \<Rightarrow> PriceGap \<Rightarrow> (string \<times> string) option" where
  "gap_days dateParse off gap =
     (case (dateParse (gap_from gap), dateParse (gap_to gap)) of
        (Some a, Some b) \<Rightarrow> Some (formatBusinessIsoDate off a, formatBusinessIsoDate off (b - 1))
      | _ \<Rightarrow> None)"

definition missingPriceDates ::
    "(string \<Rightarrow> instant option) \<Rightarrow> (instant \<Rightarrow> int) \<Rightarrow> (string \<Rightarrow> string \<Rightarrow> int) \<Rightarrow> PriceGap list
     \<Rightarrow> (string \<times> string) list option" where
  "missingPriceDates dateParse off localeCompare gs =
     map_option (\<lambda>days. foldl merge_day [] (sort_by (\<lambda>l r. localeCompare (fst l) (fst r) \<le> 0) days))
       (those (map (gap_days dateParse off) gs))"

definition missingRangeLabel ::
    "(string \<Rightarrow> string) \<Rightarrow> (string \<Rightarrow> string) \<Rightarrow> (string \<Rightarrow> string \<Rightarrow> string) \<Rightarrow> string \<times> string \<Rightarrow> string" where
  "missingRangeLabel formatShortDate missingDate missingDates rng =
     (let frm = formatShortDate (fst rng); til = formatShortDate (snd rng)
      in if frm = til then missingDate frm else missingDates frm til)"

text \<open>A chart row: a timestamp and a price, \<open>null\<close> being \<^const>\<open>None\<close>.\<close>

definition point_rows ::
    "(string \<Rightarrow> instant option) \<Rightarrow> instant \<Rightarrow> instant \<Rightarrow> DynamicPricePoint \<Rightarrow> (instant option \<times> jsnum option) list" where
  "point_rows dateParse start end point =
     (let frm = ms_max (dateParse (pt_valid_from point)) start;
          til = ms_min (dateParse (pt_valid_to point)) end
      in if ms_ge frm til then []
         else let price = js_Number (pt_price_chf_per_kwh point)
              in [(frm, Some price), (map_option (\<lambda>x. x - 1) til, Some price)])"

definition dynamicChartData ::
    "(string \<Rightarrow> instant option) \<Rightarrow> DynamicPricePoint list \<Rightarrow> PriceGap list \<Rightarrow> instant \<Rightarrow> instant
     \<Rightarrow> (instant option \<times> jsnum option) list" where
  "dynamicChartData dateParse points gs start end =
     sort_by (\<lambda>l r. case (fst l, fst r) of (Some a, Some b) \<Rightarrow> a \<le> b | _ \<Rightarrow> True)
       (concat (map (point_rows dateParse start end) points)
        @ concat (map (\<lambda>gap. [(dateParse (gap_from gap), None),
            (map_option (\<lambda>x. x - 1) (dateParse (gap_to gap)), None)]) gs))"

definition windowBounds :: "(instant \<Rightarrow> int) \<Rightarrow> string \<Rightarrow> string \<Rightarrow> instant option \<times> instant option" where
  "windowBounds off dateFrom dateTo =
     (if dateFrom = [] \<or> dateTo = [] then (Some 0, Some 0)
      else (businessDayStartMs off dateFrom, businessDayStartMs off (nextIsoDate dateTo)))"

section \<open>Elapsed gaps\<close>

definition in_gap :: "(string \<Rightarrow> instant option) \<Rightarrow> instant \<Rightarrow> PriceGap \<Rightarrow> bool" where
  "in_gap dateParse t g =
     (case (dateParse (gap_from g), dateParse (gap_to g)) of (Some a, Some b) \<Rightarrow> a \<le> t \<and> t < b | _ \<Rightarrow> False)"

definition gap_readable :: "(string \<Rightarrow> instant option) \<Rightarrow> PriceGap \<Rightarrow> bool" where
  "gap_readable dateParse g \<longleftrightarrow> dateParse (gap_from g) \<noteq> None \<and> dateParse (gap_to g) \<noteq> None"

text \<open>
  the elapsed gaps are exactly the past part of the gaps: an instant lies in one of them if and
  only if it is before now and lies in a gap of the series.
\<close>

theorem elapsed_gaps_exact:
  assumes "\<And>x. dateParse (toISOString x) = Some x" "list_all (gap_readable dateParse) gs"
  shows "\<exists>hs. elapsedPriceGaps dateParse toISOString gs now = Some hs \<and>
    (\<forall>t. (\<exists>h \<in> set hs. in_gap dateParse t h) \<longleftrightarrow> t < now \<and> (\<exists>g \<in> set gs. in_gap dateParse t g))"
  using assms(2)
proof (induction gs)
  case (Cons g gs)
  obtain a b where ab: "dateParse (gap_from g) = Some a" "dateParse (gap_to g) = Some b"
    using Cons.prems by (auto simp: gap_readable_def)
  obtain hs where hs: "elapsedPriceGaps dateParse toISOString gs now = Some hs"
    "\<forall>t. (\<exists>h \<in> set hs. in_gap dateParse t h) \<longleftrightarrow> t < now \<and> (\<exists>g \<in> set gs. in_gap dateParse t g)"
    using Cons by auto
  define new where "new = (if a \<ge> min b now then [] else
    [if min b now = b then g else \<lparr>gap_from = gap_from g, gap_to = toISOString (min b now)\<rparr>])"
  have one: "(\<exists>h \<in> set new. in_gap dateParse t h) \<longleftrightarrow> t < now \<and> in_gap dateParse t g" for t
    using ab assms(1) by (auto simp: new_def in_gap_def min_def)
  have "elapsedPriceGaps dateParse toISOString (g # gs) now = Some (new @ hs)"
    using hs(1) ab by (auto simp: elapsedPriceGaps_def ms_min_def ms_ge_def Let_def new_def)
  then show ?case using hs(2) one by (auto simp: bex_Un)
qed (simp add: elapsedPriceGaps_def)

theorem elapsed_gaps_exact_witness:
  "\<exists>dateParse toISOString hs.
     elapsedPriceGaps dateParse toISOString [\<lparr>gap_from = toISOString 0, gap_to = toISOString 10\<rparr>] 7 = Some hs
     \<and> (\<exists>g \<in> set hs. in_gap dateParse 5 g)"
proof -
  define pr where "pr = (\<lambda>s. if s = [] then None else
    Some (if hd s = CHR ''-'' then - int (digits_val (tl s)) else int (digits_val s)))"
  have p: "pr (int_str x) = Some x" for x
  proof (cases "x < 0")
    case False
    have "hd (nat_str (nat x)) \<noteq> CHR ''-''"
      using nat_str_digits [of "hd (nat_str (nat x))" "nat x"] by (auto simp: is_digit_def less_eq_char_def)
    with False show ?thesis by (simp add: pr_def)
  qed (simp add: int_str_def pr_def)
  let ?g = "\<lparr>gap_from = int_str 0, gap_to = int_str 10\<rparr>"
  have ab: "pr (gap_from ?g) = Some 0" "pr (gap_to ?g) = Some 10" using p [of 0] p [of 10] by simp_all
  then have r: "list_all (gap_readable pr) [?g]" by (simp add: gap_readable_def)
  have i: "in_gap pr 5 ?g" unfolding in_gap_def ab by simp
  obtain hs where "elapsedPriceGaps pr int_str [?g] 7 = Some hs"
    "\<forall>t. (\<exists>h \<in> set hs. in_gap pr t h) \<longleftrightarrow> t < 7 \<and> (\<exists>g \<in> set [?g]. in_gap pr t g)"
    using elapsed_gaps_exact [of pr int_str, OF p r, of 7] by blast
  with i show ?thesis by (intro exI [of _ pr] exI [of _ int_str] exI [of _ hs]) auto
qed

section \<open>Missing dates\<close>

text \<open>The merge on day numbers.\<close>

definition merge_int :: "(int \<times> int) list \<Rightarrow> int \<times> int \<Rightarrow> (int \<times> int) list" where
  "merge_int rs d =
     (case last_opt rs of
        Some p \<Rightarrow>
          if fst d \<le> snd p + 1
          then if snd d > snd p then butlast rs @ [(fst p, snd d)] else rs
          else rs @ [d]
      | None \<Rightarrow> rs @ [d])"

definition in_days :: "int \<Rightarrow> (int \<times> int) list \<Rightarrow> bool" where
  "in_days D rs \<longleftrightarrow> (\<exists>r \<in> set rs. fst r \<le> D \<and> D \<le> snd r)"

definition separated :: "(int \<times> int) list \<Rightarrow> bool" where
  "separated rs \<longleftrightarrow> sorted_wrt (\<lambda>r s. snd r + 1 < fst s) rs \<and> list_all (\<lambda>r. fst r \<le> snd r) rs"

lemma merge_int_step:
  assumes "separated rs" "fst d \<le> snd d" "rs \<noteq> [] \<Longrightarrow> fst (last rs) \<le> fst d"
  shows "separated (merge_int rs d)" "in_days D (merge_int rs d) \<longleftrightarrow> in_days D rs \<or> fst d \<le> D \<and> D \<le> snd d"
    "merge_int rs d \<noteq> [] \<and> fst (last (merge_int rs d)) \<le> fst d"
proof -
  have "separated (merge_int rs d) \<and> (in_days D (merge_int rs d) \<longleftrightarrow> in_days D rs \<or> fst d \<le> D \<and> D \<le> snd d)
    \<and> merge_int rs d \<noteq> [] \<and> fst (last (merge_int rs d)) \<le> fst d"
  proof (cases rs rule: rev_cases)
    case Nil
    then show ?thesis using assms by (auto simp: merge_int_def separated_def in_days_def)
  next
    case (snoc qs p)
    have q: "snd r + 1 < fst p" if "r \<in> set qs" for r
      using assms(1) snoc that by (simp add: separated_def sorted_wrt_append)
    have p: "fst p \<le> snd p" "fst p \<le> fst d" using assms snoc by (auto simp: separated_def)
    have "snd r + 1 < fst d" if "snd p + 1 < fst d" "r \<in> set qs" for r
      using q [OF that(2)] p that(1) by linarith
    then show ?thesis
      using assms snoc p by (auto simp: merge_int_def separated_def in_days_def sorted_wrt_append)
  qed
  then show "separated (merge_int rs d)" "in_days D (merge_int rs d) \<longleftrightarrow> in_days D rs \<or> fst d \<le> D \<and> D \<le> snd d"
    "merge_int rs d \<noteq> [] \<and> fst (last (merge_int rs d)) \<le> fst d" by simp_all
qed

lemma merge_int_all:
  assumes "list_all (\<lambda>d. fst d \<le> snd d) ds" "sorted_wrt (\<lambda>a b. fst a \<le> fst b) ds"
  shows "separated (foldl merge_int [] ds)" "in_days D (foldl merge_int [] ds) \<longleftrightarrow> in_days D ds"
proof -
  have "separated (foldl merge_int [] ds) \<and> (in_days D (foldl merge_int [] ds) \<longleftrightarrow> in_days D ds)
    \<and> (ds \<noteq> [] \<longrightarrow> foldl merge_int [] ds \<noteq> [] \<and> fst (last (foldl merge_int [] ds)) \<le> fst (last ds))"
    using assms
  proof (induction ds rule: rev_induct)
    case (snoc d ds)
    let ?rs = "foldl merge_int [] ds"
    have IH: "separated ?rs" "in_days D ?rs \<longleftrightarrow> in_days D ds" "ds \<noteq> [] \<Longrightarrow> fst (last ?rs) \<le> fst (last ds)"
      using snoc by (simp_all add: sorted_wrt_append)
    have "fst (last ?rs) \<le> fst d" if "?rs \<noteq> []"
    proof -
      have "ds \<noteq> []" using that by auto
      then show ?thesis using IH(3) snoc.prems(2) by (auto simp: sorted_wrt_append intro: order_trans)
    qed
    then show ?case
      using merge_int_step [of ?rs d] IH snoc.prems(1) by (auto simp: in_days_def bex_Un)
  qed (simp add: separated_def in_days_def)
  then show "separated (foldl merge_int [] ds)" "in_days D (foldl merge_int [] ds) \<longleftrightarrow> in_days D ds" by simp_all
qed

text \<open>On dates of the supported years the source computes that merge.\<close>

abbreviation iso_pair :: "int \<times> int \<Rightarrow> string \<times> string" where
  "iso_pair d \<equiv> (toISODate (fst d), toISODate (snd d))"

definition era_pair :: "int \<times> int \<Rightarrow> bool" where
  "era_pair d \<longleftrightarrow> 1000 \<le> YearFromDay (fst d) \<and> YearFromDay (fst d) \<le> 9999
     \<and> 1000 \<le> YearFromDay (snd d) \<and> YearFromDay (snd d + 1) \<le> 9999"

lemma era_pair_years:
  "era_pair d \<Longrightarrow> padded_year (fst d) \<and> padded_year (snd d) \<and> padded_year (snd d + 1)"
  using YearFromDay_mono [of "snd d" "snd d + 1"] by (auto simp: era_pair_def)

lemma merge_day_iso:
  assumes "list_all era_pair rs" "era_pair d"
  shows "merge_day (map iso_pair rs) (iso_pair d) = map iso_pair (merge_int rs d)" "list_all era_pair (merge_int rs d)"
proof -
  have "merge_day (map iso_pair rs) (iso_pair d) = map iso_pair (merge_int rs d) \<and> list_all era_pair (merge_int rs d)"
  proof (cases rs rule: rev_cases)
    case Nil
    then show ?thesis using assms by (simp add: merge_day_def merge_int_def)
  next
    case (snoc qs p)
    have p: "era_pair p" using assms(1) snoc by simp
    have "nextIsoDate (toISODate (snd p)) = toISODate (snd p + 1)"
      using era_pair_years [OF p] nextIsoDate_valid [of "toISODate (snd p)"] by simp
    then show ?thesis
      using snoc assms era_pair_years [OF p] era_pair_years [OF assms(2)]
      by (auto simp: merge_day_def merge_int_def toISODate_le_iff toISODate_less_iff era_pair_def)
  qed
  then show "merge_day (map iso_pair rs) (iso_pair d) = map iso_pair (merge_int rs d)"
    "list_all era_pair (merge_int rs d)" by simp_all
qed

lemma foldl_merge_iso:
  "list_all era_pair rs \<Longrightarrow> list_all era_pair ds \<Longrightarrow>
     foldl merge_day (map iso_pair rs) (map iso_pair ds) = map iso_pair (foldl merge_int rs ds)"
  by (induction ds arbitrary: rs) (simp_all add: merge_day_iso)

context business_zone
begin

definition local_day :: "int \<Rightarrow> int" where
  "local_day t = (t + off t) div day_ms"

lemma midnight_le_iff: "midnight D \<le> t \<longleftrightarrow> D \<le> local_day t"
proof -
  have "D * day_ms \<le> t + off t \<longleftrightarrow> D \<le> (t + off t) div day_ms"
    using floor_div [of day_ms "t + off t"] by (auto simp: less_eq_div_iff_mult_less_eq)
  then show ?thesis using at_or_after_midnight [of D t] by (simp add: local_day_def)
qed

lemma local_day_mono: "t \<le> u \<Longrightarrow> local_day t \<le> local_day u"
  using midnight_le_iff [of "local_day t" t] midnight_le_iff [of "local_day t" u] by simp

lemma local_day_midnight: "local_day (midnight D) = D"
  using midnight_local_time [of D] by (simp add: local_day_def)

text \<open>The days an interval of instants touches.\<close>

lemma day_hit:
  assumes "a < b"
  shows "(\<exists>t. a \<le> t \<and> t < b \<and> local_day t = D) \<longleftrightarrow> local_day a \<le> D \<and> D \<le> local_day (b - 1)"
proof
  assume "\<exists>t. a \<le> t \<and> t < b \<and> local_day t = D"
  then obtain t where "a \<le> t" "t \<le> b - 1" "local_day t = D" by auto
  then show "local_day a \<le> D \<and> D \<le> local_day (b - 1)" using local_day_mono by blast
next
  assume h: "local_day a \<le> D \<and> D \<le> local_day (b - 1)"
  let ?t = "max a (midnight D)"
  have "?t < b" using h midnight_le_iff [of D "b - 1"] assms by auto
  moreover have "local_day ?t = D"
  proof (cases "midnight D \<le> a")
    case True
    then show ?thesis using h midnight_le_iff [of D a] by simp
  next
    case False
    then show ?thesis using local_day_midnight [of D] by simp
  qed
  ultimately show "\<exists>t. a \<le> t \<and> t < b \<and> local_day t = D" by (intro exI [of _ ?t]) simp
qed

end

definition gap_day_pair :: "(string \<Rightarrow> instant option) \<Rightarrow> (instant \<Rightarrow> int) \<Rightarrow> PriceGap \<Rightarrow> int \<times> int" where
  "gap_day_pair dateParse off g =
     (case (dateParse (gap_from g), dateParse (gap_to g)) of
        (Some a, Some b) \<Rightarrow> ((a + off a) div day_ms, (b - 1 + off (b - 1)) div day_ms) | _ \<Rightarrow> (0, 0))"

text \<open>A gap that is not empty, of the supported years.\<close>

definition gap_in_era :: "(string \<Rightarrow> instant option) \<Rightarrow> (instant \<Rightarrow> int) \<Rightarrow> PriceGap \<Rightarrow> bool" where
  "gap_in_era dateParse off g =
     (case (dateParse (gap_from g), dateParse (gap_to g)) of
        (Some a, Some b) \<Rightarrow> a < b \<and> era_pair (gap_day_pair dateParse off g) | _ \<Rightarrow> False)"

lemma gap_in_era_pair: "gap_in_era dateParse off g \<Longrightarrow> era_pair (gap_day_pair dateParse off g)"
  by (auto simp: gap_in_era_def split: option.splits)

lemma gap_days_in_era:
  assumes "gap_in_era dateParse off g"
  shows "gap_days dateParse off g = Some (iso_pair (gap_day_pair dateParse off g))"
proof -
  obtain a b where ab: "dateParse (gap_from g) = Some a" "dateParse (gap_to g) = Some b"
    and era: "era_pair ((a + off a) div day_ms, (b - 1 + off (b - 1)) div day_ms)"
    using assms by (auto simp: gap_in_era_def gap_day_pair_def split: option.splits)
  show ?thesis
    using era_pair_years [OF era] formatBusinessIsoDate_eq [of a off] formatBusinessIsoDate_eq [of "b - 1" off]
    by (simp add: gap_days_def gap_day_pair_def ab)
qed

lemma gap_touches:
  assumes "business_zone off" "gap_in_era dateParse off g"
  shows "(\<exists>t. in_gap dateParse t g \<and> (t + off t) div day_ms = D) \<longleftrightarrow>
    fst (gap_day_pair dateParse off g) \<le> D \<and> D \<le> snd (gap_day_pair dateParse off g)"
    and "fst (gap_day_pair dateParse off g) \<le> snd (gap_day_pair dateParse off g)"
proof -
  obtain a b where ab: "dateParse (gap_from g) = Some a" "dateParse (gap_to g) = Some b" "a < b"
    using assms(2) by (auto simp: gap_in_era_def split: option.splits)
  note local_day = business_zone.local_day_def [OF assms(1)]
  show "(\<exists>t. in_gap dateParse t g \<and> (t + off t) div day_ms = D) \<longleftrightarrow>
    fst (gap_day_pair dateParse off g) \<le> D \<and> D \<le> snd (gap_day_pair dateParse off g)"
    using business_zone.day_hit [OF assms(1) ab(3), of D] by (simp add: in_gap_def ab gap_day_pair_def local_day conj_assoc)
  show "fst (gap_day_pair dateParse off g) \<le> snd (gap_day_pair dateParse off g)"
    using business_zone.local_day_mono [OF assms(1), of a "b - 1"] ab(3) by (simp add: gap_day_pair_def ab local_day)
qed

text \<open>
  C8: the list of missing dates is exact. It has a date range that contains a civil day if and only
  if some instant of that day has no price; the ranges are in order and neither overlap nor touch.
\<close>

theorem missing_dates_exact:
  assumes "business_zone off" "list_all (gap_in_era dateParse off) gs"
    "\<And>a b. valid_iso a \<Longrightarrow> valid_iso b \<Longrightarrow> localeCompare a b \<le> 0 \<longleftrightarrow> a \<le> b"
  shows "\<exists>rs. missingPriceDates dateParse off localeCompare gs = Some (map iso_pair rs) \<and> separated rs
    \<and> (\<forall>D. in_days D rs \<longleftrightarrow> (\<exists>g \<in> set gs. \<exists>t. in_gap dateParse t g \<and> (t + off t) div day_ms = D))"
proof -
  let ?d = "gap_day_pair dateParse off"
  let ?ds = "sort_by (\<lambda>l r. fst l \<le> fst r) (map ?d gs)"
  have era: "gap_in_era dateParse off g" if "g \<in> set gs" for g using assms(2) that by (simp add: list_all_iff)
  have pair: "era_pair d" if "d \<in> set (map ?d gs)" for d
    using era that gap_in_era_pair by auto
  have "those (map (gap_days dateParse off) gs) = Some (map iso_pair (map ?d gs))"
    unfolding map_map comp_def by (rule those_map_Some) (use era gap_days_in_era in simp)
  moreover have "sort_by (\<lambda>l r. localeCompare (fst l) (fst r) \<le> 0) (map iso_pair (map ?d gs)) = map iso_pair ?ds"
  proof (rule sort_by_map)
    fix x y assume "x \<in> set (map ?d gs)" "y \<in> set (map ?d gs)"
    then have "padded_year (fst x)" "padded_year (fst y)" using pair era_pair_years by blast+
    then show "localeCompare (fst (iso_pair x)) (fst (iso_pair y)) \<le> 0 \<longleftrightarrow> fst x \<le> fst y"
      using assms(3) [of "toISODate (fst x)" "toISODate (fst y)"] toISODate_le_iff by simp
  qed
  moreover have "list_all era_pair ?ds" using pair by (simp add: list_all_iff)
  then have "foldl merge_day (map iso_pair []) (map iso_pair ?ds) = map iso_pair (foldl merge_int [] ?ds)"
    by (intro foldl_merge_iso) simp_all
  ultimately have eq: "missingPriceDates dateParse off localeCompare gs = Some (map iso_pair (foldl merge_int [] ?ds))"
    by (simp add: missingPriceDates_def)
  have le: "list_all (\<lambda>d. fst d \<le> snd d) ?ds"
    using gap_touches(2) [OF assms(1)] era by (simp add: list_all_iff)
  have srt: "sorted_wrt (\<lambda>a b. fst a \<le> fst b) ?ds"
    by (rule sorted_sort_by) (auto intro!: transpI totalpI reflpI)
  have "in_days D ?ds \<longleftrightarrow> (\<exists>g \<in> set gs. \<exists>t. in_gap dateParse t g \<and> (t + off t) div day_ms = D)" for D
    using gap_touches(1) [OF assms(1)] era by (auto simp: in_days_def)
  with eq merge_int_all [OF le srt] show ?thesis by blast
qed

theorem missing_dates_exact_witness:
  "\<exists>rs. missingPriceDates (\<lambda>s. Some (int (length s) * day_ms)) eu_offset
      (\<lambda>a b. if a < b then - 1 else if b < a then 1 else 0)
      [\<lparr>gap_from = ''a'', gap_to = ''abc''\<rparr>, \<lparr>gap_from = ''abc'', gap_to = ''abcd''\<rparr>] = Some (map iso_pair rs)
    \<and> separated rs \<and> in_days 2 rs"
proof -
  let ?p = "\<lambda>s::string. Some (int (length s) * day_ms)" and ?c = "\<lambda>a b::string. if a < b then - 1 else if b < a then 1 else 0"
  let ?gs = "[\<lparr>gap_from = ''a'', gap_to = ''abc''\<rparr>, \<lparr>gap_from = ''abc'', gap_to = ''abcd''\<rparr>]"
  have era: "list_all (gap_in_era ?p eu_offset) ?gs" by code_simp
  have c: "(?c a b :: int) \<le> 0 \<longleftrightarrow> a \<le> b" for a b by auto
  have hit: "in_gap ?p (2 * day_ms) (hd ?gs)" "(2 * day_ms + eu_offset (2 * day_ms)) div day_ms = 2" by code_simp+
  obtain rs where rs: "missingPriceDates ?p eu_offset ?c ?gs = Some (map iso_pair rs)" "separated rs"
    and D: "\<And>D. in_days D rs \<longleftrightarrow> (\<exists>g \<in> set ?gs. \<exists>t. in_gap ?p t g \<and> (t + eu_offset t) div day_ms = D)"
    using missing_dates_exact [OF eu.business_zone_axioms era c] by blast
  have "in_days 2 rs"
    unfolding D by (rule bexI [of _ "hd ?gs"], rule exI [of _ "2 * day_ms"]) (use hit in simp_all)
  with rs show ?thesis by blast
qed

end
