(* ===== verification/Transfer_Sections.thy ===== *)
theory Transfer_Sections
  imports Prelude
begin

text \<open>
  \<open>frontend/src/features/zev/transferSections.ts\<close>: which sections of a community are exported or
  imported. A section may require others; ticking and unticking keep the selection closed under
  these requirements. The two loops of \<open>toggleSection\<close> are total functions here, and what they
  compute is characterised: the least closed selection above, the greatest closed one below.
\<close>

section \<open>Model of the source\<close>

datatype TransferSectionName = sn_zev | sn_participants | sn_metering_points | sn_tariffs | sn_charges
  | sn_readings | sn_supplementary_data | sn_invoices | sn_invoice_pdfs | sn_delivered_documents

instance TransferSectionName :: finite
proof
  have "UNIV = {sn_zev, sn_participants, sn_metering_points, sn_tariffs, sn_charges,
      sn_readings, sn_supplementary_data, sn_invoices, sn_invoice_pdfs, sn_delivered_documents}"
    using TransferSectionName.exhaust by blast
  then show "finite (UNIV :: TransferSectionName set)" by (metis finite.emptyI finite.insertI)
qed

record TransferSection =
  sec_name :: TransferSectionName
  requires :: "TransferSectionName list"

definition mk_section :: "TransferSectionName \<Rightarrow> TransferSectionName list \<Rightarrow> TransferSection" where
  "mk_section n rs = \<lparr>sec_name = n, requires = rs\<rparr>"

definition DEFAULT_SECTIONS :: "TransferSection list" where
  "DEFAULT_SECTIONS =
    [mk_section sn_zev [], mk_section sn_participants [], mk_section sn_metering_points [sn_participants],
     mk_section sn_tariffs [], mk_section sn_charges [sn_participants], mk_section sn_readings [sn_metering_points],
     mk_section sn_supplementary_data [sn_metering_points, sn_participants], mk_section sn_invoices [sn_participants],
     mk_section sn_invoice_pdfs [sn_invoices], mk_section sn_delivered_documents [sn_participants]]"

definition isSelectable :: "TransferSection \<Rightarrow> TransferSectionName list \<Rightarrow> bool" where
  "isSelectable sec selected = list_all (\<lambda>requirement. requirement \<in> set selected) (requires sec)"

definition unmetRequirements :: "TransferSection \<Rightarrow> TransferSectionName list \<Rightarrow> TransferSectionName list" where
  "unmetRequirements sec selected = filter (\<lambda>requirement. requirement \<notin> set selected) (requires sec)"

text \<open>One pass of the \<open>for\<close> loop over the sections, and the \<open>while (changed)\<close> loop around it.\<close>

definition drop_orphan :: "TransferSectionName list \<times> bool \<Rightarrow> TransferSection \<Rightarrow> TransferSectionName list \<times> bool" where
  "drop_orphan st sec =
     (if sec_name sec \<in> set (fst st) \<and> list_ex (\<lambda>requirement. requirement \<notin> set (fst st)) (requires sec)
      then (removeAll (sec_name sec) (fst st), True) else st)"

definition drop_pass :: "TransferSection list \<Rightarrow> TransferSectionName list \<Rightarrow> TransferSectionName list \<times> bool" where
  "drop_pass sections next = foldl drop_orphan (next, False) sections"

lemma foldl_drop_length:
  "length (fst (foldl drop_orphan st sections)) \<le> length (fst st)
   \<and> (snd (foldl drop_orphan st sections) \<and> \<not> snd st \<longrightarrow> length (fst (foldl drop_orphan st sections)) < length (fst st))"
proof (induction sections arbitrary: st)
  case (Cons sec sections)
  have "length (fst (drop_orphan st sec)) \<le> length (fst st)
      \<and> (snd (drop_orphan st sec) \<and> \<not> snd st \<longrightarrow> length (fst (drop_orphan st sec)) < length (fst st))"
    by (auto simp: drop_orphan_def removeAll_filter_not_eq length_filter_less)
  then show ?case using Cons [of "drop_orphan st sec"] by (auto intro: le_trans less_le_trans le_less_trans)
qed simp

function drop_loop :: "TransferSection list \<Rightarrow> TransferSectionName list \<Rightarrow> TransferSectionName list" where
  "drop_loop sections next =
     (let r = drop_pass sections next in if snd r then drop_loop sections (fst r) else fst r)"
  by auto
termination
  by (relation "measure (\<lambda>(_, next). length next)")
    (use foldl_drop_length [of "(_, False)"] in \<open>auto simp: drop_pass_def\<close>)

declare drop_loop.simps [simp del]

text \<open>The work list of ticking; \<open>pop\<close> takes the last element.\<close>

function tick_loop ::
    "(TransferSectionName \<Rightarrow> TransferSectionName list) \<Rightarrow> TransferSectionName list \<Rightarrow> TransferSectionName list
     \<Rightarrow> TransferSectionName list" where
  "tick_loop req pending next =
     (if pending = [] then next
      else if last pending \<in> set next then tick_loop req (butlast pending) next
      else tick_loop req (butlast pending @ req (last pending)) (next @ [last pending]))"
  by auto
termination
proof (relation "measures [\<lambda>(_, _, next). card (UNIV - set next), \<lambda>(_, pending, _). length pending]", goal_cases)
  case (3 req pending nxt)
  then have "UNIV - set (nxt @ [last pending]) \<subset> UNIV - set nxt" by auto
  then have "card (UNIV - set (nxt @ [last pending])) < card (UNIV - set nxt)" by (simp add: psubset_card_mono)
  then show ?case by simp
qed simp_all

declare tick_loop.simps [simp del]

definition requires_of :: "TransferSection list \<Rightarrow> TransferSectionName \<Rightarrow> TransferSectionName list" where
  "requires_of sections name =
     (case map_of (rev (map (\<lambda>sec. (sec_name sec, sec)) sections)) name of None \<Rightarrow> [] | Some sec \<Rightarrow> requires sec)"

definition toggleSection ::
    "TransferSection list \<Rightarrow> TransferSectionName list \<Rightarrow> TransferSectionName \<Rightarrow> TransferSectionName list" where
  "toggleSection sections selected name =
     (let next = uniq selected;
          result = (if name \<in> set next then drop_loop sections (removeAll name next)
                    else tick_loop (requires_of sections) [name] next)
      in filter (\<lambda>sectionName. sectionName \<in> set result) (map sec_name sections))"

section \<open>Closed selections\<close>

definition closed_selection :: "TransferSection list \<Rightarrow> TransferSectionName set \<Rightarrow> bool" where
  "closed_selection sections S \<longleftrightarrow> list_all (\<lambda>sec. sec_name sec \<in> S \<longrightarrow> set (requires sec) \<subseteq> S) sections"

definition well_formed_graph :: "TransferSection list \<Rightarrow> bool" where
  "well_formed_graph sections \<longleftrightarrow> distinct (map sec_name sections)
     \<and> list_all (\<lambda>sec. set (requires sec) \<subseteq> set (map sec_name sections)) sections"

lemma closed_selectionD:
  "closed_selection sections S \<Longrightarrow> sec \<in> set sections \<Longrightarrow> sec_name sec \<in> S \<Longrightarrow> set (requires sec) \<subseteq> S"
  by (simp add: closed_selection_def list_all_iff)

lemma foldl_drop_subset: "set (fst (foldl drop_orphan st sections)) \<subseteq> set (fst st)"
proof (induction sections arbitrary: st)
  case (Cons sec sections)
  have "set (fst (drop_orphan st sec)) \<subseteq> set (fst st)" by (auto simp: drop_orphan_def)
  then show ?case using Cons [of "drop_orphan st sec"] by auto
qed simp

lemma foldl_drop_keeps_closed:
  "closed_selection all T \<Longrightarrow> set sections \<subseteq> set all \<Longrightarrow> T \<subseteq> set (fst st) \<Longrightarrow> T \<subseteq> set (fst (foldl drop_orphan st sections))"
proof (induction sections arbitrary: st)
  case (Cons sec sections)
  have "sec_name sec \<notin> T" if "list_ex (\<lambda>r. r \<notin> set (fst st)) (requires sec)"
    using that closed_selectionD [OF Cons.prems(1), of sec] Cons.prems(2,3) by (auto simp: list_ex_iff)
  then have "T \<subseteq> set (fst (drop_orphan st sec))" using Cons.prems(3) by (auto simp: drop_orphan_def)
  then show ?case using Cons by simp
qed simp

lemma foldl_drop_sticky: "snd st \<Longrightarrow> snd (foldl drop_orphan st sections)"
proof (induction sections arbitrary: st)
  case (Cons sec sections)
  have "snd (drop_orphan st sec)" using Cons.prems by (simp add: drop_orphan_def)
  then show ?case using Cons.IH by simp
qed simp

lemma foldl_drop_unchanged:
  "\<not> snd (foldl drop_orphan st sections) \<Longrightarrow>
     fst (foldl drop_orphan st sections) = fst st \<and> closed_selection sections (set (fst st))"
proof (induction sections arbitrary: st)
  case (Cons sec sections)
  have n: "\<not> snd (drop_orphan st sec)" using Cons.prems foldl_drop_sticky [of "drop_orphan st sec" sections] by auto
  then have eq: "drop_orphan st sec = st" by (auto simp: drop_orphan_def split: if_splits)
  then have "\<not> (sec_name sec \<in> set (fst st) \<and> list_ex (\<lambda>r. r \<notin> set (fst st)) (requires sec))"
    using n by (cases st) (auto simp: drop_orphan_def split: if_splits)
  then show ?case using Cons eq by (auto simp: closed_selection_def list_ex_iff)
qed (simp add: closed_selection_def)

lemma drop_loop_greatest:
  "closed_selection sections (set (drop_loop sections next)) \<and> set (drop_loop sections next) \<subseteq> set next
   \<and> (\<forall>T. closed_selection sections T \<and> T \<subseteq> set next \<longrightarrow> T \<subseteq> set (drop_loop sections next))"
proof (induction sections "next" rule: drop_loop.induct)
  case (1 sections nxt)
  let ?r = "drop_pass sections nxt"
  have sub: "set (fst ?r) \<subseteq> set nxt" using foldl_drop_subset [of "(nxt, False)"] by (simp add: drop_pass_def)
  have keep: "T \<subseteq> set (fst ?r)" if "closed_selection sections T" "T \<subseteq> set nxt" for T
    using foldl_drop_keeps_closed [OF that(1), of sections "(nxt, False)"] that(2) by (simp add: drop_pass_def)
  show ?case
  proof (cases "snd ?r")
    case True
    then have "drop_loop sections nxt = drop_loop sections (fst ?r)" by (simp add: drop_loop.simps [of sections nxt] Let_def)
    then show ?thesis using 1 [OF refl True] sub keep by (metis subset_trans)
  next
    case False
    then have eq: "drop_loop sections nxt = fst ?r" by (simp add: drop_loop.simps [of sections nxt] Let_def)
    have "closed_selection sections (set (fst ?r))"
      using False foldl_drop_unchanged [of "(nxt, False)" sections] by (simp add: drop_pass_def)
    then show ?thesis using eq sub keep by simp
  qed
qed

definition req_closed :: "(TransferSectionName \<Rightarrow> TransferSectionName list) \<Rightarrow> TransferSectionName set \<Rightarrow> bool" where
  "req_closed req T \<longleftrightarrow> (\<forall>x \<in> T. set (req x) \<subseteq> T)"

lemma tick_loop_least:
  assumes "\<forall>x \<in> set next. set (req x) \<subseteq> set next \<union> set pending"
  shows "req_closed req (set (tick_loop req pending next))
    \<and> set next \<union> set pending \<subseteq> set (tick_loop req pending next)
    \<and> (\<forall>T. req_closed req T \<and> set next \<union> set pending \<subseteq> T \<longrightarrow> set (tick_loop req pending next) \<subseteq> T)"
  using assms
proof (induction req pending "next" rule: tick_loop.induct)
  case (1 req pending nxt)
  show ?case
  proof (cases "pending = []")
    case True
    then show ?thesis using 1(3) by (simp add: tick_loop.simps req_closed_def)
  next
    case ne: False
    have split: "set pending = insert (last pending) (set (butlast pending))"
      using ne by (metis append_butlast_last_id list.simps(15) rotate1.simps(2) set_rotate1)
    show ?thesis
    proof (cases "last pending \<in> set nxt")
      case True
      have eq: "tick_loop req pending nxt = tick_loop req (butlast pending) nxt"
        using ne True by (simp add: tick_loop.simps [of req pending])
      have un: "set nxt \<union> set pending = set nxt \<union> set (butlast pending)" using True split by auto
      show ?thesis unfolding eq un using 1(1) [OF ne True] 1(3) un by simp
    next
      case False
      let ?p = "butlast pending @ req (last pending)" and ?n = "nxt @ [last pending]"
      have eq: "tick_loop req pending nxt = tick_loop req ?p ?n"
        using ne False by (simp add: tick_loop.simps [of req pending])
      have inv: "\<forall>x \<in> set ?n. set (req x) \<subseteq> set ?n \<union> set ?p" using 1(3) split by auto
      note IH = 1(2) [OF ne False inv]
      have un: "set ?n \<union> set ?p = set nxt \<union> set pending \<union> set (req (last pending))" using split by auto
      have "set nxt \<union> set pending \<union> set (req (last pending)) \<subseteq> T" if "req_closed req T" "set nxt \<union> set pending \<subseteq> T" for T
        using that split by (auto simp: req_closed_def)
      then show ?thesis unfolding eq using IH unfolding un by blast
    qed
  qed
qed

lemma requires_of_section:
  assumes "distinct (map sec_name sections)" "sec \<in> set sections"
  shows "requires_of sections (sec_name sec) = requires sec"
proof -
  let ?ps = "map (\<lambda>sec. (sec_name sec, sec)) sections"
  have "distinct (map fst (rev ?ps))" using assms(1) by (simp add: comp_def flip: rev_map)
  moreover have "(sec_name sec, sec) \<in> set (rev ?ps)" using assms(2) by auto
  ultimately have "map_of (rev ?ps) (sec_name sec) = Some sec" by (rule map_of_is_SomeI)
  then show ?thesis by (simp add: requires_of_def)
qed

lemma closed_iff_req_closed:
  assumes "well_formed_graph sections" "T \<subseteq> set (map sec_name sections)"
  shows "closed_selection sections T \<longleftrightarrow> req_closed (requires_of sections) T"
  using assms requires_of_section [of sections]
  by (fastforce simp: closed_selection_def req_closed_def well_formed_graph_def list_all_iff)

text \<open>
  C7: toggling a section keeps a coherent selection coherent and changes no more than it has to.
  Ticking yields the least coherent selection that contains the old one and the section; unticking
  yields the greatest coherent selection within the old one that lacks the section. Both loops end.
\<close>

theorem toggle_section_closed:
  assumes "well_formed_graph sections" "closed_selection sections (set selected)"
    "set selected \<subseteq> set (map sec_name sections)" "name \<in> set (map sec_name sections)"
  shows "let R = set (toggleSection sections selected name)
    in closed_selection sections R \<and>
      (if name \<in> set selected
       then R \<subseteq> set selected - {name}
         \<and> (\<forall>T. closed_selection sections T \<and> T \<subseteq> set selected - {name} \<longrightarrow> T \<subseteq> R)
       else set selected \<union> {name} \<subseteq> R
         \<and> (\<forall>T. closed_selection sections T \<and> T \<subseteq> set (map sec_name sections) \<and> set selected \<union> {name} \<subseteq> T \<longrightarrow> R \<subseteq> T))"
proof (cases "name \<in> set selected")
  case True
  let ?d = "drop_loop sections (removeAll name (uniq selected))"
  have g: "closed_selection sections (set ?d)" "set ?d \<subseteq> set selected - {name}"
    "\<forall>T. closed_selection sections T \<and> T \<subseteq> set selected - {name} \<longrightarrow> T \<subseteq> set ?d"
    using drop_loop_greatest [of sections "removeAll name (uniq selected)"] by simp_all
  have R: "set (toggleSection sections selected name) = set ?d"
    using True g(2) assms(3) by (auto simp: toggleSection_def Let_def)
  show ?thesis unfolding Let_def R using True g by simp
next
  case False
  let ?N = "set (map sec_name sections)" and ?t = "tick_loop (requires_of sections) [name] (uniq selected)"
  note eqv = closed_iff_req_closed [OF assms(1)]
  have "req_closed (requires_of sections) (set selected)" using eqv [OF assms(3)] assms(2) by simp
  then have inv: "\<forall>x \<in> set (uniq selected). set (requires_of sections x) \<subseteq> set (uniq selected) \<union> set [name]"
    by (auto simp: req_closed_def)
  note l = tick_loop_least [OF inv]
  have "closed_selection sections ?N" using assms(1) by (auto simp: closed_selection_def well_formed_graph_def list_all_iff)
  then have "set ?t \<subseteq> ?N" using l eqv [of ?N] assms(3,4) by simp
  then have R: "set (toggleSection sections selected name) = set ?t"
    using False by (auto simp: toggleSection_def Let_def)
  show ?thesis unfolding Let_def R using False l eqv [OF \<open>set ?t \<subseteq> ?N\<close>] eqv by auto
qed

theorem toggle_section_closed_witness:
  "let R = set (toggleSection DEFAULT_SECTIONS [sn_zev, sn_participants, sn_metering_points, sn_readings] sn_participants)
   in sn_participants \<notin> R \<and> closed_selection DEFAULT_SECTIONS R"
proof -
  let ?sel = "[sn_zev, sn_participants, sn_metering_points, sn_readings]"
  have h: "well_formed_graph DEFAULT_SECTIONS" "closed_selection DEFAULT_SECTIONS (set ?sel)"
    "set ?sel \<subseteq> set (map sec_name DEFAULT_SECTIONS)" "sn_participants \<in> set (map sec_name DEFAULT_SECTIONS)"
    by code_simp+
  show ?thesis using toggle_section_closed [OF h] by (auto simp: Let_def)
qed

end
