(* ===== verification/Invoices.thy ===== *)
theory Invoices
  imports JS_Number
begin

text \<open>
  The invoice list of a billing period: \<open>frontend/src/features/invoices/\<close> with
  \<open>invoiceRowState.ts\<close> (problems and workflow steps of a row), \<open>invoiceStatus.ts\<close>,
  \<open>invoiceCredits.ts\<close>, \<open>invoiceRowFilters.ts\<close>, \<open>emailLogs.ts\<close>, \<open>pdfWatch.ts\<close> (the polling
  state machine of queued renders) and \<open>publicInvoice/grouping.ts\<close>. Of the wide API records the
  model keeps the fields these files read. The parser of timestamps, which depends on the host, is
  the argument \<open>dateParse\<close>.
\<close>

section \<open>Data\<close>

datatype InvoicePdfStatus = pdf_none | pdf_pending | pdf_ready | pdf_failed

record EmailLog =
  log_id :: string
  log_recipient :: string
  log_status :: string
  log_created_at :: string

record InvoiceCreditApplication =
  ca_amount_chf :: string
  ca_released_at :: "string option"

record Invoice =
  inv_id :: string
  inv_status :: string
  inv_due_date :: "string option"
  inv_total_chf :: string
  inv_credit_applied_chf :: "string option"
  inv_amount_due_chf :: "string option"
  inv_paid_chf :: "string option"
  inv_outstanding_chf :: "string option"
  inv_credits :: "string list option"
  inv_credit_applications :: "InvoiceCreditApplication list option"
  inv_pdf_url :: "string option"
  inv_pdf_status :: "InvoicePdfStatus option"
  inv_last_email_status :: "string option"
  inv_email_logs :: "EmailLog list option"
  inv_needs_data_review :: bool
  inv_approved_at :: "string option"

datatype eligibility = eligible | covered | blocked

record InvoicePeriodParticipantRow =
  row_participant_id :: string
  row_participant_email :: "string option"
  row_party_id :: string
  row_invoice :: "Invoice option"
  row_generation_eligibility :: "eligibility option"
  row_eligibility_invoice_id :: "string option"
  row_metering_data_complete :: bool
  row_metering_points_total :: int

section \<open>Status, payments and credits\<close>

definition getLatestEmailLog :: "(string \<Rightarrow> int option) \<Rightarrow> Invoice option \<Rightarrow> EmailLog option" where
  "getLatestEmailLog dateParse invoice =
     (case Option.bind invoice inv_email_logs of
        None \<Rightarrow> None
      | Some logs \<Rightarrow>
          nth_opt (sort_by (\<lambda>a b. case (dateParse (log_created_at b), dateParse (log_created_at a)) of
              (Some tb, Some ta) \<Rightarrow> tb - ta \<le> 0 | _ \<Rightarrow> True) logs) 0)"

definition OPEN_INVOICE_STATUSES :: "string list" where
  "OPEN_INVOICE_STATUSES = [''approved'', ''sent'']"

definition isOpenInvoiceStatus :: "string \<Rightarrow> bool" where
  "isOpenInvoiceStatus status \<longleftrightarrow> status \<in> set OPEN_INVOICE_STATUSES"


datatype PaymentState = due | overdue | paid

definition paymentState :: "Invoice \<Rightarrow> string \<Rightarrow> PaymentState option" where
  "paymentState invoice today =
     (if inv_status invoice = ''paid'' then Some paid
      else if \<not> isOpenInvoiceStatus (inv_status invoice) then None
      else let amountDue = js_Number (nullish (inv_amount_due_chf invoice) (inv_total_chf invoice))
           in if \<not> js_less (Fin 0) amountDue then None
              else if inv_outstanding_chf invoice \<noteq> None
                \<and> js_le (js_Number (nullish (inv_outstanding_chf invoice) [])) (Fin 0) then Some paid
              else if truthy (inv_due_date invoice) \<and> nullish (inv_due_date invoice) [] < today then Some overdue
              else Some due)"

definition js_sum :: "jsnum list \<Rightarrow> jsnum" where
  "js_sum xs = foldl js_add (Fin 0) xs"

definition cents :: "jsnum \<Rightarrow> jsnum" where
  "cents x = js_div (js_round (js_mul x (Fin 100))) (Fin 100)"

definition creditableChf :: "Invoice \<Rightarrow> jsnum" where
  "creditableChf invoice =
     (let credited = js_sum (map js_Number (nullish (inv_credits invoice) []))
      in js_max (Fin 0) (cents (js_sub (js_Number_or0 (inv_paid_chf invoice)) credited)))"

definition appliedCreditChf :: "Invoice \<Rightarrow> jsnum" where
  "appliedCreditChf invoice =
     cents (js_sum (map (\<lambda>a. js_Number (ca_amount_chf a))
       (filter (\<lambda>a. ca_released_at a = None) (nullish (inv_credit_applications invoice) []))))"

definition isCorrectable :: "Invoice \<Rightarrow> bool" where
  "isCorrectable invoice =
     (let received = js_Number_or0 (inv_paid_chf invoice);
          eligibl = (inv_status invoice = ''paid'' \<or> inv_status invoice = ''sent'' \<and> js_less (Fin 0) received)
      in eligibl \<and> js_less (Fin 0) (js_Number (inv_total_chf invoice)))"

definition canCorrectInvoice :: "Invoice \<Rightarrow> bool \<Rightarrow> bool" where
  "canCorrectInvoice invoice canManage =
     (if \<not> canManage \<or> \<not> isCorrectable invoice then False
      else js_less (Fin 0) (creditableChf invoice) \<or> js_less (Fin 0) (appliedCreditChf invoice))"

definition canAdjustInvoice :: "Invoice \<Rightarrow> bool \<Rightarrow> bool" where
  "canAdjustInvoice invoice canManage \<longleftrightarrow>
     canManage \<and> isCorrectable invoice \<and> js_less (Fin 0) (creditableChf invoice)"

definition amountDueChf :: "Invoice \<Rightarrow> jsnum" where
  "amountDueChf invoice = js_Number (nullish (inv_amount_due_chf invoice) (inv_total_chf invoice))"

definition canRecordPayment :: "Invoice \<Rightarrow> bool" where
  "canRecordPayment invoice \<longleftrightarrow>
     inv_status invoice = ''sent'' \<and> js_less (Fin 0) (js_Number_or0 (inv_outstanding_chf invoice))
     \<and> js_less (Fin 0) (amountDueChf invoice)"

definition hasCreditApplied :: "Invoice \<Rightarrow> bool" where
  "hasCreditApplied invoice \<longleftrightarrow>
     inv_status invoice \<noteq> ''cancelled'' \<and> js_less (Fin 0) (js_Number_or0 (inv_credit_applied_chf invoice))
     \<and> \<not> js_eq (amountDueChf invoice) (js_Number (inv_total_chf invoice))"

datatype CreditStatus = credit_open | credit_used | credit_refunded

definition canRefundCredit :: "CreditStatus \<Rightarrow> bool \<Rightarrow> bool" where
  "canRefundCredit status canManage \<longleftrightarrow> canManage \<and> status = credit_open"

section \<open>Problems and progress of a row\<close>

definition liveInvoice :: "InvoicePeriodParticipantRow \<Rightarrow> Invoice option" where
  "liveInvoice row = (case row_invoice row of None \<Rightarrow> None
     | Some i \<Rightarrow> if inv_status i \<noteq> ''cancelled'' then Some i else None)"

definition latestDeliveryStatus :: "(string \<Rightarrow> int option) \<Rightarrow> Invoice option \<Rightarrow> string option" where
  "latestDeliveryStatus dateParse invoice =
     (let status = (case Option.bind invoice inv_last_email_status of
            Some s \<Rightarrow> Some s | None \<Rightarrow> map_option log_status (getLatestEmailLog dateParse invoice))
      in if status = Some ''pending'' \<or> status = Some ''sent'' \<or> status = Some ''failed'' then status else None)"

definition DELIVERING :: "string list" where
  "DELIVERING = [''approved'', ''sent'']"

datatype InvoiceRowIssue = correction | metering | conflict | pdf | delivery | noEmail

record InvoiceRowWork =
  generating :: bool
  pdfPending :: bool
  sending :: bool

definition settledWithoutMeters :: "InvoicePeriodParticipantRow \<Rightarrow> Invoice option \<Rightarrow> bool" where
  "settledWithoutMeters row invoice =
     (row_metering_points_total row = 0 \<and>
      (case invoice of None \<Rightarrow> False | Some i \<Rightarrow> inv_status i \<in> set [''sent'', ''paid'']))"

definition isPdfPending :: "Invoice \<Rightarrow> InvoiceRowWork \<Rightarrow> bool" where
  "isPdfPending invoice work \<longleftrightarrow> pdfPending work \<or> inv_pdf_status invoice = Some pdf_pending"

definition has_issue ::
    "(string \<Rightarrow> int option) \<Rightarrow> InvoicePeriodParticipantRow \<Rightarrow> InvoiceRowWork \<Rightarrow> InvoiceRowIssue \<Rightarrow> bool" where
  "has_issue dateParse row work issue =
     (let invoice = liveInvoice row
      in case issue of
           correction \<Rightarrow> (case invoice of None \<Rightarrow> False | Some i \<Rightarrow> inv_needs_data_review i)
         | metering \<Rightarrow> \<not> row_metering_data_complete row \<and> \<not> settledWithoutMeters row invoice
         | conflict \<Rightarrow> invoice = None \<and> row_generation_eligibility row = Some blocked
         | pdf \<Rightarrow> (case invoice of None \<Rightarrow> False
             | Some i \<Rightarrow> inv_pdf_status i = Some pdf_failed \<and> \<not> truthy (inv_pdf_url i) \<and> \<not> isPdfPending i work)
         | delivery \<Rightarrow> (case invoice of None \<Rightarrow> False
             | Some i \<Rightarrow> inv_status i \<in> set DELIVERING \<and> latestDeliveryStatus dateParse invoice = Some ''failed'' \<and> \<not> sending work)
         | noEmail \<Rightarrow> (case invoice of None \<Rightarrow> False
             | Some i \<Rightarrow> inv_status i = ''approved'' \<and> \<not> truthy (row_participant_email row)))"

text \<open>The issues in the order the source pushes them.\<close>

definition invoiceRowIssues ::
    "(string \<Rightarrow> int option) \<Rightarrow> InvoicePeriodParticipantRow \<Rightarrow> InvoiceRowWork \<Rightarrow> InvoiceRowIssue list" where
  "invoiceRowIssues dateParse row work =
     filter (has_issue dateParse row work) [correction, metering, conflict, pdf, delivery, noEmail]"












definition repeatedParties :: "InvoicePeriodParticipantRow list \<Rightarrow> string list" where
  "repeatedParties rows =
     snd (foldl (\<lambda>(seen, repeated) row.
       (if row_party_id row \<in> set seen then seen else seen @ [row_party_id row],
        if row_party_id row \<in> set seen \<and> row_party_id row \<notin> set repeated then repeated @ [row_party_id row] else repeated))
       ([], []) rows)"

section \<open>Filters\<close>

datatype InvoiceRowFilter = f_drafts | f_approved | f_sent | f_issues

definition has_status :: "string \<Rightarrow> InvoicePeriodParticipantRow \<Rightarrow> bool" where
  "has_status s row \<longleftrightarrow> map_option inv_status (row_invoice row) = Some s"

definition row_matches ::
    "(string \<Rightarrow> int option) \<Rightarrow> InvoicePeriodParticipantRow \<Rightarrow> InvoiceRowFilter \<Rightarrow> InvoiceRowWork \<Rightarrow> bool" where
  "row_matches dateParse row fltr work =
     (case fltr of
        f_drafts \<Rightarrow> has_status ''draft'' row
      | f_approved \<Rightarrow> has_status ''approved'' row
      | f_sent \<Rightarrow> has_status ''sent'' row
      | f_issues \<Rightarrow> 0 < length (invoiceRowIssues dateParse row work))"

definition filterInvoiceRows ::
    "(string \<Rightarrow> int option) \<Rightarrow> InvoicePeriodParticipantRow list \<Rightarrow> InvoiceRowFilter option
     \<Rightarrow> (InvoicePeriodParticipantRow \<Rightarrow> InvoiceRowWork) \<Rightarrow> InvoicePeriodParticipantRow list" where
  "filterInvoiceRows dateParse rows fltr getWork =
     (case fltr of None \<Rightarrow> rows | Some f \<Rightarrow> filter (\<lambda>row. row_matches dateParse row f (getWork row)) rows)"

record InvoiceRowCounts =
  n_all :: nat
  n_invoices :: nat
  n_drafts :: nat
  n_approved :: nat
  n_sent :: nat
  n_issues :: nat
  n_pdfs :: nat

definition invoiceRowCounts ::
    "(string \<Rightarrow> int option) \<Rightarrow> InvoicePeriodParticipantRow list \<Rightarrow> (InvoicePeriodParticipantRow \<Rightarrow> InvoiceRowWork)
     \<Rightarrow> InvoiceRowCounts" where
  "invoiceRowCounts dateParse rows getWork =
     \<lparr>n_all = length rows, n_invoices = length (filter (\<lambda>row. row_invoice row \<noteq> None) rows),
      n_drafts = length (filterInvoiceRows dateParse rows (Some f_drafts) getWork),
      n_approved = length (filterInvoiceRows dateParse rows (Some f_approved) getWork),
      n_sent = length (filterInvoiceRows dateParse rows (Some f_sent) getWork),
      n_issues = length (filterInvoiceRows dateParse rows (Some f_issues) getWork),
      n_pdfs = length (filter (\<lambda>row. truthy (Option.bind (row_invoice row) inv_pdf_url)) rows)\<rparr>"

section \<open>Watching queued renders\<close>

definition PDF_WATCH_MS :: int where "PDF_WATCH_MS = 90000"

definition PDF_POLL_MS :: int where "PDF_POLL_MS = 2500"

record PdfWatch =
  startedAt :: int
  until :: int
  generationParticipantIds :: "string list"

definition countPendingPdfs :: "InvoicePeriodParticipantRow list \<Rightarrow> nat" where
  "countPendingPdfs rows =
     length (filter (\<lambda>row. Option.bind (row_invoice row) inv_pdf_status = Some pdf_pending) rows)"

definition countPendingInvoiceWork :: "InvoicePeriodParticipantRow list \<Rightarrow> PdfWatch option \<Rightarrow> nat" where
  "countPendingInvoiceWork rows watch =
     (let awaiting = uniq (case watch of None \<Rightarrow> [] | Some w \<Rightarrow> generationParticipantIds w)
      in length (foldl (\<lambda>ids row. if liveInvoice row \<noteq> None then removeAll (row_participant_id row) ids else ids)
           awaiting rows) + countPendingPdfs rows)"

record pdf_hook =
  pdfWatch :: "PdfWatch option"
  pdfWatchExpired :: bool

definition pdf_hook_init :: pdf_hook where
  "pdf_hook_init = \<lparr>pdfWatch = None, pdfWatchExpired = False\<rparr>"

definition startPdfWatch :: "int \<Rightarrow> string list \<Rightarrow> pdf_hook \<Rightarrow> pdf_hook" where
  "startPdfWatch now ids st =
     \<lparr>pdfWatch = Some \<lparr>startedAt = now, until = now + PDF_WATCH_MS,
        generationParticipantIds = uniq ((case pdfWatch st of None \<Rightarrow> [] | Some w \<Rightarrow> generationParticipantIds w) @ ids)\<rparr>,
      pdfWatchExpired = False\<rparr>"

definition stopPdfWatch :: "pdf_hook \<Rightarrow> pdf_hook" where
  "stopPdfWatch st = \<lparr>pdfWatch = None, pdfWatchExpired = False\<rparr>"

definition expirePdfWatch :: "pdf_hook \<Rightarrow> pdf_hook" where
  "expirePdfWatch st = \<lparr>pdfWatch = None, pdfWatchExpired = True\<rparr>"

definition pdfWatchIsFinished :: "PdfWatch \<Rightarrow> nat \<Rightarrow> int \<Rightarrow> bool" where
  "pdfWatchIsFinished watch pendingCount now =
     (if now \<ge> until watch then True else pendingCount = 0 \<and> now - startedAt watch > PDF_POLL_MS)"

text \<open>\<open>false\<close>, no further poll, is \<^const>\<open>None\<close>.\<close>

definition pdfWatchRefetchInterval :: "PdfWatch option \<Rightarrow> InvoicePeriodParticipantRow list \<Rightarrow> int \<Rightarrow> int option" where
  "pdfWatchRefetchInterval watch rows now =
     (case watch of None \<Rightarrow> None
      | Some w \<Rightarrow> if \<not> pdfWatchIsFinished w (countPendingInvoiceWork rows watch) now then Some PDF_POLL_MS else None)"

section \<open>The public invoice\<close>

datatype InvoiceItemCategory = ic_energy | ic_grid_fees | ic_levies | ic_metering | ic_other

record PublicInvoiceItem =
  it_category :: InvoiceItemCategory
  it_description :: string
  it_quantity :: string
  it_unit :: string
  it_total_chf :: string

definition CATEGORY_ORDER :: "InvoiceItemCategory list" where
  "CATEGORY_ORDER = [ic_energy, ic_grid_fees, ic_levies, ic_metering, ic_other]"

definition groupItemsByCategory :: "PublicInvoiceItem list \<Rightarrow> (InvoiceItemCategory \<times> PublicInvoiceItem list) list" where
  "groupItemsByCategory items =
     filter (\<lambda>group. 0 < length (snd group))
       (map (\<lambda>category. (category, filter (\<lambda>item. it_category item = category) items)) CATEGORY_ORDER)"

section \<open>Problems and steps agree\<close>








section \<open>The render watch\<close>

text \<open>The states the hook can reach through its three callbacks.\<close>

inductive pdf_reach :: "pdf_hook \<Rightarrow> bool" where
  pdf_init: "pdf_reach pdf_hook_init"
| pdf_start: "pdf_reach st \<Longrightarrow> pdf_reach (startPdfWatch now ids st)"
| pdf_stop: "pdf_reach st \<Longrightarrow> pdf_reach (stopPdfWatch st)"
| pdf_expire: "pdf_reach st \<Longrightarrow> pdf_reach (expirePdfWatch st)"

lemma pdf_reach_inv:
  "pdf_reach st \<Longrightarrow> pdfWatch st = Some w \<Longrightarrow>
     \<not> pdfWatchExpired st \<and> until w = startedAt w + PDF_WATCH_MS \<and> distinct (generationParticipantIds w)"
  by (induction rule: pdf_reach.induct)
    (auto simp: pdf_hook_init_def startPdfWatch_def stopPdfWatch_def expirePdfWatch_def)

lemma foldl_remove_set:
  "set (foldl (\<lambda>ids row. if P row then removeAll (f row) ids else ids) ids rows)
     = set ids - f ` {row \<in> set rows. P row}"
  by (induction rows arbitrary: ids) auto

lemma subset_filter_image: "A \<subseteq> f ` {x \<in> S. P x} \<longleftrightarrow> (\<forall>i \<in> A. \<exists>x \<in> S. f x = i \<and> P x)"
  by fastforce

lemma pending_work_zero_iff:
  "countPendingInvoiceWork rows (Some w) = 0 \<longleftrightarrow>
     (\<forall>i \<in> set (generationParticipantIds w). \<exists>row \<in> set rows. row_participant_id row = i \<and> liveInvoice row \<noteq> None)
     \<and> (\<forall>row \<in> set rows. Option.bind (row_invoice row) inv_pdf_status \<noteq> Some pdf_pending)"
proof -
  let ?left = "foldl (\<lambda>ids row. if liveInvoice row \<noteq> None then removeAll (row_participant_id row) ids else ids)
    (uniq (generationParticipantIds w)) rows"
  have "?left = [] \<longleftrightarrow> set ?left = {}" by simp
  also have "\<dots> \<longleftrightarrow> (\<forall>i \<in> set (generationParticipantIds w). \<exists>row \<in> set rows. row_participant_id row = i \<and> liveInvoice row \<noteq> None)"
    unfolding foldl_remove_set Diff_eq_empty_iff subset_filter_image set_uniq ..
  finally show ?thesis
    by (auto simp: countPendingInvoiceWork_def countPendingPdfs_def filter_empty_conv)
qed

text \<open>
  C40: polling for queued renders is bounded and does not give up early. In every reachable state of
  the hook a running watch is not marked expired and ends ninety seconds after its start: from then
  on there is no further poll, and before that the page keeps polling as long as a participant
  waits for an invoice or an invoice for its document.
\<close>

theorem pdf_watch_bounded:
  assumes "pdf_reach st" "pdfWatch st = Some w"
  shows "\<not> pdfWatchExpired st
    \<and> (now \<ge> startedAt w + 90000 \<longrightarrow> pdfWatchRefetchInterval (pdfWatch st) rows now = None)
    \<and> (now < startedAt w + 90000 \<and> i \<in> set (generationParticipantIds w)
        \<and> (\<forall>row \<in> set rows. row_participant_id row = i \<longrightarrow> liveInvoice row = None)
        \<longrightarrow> pdfWatchRefetchInterval (pdfWatch st) rows now = Some 2500)
    \<and> (now < startedAt w + 90000 \<and> r \<in> set rows \<and> Option.bind (row_invoice r) inv_pdf_status = Some pdf_pending
        \<longrightarrow> pdfWatchRefetchInterval (pdfWatch st) rows now = Some 2500)"
proof -
  note inv = pdf_reach_inv [OF assms]
  have poll: "pdfWatchRefetchInterval (pdfWatch st) rows now = Some 2500"
    if "now < startedAt w + 90000" "countPendingInvoiceWork rows (Some w) \<noteq> 0"
    using that inv assms(2)
    by (simp add: pdfWatchRefetchInterval_def pdfWatchIsFinished_def PDF_WATCH_MS_def PDF_POLL_MS_def)
  have stop: "pdfWatchRefetchInterval (pdfWatch st) rows now = None" if "now \<ge> startedAt w + 90000"
    using that inv assms(2) by (simp add: pdfWatchRefetchInterval_def pdfWatchIsFinished_def PDF_WATCH_MS_def)
  have waiting: "countPendingInvoiceWork rows (Some w) \<noteq> 0"
    if "i \<in> set (generationParticipantIds w)" "\<forall>row \<in> set rows. row_participant_id row = i \<longrightarrow> liveInvoice row = None"
    unfolding pending_work_zero_iff using that by meson
  have rendering: "countPendingInvoiceWork rows (Some w) \<noteq> 0"
    if "r \<in> set rows" "Option.bind (row_invoice r) inv_pdf_status = Some pdf_pending"
    unfolding pending_work_zero_iff using that by meson
  show ?thesis using inv stop poll waiting rendering by meson
qed

theorem pdf_watch_bounded_witness:
  "let st = startPdfWatch 1000 [''p1''] pdf_hook_init
   in pdfWatchRefetchInterval (pdfWatch st) [] 5000 = Some 2500 \<and> pdfWatchRefetchInterval (pdfWatch st) [] 91000 = None"
proof -
  let ?st = "startPdfWatch 1000 [''p1''] pdf_hook_init"
  let ?w = "\<lparr>startedAt = 1000, until = 91000, generationParticipantIds = [''p1'']\<rparr>"
  have r: "pdf_reach ?st" by (intro pdf_reach.intros)
  have w: "pdfWatch ?st = Some ?w" by code_simp
  show ?thesis
    using pdf_watch_bounded [OF r w, where now = 5000 and rows = "[]" and i = "''p1''"]
      pdf_watch_bounded [OF r w, where now = 91000 and rows = "[]"] by (simp add: Let_def)
qed

section \<open>Groups of the public invoice\<close>

lemma mset_filter_partition:
  "distinct cs \<Longrightarrow> mset (concat (map (\<lambda>c. filter (\<lambda>x. f x = c) xs) cs)) = mset (filter (\<lambda>x. f x \<in> set cs) xs)"
proof (induction cs)
  case (Cons c cs)
  have "mset (filter (\<lambda>x. f x \<in> set (c # cs)) xs)
      = mset (filter (\<lambda>x. f x = c) xs) + mset (filter (\<lambda>x. f x \<in> set cs) xs)"
    using Cons.prems by (induction xs) auto
  with Cons show ?case by simp
qed simp

text \<open>
  the public invoice shows every line exactly once: its groups are the non-empty categories in
  the canonical order, each with exactly the lines of that category in their original order.
\<close>

theorem public_groups_partition:
  "mset (concat (map snd (groupItemsByCategory items))) = mset items
   \<and> map fst (groupItemsByCategory items) = filter (\<lambda>c. c \<in> it_category ` set items) CATEGORY_ORDER
   \<and> groupItemsByCategory items = map (\<lambda>c. (c, filter (\<lambda>item. it_category item = c) items))
       (map fst (groupItemsByCategory items))"
proof -
  let ?g = "\<lambda>c. (c, filter (\<lambda>item. it_category item = c) items)"
  have "c \<in> set CATEGORY_ORDER" for c by (cases c) (simp_all add: CATEGORY_ORDER_def)
  moreover have "distinct CATEGORY_ORDER" by (simp add: CATEGORY_ORDER_def)
  ultimately have m: "mset (concat (map (snd \<circ> ?g) CATEGORY_ORDER)) = mset items"
    using mset_filter_partition [of CATEGORY_ORDER it_category items] by (simp add: comp_def)
  have drop: "concat (filter (\<lambda>x. x \<noteq> []) xss) = concat xss" for xss :: "PublicInvoiceItem list list"
    by (induction xss) auto
  have eq: "groupItemsByCategory items = map ?g (filter (\<lambda>c. c \<in> it_category ` set items) CATEGORY_ORDER)"
    unfolding groupItemsByCategory_def filter_map comp_def
    by (intro arg_cong [where f = "map ?g"] filter_cong refl) (auto simp: filter_empty_conv image_iff)
  have "concat (map snd (groupItemsByCategory items)) = concat (map (snd \<circ> ?g) CATEGORY_ORDER)"
    unfolding groupItemsByCategory_def filter_map [symmetric] map_map [symmetric]
    using drop [of "map snd (map ?g CATEGORY_ORDER)"] by (simp add: filter_map comp_def)
  with m eq show ?thesis by (simp add: comp_def)
qed

section \<open>Corrections\<close>

text \<open>A partial credit is offered only where a reversal is, and a creditable amount is never negative.\<close>

lemma adjust_implies_correct: "canAdjustInvoice invoice m \<Longrightarrow> canCorrectInvoice invoice m"
  by (simp add: canAdjustInvoice_def canCorrectInvoice_def)

lemma creditable_not_negative: "\<not> js_less (creditableChf invoice) (Fin 0)"
proof -
  have "\<not> js_less (js_max (Fin 0) x) (Fin 0)" for x
    by (cases x) (auto simp: js_max_def)
  then show ?thesis by (simp add: creditableChf_def Let_def)
qed

end
