(* ===== verification/Overview.thy ===== *)
theory Overview
  imports Prelude
begin

text \<open>
  The overview page: \<open>frontend/src/features/overview/periodCards.ts\<close> and
  \<open>readinessPresentation.ts\<close>. Billing periods and alerts are merged into cards; every alert is
  shown exactly once and every card is in exactly one section. Collation and the translation
  function \<open>t\<close> (a key and its variables) are arguments.
\<close>

section \<open>Data\<close>

datatype ReadinessStepStatus = st_ok | st_warn | st_todo | st_done

record ReadinessConflict =
  rc_participant_id :: string
  rc_participant_name :: string

record ReadinessDataCorrection =
  rd_invoice_id :: string
  rd_invoice_number :: string

record ReadinessStepDetailData =
  dd_missing_days :: "int option"
  dd_missing :: "int option"
  dd_conflict_count :: "int option"
  dd_conflicts :: "ReadinessConflict list option"
  dd_corrections :: "ReadinessDataCorrection list option"
  dd_unpaid :: "int option"
  dd_stale_drafts :: "int option"
  dd_unbilled_charges :: "string list option"
  dd_more_unbilled :: "int option"

record ReadinessStep =
  rs_key :: string
  rs_status :: ReadinessStepStatus
  rs_count :: int
  rs_total :: "int option"
  rs_failed :: "int option"
  rs_detail_data :: "ReadinessStepDetailData option"

record card_period =
  cp_start :: string
  cp_end :: string
  cp_interval :: "string option"
  cp_from_invoice :: bool
  cp_ended :: bool

record ReadinessPeriod =
  rp_period :: "card_period option"
  rp_steps :: "ReadinessStep list"
  rp_next_action :: string

datatype AttentionItemType = email_failed | invoice_overdue | participant_validity

record AttentionItem =
  ai_id :: string
  ai_type :: AttentionItemType
  ai_label :: string
  ai_period :: "(string \<times> string) option"
  ai_invoice_id :: "string option"
  ai_invoice_number :: "string option"
  ai_recipient :: "string option"
  ai_due_date :: "string option"
  ai_participant_name :: "string option"
  ai_valid_to :: "string option"
  ai_expired :: bool

section \<open>Cards\<close>

record PeriodCardEntry =
  pe_period :: card_period
  pe_readiness :: "ReadinessPeriod option"
  pe_alerts :: "AttentionItem list"

definition periodKey :: "string \<Rightarrow> string \<Rightarrow> string" where
  "periodKey start end = start @ ''/'' @ end"

definition isOpenStep :: "ReadinessStep \<Rightarrow> bool" where
  "isOpenStep step \<longleftrightarrow> rs_status step = st_warn \<or> rs_status step = st_todo"

definition NEXT_ACTION_STEP_KEYS :: "(string \<times> string list) list" where
  "NEXT_ACTION_STEP_KEYS =
    [(''fix_metering'', [''metering'']), (''fix_assignments'', [''assignments'']), (''fix_tariffs'', [''tariffs'']),
     (''review_data_corrections'', [''data_corrections'']), (''generate'', [''generated'', ''charges'']),
     (''review_generation_conflicts'', [''generation_conflicts'']), (''approve'', [''approved'']),
     (''send'', [''sent'']), (''track_payments'', [''paid''])]"

definition add_readiness :: "(string \<times> PeriodCardEntry) list \<Rightarrow> ReadinessPeriod \<Rightarrow> (string \<times> PeriodCardEntry) list" where
  "add_readiness entries readiness =
     (case rp_period readiness of
        None \<Rightarrow> entries
      | Some p \<Rightarrow> AList.update (periodKey (cp_start p) (cp_end p))
          \<lparr>pe_period = p, pe_readiness = Some readiness, pe_alerts = []\<rparr> entries)"

text \<open>The loop over the alerts: the map of entries and the list of community notices.\<close>

definition add_alert ::
    "(string \<times> PeriodCardEntry) list \<times> AttentionItem list \<Rightarrow> AttentionItem
     \<Rightarrow> (string \<times> PeriodCardEntry) list \<times> AttentionItem list" where
  "add_alert st alert =
     (case ai_period alert of
        None \<Rightarrow> (fst st, snd st @ [alert])
      | Some (start, end) \<Rightarrow>
          if ai_type alert = participant_validity then (fst st, snd st @ [alert])
          else let key = periodKey start end
               in (update_first (\<lambda>e. fst e = key)
                     (\<lambda>e. (fst e, (snd e)\<lparr>pe_alerts := pe_alerts (snd e) @ [alert]\<rparr>))
                     (key, \<lparr>pe_period = \<lparr>cp_start = start, cp_end = end, cp_interval = None, cp_from_invoice = True, cp_ended = True\<rparr>,
                            pe_readiness = None, pe_alerts = [alert]\<rparr>)
                     (fst st), snd st))"

definition has_open_step :: "PeriodCardEntry \<Rightarrow> bool" where
  "has_open_step entry = (case pe_readiness entry of None \<Rightarrow> False | Some r \<Rightarrow> list_ex isOpenStep (rp_steps r))"

record period_groups =
  pg_open :: "PeriodCardEntry list"
  pg_current :: "PeriodCardEntry list"
  pg_completed :: "PeriodCardEntry list"
  pg_community :: "AttentionItem list"

definition ordered_entries ::
    "(string \<Rightarrow> string \<Rightarrow> int) \<Rightarrow> ReadinessPeriod list \<Rightarrow> AttentionItem list \<Rightarrow> PeriodCardEntry list \<times> AttentionItem list" where
  "ordered_entries localeCompare periods alerts =
     (let r = foldl add_alert (foldl add_readiness [] periods, []) alerts
      in (sort_by (\<lambda>a b. let c = localeCompare (cp_start (pe_period a)) (cp_start (pe_period b))
            in (if c \<noteq> 0 then c else localeCompare (cp_end (pe_period a)) (cp_end (pe_period b))) \<le> 0)
            (map snd (fst r)), snd r))"

definition groupPeriodCards ::
    "(string \<Rightarrow> string \<Rightarrow> int) \<Rightarrow> ReadinessPeriod list \<Rightarrow> AttentionItem list \<Rightarrow> period_groups" where
  "groupPeriodCards localeCompare periods alerts =
     (let ordered = fst (ordered_entries localeCompare periods alerts)
      in \<lparr>pg_open = filter (\<lambda>e. 0 < length (pe_alerts e) \<or> cp_ended (pe_period e) \<and> has_open_step e) ordered,
          pg_current = filter (\<lambda>e. \<not> cp_ended (pe_period e) \<and> length (pe_alerts e) = 0) ordered,
          pg_completed = filter (\<lambda>e. cp_ended (pe_period e) \<and> length (pe_alerts e) = 0
            \<and> pe_readiness e \<noteq> None \<and> \<not> has_open_step e) ordered,
          pg_community = snd (ordered_entries localeCompare periods alerts)\<rparr>)"

definition primaryPeriodStep :: "PeriodCardEntry \<Rightarrow> ReadinessStep option" where
  "primaryPeriodStep entry =
     (case pe_readiness entry of
        None \<Rightarrow> None
      | Some r \<Rightarrow>
          if \<not> cp_ended (pe_period entry) then None
          else let keys = nullish (map_of NEXT_ACTION_STEP_KEYS (rp_next_action r)) []
               in find (\<lambda>step. rs_key step \<in> set keys \<and> isOpenStep step) (rp_steps r))"

definition alert_key :: "AttentionItem \<Rightarrow> string" where
  "alert_key alert = or_str (ai_invoice_id alert) (ai_id alert)"

definition add_to_group :: "(string \<times> AttentionItem list) list \<Rightarrow> AttentionItem \<Rightarrow> (string \<times> AttentionItem list) list" where
  "add_to_group groups alert =
     AList.update (alert_key alert) (nullish (map_of groups (alert_key alert)) [] @ [alert]) groups"

definition groupInvoiceAlerts :: "AttentionItem list \<Rightarrow> AttentionItem list list" where
  "groupInvoiceAlerts alerts = map snd (foldl add_to_group [] alerts)"

section \<open>Texts\<close>

datatype tvar = VNum int | VStr string

definition step_key :: "string \<Rightarrow> string" where
  "step_key key = ''pages.dashboard.cockpit.stepDetails.'' @ key"

text \<open>\<open>xs.slice(0, 3)\<close> joined with commas.\<close>

definition first_three :: "string list \<Rightarrow> string" where
  "first_three xs = join '', '' (take 3 xs)"

definition detail :: "(ReadinessStepDetailData \<Rightarrow> 'a option) \<Rightarrow> ReadinessStep \<Rightarrow> 'a option" where
  "detail f step = Option.bind (rs_detail_data step) f"

definition stepDetailText :: "(string \<Rightarrow> (string \<times> tvar) list \<Rightarrow> string) \<Rightarrow> ReadinessStep \<Rightarrow> string option" where
  "stepDetailText t step =
     (let d = (\<lambda>key vars. t (step_key key) vars); s = rs_status step; n = VNum (rs_count step);
          tot = nullish (rs_total step) 0
      in if rs_key step = ''metering'' then
           (if s \<noteq> st_warn then None
            else Some (d ''meteringWarn'' [(''count'', n), (''days'', VNum (nullish (detail dd_missing_days step) 0))]))
         else if rs_key step = ''assignments'' then
           (if s \<noteq> st_warn then None else Some (d ''assignmentsWarn'' [(''readings'', n)]))
         else if rs_key step = ''tariffs'' then
           (if s = st_todo then Some (d ''tariffsTodo'' [])
            else if s = st_warn then Some (d ''tariffsWarn'' [(''days'', n), (''total'', VNum tot)]) else None)
         else if rs_key step = ''generated'' then
           (if s \<noteq> st_todo then None
            else Some (d ''generatedTodo''
              [(''missing'', VNum (nullish (detail dd_missing step) (max 0 (tot - rs_count step)))), (''total'', VNum tot)]))
         else if rs_key step = ''generation_conflicts'' then
           (if s \<noteq> st_warn then None
            else Some (d ''conflictsWarn''
              [(''count'', VNum (nullish (detail dd_conflict_count step) (rs_count step))),
               (''names'', VStr (first_three (map rc_participant_name (nullish (detail dd_conflicts step) []))))]))
         else if rs_key step = ''charges'' then
           (if s = st_todo then Some (d ''chargesTodo'' [(''count'', VNum (nullish (detail dd_stale_drafts step) 0))])
            else if s \<noteq> st_warn then None
            else Some (d ''chargesWarn''
              [(''count'', VNum (int (length (nullish (detail dd_unbilled_charges step) [])) + nullish (detail dd_more_unbilled step) 0)),
               (''names'', VStr (join '', '' (nullish (detail dd_unbilled_charges step) [])))]))
         else if rs_key step = ''data_corrections'' then
           (if s \<noteq> st_warn then None
            else Some (d ''correctionsWarn''
              [(''count'', n), (''invoices'', VStr (first_three (map rd_invoice_number (nullish (detail dd_corrections step) []))))]))
         else if rs_key step = ''approved'' then
           (if s \<noteq> st_todo then None else Some (d ''approvedTodo'' [(''count'', n)]))
         else if rs_key step = ''sent'' then
           (if s \<noteq> st_todo then None
            else let parts = (if 0 < rs_count step then [d ''sentTodo'' [(''count'', n)]] else [])
                   @ (case rs_failed step of None \<Rightarrow> [] | Some f \<Rightarrow> if f = 0 then [] else [d ''emailFailedTodo'' [(''failed'', VNum f)]])
                 in if 0 < length parts then Some (join middle_dot parts) else None)
         else if rs_key step = ''paid'' then
           (if s \<noteq> st_todo then None
            else Some (d ''paidTodo''
              [(''unpaid'', VNum (nullish (detail dd_unpaid step) (tot - rs_count step))), (''total'', VNum tot)]))
         else None)"

definition opt_var :: "string \<Rightarrow> string option \<Rightarrow> (string \<times> tvar) list" where
  "opt_var k v = (case v of None \<Rightarrow> [] | Some s \<Rightarrow> [(k, VStr s)])"

definition attentionText ::
    "AttentionItem \<Rightarrow> (string \<Rightarrow> (string \<times> tvar) list \<Rightarrow> string) \<Rightarrow> (string \<Rightarrow> string) \<Rightarrow> string" where
  "attentionText item t format =
     (case ai_type item of
        email_failed \<Rightarrow> t ''pages.dashboard.attention.text.emailFailed''
          (opt_var ''number'' (ai_invoice_number item) @ opt_var ''recipient'' (ai_recipient item))
      | invoice_overdue \<Rightarrow> t ''pages.dashboard.attention.text.invoiceOverdue''
          (opt_var ''number'' (ai_invoice_number item) @ [(''due'', VStr (format (nullish (ai_due_date item) [])))])
      | participant_validity \<Rightarrow>
          (if ai_expired item
           then t ''pages.dashboard.attention.text.participantExpired''
             (opt_var ''name'' (ai_participant_name item) @ [(''validTo'', VStr (format (nullish (ai_valid_to item) [])))])
           else t ''pages.dashboard.attention.text.participantExpiring''
             (opt_var ''name'' (ai_participant_name item) @ [(''validTo'', VStr (format (nullish (ai_valid_to item) [])))])))"

section \<open>Nothing is lost or shown twice\<close>

definition alert_mset :: "(string \<times> PeriodCardEntry) list \<Rightarrow> AttentionItem multiset" where
  "alert_mset entries = sum_list (map (\<lambda>e. mset (pe_alerts (snd e))) entries)"

definition entry_ok :: "string \<times> PeriodCardEntry \<Rightarrow> bool" where
  "entry_ok e \<longleftrightarrow> pe_readiness (snd e) \<noteq> None \<or> pe_alerts (snd e) \<noteq> []"

lemma add_alert_mset:
  "alert_mset (fst (add_alert st a)) + mset (snd (add_alert st a)) = alert_mset (fst st) + mset (snd st) + {#a#}"
proof (cases "ai_period a = None \<or> ai_type a = participant_validity")
  case True
  then show ?thesis by (auto simp: add_alert_def split: option.splits)
next
  case False
  then obtain s e where p: "ai_period a = Some (s, e)" by auto
  then show ?thesis
    using False by (simp add: add_alert_def Let_def alert_mset_def mset_update_first [where d = "{#a#}"])
qed

lemma add_alert_ok: "list_all entry_ok (fst st) \<Longrightarrow> list_all entry_ok (fst (add_alert st a))"
  by (auto simp: add_alert_def Let_def entry_ok_def intro!: update_first_all split: option.splits)

lemma foldl_add_alert:
  "alert_mset (fst (foldl add_alert st as)) + mset (snd (foldl add_alert st as)) = alert_mset (fst st) + mset (snd st) + mset as
   \<and> (list_all entry_ok (fst st) \<longrightarrow> list_all entry_ok (fst (foldl add_alert st as)))"
  by (induction as arbitrary: st) (auto simp: add_alert_mset add_alert_ok)

lemma set_update_subset: "set (AList.update k v xs) \<subseteq> insert (k, v) (set xs)"
  by (induction xs) auto

lemma foldl_add_readiness:
  "\<forall>e \<in> set entries. pe_readiness (snd e) \<noteq> None \<and> pe_alerts (snd e) = [] \<Longrightarrow>
     e \<in> set (foldl add_readiness entries rs) \<Longrightarrow> pe_readiness (snd e) \<noteq> None \<and> pe_alerts (snd e) = []"
proof (induction rs arbitrary: entries)
  case (Cons r rs)
  have "\<forall>e \<in> set (add_readiness entries r). pe_readiness (snd e) \<noteq> None \<and> pe_alerts (snd e) = []"
    using Cons.prems(1) set_update_subset by (fastforce simp: add_readiness_def split: option.splits)
  then show ?case using Cons.IH Cons.prems(2) by simp
qed simp

lemma ordered_entries_spec:
  shows "sum_list (map (\<lambda>e. mset (pe_alerts e)) (fst (ordered_entries lc periods alerts)))
      + mset (snd (ordered_entries lc periods alerts)) = mset alerts"
    and "e \<in> set (fst (ordered_entries lc periods alerts)) \<Longrightarrow> pe_readiness e \<noteq> None \<or> pe_alerts e \<noteq> []"
proof -
  let ?init = "foldl add_readiness [] periods"
  let ?r = "foldl add_alert (?init, []) alerts"
  have init: "pe_readiness (snd e) \<noteq> None \<and> pe_alerts (snd e) = []" if "e \<in> set ?init" for e
    using foldl_add_readiness [of "[]" e periods] that by simp
  have "map (\<lambda>e. mset (pe_alerts (snd e))) ?init = map (\<lambda>_. {#}) ?init" using init by simp
  then have zero: "alert_mset ?init = {#}" unfolding alert_mset_def by (simp add: sum_list_0 del: map_eq_conv)
  have ok: "list_all entry_ok (fst ?r)"
    using foldl_add_alert [of "(?init, [])" alerts] init by (auto simp: list_all_iff entry_ok_def)
  have m: "alert_mset (fst ?r) + mset (snd ?r) = mset alerts"
    using foldl_add_alert [of "(?init, [])" alerts] zero by simp
  have perm: "mset (fst (ordered_entries lc periods alerts)) = mset (map snd (fst ?r))"
    by (simp add: ordered_entries_def Let_def)
  then have "mset (map (\<lambda>e. mset (pe_alerts e)) (fst (ordered_entries lc periods alerts)))
      = mset (map (\<lambda>e. mset (pe_alerts e)) (map snd (fst ?r)))" by (metis mset_map)
  then have "sum_list (map (\<lambda>e. mset (pe_alerts e)) (fst (ordered_entries lc periods alerts))) = alert_mset (fst ?r)"
    unfolding alert_mset_def by (metis (no_types, lifting) comp_def list.map_comp map_eq_conv sum_mset_sum_list)
  with m show "sum_list (map (\<lambda>e. mset (pe_alerts e)) (fst (ordered_entries lc periods alerts)))
      + mset (snd (ordered_entries lc periods alerts)) = mset alerts"
    by (simp add: ordered_entries_def Let_def)
  show "pe_readiness e \<noteq> None \<or> pe_alerts e \<noteq> []" if "e \<in> set (fst (ordered_entries lc periods alerts))"
  proof -
    have "e \<in> set (map snd (fst ?r))" using that perm by (metis set_mset_mset)
    then show ?thesis using ok by (auto simp: list_all_iff entry_ok_def)
  qed
qed

text \<open>
  the overview loses nothing. Every alert is shown exactly once, in the community notices or on
  one open card, and every card is in exactly one of the sections open, current and completed; a card
  of a period that has ended is completed only when it has no alert and no open step.
\<close>

theorem period_cards_partition:
  "let g = groupPeriodCards lc periods alerts; cards = fst (ordered_entries lc periods alerts)
   in mset (pg_community g) + sum_list (map (\<lambda>e. mset (pe_alerts e)) (pg_open g)) = mset alerts
    \<and> mset (pg_open g @ pg_current g @ pg_completed g) = mset cards
    \<and> list_all (\<lambda>e. pe_alerts e = [] \<and> \<not> has_open_step e \<and> cp_ended (pe_period e)) (pg_completed g)"
proof -
  let ?g = "groupPeriodCards lc periods alerts" and ?cards = "fst (ordered_entries lc periods alerts)"
  note spec = ordered_entries_spec [where lc = lc and periods = periods and alerts = alerts]
  have open_alerts: "sum_list (map (\<lambda>e. mset (pe_alerts e)) (filter (\<lambda>e. 0 < length (pe_alerts e) \<or> P e) cs))
      = sum_list (map (\<lambda>e. mset (pe_alerts e)) cs)" for P cs
    by (induction cs) auto
  have part: "mset (filter (\<lambda>e. 0 < length (pe_alerts e) \<or> cp_ended (pe_period e) \<and> has_open_step e) cs
      @ filter (\<lambda>e. \<not> cp_ended (pe_period e) \<and> length (pe_alerts e) = 0) cs
      @ filter (\<lambda>e. cp_ended (pe_period e) \<and> length (pe_alerts e) = 0 \<and> pe_readiness e \<noteq> None \<and> \<not> has_open_step e) cs)
      = mset cs" if "\<forall>e \<in> set cs. pe_readiness e \<noteq> None \<or> pe_alerts e \<noteq> []" for cs
    using that by (induction cs) auto
  show ?thesis
    using spec(1) part [of ?cards] spec(2) open_alerts [of "\<lambda>e. cp_ended (pe_period e) \<and> has_open_step e" ?cards]
    by (auto simp: Let_def groupPeriodCards_def add.commute list_all_iff)
qed

section \<open>One row per invoice\<close>

lemma map_of_update: "map_of (AList.update k v xs) = (map_of xs)(k \<mapsto> v)"
  by (rule update_conv')

text \<open>
  The detail list has one row per invoice: no two rows have the same invoice (or, without an
  invoice, the same alert id), each row holds exactly the alerts of its invoice in their order, and
  every alert is on a row.
\<close>

theorem invoice_alert_groups:
  "distinct (map fst (foldl add_to_group [] alerts))
   \<and> map_of (foldl add_to_group [] alerts) k =
       (if k \<in> alert_key ` set alerts then Some (filter (\<lambda>a. alert_key a = k) alerts) else None)
   \<and> groupInvoiceAlerts alerts = map snd (foldl add_to_group [] alerts)"
proof -
  have "distinct (map fst (foldl add_to_group [] alerts)) \<and> (\<forall>k. map_of (foldl add_to_group [] alerts) k =
       (if k \<in> alert_key ` set alerts then Some (filter (\<lambda>a. alert_key a = k) alerts) else None))"
  proof (induction alerts rule: rev_induct)
    case (snoc a alerts)
    let ?m = "foldl add_to_group [] alerts"
    have prev: "nullish (map_of ?m (alert_key a)) [] = filter (\<lambda>b. alert_key b = alert_key a) alerts"
      using snoc by (auto simp: empty_filter_conv image_iff)
    then show ?case
      using snoc by (auto simp: add_to_group_def map_of_update distinct_update)
  qed simp
  then show ?thesis by (simp add: groupInvoiceAlerts_def)
qed

end
