(* ===== verification/Backups.thy ===== *)
theory Backups
  imports JS_Number
begin

text \<open>
  The backup page (\<open>features/backups/backupHelpers.ts\<close>) with its API records
  (\<open>types/api.ts\<close>): the destination form and the request it makes, what a stored backup offers, the
  gate in front of a restore, and the schedule form.

  The theorems: a destination saved unchanged is sent back as it is stored and never touches the
  secret; a schedule goes through its form and back, and no form gives a request outside the clock; a
  restore starts exactly when nothing blocks it or every conflict may be, and is, forced.
\<close>

section \<open>The API records\<close>

datatype BackupDestinationKind = kind_local | kind_s3

datatype BackupCredentialMode = environment | stored | instance_role

datatype BackupJobScope = scope_instance | scope_zev

datatype BackupJobTrigger = trigger_manual | trigger_scheduled | trigger_pre_restore

datatype BackupJobStatus = queued | running | completed | failed

record BackupDestination =
  bd_id :: string
  bd_name :: string
  bd_kind :: BackupDestinationKind
  bd_enabled :: bool
  bd_path :: string
  bd_bucket :: string
  bd_prefix :: string
  bd_region :: string
  bd_endpoint_url :: string
  bd_access_key_id :: string
  bd_server_side_encryption :: string
  bd_retention_count :: int
  bd_credential_mode :: BackupCredentialMode
  bd_has_secret_access_key :: bool
  bd_created_at :: string
  bd_updated_at :: string

record BackupDestinationInput =
  di_name :: string
  di_kind :: BackupDestinationKind
  di_enabled :: bool
  di_path :: string
  di_bucket :: string
  di_prefix :: string
  di_region :: string
  di_endpoint_url :: string
  di_access_key_id :: string
  di_server_side_encryption :: string
  di_retention_count :: int
  di_secret_access_key :: "string option"

record BackupManifestMedia =
  mm_files :: int
  mm_bytes :: int
  mm_missing :: "string list"
  mm_unsafe :: "string list"

record BackupManifestZev =
  mz_id :: string
  mz_name :: string
  mz_counts :: "(string \<times> int) list"
  mz_media :: BackupManifestMedia

record BackupManifest =
  mf_kind :: string
  mf_format_version :: int
  mf_created_at :: string
  mf_instance_name :: string
  mf_openzev_version :: string
  mf_scope :: BackupJobScope
  mf_zev_id :: "string option"
  mf_counts :: "(string \<times> int) list"
  mf_zevs :: "BackupManifestZev list"
  mf_encryption :: "(string \<times> string) option"

text \<open>\<open>manifest_json\<close> is \<open>{}\<close> until the job completes: that is \<open>None\<close>.\<close>

record BackupJob =
  bj_id :: string
  bj_scope :: BackupJobScope
  bj_zev_id :: "string option"
  bj_zev_name :: string
  bj_trigger :: BackupJobTrigger
  bj_destination_id :: "string option"
  bj_destination_name :: string
  bj_status :: BackupJobStatus
  bj_created_at :: string
  bj_started_at :: "string option"
  bj_completed_at :: "string option"
  bj_archive_name :: string
  bj_archive_location :: string
  bj_archive_bytes :: "int option"
  bj_archive_sha256 :: string
  bj_encrypted :: bool
  bj_encryption_key_fingerprint :: string
  bj_manifest_json :: "BackupManifest option"
  bj_error_message :: string
  bj_file_expires_at :: "string option"
  bj_artifact_deleted_at :: "string option"
  bj_artifact_deleted_reason :: string
  bj_artifact_available :: bool
  bj_verifying :: bool
  bj_verified_at :: "string option"
  bj_verification_ok :: "bool option"
  bj_verification_message :: string

record BackupStatus =
  bs_encrypted :: bool
  bs_encryption_required :: bool
  bs_encryption_key_fingerprint :: string
  bs_encryption_key_problem :: string
  bs_environment_credentials :: bool
  bs_destinations_enabled :: int
  bs_last_successful :: "BackupJob option"
  bs_last_failed :: "BackupJob option"
  bs_age_hours :: "jsnum option"
  bs_stale :: bool
  bs_schedule_enabled :: bool
  bs_schedule_interval_hours :: "int option"

datatype BackupScheduleFrequency = daily | weekly

record BackupSchedule =
  sc_enabled :: bool
  sc_frequency :: BackupScheduleFrequency
  sc_hour :: int
  sc_minute :: int
  sc_day_of_week :: int
  sc_timezone :: string
  sc_interval_hours :: int
  sc_last_run_at :: "string option"

record BackupScheduleInput =
  si_enabled :: bool
  si_frequency :: BackupScheduleFrequency
  si_hour :: int
  si_minute :: int
  si_day_of_week :: int

datatype RestoreConflictKind =
    sent_invoice_deleted | sent_invoice_reverted | contract_issue_deleted | delivered_document_deleted
  | meter_id_owned_by_other_zev | referenced_row_missing | export_in_progress | restore_in_progress
  | login_setup_required

record RestoreConflict =
  cf_kind :: RestoreConflictKind
  cf_detail :: string
  cf_overridable :: bool

record RestorePlanSection =
  ps_backup :: int
  ps_current :: int
  ps_kept :: bool

record plan_zev =
  pz_id :: string
  pz_name :: string
  pz_exists_now :: bool
  pz_current_name :: string

record plan_backup =
  pb_created_at :: string
  pb_scope :: BackupJobScope
  pb_instance_name :: string
  pb_openzev_version :: string

record RestorePlan =
  rp_zev :: plan_zev
  rp_backup :: plan_backup
  rp_sections :: "(string \<times> RestorePlanSection) list"
  rp_relink :: int
  rp_missing_accounts :: "string list"
  rp_media_files :: int
  rp_media_missing :: int
  rp_conflicts :: "RestoreConflict list"
  rp_blocked :: bool
  rp_safety_backup_id :: "string option"
  rp_restored :: "(string \<times> int) list option"

text \<open>\<open>plan_json\<close>: the plan, what a damaged archive failed on, or \<open>{}\<close> until the job finishes.\<close>

datatype plan_json = plan RestorePlan | verification_failures "string list option" | no_plan

record RestoreJob =
  rj_id :: string
  rj_target_zev_id :: string
  rj_target_zev_name :: string
  rj_source_backup_id :: "string option"
  rj_source_archive_name :: string
  rj_source_created_at :: "string option"
  rj_source_description :: string
  rj_dry_run :: bool
  rj_force :: bool
  rj_status :: BackupJobStatus
  rj_plan_json :: plan_json
  rj_safety_backup_id :: "string option"
  rj_created_at :: string
  rj_started_at :: "string option"
  rj_completed_at :: "string option"
  rj_error_message :: string

section \<open>Jobs and destinations\<close>

definition hasActiveJob :: "BackupJob list option \<Rightarrow> bool" where
  "hasActiveJob jobs = list_ex (\<lambda>job. bj_status job = queued \<or> bj_status job = running \<or> bj_verifying job) (nullish jobs [])"

record DestinationFormState =
  df_name :: string
  df_kind :: BackupDestinationKind
  df_enabled :: bool
  df_path :: string
  df_bucket :: string
  df_prefix :: string
  df_region :: string
  df_endpoint_url :: string
  df_access_key_id :: string
  df_server_side_encryption :: string
  df_retention_count :: string
  df_secret_access_key :: string
  df_remove_secret :: bool

definition EMPTY_DESTINATION_FORM :: DestinationFormState where
  "EMPTY_DESTINATION_FORM =
     \<lparr>df_name = [], df_kind = kind_local, df_enabled = True, df_path = [], df_bucket = [], df_prefix = [],
      df_region = [], df_endpoint_url = [], df_access_key_id = [], df_server_side_encryption = ''AES256'',
      df_retention_count = ''0'', df_secret_access_key = [], df_remove_secret = False\<rparr>"

definition destinationToForm :: "BackupDestination \<Rightarrow> DestinationFormState" where
  "destinationToForm d =
     \<lparr>df_name = bd_name d, df_kind = bd_kind d, df_enabled = bd_enabled d, df_path = bd_path d,
      df_bucket = bd_bucket d, df_prefix = bd_prefix d, df_region = bd_region d,
      df_endpoint_url = bd_endpoint_url d, df_access_key_id = bd_access_key_id d,
      df_server_side_encryption = bd_server_side_encryption d,
      df_retention_count = int_str (bd_retention_count d), df_secret_access_key = [], df_remove_secret = False\<rparr>"

text \<open>\<open>parseInt\<close> gives an integer, \<open>NaN\<close> or an infinity: finite and positive is an integer above zero.\<close>

definition parseRetention :: "string \<Rightarrow> int" where
  "parseRetention s =
     (case num_int (js_parseInt (trim s)) of None \<Rightarrow> 0 | Some n \<Rightarrow> if 0 < n then n else 0)"

abbreviation strip_slashes :: "string \<Rightarrow> string" where
  "strip_slashes \<equiv> dropWhile (\<lambda>c. c = CHR ''/'')"

definition buildDestinationPayload :: "DestinationFormState \<Rightarrow> BackupDestination option \<Rightarrow> BackupDestinationInput" where
  "buildDestinationPayload f existing =
     (if df_kind f = kind_local
      then \<lparr>di_name = trim (df_name f), di_kind = df_kind f, di_enabled = df_enabled f,
            di_path = trim (df_path f), di_bucket = [], di_prefix = [], di_region = [], di_endpoint_url = [],
            di_access_key_id = [], di_server_side_encryption = df_server_side_encryption f,
            di_retention_count = parseRetention (df_retention_count f),
            di_secret_access_key =
              (case existing of Some d \<Rightarrow> if bd_has_secret_access_key d then Some [] else None | None \<Rightarrow> None)\<rparr>
      else \<lparr>di_name = trim (df_name f), di_kind = df_kind f, di_enabled = df_enabled f,
            di_path = [], di_bucket = trim (df_bucket f), di_prefix = strip_slashes (trim (df_prefix f)),
            di_region = trim (df_region f), di_endpoint_url = trim (df_endpoint_url f),
            di_access_key_id = trim (df_access_key_id f),
            di_server_side_encryption = df_server_side_encryption f,
            di_retention_count = parseRetention (df_retention_count f),
            di_secret_access_key =
              (if df_secret_access_key f \<noteq> [] then Some (df_secret_access_key f)
               else if df_remove_secret f then Some [] else None)\<rparr>)"

definition destinationTarget :: "BackupDestination \<Rightarrow> string" where
  "destinationTarget d =
     (if bd_kind d = kind_local then bd_path d
      else let key = join ''/'' (filter (\<lambda>s. s \<noteq> [])
                 [bd_bucket d, rev (strip_slashes (rev (strip_slashes (bd_prefix d))))])
           in if bd_endpoint_url d \<noteq> [] then key @ '' @ '' @ bd_endpoint_url d else key)"

section \<open>What a stored backup offers\<close>

definition readManifest :: "BackupJob \<Rightarrow> BackupManifest option" where
  "readManifest job =
     (case bj_manifest_json job of None \<Rightarrow> None
      | Some m \<Rightarrow> if mf_kind m = ''backup'' then Some m else None)"

definition manifest_zevs :: "BackupManifest option \<Rightarrow> BackupManifestZev list" where
  "manifest_zevs m = (case m of None \<Rightarrow> [] | Some x \<Rightarrow> mf_zevs x)"

definition countMissingMedia :: "BackupManifest option \<Rightarrow> int" where
  "countMissingMedia m = foldl (\<lambda>n z. n + int (length (mm_missing (mz_media z)))) 0 (manifest_zevs m)"

definition totalRecords :: "BackupManifest option \<Rightarrow> int" where
  "totalRecords m = foldl (+) 0 (map snd (case m of None \<Rightarrow> [] | Some x \<Rightarrow> mf_counts x))"

definition isDownloadable :: "BackupJob \<Rightarrow> bool" where
  "isDownloadable job \<longleftrightarrow>
     bj_artifact_available job \<and> bj_archive_location job \<noteq> [] \<and> \<not> starts_with ''s3://'' (bj_archive_location job)"

datatype VerificationState = is_checking | ok | check_failed | never

definition verificationState :: "BackupJob \<Rightarrow> VerificationState" where
  "verificationState job =
     (if bj_verifying job then is_checking
      else if bj_verification_ok job = Some True then ok
      else if bj_verification_ok job = Some False then check_failed
      else never)"

definition hasFile :: "BackupJob \<Rightarrow> bool" where
  "hasFile job = bj_artifact_available job"

definition fileGone :: "BackupJob \<Rightarrow> bool" where
  "fileGone job \<longleftrightarrow> bj_status job = completed \<and> \<not> bj_artifact_available job"

definition isBackupCreationBlocked :: "BackupStatus option \<Rightarrow> bool" where
  "isBackupCreationBlocked status =
     (case status of None \<Rightarrow> False
      | Some s \<Rightarrow> if bs_encryption_key_problem s \<noteq> [] then True
                 else \<not> bs_encrypted s \<and> bs_encryption_required s)"

section \<open>Restoring one community\<close>

definition restorableBackups :: "BackupJob list option \<Rightarrow> BackupJob list" where
  "restorableBackups jobs =
     filter (\<lambda>job. bj_artifact_available job \<and> 0 < length (manifest_zevs (readManifest job))) (nullish jobs [])"

definition communitiesIn :: "BackupJob option \<Rightarrow> (string \<times> string) list" where
  "communitiesIn job = map (\<lambda>z. (mz_id z, mz_name z)) (manifest_zevs (Option.bind job readManifest))"

definition readPlan :: "RestoreJob option \<Rightarrow> RestorePlan option" where
  "readPlan job =
     (case job of None \<Rightarrow> None
      | Some j \<Rightarrow> (case rj_plan_json j of plan p \<Rightarrow> Some p | verification_failures _ \<Rightarrow> None | no_plan \<Rightarrow> None))"

definition hasActiveRestore :: "RestoreJob list option \<Rightarrow> bool" where
  "hasActiveRestore jobs = list_ex (\<lambda>job. rj_status job = queued \<or> rj_status job = running) (nullish jobs [])"

definition hardConflicts :: "RestorePlan \<Rightarrow> RestoreConflict list" where
  "hardConflicts p = filter (\<lambda>c. \<not> cf_overridable c) (rp_conflicts p)"

definition forceableConflicts :: "RestorePlan \<Rightarrow> RestoreConflict list" where
  "forceableConflicts p = filter (\<lambda>c. cf_overridable c) (rp_conflicts p)"

definition canStartRestore :: "RestorePlan \<Rightarrow> bool \<Rightarrow> bool" where
  "canStartRestore p force =
     (if 0 < length (hardConflicts p) then False else length (forceableConflicts p) = 0 \<or> force)"

definition confirmationName :: "RestorePlan \<Rightarrow> string" where
  "confirmationName p =
     (if pz_exists_now (rp_zev p) \<and> pz_current_name (rp_zev p) \<noteq> [] then pz_current_name (rp_zev p) else pz_name (rp_zev p))"

definition RESTORE_SECTION_ORDER :: "string list" where
  "RESTORE_SECTION_ORDER =
     [''zev'', ''participants'', ''metering_points'', ''tariffs'', ''readings'', ''import_logs'', ''invoices'',
      ''contract_issues'', ''audit_events'']"

section \<open>The schedule\<close>

record ScheduleFormState =
  sf_enabled :: bool
  sf_frequency :: BackupScheduleFrequency
  sf_time :: string
  sf_day_of_week :: int

definition pad :: "int \<Rightarrow> string" where
  "pad n = padStart 2 (CHR ''0'') (int_str n)"

definition scheduleToForm :: "BackupSchedule \<Rightarrow> ScheduleFormState" where
  "scheduleToForm s =
     \<lparr>sf_enabled = sc_enabled s, sf_frequency = sc_frequency s,
      sf_time = pad (sc_hour s) @ '':'' @ pad (sc_minute s), sf_day_of_week = sc_day_of_week s\<rparr>"

text \<open>The groups of \<open>/^(\d{1,2}):(\d{2})$/\<close>, as numbers.\<close>

definition match_time :: "string \<Rightarrow> (int \<times> int) option" where
  "match_time s =
     (let h = takeWhile is_digit s; r = dropWhile is_digit s
      in if (length h = 1 \<or> length h = 2) \<and> length r = 3 \<and> hd r = CHR '':'' \<and> list_all is_digit (tl r)
         then Some (int (digits_val h), int (digits_val (tl r))) else None)"

definition buildSchedulePayload :: "ScheduleFormState \<Rightarrow> BackupScheduleInput option" where
  "buildSchedulePayload f =
     (case match_time (sf_time f) of
        None \<Rightarrow> None
      | Some (hour, minute) \<Rightarrow>
          if 23 < hour \<or> 59 < minute then None
          else Some \<lparr>si_enabled = sf_enabled f, si_frequency = sf_frequency f, si_hour = hour, si_minute = minute,
                     si_day_of_week = (if sf_frequency f = weekly then sf_day_of_week f else 0)\<rparr>)"

definition WEEKDAYS :: "int list" where
  "WEEKDAYS = [0, 1, 2, 3, 4, 5, 6]"

definition scheduleChanged :: "ScheduleFormState \<Rightarrow> BackupSchedule \<Rightarrow> bool" where
  "scheduleChanged f saved =
     (let now = scheduleToForm saved
      in sf_enabled f \<noteq> sf_enabled now \<or> sf_frequency f \<noteq> sf_frequency now \<or> sf_time f \<noteq> sf_time now
         \<or> (sf_frequency f = weekly \<and> sf_day_of_week f \<noteq> sf_day_of_week now))"

section \<open>The destination form\<close>

text \<open>
  What the server stores: trimmed texts, the fields of the other kind empty, a prefix without a leading
  slash, no secret on a local directory, and a retention count a number can hold exactly.
\<close>

definition stored_destination :: "BackupDestination \<Rightarrow> bool" where
  "stored_destination d \<longleftrightarrow>
     list_all (\<lambda>f. trim (f d) = f d)
       [bd_name, bd_path, bd_bucket, bd_prefix, bd_region, bd_endpoint_url, bd_access_key_id]
     \<and> 0 \<le> bd_retention_count d \<and> bd_retention_count d < 2 ^ 53
     \<and> (if bd_kind d = kind_local
        then list_all (\<lambda>f. f d = []) [bd_bucket, bd_prefix, bd_region, bd_endpoint_url, bd_access_key_id]
          \<and> \<not> bd_has_secret_access_key d
        else bd_path d = [] \<and> strip_slashes (bd_prefix d) = bd_prefix d)"

lemma parseRetention_int_str:
  assumes "0 \<le> n" "n < 2 ^ 53"
  shows "parseRetention (int_str n) = n"
proof -
  have s: "int_str n = nat_str (nat n)" using assms(1) by simp
  have t: "trim (nat_str (nat n)) = nat_str (nat n)"
    by (rule trim_id) (meson digit_not_ws nat_str_digits)
  have "nat n < 2 ^ 53" using assms by (simp add: nat_less_iff)
  then have "js_parseInt (nat_str (nat n)) = Fin (of_int n)"
    using js_parseInt_nat_str [of "nat n"] assms(1) by simp
  then show ?thesis using assms(1) by (simp add: parseRetention_def s t)
qed

lemma parseRetention_nonneg: "0 \<le> parseRetention s"
  by (simp add: parseRetention_def split: option.splits)

text \<open>
  Saving a destination's form without touching it sends back exactly what is stored, and no secret:
  an edit can neither change a field nor wipe a credential by accident.
\<close>

theorem destination_round_trip:
  assumes "stored_destination d"
  shows "buildDestinationPayload (destinationToForm d) (Some d) =
    \<lparr>di_name = bd_name d, di_kind = bd_kind d, di_enabled = bd_enabled d, di_path = bd_path d,
     di_bucket = bd_bucket d, di_prefix = bd_prefix d, di_region = bd_region d,
     di_endpoint_url = bd_endpoint_url d, di_access_key_id = bd_access_key_id d,
     di_server_side_encryption = bd_server_side_encryption d,
     di_retention_count = bd_retention_count d, di_secret_access_key = None\<rparr>"
proof -
  have "parseRetention (int_str (bd_retention_count d)) = bd_retention_count d"
    using assms by (intro parseRetention_int_str) (simp_all add: stored_destination_def)
  then show ?thesis
    using assms by (cases "bd_kind d") (simp_all add: buildDestinationPayload_def destinationToForm_def stored_destination_def)
qed

theorem destination_round_trip_witness:
  "let d = \<lparr>bd_id = ''1'', bd_name = ''bucket'', bd_kind = kind_s3, bd_enabled = True, bd_path = [], bd_bucket = ''b'',
       bd_prefix = ''a/'', bd_region = ''eu'', bd_endpoint_url = [], bd_access_key_id = ''k'',
       bd_server_side_encryption = ''AES256'', bd_retention_count = 7, bd_credential_mode = stored,
       bd_has_secret_access_key = True, bd_created_at = [], bd_updated_at = []\<rparr>
   in di_retention_count (buildDestinationPayload (destinationToForm d) (Some d)) = 7
    \<and> di_secret_access_key (buildDestinationPayload (destinationToForm d) (Some d)) = None"
  unfolding Let_def
  by (subst (1 2) destination_round_trip, (simp add: stored_destination_def trim_def is_ws_def)+)

section \<open>The schedule form\<close>

lemma match_time_digs: "h < 100 \<Longrightarrow> m < 100 \<Longrightarrow> match_time (digs 2 h @ '':'' @ digs 2 m) = Some (int h, int m)"
proof -
  assume b: "h < 100" "m < 100"
  have colon: "\<not> is_digit (CHR '':'')" by code_simp
  have d: "\<forall>c \<in> set (digs 2 n). is_digit c" for n using digs_digits by blast
  have tw: "takeWhile is_digit (digs 2 h @ '':'' @ digs 2 m) = digs 2 h"
    using d colon by (simp add: takeWhile_append2)
  have dw: "dropWhile is_digit (digs 2 h @ '':'' @ digs 2 m) = '':'' @ digs 2 m"
    using d colon by (simp add: dropWhile_append2)
  show ?thesis
    using b d by (simp add: match_time_def tw dw Let_def list_all_iff digits_val_digs del: append.simps(2)) 
qed

lemma pad_digs: "0 \<le> n \<Longrightarrow> n < 100 \<Longrightarrow> pad n = digs 2 (nat n)"
  using padStart_2 [of "nat n"] by (simp add: pad_def nat_less_iff)

text \<open>
  a schedule survives its form: its times come back as they are, only the weekday of a daily
  schedule is dropped, and the form of a saved schedule counts as unchanged. Whatever is typed, a
  request is only made for a time of the day.
\<close>

theorem schedule_round_trip:
  assumes "0 \<le> sc_hour s" "sc_hour s \<le> 23" "0 \<le> sc_minute s" "sc_minute s \<le> 59"
  shows "buildSchedulePayload (scheduleToForm s) = Some
      \<lparr>si_enabled = sc_enabled s, si_frequency = sc_frequency s, si_hour = sc_hour s, si_minute = sc_minute s,
       si_day_of_week = (if sc_frequency s = weekly then sc_day_of_week s else 0)\<rparr>
    \<and> \<not> scheduleChanged (scheduleToForm s) s
    \<and> (buildSchedulePayload f = Some p \<longrightarrow>
         0 \<le> si_hour p \<and> si_hour p \<le> 23 \<and> 0 \<le> si_minute p \<and> si_minute p \<le> 59)"
proof -
  have "match_time (sf_time (scheduleToForm s)) = Some (sc_hour s, sc_minute s)"
    using match_time_digs [of "nat (sc_hour s)" "nat (sc_minute s)"] assms
    by (simp add: scheduleToForm_def pad_digs nat_less_iff)
  moreover have "0 \<le> h \<and> 0 \<le> m" if "match_time t = Some (h, m)" for t h m
    using that by (auto simp: match_time_def Let_def split: if_splits)
  ultimately show ?thesis
    using assms by (auto simp: buildSchedulePayload_def scheduleChanged_def Let_def scheduleToForm_def
        split: option.splits if_splits)
qed

theorem schedule_round_trip_witness:
  "let s = \<lparr>sc_enabled = True, sc_frequency = weekly, sc_hour = 2, sc_minute = 30, sc_day_of_week = 6,
       sc_timezone = ''UTC'', sc_interval_hours = 168, sc_last_run_at = None\<rparr>
   in map_option si_hour (buildSchedulePayload (scheduleToForm s)) = Some 2 \<and> \<not> scheduleChanged (scheduleToForm s) s"
  using schedule_round_trip [of "\<lparr>sc_enabled = True, sc_frequency = weekly, sc_hour = 2, sc_minute = 30,
      sc_day_of_week = 6, sc_timezone = ''UTC'', sc_interval_hours = 168, sc_last_run_at = None\<rparr>"]
  by (simp add: Let_def)

section \<open>The restore gate\<close>

text \<open>A restore may start exactly when every conflict of the plan can be forced and was.\<close>

lemma restore_gate: "canStartRestore p force = list_all (\<lambda>c. cf_overridable c \<and> force) (rp_conflicts p)"
  by (auto simp: canStartRestore_def hardConflicts_def forceableConflicts_def list_all_iff filter_empty_conv)

end
