(* ===== verification/JS_Text.thy ===== *)
theory JS_Text
  imports JS_Number
begin

text \<open>
  Numbers and JSON values as text: \<open>String(x)\<close> with the shortest digits that read back as the same
  double, \<open>x.toFixed(k)\<close> on the exact value, JSON as a datatype and \<open>String(v)\<close> of a JSON value.
\<close>

section \<open>Printing doubles\<close>

definition ten_pow :: "int \<Rightarrow> rat" where
  "ten_pow e = (if 0 \<le> e then 10 ^ nat e else 1 / 10 ^ nat (- e))"

text \<open>The \<open>n\<close> with \<open>10\<^sup>n\<^sup>-\<^sup>1 \<le> q < 10\<^sup>n\<close>, for positive \<open>q\<close>.\<close>

definition dec_exp :: "rat \<Rightarrow> int" where
  "dec_exp q =
     (let (a, b) = quotient_of q; k = int (length (nat_str (nat a))) - int (length (nat_str (nat b)))
      in if q < ten_pow k then k else k + 1)"

text \<open>The \<open>k\<close>-digit integers next to \<open>q\<close> that read back as \<open>q\<close>, the closest first.\<close>

definition read_back :: "rat \<Rightarrow> int \<Rightarrow> int \<Rightarrow> int list" where
  "read_back q n k =
     (let unit = ten_pow (n - k); s = \<lfloor>q / unit\<rfloor>;
          c = (if q - of_int s * unit \<le> of_int (s + 1) * unit - q then [s, s + 1] else [s + 1, s])
      in filter (\<lambda>s. fl (of_int s * unit) = q) c)"

fun shortest :: "nat \<Rightarrow> rat \<Rightarrow> int \<Rightarrow> int \<Rightarrow> int \<times> int" where
  "shortest 0 q n k = (\<lfloor>q / ten_pow (n - k)\<rfloor>, k)"
| "shortest (Suc fuel) q n k =
     (case read_back q n k of s # _ \<Rightarrow> (s, k) | [] \<Rightarrow> shortest fuel q n (k + 1))"

text \<open>The digits of a decimal number \<open>0.d\<^sub>1d\<^sub>2... * 10\<^sup>n\<close> in the notations of the language.\<close>

definition decimal_layout :: "string \<Rightarrow> int \<Rightarrow> string" where
  "decimal_layout ds n =
     (let k = int (length ds)
      in if k \<le> n \<and> n \<le> 21 then ds @ replicate (nat (n - k)) (CHR ''0'')
         else if 0 < n \<and> n \<le> 21 then take (nat n) ds @ ''.'' @ drop (nat n) ds
         else if - 6 < n \<and> n \<le> 0 then ''0.'' @ replicate (nat (- n)) (CHR ''0'') @ ds
         else take 1 ds @ (if 1 < k then ''.'' @ drop 1 ds else []) @ ''e'' @ (if 0 < n - 1 then ''+'' else ''-'') @ nat_str (nat \<bar>n - 1\<bar>))"

definition pos_str :: "rat \<Rightarrow> string" where
  "pos_str q =
     (let n = dec_exp q; (s, k) = shortest 17 q n 1
      in if s = 10 ^ nat k then decimal_layout ''1'' (n + 1) else decimal_layout (nat_str (nat s)) n)"

definition num_str :: "jsnum \<Rightarrow> string" where
  "num_str x =
     (case x of NaN \<Rightarrow> ''NaN'' | Infty p \<Rightarrow> (if p then ''Infinity'' else ''-Infinity'')
      | Fin q \<Rightarrow> if q = 0 then ''0'' else if q < 0 then ''-'' @ pos_str (- q) else pos_str q)"

text \<open>
  \<open>toFixed(k)\<close>: the integer nearest to \<open>q * 10\<^sup>k\<close>, the larger one on a tie, with the point set.
\<close>

definition fixed_pos :: "nat \<Rightarrow> rat \<Rightarrow> string" where
  "fixed_pos k q =
     (let m = nat \<lfloor>q * 10 ^ k + 1 / 2\<rfloor>
      in if k = 0 then nat_str m else nat_str (m div 10 ^ k) @ ''.'' @ digs k m)"

lemma fixed_pos_code [code]:
  "fixed_pos k q =
     (let m = max 0 \<lfloor>q * 10 ^ k + 1 / 2\<rfloor>
      in if k = 0 then int_nat_str m else int_nat_str (m div 10 ^ k) @ ''.'' @ int_digs k m)"
proof -
  define m where "m = max 0 \<lfloor>q * 10 ^ k + 1 / 2\<rfloor>"
  have "nat \<lfloor>q * 10 ^ k + 1 / 2\<rfloor> = nat m" "0 \<le> m" by (simp_all add: m_def)
  moreover from this(2) have "nat m div 10 ^ k = nat (m div 10 ^ k)" by (simp add: nat_div_distrib nat_power_eq)
  ultimately show ?thesis
    unfolding fixed_pos_def m_def [symmetric] Let_def by (simp only: nat_str_code digs_nat)
qed

definition to_fixed :: "nat \<Rightarrow> jsnum \<Rightarrow> string" where
  "to_fixed k x =
     (case x of Fin q \<Rightarrow>
        if 10 ^ 21 \<le> \<bar>q\<bar> then num_str x
        else if q < 0 then ''-'' @ fixed_pos k (- q) else fixed_pos k q
      | _ \<Rightarrow> num_str x)"

section \<open>JSON\<close>

text \<open>An object keeps its keys in order; a key that is not there is \<open>undefined\<close>, hence \<open>None\<close>.\<close>

datatype json =
    JNull
  | JBool bool
  | JNum jsnum
  | JStr string
  | JArr "json list"
  | JObj "(string \<times> json) list"

definition bool_str :: "bool \<Rightarrow> string" where
  "bool_str b = (if b then ''true'' else ''false'')"

text \<open>\<open>String(v)\<close>; an array is joined with commas and shows \<open>null\<close> entries as nothing.\<close>

fun js_String :: "json \<Rightarrow> string" where
  "js_String JNull = ''null''"
| "js_String (JBool b) = bool_str b"
| "js_String (JNum x) = num_str x"
| "js_String (JStr s) = s"
| "js_String (JArr vs) = join '','' (map (\<lambda>v. if v = JNull then [] else js_String v) vs)"
| "js_String (JObj _) = ''[object Object]''"

definition json_get :: "json \<Rightarrow> string \<Rightarrow> json option" where
  "json_get v k = (case v of JObj kvs \<Rightarrow> map_of kvs k | _ \<Rightarrow> None)"

definition json_string :: "json option \<Rightarrow> string option" where
  "json_string v = (case v of Some (JStr s) \<Rightarrow> Some s | _ \<Rightarrow> None)"

text \<open>\<open>!v\<close> is false: everything but \<open>undefined\<close>, \<open>null\<close>, \<open>false\<close>, \<open>0\<close>, \<open>NaN\<close> and \<open>''\<close>.\<close>

definition json_truthy :: "json option \<Rightarrow> bool" where
  "json_truthy v =
     (case v of None \<Rightarrow> False | Some JNull \<Rightarrow> False | Some (JBool b) \<Rightarrow> b
      | Some (JNum x) \<Rightarrow> x \<noteq> NaN \<and> x \<noteq> Fin 0 | Some (JStr s) \<Rightarrow> s \<noteq> [] | Some _ \<Rightarrow> True)"

section \<open>The text of a whole number\<close>

lemma fixed_pos_of_nat [simp]: "fixed_pos k (of_nat n / 10 ^ k) = (if k = 0 then nat_str n else nat_str (n div 10 ^ k) @ ''.'' @ digs k n)"
proof -
  have "\<lfloor>of_nat n + 1 / 2 :: rat\<rfloor> = int n" by linarith
  then show ?thesis by (simp add: fixed_pos_def)
qed

text \<open>The value of a decimal text is within half a unit of its last digit of the number it was made from.\<close>

lemma fixed_nearest:
  assumes "0 \<le> q"
  shows "\<bar>of_nat (nat \<lfloor>q * 10 ^ k + 1 / 2\<rfloor>) - q * 10 ^ k\<bar> \<le> (1 / 2 :: rat)"
proof -
  have "0 \<le> \<lfloor>q * 10 ^ k + 1 / 2\<rfloor>" using assms by simp
  then have "of_nat (nat \<lfloor>q * 10 ^ k + 1 / 2\<rfloor>) = (of_int \<lfloor>q * 10 ^ k + 1 / 2\<rfloor> :: rat)" by simp
  then show ?thesis by linarith
qed

end
