(* ===== verification/Api_Client.thy ===== *)
theory Api_Client
  imports JS_Text
begin

text \<open>
  Reading the server's answers: \<open>frontend/src/lib/api/errors.ts\<close> (error payloads as text, per item and
  per code) and \<open>pagination.ts\<close> (following the page links). The HTTP request and the browser's
  \<open>URL\<close> parser are arguments; a request acts on a server state \<open>'s\<close> and fails with an error.

  The theorems: a list of up to 200 pages comes back complete and in order, a longer chain is refused
  after exactly 200 requests and no endpoint can make the client ask more often; taking the errors of a
  nested list out of a payload loses no entry.
\<close>

section \<open>Errors\<close>

text \<open>An error of the HTTP client carries its message and the body of the response, if there was one.\<close>

datatype api_error = AxiosError (ae_message: string) (ae_data: "json option") | OtherError

definition with_prefix :: "string \<Rightarrow> string \<Rightarrow> string" where
  "with_prefix prefix s = (if prefix \<noteq> [] then prefix @ '': '' @ s else s)"

fun flattenErrorMessages :: "json \<Rightarrow> string \<Rightarrow> string list"
  and flatten_all :: "json list \<Rightarrow> string \<Rightarrow> string list"
  and flatten_entries :: "(string \<times> json) list \<Rightarrow> string \<Rightarrow> string list" where
  "flattenErrorMessages JNull prefix = []"
| "flattenErrorMessages (JStr s) prefix = [with_prefix prefix s]"
| "flattenErrorMessages (JArr vs) prefix = flatten_all vs prefix"
| "flattenErrorMessages (JObj kvs) prefix = flatten_entries kvs prefix"
| "flattenErrorMessages (JNum x) prefix = [with_prefix prefix (js_String (JNum x))]"
| "flattenErrorMessages (JBool b) prefix = [with_prefix prefix (js_String (JBool b))]"
| "flatten_all [] prefix = []"
| "flatten_all (v # vs) prefix = flattenErrorMessages v prefix @ flatten_all vs prefix"
| "flatten_entries [] prefix = []"
| "flatten_entries (kv # kvs) prefix =
     flattenErrorMessages (snd kv) (if prefix \<noteq> [] then prefix @ ''.'' @ fst kv else fst kv) @ flatten_entries kvs prefix"

definition lower_ascii :: "char \<Rightarrow> char" where
  "lower_ascii c = (if CHR ''A'' \<le> c \<and> c \<le> CHR ''Z'' then char_of (of_char c + (32 :: nat)) else c)"

text \<open>\<open>entry.replace(/^non_field_errors\.?/i, 'Validation')\<close>.\<close>

definition name_validation :: "string \<Rightarrow> string" where
  "name_validation entry =
     (let key = ''non_field_errors''
      in if map lower_ascii (take (length key) entry) = key
         then ''Validation'' @ (let r = drop (length key) entry in if r \<noteq> [] \<and> hd r = CHR ''.'' then tl r else r)
         else entry)"

text \<open>\<open>entry.replace(/\./g, ' \<rightarrow> ')\<close>, the arrow U+2192 in UTF-8.\<close>

definition arrow :: string where
  "arrow = '' '' @ [CHR 0xE2, CHR 0x86, CHR 0x92] @ '' ''"

definition dots_to_arrows :: "string \<Rightarrow> string" where
  "dots_to_arrows entry = concat (map (\<lambda>c. if c = CHR ''.'' then arrow else [c]) entry)"

definition non_blank :: "string option \<Rightarrow> bool" where
  "non_blank s = (case s of None \<Rightarrow> False | Some x \<Rightarrow> trim x \<noteq> [])"

definition formatResponseData :: "json \<Rightarrow> string \<Rightarrow> string" where
  "formatResponseData responseData fallbackMessage =
     (case responseData of
        JStr s \<Rightarrow> s
      | _ \<Rightarrow>
          let detail = json_string (json_get responseData ''detail'');
              message = json_string (json_get responseData ''error'');
              flattened = flattenErrorMessages responseData []
          in if non_blank detail then the detail
             else if non_blank message then the message
             else if flattened = [] then fallbackMessage
             else join '' | '' (map dots_to_arrows (map name_validation flattened)))"

definition formatApiError :: "api_error \<Rightarrow> string \<Rightarrow> string" where
  "formatApiError error fallbackMessage =
     (case error of
        OtherError \<Rightarrow> fallbackMessage
      | AxiosError message body \<Rightarrow>
          if \<not> json_truthy body then (if message \<noteq> [] then message else fallbackMessage)
          else formatResponseData (the body) fallbackMessage)"

text \<open>An array is an object too; its entries are under its indices, which no caller asks for.\<close>

definition apiErrorPayload :: "api_error \<Rightarrow> json option" where
  "apiErrorPayload error =
     (case error of
        AxiosError _ (Some (JObj kvs)) \<Rightarrow> Some (JObj kvs)
      | AxiosError _ (Some (JArr vs)) \<Rightarrow> Some (JArr vs)
      | _ \<Rightarrow> None)"

type_synonym ItemFieldErrors = "(string \<times> string list) list"

definition item_errors :: "(string \<times> json) list \<Rightarrow> ItemFieldErrors" where
  "item_errors entry =
     map (\<lambda>(field, messages). (field, map js_String (case messages of JArr vs \<Rightarrow> vs | v \<Rightarrow> [v]))) entry"

definition object_entries :: "json \<Rightarrow> (string \<times> json) list option" where
  "object_entries v = (case v of JObj kvs \<Rightarrow> Some kvs | _ \<Rightarrow> None)"

text \<open>\<open>{ [key]: indexed, ...rest } = payload\<close>; \<open>indexed\<close> must be a list of objects.\<close>

definition splitIndexedErrors :: "api_error \<Rightarrow> string \<Rightarrow> ItemFieldErrors list option \<times> json option" where
  "splitIndexedErrors error key =
     (case apiErrorPayload error of
        None \<Rightarrow> (None, None)
      | Some payload \<Rightarrow>
          (case json_get payload key of
             Some (JArr entries) \<Rightarrow>
               (if list_all (\<lambda>e. object_entries e \<noteq> None) entries
                then (Some (map (\<lambda>e. item_errors (the (object_entries e))) entries),
                      map_option (\<lambda>kvs. JObj (filter (\<lambda>kv. fst kv \<noteq> key) kvs)) (object_entries payload))
                else (None, Some payload))
           | _ \<Rightarrow> (None, Some payload)))"

definition formatApiErrorRest :: "(string \<times> json) list option \<Rightarrow> string \<Rightarrow> string" where
  "formatApiErrorRest rest fallbackMessage =
     (case rest of None \<Rightarrow> fallbackMessage
      | Some kvs \<Rightarrow> if 0 < length kvs then formatResponseData (JObj kvs) fallbackMessage else fallbackMessage)"

record DynamicPriceGapPayload =
  pg_code :: string
  pg_tariff_name :: string
  pg_missing_at :: string

definition dynamicPriceGapPayload :: "api_error \<Rightarrow> DynamicPriceGapPayload option" where
  "dynamicPriceGapPayload error =
     (case apiErrorPayload error of None \<Rightarrow> None
      | Some payload \<Rightarrow>
          if json_get payload ''code'' \<noteq> Some (JStr ''dynamic_price_gap'') then None
          else case (json_string (json_get payload ''tariff_name''), json_string (json_get payload ''missing_at'')) of
                 (Some name, Some instant) \<Rightarrow>
                   Some \<lparr>pg_code = ''dynamic_price_gap'', pg_tariff_name = name, pg_missing_at = instant\<rparr>
               | _ \<Rightarrow> None)"

section \<open>Pages\<close>

definition MAX_PAGES :: nat where "MAX_PAGES = 200"

text \<open>\<open>new URL(next)\<close>, with the path and the query of the parsed link; \<open>None\<close> when it throws.\<close>

type_synonym url_parser = "string \<Rightarrow> (string \<times> string) option"

definition strip_trailing_slashes :: "string \<Rightarrow> string" where
  "strip_trailing_slashes s = rev (dropWhile (\<lambda>c. c = CHR ''/'') (rev s))"

definition toPathPrefix :: "url_parser \<Rightarrow> string \<Rightarrow> string" where
  "toPathPrefix parse baseUrl =
     (case parse baseUrl of Some (path, _) \<Rightarrow> strip_trailing_slashes path
      | None \<Rightarrow> strip_trailing_slashes baseUrl)"

definition nextToRelative :: "url_parser \<Rightarrow> string \<Rightarrow> string \<Rightarrow> string" where
  "nextToRelative parse basePath link =
     (let (pathname, search) = (case parse link of
            Some (p, q) \<Rightarrow> (p, q)
          | None \<Rightarrow> (takeWhile (\<lambda>c. c \<noteq> CHR ''?'') link, dropWhile (\<lambda>c. c \<noteq> CHR ''?'') link));
          pathname = (if basePath \<noteq> [] \<and> starts_with (basePath @ ''/'') pathname
                      then drop (length basePath) pathname else pathname)
      in pathname @ search)"

text \<open>A response is a page with its rows and the link to the next one, or a plain array.\<close>

datatype 'r response = Page "'r list" "string option" | Plain "'r list"

datatype fetch_error = exceeded string | request_failed string

text \<open>\<open>get\<close> has the target and whether the parameters are sent along: only with the first request.\<close>

type_synonym ('s, 'r) get = "'s \<Rightarrow> string \<Rightarrow> bool \<Rightarrow> 's \<times> (string + 'r response)"

function fetch_loop ::
    "('s, 'r) get \<Rightarrow> (string \<Rightarrow> string) \<Rightarrow> string \<Rightarrow> nat \<Rightarrow> 's \<Rightarrow> 'r list \<Rightarrow> string option \<Rightarrow> 's \<times> (fetch_error + 'r list)" where
  "fetch_loop get relative path requestCount s acc link =
     (if MAX_PAGES \<le> requestCount then (s, Inl (exceeded path))
      else let (s', r) = (case link of None \<Rightarrow> get s path True | Some l \<Rightarrow> get s (relative l) False)
           in case r of
                Inl e \<Rightarrow> (s', Inl (request_failed e))
              | Inr (Plain rows) \<Rightarrow> (s', Inr rows)
              | Inr (Page rows nxt) \<Rightarrow>
                  if truthy nxt then fetch_loop get relative path (requestCount + 1) s' (acc @ rows) nxt
                  else (s', Inr (acc @ rows)))"
  by pat_completeness auto
termination by (relation "measure (\<lambda>(_, _, _, n, _). MAX_PAGES - n)") auto

declare fetch_loop.simps [simp del]

definition fetchAllPages ::
    "('s, 'r) get \<Rightarrow> url_parser \<Rightarrow> string \<Rightarrow> 's \<Rightarrow> string \<Rightarrow> 's \<times> (fetch_error + 'r list)" where
  "fetchAllPages get parse basePath s path =
     fetch_loop get (nextToRelative parse basePath) path 0 s [] None"

section \<open>Complete or refused\<close>

text \<open>What the endpoint serves from a state on: the rows of each page of the chain of links.\<close>

inductive page_chain :: "('s, 'r) get \<Rightarrow> (string \<Rightarrow> string) \<Rightarrow> string \<Rightarrow> 's \<Rightarrow> string option \<Rightarrow> 'r list list \<Rightarrow> 's \<Rightarrow> bool"
  for get relative path where
  chain_last: "(case link of None \<Rightarrow> get s path True | Some l \<Rightarrow> get s (relative l) False) = (s', Inr (Page rows nxt)) \<Longrightarrow>
     \<not> truthy nxt \<Longrightarrow> page_chain get relative path s link [rows] s'"
| chain_more: "(case link of None \<Rightarrow> get s path True | Some l \<Rightarrow> get s (relative l) False) = (s1, Inr (Page rows nxt)) \<Longrightarrow>
     truthy nxt \<Longrightarrow> page_chain get relative path s1 nxt pages s' \<Longrightarrow>
     page_chain get relative path s link (rows # pages) s'"

lemma fetch_loop_chain:
  "page_chain get relative path s link pages s' \<Longrightarrow>
     (if n + length pages \<le> MAX_PAGES
      then fetch_loop get relative path n s acc link = (s', Inr (acc @ concat pages))
      else snd (fetch_loop get relative path n s acc link) = Inl (exceeded path))"
proof (induction arbitrary: n acc rule: page_chain.induct)
  case (chain_last link s s' rows nxt)
  then show ?case by (simp add: fetch_loop.simps [of _ _ _ n] split: option.splits)
next
  case (chain_more link s s1 rows nxt pages s')
  have step: "fetch_loop get relative path n s acc link =
      (if MAX_PAGES \<le> n then (s, Inl (exceeded path)) else fetch_loop get relative path (n + 1) s1 (acc @ rows) nxt)"
    using chain_more.hyps(1,2) by (simp add: fetch_loop.simps [of _ _ _ n] split: option.splits)
  show ?case
    using chain_more.IH [of "n + 1" "acc @ rows"] by (auto simp: step)
qed

text \<open>
  C34: a paginated list is fetched completely or refused: when the links of an endpoint form a chain of at
  most 200 pages, the client returns the rows of every page in order; when the chain is longer, it
  reports that instead of returning a part of the list as if it were the whole.
\<close>

theorem pages_complete_or_refused:
  assumes "page_chain get (nextToRelative parse basePath) path s None pages s'"
  shows "if length pages \<le> 200
    then fetchAllPages get parse basePath s path = (s', Inr (concat pages))
    else snd (fetchAllPages get parse basePath s path) = Inl (exceeded path)"
  using fetch_loop_chain [OF assms, of 0 "[]"] by (simp add: fetchAllPages_def MAX_PAGES_def)

definition two_pages :: "(nat, nat) get" where
  "two_pages n target withParams =
     (n + 1, if target = ''/rows/'' \<and> withParams then Inr (Page [1, 2] (Some ''/api/rows/?page=2''))
             else if target = ''/rows/?page=2'' then Inr (Page [3] None) else Inl ''404'')"

theorem pages_complete_or_refused_witness:
  "fetchAllPages two_pages (\<lambda>_. None) ''/api'' 0 ''/rows/'' = (2, Inr [1, 2, 3])"
proof -
  have rel: "nextToRelative (\<lambda>_. None) ''/api'' ''/api/rows/?page=2'' = ''/rows/?page=2''"
    by (simp add: nextToRelative_def starts_with_def Let_def)
  have "page_chain two_pages (nextToRelative (\<lambda>_. None) ''/api'') ''/rows/'' 1 (Some ''/api/rows/?page=2'') [[3]] 2"
    by (rule chain_last [where nxt = None]) (simp_all add: two_pages_def rel)
  then have "page_chain two_pages (nextToRelative (\<lambda>_. None) ''/api'') ''/rows/'' 0 None [[1, 2], [3]] 2"
    by (rule chain_more [rotated 2, where nxt = "Some ''/api/rows/?page=2''"]) (simp_all add: two_pages_def)
  from pages_complete_or_refused [OF this] show ?thesis by simp
qed

text \<open>A server that counts its requests.\<close>

definition counting :: "('s, 'r) get \<Rightarrow> (nat \<times> 's, 'r) get" where
  "counting get = (\<lambda>(n, s) target withParams. let (s', r) = get s target withParams in ((n + 1, s'), r))"

lemma fetch_loop_requests:
  "fst (fst (fetch_loop (counting get) relative path n (m, s) acc link)) \<le> m + (MAX_PAGES - n)"
proof (induction "MAX_PAGES - n" arbitrary: n m s acc link)
  case 0
  then show ?case by (simp add: fetch_loop.simps [of _ _ _ n])
next
  case (Suc k)
  define o' where "o' = (case link of None \<Rightarrow> get s path True | Some l \<Rightarrow> get s (relative l) False)"
  obtain s1 r where g: "o' = (s1, r)" by fastforce
  have req: "(case link of None \<Rightarrow> counting get (m, s) path True | Some l \<Rightarrow> counting get (m, s) (relative l) False)
      = ((m + 1, s1), r)"
    using g by (auto simp: o'_def counting_def split: option.splits)
  have lt: "\<not> MAX_PAGES \<le> n" and le: "Suc m \<le> m + MAX_PAGES - n" using Suc.hyps(2) by auto
  have IH: "fst (fst (fetch_loop (counting get) relative path (n + 1) (m + 1, s1) a l)) \<le> m + 1 + (MAX_PAGES - (n + 1))" for a l
    by (rule Suc.hyps(1)) (use Suc.hyps(2) in simp)
  have "m + 1 + (MAX_PAGES - (n + 1)) = m + (MAX_PAGES - n)" using lt by simp
  then have IH: "fst (fst (fetch_loop (counting get) relative path (n + 1) (m + 1, s1) a l)) \<le> m + (MAX_PAGES - n)" for a l
    using IH by metis
  show ?case
    using IH lt le by (simp add: fetch_loop.simps [of _ _ _ n] req split: sum.splits response.splits)
qed

text \<open>
  C35: whatever an endpoint answers, fetching a list ends after at most 200 requests: a chain of links
  that never ends, or that runs in a circle, cannot keep the client asking.
\<close>

theorem page_requests_bounded:
  "fst (fst (fetchAllPages (counting get) parse basePath (0, s) path)) \<le> 200"
  using fetch_loop_requests [of get "nextToRelative parse basePath" path 0 0 s "[]" None]
  by (simp add: fetchAllPages_def MAX_PAGES_def)

section \<open>Splitting a payload\<close>

text \<open>
  The rest of a payload that was split has every other key, and the per-item errors have one entry per
  item with all its fields.
\<close>

lemma split_keeps_everything:
  assumes "error = AxiosError msg (Some (JObj kvs))" "splitIndexedErrors error key = (Some items, Some rest)"
  shows "rest = JObj (filter (\<lambda>kv. fst kv \<noteq> key) kvs)
    \<and> (\<exists>entries. map_of kvs key = Some (JArr entries) \<and> length items = length entries
        \<and> map (map fst) items = map (\<lambda>e. map fst (the (object_entries e))) entries)"
proof -
  have p: "apiErrorPayload error = Some (JObj kvs)" using assms(1) by (simp add: apiErrorPayload_def)
  obtain entries where e: "map_of kvs key = Some (JArr entries)" "list_all (\<lambda>e. object_entries e \<noteq> None) entries"
    and it: "items = map (\<lambda>e. item_errors (the (object_entries e))) entries"
    and r: "rest = JObj (filter (\<lambda>kv. fst kv \<noteq> key) kvs)"
    using assms(2) by (auto simp: splitIndexedErrors_def p json_get_def object_entries_def split: option.splits json.splits if_splits)
  have "map (map fst) items = map (\<lambda>e. map fst (the (object_entries e))) entries"
    by (simp add: it item_errors_def case_prod_beta comp_def)
  then show ?thesis using e r it by simp
qed

text \<open>
  Every full stop of a message is turned into an arrow, the one that ends its sentence too: only the
  path of keys was meant.
\<close>

lemma full_stop_becomes_arrow:
  "formatResponseData (JObj [(''name'', JArr [JStr ''Too long.''])]) ''failed'' = ''name: Too long'' @ arrow"
  by (simp add: formatResponseData_def json_get_def json_string_def non_blank_def with_prefix_def
      name_validation_def lower_ascii_def dots_to_arrows_def Let_def)

end
