(* ===== verification/Restore.thy ===== *)
theory Restore
  imports Backups Api_Client
begin

text \<open>
  Restoring one community from a backup: \<open>features/backups/BackupRestoreSection.tsx\<close> as a machine over what the user
  does, the queries' answers and the answers of the server. A preview is a restore job with
  \<open>dry_run\<close>; its plan is shown, and the real restore is a second request, behind \<open>canApply\<close>.

  The server's part is its documented behaviour: a new job has a new id, and asking for a job
  returns the job with that id, a dry run exactly when it was created as one.

  The theorem: a real restore goes out only for the backup and the community that were previewed, with the
  guards of the page, in every run in which the selection stays while a preview is on its way and the list of
  backups does not change under a preview. Two lemmas show that both conditions are needed.
\<close>

section \<open>State\<close>

record RestoreJobInput =
  ri_source_backup_id :: string
  ri_target_zev_id :: string
  ri_dry_run :: bool
  ri_force :: "bool option"
  ri_safety_destination_id :: "string option"

text \<open>
  The data of the queries, the state of the component, the request of the mutation that is pending, and what
  has gone out: \<open>rs_created\<close> are the jobs of the server with the requests that made them.
\<close>

record restore_state =
  rs_backups :: "BackupJob list option"
  rs_destinations :: "BackupDestination list option"
  rs_status :: "BackupStatus option"
  rs_backupId :: string
  rs_zevId :: string
  rs_safetyId :: string
  rs_force :: bool
  rs_confirmText :: string
  rs_jobId :: "string option"
  rs_job :: "RestoreJob option"
  rs_pending :: "RestoreJobInput option"
  rs_created :: "(string \<times> RestoreJobInput) list"
  rs_requests :: "RestoreJobInput list"
  rs_toasts :: "string list"

definition restore_start :: restore_state where
  "restore_start = \<lparr>rs_backups = None, rs_destinations = None, rs_status = None, rs_backupId = [], rs_zevId = [], rs_safetyId = [],
     rs_force = False, rs_confirmText = [], rs_jobId = None, rs_job = None, rs_pending = None, rs_created = [], rs_requests = [], rs_toasts = []\<rparr>"

section \<open>What a render derives\<close>

definition backup :: "restore_state \<Rightarrow> BackupJob option" where
  "backup st =
     (let backups = restorableBackups (rs_backups st)
      in case find (\<lambda>job. bj_id job = rs_backupId st) backups of Some job \<Rightarrow> Some job | None \<Rightarrow> nth_opt backups 0)"

definition selectedZev :: "restore_state \<Rightarrow> string" where
  "selectedZev st =
     (let communities = communitiesIn (backup st)
      in if list_ex (\<lambda>c. fst c = rs_zevId st) communities then rs_zevId st
         else nullish (map_option fst (nth_opt communities 0)) [])"

definition enabledDestinations :: "restore_state \<Rightarrow> BackupDestination list" where
  "enabledDestinations st = filter bd_enabled (nullish (rs_destinations st) [])"

definition safetyDestination :: "restore_state \<Rightarrow> string" where
  "safetyDestination st =
     (let ds = enabledDestinations st
      in if list_ex (\<lambda>d. bd_id d = rs_safetyId st) ds then rs_safetyId st
         else nullish (map_option bd_id
           (case find (\<lambda>d. Some (bd_id d) = Option.bind (backup st) bj_destination_id) ds of Some d \<Rightarrow> Some d | None \<Rightarrow> nth_opt ds 0)) [])"

definition previewReady :: "restore_state \<Rightarrow> bool" where
  "previewReady st =
     (case rs_job st of None \<Rightarrow> False
      | Some job \<Rightarrow> rj_dry_run job \<and> rj_status job = completed \<and> readPlan (rs_job st) \<noteq> None)"

definition restore_running :: "restore_state \<Rightarrow> bool" where
  "restore_running st =
     (case rs_job st of None \<Rightarrow> False | Some job \<Rightarrow> rj_status job = queued \<or> rj_status job = running)"

definition canPreview :: "restore_state \<Rightarrow> bool" where
  "canPreview st \<longleftrightarrow> backup st \<noteq> None \<and> selectedZev st \<noteq> [] \<and> rs_pending st = None \<and> \<not> restore_running st"

definition plan_exists_now :: "restore_state \<Rightarrow> bool" where
  "plan_exists_now st = (case readPlan (rs_job st) of None \<Rightarrow> False | Some p \<Rightarrow> pz_exists_now (rp_zev p))"

definition restoreBlockedByEncryption :: "restore_state \<Rightarrow> bool" where
  "restoreBlockedByEncryption st \<longleftrightarrow> isBackupCreationBlocked (rs_status st) \<and> plan_exists_now st"

definition canApply :: "restore_state \<Rightarrow> bool" where
  "canApply st =
     (case readPlan (rs_job st) of None \<Rightarrow> False
      | Some p \<Rightarrow> previewReady st \<and> canStartRestore p (rs_force st) \<and> trim (rs_confirmText st) = confirmationName p
          \<and> (\<not> pz_exists_now (rp_zev p) \<or> safetyDestination st \<noteq> []) \<and> \<not> restoreBlockedByEncryption st
          \<and> rs_pending st = None \<and> \<not> restore_running st)"

section \<open>Operations\<close>

definition reset :: "string option \<Rightarrow> string option \<Rightarrow> restore_state \<Rightarrow> restore_state" where
  "reset backupId zevId st =
     st\<lparr>rs_backupId := nullish backupId (rs_backupId st), rs_zevId := nullish zevId (rs_zevId st),
        rs_jobId := None, rs_job := None, rs_force := False, rs_confirmText := []\<rparr>"

text \<open>The request of a render; without a backup (\<open>backup!.id\<close>) the mutation throws.\<close>

definition restore_request :: "bool \<Rightarrow> restore_state \<Rightarrow> RestoreJobInput option" where
  "restore_request dryRun st =
     map_option (\<lambda>b. \<lparr>ri_source_backup_id = bj_id b, ri_target_zev_id = selectedZev st, ri_dry_run = dryRun,
       ri_force = (if dryRun then None else Some (rs_force st)),
       ri_safety_destination_id = (if \<not> dryRun \<and> plan_exists_now st \<and> safetyDestination st \<noteq> [] then Some (safetyDestination st) else None)\<rparr>)
       (backup st)"

definition restore_failed :: "api_error \<Rightarrow> restore_state \<Rightarrow> restore_state" where
  "restore_failed err st = st\<lparr>rs_pending := None, rs_toasts := rs_toasts st @ [formatApiError err []]\<rparr>"

definition start :: "bool \<Rightarrow> restore_state \<Rightarrow> restore_state" where
  "start dryRun st =
     (case restore_request dryRun st of None \<Rightarrow> restore_failed OtherError st
      | Some r \<Rightarrow> st\<lparr>rs_pending := Some r, rs_requests := rs_requests st @ [r]\<rparr>)"

definition created :: "string \<Rightarrow> restore_state \<Rightarrow> restore_state" where
  "created i st =
     (case rs_pending st of None \<Rightarrow> st
      | Some r \<Rightarrow> st\<lparr>rs_pending := None, rs_created := (i, r) # rs_created st, rs_jobId := Some i, rs_job := None\<rparr>)"

datatype restore_event = re_backups "BackupJob list option" | re_destinations "BackupDestination list option" | re_status "BackupStatus option"
  | re_selectBackup string | re_selectZev string | re_safety string | re_force bool | re_type string | re_preview | re_apply
  | re_created string | re_refused api_error | re_job RestoreJob

fun restore_do :: "restore_event \<Rightarrow> restore_state \<Rightarrow> restore_state" where
  "restore_do (re_backups js) st = st\<lparr>rs_backups := js\<rparr>"
| "restore_do (re_destinations ds) st = st\<lparr>rs_destinations := ds\<rparr>"
| "restore_do (re_status s) st = st\<lparr>rs_status := s\<rparr>"
| "restore_do (re_selectBackup i) st = reset (Some i) (Some []) st"
| "restore_do (re_selectZev i) st = reset None (Some i) st"
| "restore_do (re_safety i) st = st\<lparr>rs_safetyId := i\<rparr>"
| "restore_do (re_force b) st = st\<lparr>rs_force := b\<rparr>"
| "restore_do (re_type s) st = st\<lparr>rs_confirmText := s\<rparr>"
| "restore_do re_preview st = start True st"
| "restore_do re_apply st = start False st"
| "restore_do (re_created i) st = created i st"
| "restore_do (re_refused err) st = restore_failed err st"
| "restore_do (re_job j) st = st\<lparr>rs_job := Some j\<rparr>"

text \<open>When an event can happen: what the page enables, and what the server answers.\<close>

fun restore_can :: "restore_event \<Rightarrow> restore_state \<Rightarrow> bool" where
  "restore_can (re_selectBackup i) st \<longleftrightarrow> i \<in> bj_id ` set (restorableBackups (rs_backups st))"
| "restore_can (re_selectZev i) st \<longleftrightarrow> i \<in> fst ` set (communitiesIn (backup st))"
| "restore_can (re_safety i) st \<longleftrightarrow> i \<in> bd_id ` set (enabledDestinations st)"
| "restore_can (re_force _) st \<longleftrightarrow> previewReady st"
| "restore_can (re_type _) st \<longleftrightarrow> previewReady st"
| "restore_can re_preview st \<longleftrightarrow> canPreview st"
| "restore_can re_apply st \<longleftrightarrow> canApply st"
| "restore_can (re_created i) st \<longleftrightarrow> rs_pending st \<noteq> None \<and> i \<notin> fst ` set (rs_created st)"
| "restore_can (re_refused _) st \<longleftrightarrow> rs_pending st \<noteq> None"
| "restore_can (re_job j) st \<longleftrightarrow> rs_jobId st = Some (rj_id j) \<and> map_option ri_dry_run (map_of (rs_created st) (rj_id j)) = Some (rj_dry_run j)"
| "restore_can _ st \<longleftrightarrow> True"

definition restore_step :: "restore_state \<Rightarrow> restore_event \<Rightarrow> restore_state \<Rightarrow> bool" where
  "restore_step st e st' \<longleftrightarrow> restore_can e st \<and> st' = restore_do e st"

section \<open>What is restored was previewed\<close>

definition selection :: "restore_state \<Rightarrow> string option \<times> string" where
  "selection st = (map_option bj_id (backup st), selectedZev st)"

text \<open>
  The user does not change the selection while a request is on its way, and a reload of the list of
  backups leaves the selection as it is once there is a preview or a request.
\<close>

fun steady :: "restore_event \<Rightarrow> restore_state \<Rightarrow> bool" where
  "steady (re_backups js) st \<longleftrightarrow> selection (st\<lparr>rs_backups := js\<rparr>) = selection st \<or> rs_jobId st = None \<and> rs_pending st = None"
| "steady (re_selectBackup _) st \<longleftrightarrow> rs_pending st = None"
| "steady (re_selectZev _) st \<longleftrightarrow> rs_pending st = None"
| "steady _ st \<longleftrightarrow> True"

inductive steady_run :: "restore_state \<Rightarrow> bool" where
  begin_run: "steady_run restore_start"
| steady_step: "steady_run st \<Longrightarrow> steady e st \<Longrightarrow> restore_step st e st' \<Longrightarrow> steady_run st'"

definition asks_for :: "RestoreJobInput \<Rightarrow> restore_state \<Rightarrow> bool" where
  "asks_for r st \<longleftrightarrow> selection st = (Some (ri_source_backup_id r), ri_target_zev_id r)"

text \<open>The shown job and the pending request are for what is selected, and the job shown is a dry run as it was asked for.\<close>

definition restore_inv :: "restore_state \<Rightarrow> bool" where
  "restore_inv st \<longleftrightarrow>
     (\<forall>i. rs_jobId st = Some i \<longrightarrow> (\<exists>r. map_of (rs_created st) i = Some r \<and> asks_for r st))
     \<and> (\<forall>r. rs_pending st = Some r \<longrightarrow> asks_for r st)
     \<and> (\<forall>j. rs_job st = Some j \<longrightarrow> rs_jobId st = Some (rj_id j) \<and> map_option ri_dry_run (map_of (rs_created st) (rj_id j)) = Some (rj_dry_run j))"

lemma selection_same [simp]:
  "selection (st\<lparr>rs_destinations := ds\<rparr>) = selection st" "selection (st\<lparr>rs_status := s\<rparr>) = selection st"
  "selection (st\<lparr>rs_safetyId := i\<rparr>) = selection st" "selection (st\<lparr>rs_force := b\<rparr>) = selection st"
  "selection (st\<lparr>rs_confirmText := c\<rparr>) = selection st" "selection (st\<lparr>rs_job := j\<rparr>) = selection st"
  "selection (st\<lparr>rs_jobId := k\<rparr>) = selection st" "selection (st\<lparr>rs_pending := p\<rparr>) = selection st"
  "selection (st\<lparr>rs_created := cs\<rparr>) = selection st" "selection (st\<lparr>rs_requests := rs\<rparr>) = selection st"
  "selection (st\<lparr>rs_toasts := ts\<rparr>) = selection st"
  by (simp_all add: selection_def backup_def selectedZev_def Let_def)

lemma restore_request_asks: "restore_request dryRun st = Some r \<Longrightarrow> asks_for r st \<and> ri_dry_run r = dryRun"
  by (auto simp: restore_request_def asks_for_def selection_def)

lemmas restore_ops = start_def created_def reset_def restore_failed_def

lemma restore_inv_step: "restore_inv st \<Longrightarrow> steady e st \<Longrightarrow> restore_step st e st' \<Longrightarrow> restore_inv st'"
proof (cases e)
  case (re_created i)
  assume *: "restore_inv st" "restore_step st e st'"
  then obtain r where "rs_pending st = Some r" "i \<notin> fst ` set (rs_created st)" "asks_for r st" "st' = created i st"
    using re_created by (auto simp: restore_step_def restore_inv_def)
  then show ?thesis by (simp add: restore_inv_def created_def asks_for_def)
next
  case re_preview
  assume "restore_inv st" "restore_step st e st'"
  then show ?thesis using re_preview restore_request_asks [of True st]
    by (auto simp: restore_step_def restore_inv_def restore_ops asks_for_def split: option.splits)
next
  case re_apply
  assume "restore_inv st" "restore_step st e st'"
  then show ?thesis using re_apply restore_request_asks [of False st]
    by (auto simp: restore_step_def restore_inv_def restore_ops asks_for_def split: option.splits)
qed (auto simp: restore_step_def restore_inv_def restore_ops asks_for_def)

lemma steady_run_inv: "steady_run st \<Longrightarrow> restore_inv st"
proof (induction rule: steady_run.induct)
  case begin_run
  show ?case by (simp add: restore_inv_def restore_start_def)
qed (rule restore_inv_step)

lemma request_sent:
  assumes "restore_step st e st'" "rs_requests st' = rs_requests st @ [r]"
  shows "e = re_preview \<and> ri_dry_run r \<or> e = re_apply \<and> \<not> ri_dry_run r \<and> canApply st \<and> restore_request False st = Some r"
  using assms restore_request_asks
  by (cases e) (auto simp: restore_step_def restore_ops split: option.splits)

lemma safety_enabled: "safetyDestination st \<noteq> [] \<Longrightarrow> safetyDestination st \<in> bd_id ` set (enabledDestinations st)"
  by (auto simp: safetyDestination_def Let_def list_ex_iff nth_opt_def image_iff find_Some_iff split: if_splits option.splits)
    (metis nth_mem)+

text \<open>
  C39: in every run in which the selection stays while a request is on its way and the list of backups does not
  change it under a preview, a real restore goes out only for the backup and the community of a dry run that has
  finished and whose plan is on the screen: no conflict of that plan is beyond force, every conflict is forced, the name that
  the plan asks for was typed, and a community that exists is first saved to an enabled destination.
\<close>

theorem restore_only_as_previewed:
  assumes "steady_run st" "restore_step st e st'" "rs_requests st' = rs_requests st @ [r]" "\<not> ri_dry_run r"
  shows "\<exists>job preview p. rs_job st = Some job \<and> rj_status job = completed \<and> rj_plan_json job = plan p
    \<and> map_of (rs_created st) (rj_id job) = Some preview \<and> ri_dry_run preview
    \<and> ri_source_backup_id preview = ri_source_backup_id r \<and> ri_target_zev_id preview = ri_target_zev_id r
    \<and> (\<forall>c \<in> set (rp_conflicts p). cf_overridable c \<and> ri_force r = Some True)
    \<and> trim (rs_confirmText st) = confirmationName p
    \<and> (pz_exists_now (rp_zev p) \<longrightarrow> (\<exists>d \<in> set (nullish (rs_destinations st) []). bd_enabled d \<and> ri_safety_destination_id r = Some (bd_id d)))"
proof -
  have inv: "restore_inv st" using steady_run_inv [OF assms(1)] .
  have sent: "canApply st" "restore_request False st = Some r" using request_sent [OF assms(2,3)] assms(4) by auto
  obtain p job where p: "readPlan (rs_job st) = Some p" "rs_job st = Some job" "rj_dry_run job" "rj_status job = completed"
      "canStartRestore p (rs_force st)" "trim (rs_confirmText st) = confirmationName p"
      "\<not> pz_exists_now (rp_zev p) \<or> safetyDestination st \<noteq> []"
    using sent(1) by (auto simp: canApply_def previewReady_def split: option.splits)
  obtain preview where preview: "map_of (rs_created st) (rj_id job) = Some preview" "ri_dry_run preview" "asks_for preview st"
    using inv p(2,3) by (auto simp: restore_inv_def)
  have same: "ri_source_backup_id preview = ri_source_backup_id r" "ri_target_zev_id preview = ri_target_zev_id r"
    using preview(3) restore_request_asks [OF sent(2)] by (simp_all add: asks_for_def)
  have r: "ri_force r = Some (rs_force st)"
      "pz_exists_now (rp_zev p) \<Longrightarrow> ri_safety_destination_id r = Some (safetyDestination st)"
    using sent(2) p(1,7) by (auto simp: restore_request_def plan_exists_now_def)
  have "rj_plan_json job = plan p" using p(1,2) by (simp add: readPlan_def split: plan_json.splits)
  moreover have "\<forall>c \<in> set (rp_conflicts p). cf_overridable c \<and> ri_force r = Some True"
    using p(5) r(1) by (simp add: restore_gate list_all_iff)
  moreover have "\<exists>d \<in> set (nullish (rs_destinations st) []). bd_enabled d \<and> ri_safety_destination_id r = Some (bd_id d)"
    if "pz_exists_now (rp_zev p)"
    using that p(7) r(2) safety_enabled [of st] by (auto simp: enabledDestinations_def)
  ultimately show ?thesis using p preview same by blast
qed

section \<open>Runs\<close>

definition archive :: "string \<Rightarrow> BackupJob" where
  "archive i = \<lparr>bj_id = i, bj_scope = scope_instance, bj_zev_id = None, bj_zev_name = [], bj_trigger = trigger_manual, bj_destination_id = Some ''d'',
     bj_destination_name = ''Disk'', bj_status = completed, bj_created_at = [], bj_started_at = None, bj_completed_at = None, bj_archive_name = [],
     bj_archive_location = [], bj_archive_bytes = None, bj_archive_sha256 = [], bj_encrypted = True, bj_encryption_key_fingerprint = [],
     bj_manifest_json = Some \<lparr>mf_kind = ''backup'', mf_format_version = 1, mf_created_at = [], mf_instance_name = [], mf_openzev_version = [],
       mf_scope = scope_instance, mf_zev_id = None, mf_counts = [],
       mf_zevs = [\<lparr>mz_id = ''z'', mz_name = ''Sonne'', mz_counts = [], mz_media = \<lparr>mm_files = 0, mm_bytes = 0, mm_missing = [], mm_unsafe = []\<rparr>\<rparr>], mf_encryption = None\<rparr>,
     bj_error_message = [], bj_file_expires_at = None, bj_artifact_deleted_at = None, bj_artifact_deleted_reason = [], bj_artifact_available = True,
     bj_verifying = False, bj_verified_at = None, bj_verification_ok = None, bj_verification_message = []\<rparr>"

definition disk :: BackupDestination where
  "disk = \<lparr>bd_id = ''d'', bd_name = ''Disk'', bd_kind = kind_local, bd_enabled = True, bd_path = [], bd_bucket = [], bd_prefix = [], bd_region = [],
     bd_endpoint_url = [], bd_access_key_id = [], bd_server_side_encryption = [], bd_retention_count = 7, bd_credential_mode = environment,
     bd_has_secret_access_key = False, bd_created_at = [], bd_updated_at = []\<rparr>"

definition overwriting_plan :: RestorePlan where
  "overwriting_plan = \<lparr>rp_zev = \<lparr>pz_id = ''z'', pz_name = ''Sonne'', pz_exists_now = True, pz_current_name = ''Sonne''\<rparr>,
     rp_backup = \<lparr>pb_created_at = [], pb_scope = scope_instance, pb_instance_name = [], pb_openzev_version = []\<rparr>, rp_sections = [], rp_relink = 0,
     rp_missing_accounts = [], rp_media_files = 0, rp_media_missing = 0,
     rp_conflicts = [\<lparr>cf_kind = sent_invoice_deleted, cf_detail = [], cf_overridable = True\<rparr>], rp_blocked = False, rp_safety_backup_id = None,
     rp_restored = None\<rparr>"

definition finished_preview :: RestoreJob where
  "finished_preview = \<lparr>rj_id = ''j'', rj_target_zev_id = ''z'', rj_target_zev_name = ''Sonne'', rj_source_backup_id = Some ''old'',
     rj_source_archive_name = [], rj_source_created_at = None, rj_source_description = [], rj_dry_run = True, rj_force = False, rj_status = completed,
     rj_plan_json = plan overwriting_plan, rj_safety_backup_id = None, rj_created_at = [], rj_started_at = None, rj_completed_at = None,
     rj_error_message = []\<rparr>"

fun restore_all :: "restore_event list \<Rightarrow> restore_state \<Rightarrow> restore_state" where
  "restore_all [] st = st"
| "restore_all (e # es) st = restore_all es (restore_do e st)"

text \<open>Every event of a list can happen in turn, and is steady.\<close>

fun all_can :: "restore_event list \<Rightarrow> restore_state \<Rightarrow> bool" where
  "all_can [] st \<longleftrightarrow> True"
| "all_can (e # es) st \<longleftrightarrow> restore_can e st \<and> all_can es (restore_do e st)"

fun all_steady :: "restore_event list \<Rightarrow> restore_state \<Rightarrow> bool" where
  "all_steady [] st \<longleftrightarrow> True"
| "all_steady (e # es) st \<longleftrightarrow> steady e st \<and> all_steady es (restore_do e st)"

lemma steady_run_all: "steady_run st \<Longrightarrow> all_can es st \<Longrightarrow> all_steady es st \<Longrightarrow> steady_run (restore_all es st)"
proof (induction es arbitrary: st)
  case (Cons e es)
  then have "steady_run (restore_do e st)" by (auto intro: steady_step simp: restore_step_def)
  with Cons show ?case by simp
qed simp

definition previewing :: "restore_event list" where
  "previewing = [re_destinations (Some [disk]), re_backups (Some [archive ''old'']), re_preview, re_created ''j'', re_job finished_preview,
     re_force True, re_type '' Sonne'']"

theorem restore_only_as_previewed_witness:
  "\<exists>r. rs_requests (restore_do re_apply (restore_all previewing restore_start)) = rs_requests (restore_all previewing restore_start) @ [r]
     \<and> \<not> ri_dry_run r \<and> ri_source_backup_id r = ''old'' \<and> ri_force r = Some True \<and> ri_safety_destination_id r = Some ''d''"
proof -
  let ?st = "restore_all previewing restore_start"
  have run: "steady_run ?st" by (rule steady_run_all [OF begin_run]) code_simp+
  have step: "restore_step ?st re_apply (restore_do re_apply ?st)" unfolding restore_step_def by (intro conjI refl) code_simp
  define r where "r = the (restore_request False ?st)"
  have sent: "rs_requests (restore_do re_apply ?st) = rs_requests ?st @ [r]" "\<not> ri_dry_run r" unfolding r_def by code_simp+
  have data: "map_of (rs_created ?st) ''j'' = Some \<lparr>ri_source_backup_id = ''old'', ri_target_zev_id = ''z'', ri_dry_run = True, ri_force = None,
      ri_safety_destination_id = None\<rparr>" "rs_job ?st = Some finished_preview" "rs_destinations ?st = Some [disk]"
    "rp_conflicts overwriting_plan \<noteq> []" "pz_exists_now (rp_zev overwriting_plan)" by code_simp+
  have "rj_id finished_preview = ''j''" "rj_plan_json finished_preview = plan overwriting_plan" "bd_id disk = ''d''"
    by (simp_all add: finished_preview_def disk_def)
  with restore_only_as_previewed [OF run step sent] data sent show ?thesis by (cases "rp_conflicts overwriting_plan") auto
qed

section \<open>Where the selection slips\<close>

text \<open>
  Without a choice of its own the page restores from the first backup of the list. A newer backup that comes
  with the next answer of the list takes that place under the preview: what goes out is a restore from a backup that was never
  previewed, with the preview of the old one on the screen.
\<close>

definition slipping :: "restore_event list" where
  "slipping = previewing @ [re_backups (Some [archive ''new'', archive ''old''])]"

lemma newer_backup_slips_in:
  "all_can (slipping @ [re_apply]) restore_start"
  "map_option ri_source_backup_id (map_of (rs_created (restore_all slipping restore_start)) ''j'') = Some ''old''"
  "map_option ri_source_backup_id (restore_request False (restore_all slipping restore_start)) = Some ''new''"
  by code_simp+

text \<open>
  The selection is not locked while the preview is being asked for: the answer that comes after another backup was chosen
  shows the plan of the first, and applying restores the second.
\<close>

definition chosen_late :: "restore_event list" where
  "chosen_late = [re_destinations (Some [disk]), re_backups (Some [archive ''old'', archive ''other'']), re_preview, re_selectBackup ''other'',
     re_created ''j'', re_job finished_preview, re_force True, re_type ''Sonne'']"

lemma late_preview_of_other_backup:
  "all_can (chosen_late @ [re_apply]) restore_start"
  "map_option ri_source_backup_id (map_of (rs_created (restore_all chosen_late restore_start)) ''j'') = Some ''old''"
  "map_option ri_source_backup_id (restore_request False (restore_all chosen_late restore_start)) = Some ''other''"
  by code_simp+

end
