(* ===== verification/Imports.thy ===== *)
theory Imports
  imports JS_Text
begin

text \<open>
  The import wizard: \<open>features/imports/importUtils.ts\<close> and \<open>sdatOutcome.ts\<close>, with the batch upload
  of \<open>lib/api/metering.ts\<close> (\<open>runPerFile\<close>) and the records of \<open>types/api.ts\<close> they read.

  The theorems: the missing meters of several files are counted without losing or doubling one; two
  configurations share a preview exactly when the import would treat them alike; a failing file of a
  batch neither stops nor changes the others.
\<close>

section \<open>Column maps and detection\<close>

record CsvColumnMap =
  cm_meter_id :: string
  cm_timestamp :: string
  cm_energy_kwh :: string
  cm_direction :: string
  cm_energy_start :: string

definition defaultColumnMap :: CsvColumnMap where
  "defaultColumnMap = \<lparr>cm_meter_id = ''meter_id'', cm_timestamp = ''timestamp'', cm_energy_kwh = ''energy_kwh'',
     cm_direction = ''direction'', cm_energy_start = ''4''\<rparr>"

definition standardHeaderlessColumnMap :: CsvColumnMap where
  "standardHeaderlessColumnMap = \<lparr>cm_meter_id = ''0'', cm_timestamp = ''1'', cm_energy_kwh = ''2'',
     cm_direction = [], cm_energy_start = []\<rparr>"

definition dailyHeadedColumnMap :: CsvColumnMap where
  "dailyHeadedColumnMap = \<lparr>cm_meter_id = ''meter_id'', cm_timestamp = ''date'', cm_energy_kwh = [],
     cm_direction = [], cm_energy_start = ''00:00''\<rparr>"

definition dailyHeaderlessColumnMap :: CsvColumnMap where
  "dailyHeaderlessColumnMap = \<lparr>cm_meter_id = ''0'', cm_timestamp = ''1'', cm_energy_kwh = [],
     cm_direction = [], cm_energy_start = ''2''\<rparr>"

datatype CsvFormatProfile = standard | daily_15min

datatype ImportTimestampTimezone = Europe_Zurich | UTC

record detected_columns =
  dc_meter_id :: "string option"
  dc_timestamp :: "string option"
  dc_energy_kwh :: "string option"
  dc_direction :: "string option"
  dc_energy_start :: "string option"

record detected_settings =
  ds_has_header :: bool
  ds_delimiter :: string
  ds_format_profile :: CsvFormatProfile
  ds_timestamp_format :: string
  ds_timestamp_timezone :: ImportTimestampTimezone
  ds_interval_minutes :: int
  ds_values_count :: int
  ds_column_map :: detected_columns

record CsvDetectResult =
  cd_detected :: bool
  cd_undetected :: "string list"
  cd_settings :: detected_settings

datatype DetectionState =
    idle
  | loading string nat
  | detection_done string nat "string list"
  | detection_failed

definition csvConfigFor :: "bool \<Rightarrow> CsvFormatProfile \<Rightarrow> string \<times> CsvColumnMap" where
  "csvConfigFor hasHeader profile =
     (if profile = daily_15min
      then if hasHeader then ('','', dailyHeadedColumnMap) else ('';'', dailyHeaderlessColumnMap)
      else if hasHeader then ('','', defaultColumnMap) else ('';'', standardHeaderlessColumnMap))"

record wizard_settings =
  ws_hasHeader :: bool
  ws_delimiter :: string
  ws_formatProfile :: CsvFormatProfile
  ws_timestampFormat :: string
  ws_timestampTimezone :: ImportTimestampTimezone
  ws_intervalMinutes :: string
  ws_valuesCount :: string
  ws_columnMap :: CsvColumnMap

abbreviation tab :: string where
  "tab \<equiv> [CHR 0x09]"

text \<open>The two characters backslash and \<open>t\<close>.\<close>

abbreviation tab_escape :: string where
  "tab_escape \<equiv> [CHR 0x5C, CHR ''t'']"

definition settingsFromDetection :: "CsvDetectResult \<Rightarrow> wizard_settings" where
  "settingsFromDetection result =
     (let settings = cd_settings result;
          fallback = snd (csvConfigFor (ds_has_header settings) (ds_format_profile settings));
          mapped = ds_column_map settings;
          standard' = (ds_format_profile settings = standard)
      in \<lparr>ws_hasHeader = ds_has_header settings,
          ws_delimiter = (if ds_delimiter settings = tab then tab_escape else ds_delimiter settings),
          ws_formatProfile = ds_format_profile settings,
          ws_timestampFormat = ds_timestamp_format settings,
          ws_timestampTimezone = ds_timestamp_timezone settings,
          ws_intervalMinutes = int_str (ds_interval_minutes settings),
          ws_valuesCount = int_str (ds_values_count settings),
          ws_columnMap =
            \<lparr>cm_meter_id = nullish (dc_meter_id mapped) (cm_meter_id fallback),
             cm_timestamp = nullish (dc_timestamp mapped) (cm_timestamp fallback),
             cm_energy_kwh = (if standard' then nullish (dc_energy_kwh mapped) (cm_energy_kwh fallback) else []),
             cm_direction = nullish (dc_direction mapped) [],
             cm_energy_start = (if standard' then [] else nullish (dc_energy_start mapped) (cm_energy_start fallback))\<rparr>\<rparr>)"

section \<open>The preview and its stamp\<close>

record File =
  f_name :: string
  f_size :: int
  f_lastModified :: int

record StampFile =
  st_name :: string
  st_size :: int
  st_lastModified :: int

record PreviewStamp =
  ps_files :: "StampFile list"
  ps_source :: string
  ps_zevId :: string
  ps_hasHeader :: bool
  ps_delimiter :: string
  ps_formatProfile :: string
  ps_timestampFormat :: string
  ps_timestampTimezone :: ImportTimestampTimezone
  ps_intervalMinutes :: string
  ps_valuesCount :: string
  ps_overwriteExisting :: bool
  ps_columnMap :: CsvColumnMap

definition stampFilesOf :: "File list \<Rightarrow> StampFile list" where
  "stampFilesOf files =
     map (\<lambda>f. \<lparr>st_name = f_name f, st_size = f_size f, st_lastModified = f_lastModified f\<rparr>) files"

record ImportPreviewRow =
  pr_row :: int
  pr_meter_id :: "string option"
  pr_metering_point_exists :: bool
  pr_meter_type :: "string option"
  pr_timestamp :: "string option"
  pr_energy :: "string option"
  pr_existing_data :: "bool option"
  pr_directions :: "string list option"
  pr_interval_minutes :: "int option"
  pr_values_count :: "int option"

record preview_summary =
  su_existing_metering_points :: int
  su_missing_metering_points :: int
  su_rows_previewed :: int
  su_rows_skipped_existing :: int
  su_readings_existing :: int

record ImportPreviewResult =
  ip_rows_total :: int
  ip_preview_rows :: "ImportPreviewRow list"
  ip_summary :: preview_summary
  ip_missing_meter_ids :: "string list"
  ip_errors :: "(int option \<times> string) list"
  ip_timestamp_timezone :: ImportTimestampTimezone
  ip_rows_skipped_dst_gap :: int

record FilePreview =
  fp_fileName :: string
  fp_preview :: "ImportPreviewResult option"
  fp_error :: "string option"

text \<open>One turn of the loop: the ids seen so far, in order, and the remainders added up.\<close>

definition add_missing :: "string list \<times> int \<Rightarrow> FilePreview \<Rightarrow> string list \<times> int" where
  "add_missing acc p =
     (case fp_preview p of
        None \<Rightarrow> acc
      | Some r \<Rightarrow>
          (foldl (\<lambda>ids i. if i \<in> set ids then ids else ids @ [i]) (fst acc) (ip_missing_meter_ids r),
           snd acc + max 0 (su_missing_metering_points (ip_summary r) - int (length (ip_missing_meter_ids r)))))"

definition aggregateMissingMeters :: "FilePreview list \<Rightarrow> int \<times> string list" where
  "aggregateMissingMeters previews =
     (let (ids, overflow) = foldl add_missing ([], 0) previews in (int (length ids) + overflow, ids))"

definition parsePositiveInt :: "string \<Rightarrow> int option" where
  "parsePositiveInt raw =
     (if trim raw = [] \<or> \<not> list_all is_digit (trim raw) then None
      else case num_int (js_parseInt (trim raw)) of
             None \<Rightarrow> None
           | Some n \<Rightarrow> if \<bar>n\<bar> < 2 ^ 53 then Some n else None)"

definition normalizePositiveInt :: "string \<Rightarrow> string" where
  "normalizePositiveInt raw =
     (case parsePositiveInt raw of None \<Rightarrow> ''invalid:'' @ raw | Some n \<Rightarrow> int_str n)"

definition normalizeDelimiter :: "string \<Rightarrow> string" where
  "normalizeDelimiter d = (if d = tab_escape then tab else d)"

definition normalize_stamp :: "PreviewStamp \<Rightarrow> PreviewStamp" where
  "normalize_stamp s = s\<lparr>ps_intervalMinutes := normalizePositiveInt (ps_intervalMinutes s),
     ps_valuesCount := normalizePositiveInt (ps_valuesCount s),
     ps_delimiter := normalizeDelimiter (ps_delimiter s)\<rparr>"

text \<open>
  The source compares the JSON texts of the two records; they have the same keys in the same order and
  only strings, booleans and whole numbers as values, so the texts agree when the records do.
\<close>

definition previewStampsEqual :: "PreviewStamp option \<Rightarrow> PreviewStamp option \<Rightarrow> bool" where
  "previewStampsEqual a b =
     (case (a, b) of (Some x, Some y) \<Rightarrow> normalize_stamp x = normalize_stamp y | _ \<Rightarrow> False)"

section \<open>Checks on the configuration\<close>

text \<open>\<open>s.replace(/%%/g, '')\<close>: left to right.\<close>

fun drop_escapes :: "string \<Rightarrow> string" where
  "drop_escapes (a # b # cs) =
     (if a = CHR ''%'' \<and> b = CHR ''%'' then drop_escapes cs else a # drop_escapes (b # cs))"
| "drop_escapes cs = cs"

text \<open>\<open>/%[cs]/.test(s)\<close>.\<close>

fun has_directive :: "string \<Rightarrow> string \<Rightarrow> bool" where
  "has_directive cs (a # b # r) \<longleftrightarrow> (a = CHR ''%'' \<and> b \<in> set cs) \<or> has_directive cs (b # r)"
| "has_directive cs _ \<longleftrightarrow> False"

definition isValidTimestampFormat :: "string \<Rightarrow> bool" where
  "isValidTimestampFormat fmt =
     (if fmt = [] then True
      else if CHR ''%'' \<notin> set fmt then False
      else let directives = drop_escapes fmt;
               hasCalendarYear = has_directive ''Yy'' directives;
               hasMonthAndDay = (has_directive ''mBb'' directives \<and> has_directive ''d'' directives);
               hasDayOfYear = has_directive ''j'' directives;
               hasWeekday = has_directive ''auwA'' directives;
               hasCalendarWeek = (has_directive ''UW'' directives \<and> hasWeekday);
               hasIsoWeek = (has_directive ''G'' directives \<and> has_directive ''V'' directives \<and> hasWeekday)
           in (hasCalendarYear \<and> (hasMonthAndDay \<or> hasDayOfYear \<or> hasCalendarWeek)) \<or> hasIsoWeek)"

definition isValidDelimiter :: "string \<Rightarrow> bool" where
  "isValidDelimiter d = (if d = tab_escape \<or> d = tab then True else length d = 1)"

definition MAX_UPLOAD_BYTES :: int where
  "MAX_UPLOAD_BYTES = 50 * 1024 * 1024"

text \<open>The \<open>i\<close> flag on an ASCII suffix.\<close>

definition lower_ascii :: "char \<Rightarrow> char" where
  "lower_ascii c = (if CHR ''A'' \<le> c \<and> c \<le> CHR ''Z'' then char_of (of_char c + (32 :: nat)) else c)"

definition isLegacyExcel :: "string \<Rightarrow> bool" where
  "isLegacyExcel name \<longleftrightarrow>
     ends_with ''.xls'' (map lower_ascii name) \<and> \<not> ends_with ''.xlsx'' (map lower_ascii name)"

section \<open>The outcome of an SDAT delivery\<close>

datatype DeletionProtection = overwrite_import_protected | quarantine_replace_protected

datatype SdatResultStatus = rs_accepted | rs_held | rs_unchanged | rs_rejected

record SdatResultCounts =
  rc_created :: "int option"
  rc_overwritten :: "int option"

text \<open>The fields of an import log the outcome is read from; a blank \<open>result_status\<close> is \<open>None\<close>.\<close>

record ImportLog =
  il_result_status :: "SdatResultStatus option"
  il_result_counts :: "SdatResultCounts option"
  il_deletable :: "bool option"
  il_deletion_protection_code :: "DeletionProtection option"

definition importLogProtectionCode :: "ImportLog \<Rightarrow> DeletionProtection option" where
  "importLogProtectionCode entry = il_deletion_protection_code entry"

definition isImportLogDeletable :: "ImportLog \<Rightarrow> bool" where
  "isImportLogDeletable entry \<longleftrightarrow> il_deletable entry \<noteq> Some False"

definition isSdatLog :: "ImportLog \<Rightarrow> bool" where
  "isSdatLog entry \<longleftrightarrow> il_result_status entry \<noteq> None"

datatype SdatOutcomeKind = ok_rejected | ok_held | ok_unchanged | ok_correctionOnly | ok_accepted | ok_legacy

definition sdatOutcomeKind :: "ImportLog \<Rightarrow> SdatOutcomeKind" where
  "sdatOutcomeKind entry =
     (case il_result_status entry of
        None \<Rightarrow> ok_legacy
      | Some rs_rejected \<Rightarrow> ok_rejected
      | Some rs_held \<Rightarrow> ok_held
      | Some rs_unchanged \<Rightarrow> ok_unchanged
      | Some rs_accepted \<Rightarrow>
          (case il_result_counts entry of
             None \<Rightarrow> ok_accepted
           | Some c \<Rightarrow> if nullish (rc_created c) 0 = 0 \<and> nullish (rc_overwritten c) 0 > 0
                       then ok_correctionOnly else ok_accepted))"

section \<open>One request per file\<close>

text \<open>
  \<open>runPerFile\<close>: the files in order, each against the server's state \<open>'s\<close> as the previous one left it;
  a rejected promise (\<open>Inl\<close>) becomes an outcome without a value.
\<close>

record ('v, 'e) BatchFileOutcome =
  bo_file :: File
  bo_value :: "'v option"
  bo_error :: "'e option"

fun runPerFile :: "('s \<Rightarrow> File \<Rightarrow> 's \<times> ('e + 'v)) \<Rightarrow> 's \<Rightarrow> File list \<Rightarrow> 's \<times> ('v, 'e) BatchFileOutcome list" where
  "runPerFile run s [] = (s, [])"
| "runPerFile run s (f # fs) =
     (let (s', r) = run s f; (s'', os) = runPerFile run s' fs
      in (s'', (case r of Inr v \<Rightarrow> \<lparr>bo_file = f, bo_value = Some v, bo_error = None\<rparr>
                | Inl e \<Rightarrow> \<lparr>bo_file = f, bo_value = None, bo_error = Some e\<rparr>) # os))"

definition isFailedBatchOutcome :: "(ImportLog, 'e) BatchFileOutcome \<Rightarrow> bool" where
  "isFailedBatchOutcome out =
     (case bo_value out of None \<Rightarrow> True | Some entry \<Rightarrow> il_result_status entry = Some rs_rejected)"

section \<open>Issue parameters\<close>

definition SDAT_COUNT_ORDER :: "string list" where
  "SDAT_COUNT_ORDER = [''created'', ''overwritten'', ''held'', ''promoted'', ''duplicate'', ''original_existing'',
     ''stale'', ''excluded'', ''rejected'', ''quarantine_overwritten'']"

definition SDAT_ISSUE_PARAM_ORDER :: "string list" where
  "SDAT_ISSUE_PARAM_ORDER = [''meter_id'', ''block_id'', ''position'', ''missing'', ''position_timestamp'',
     ''direction'', ''incoming_document_id'', ''stored_document_id'', ''incoming_delivery_id'',
     ''stored_delivery_id'', ''product'', ''unit'', ''feature'', ''import_log_id'', ''reason'', ''stale'',
     ''duplicate'', ''original_existing'']"

definition param_text :: "json \<Rightarrow> string option" where
  "param_text raw =
     (case raw of
        JNull \<Rightarrow> None
      | JStr s \<Rightarrow> if s = [] then None else Some s
      | JArr vs \<Rightarrow>
          if length vs = 0 then None
          else let shown = join '', '' (map js_String (take 10 vs))
               in Some (if 10 < length vs then shown @ '' (+'' @ nat_str (length vs - 10) @ '')'' else shown)
      | JNum _ \<Rightarrow> Some (js_String raw)
      | JBool _ \<Rightarrow> Some (js_String raw)
      | JObj _ \<Rightarrow> None)"

definition sdatIssueParams :: "json \<Rightarrow> (string \<times> string) list" where
  "sdatIssueParams issue =
     concat (map (\<lambda>key. case Option.bind (json_get issue key) param_text of None \<Rightarrow> [] | Some v \<Rightarrow> [(key, v)])
       SDAT_ISSUE_PARAM_ORDER)"

section \<open>Missing meters\<close>

lemma add_ids:
  "distinct ids \<Longrightarrow> distinct (foldl (\<lambda>ids i. if i \<in> set ids then ids else ids @ [i]) ids xs)
    \<and> set (foldl (\<lambda>ids i. if i \<in> set ids then ids else ids @ [i]) ids xs) = set ids \<union> set xs"
  by (induction xs arbitrary: ids) auto

definition listed_ids :: "FilePreview \<Rightarrow> string list" where
  "listed_ids p = (case fp_preview p of None \<Rightarrow> [] | Some r \<Rightarrow> ip_missing_meter_ids r)"

definition cut_off :: "FilePreview \<Rightarrow> int" where
  "cut_off p = (case fp_preview p of None \<Rightarrow> 0
     | Some r \<Rightarrow> max 0 (su_missing_metering_points (ip_summary r) - int (length (ip_missing_meter_ids r))))"

lemma add_missing_fold:
  "distinct (fst acc) \<Longrightarrow>
     distinct (fst (foldl add_missing acc ps))
     \<and> set (fst (foldl add_missing acc ps)) = set (fst acc) \<union> (\<Union>p \<in> set ps. set (listed_ids p))
     \<and> snd (foldl add_missing acc ps) = snd acc + sum_list (map cut_off ps)"
proof (induction ps arbitrary: acc)
  case (Cons p ps)
  have "distinct (fst (add_missing acc p)) \<and> set (fst (add_missing acc p)) = set (fst acc) \<union> set (listed_ids p)
      \<and> snd (add_missing acc p) = snd acc + cut_off p"
    using add_ids [OF Cons.prems] Cons.prems by (simp add: add_missing_def listed_ids_def cut_off_def split: option.splits)
  then show ?case using Cons.IH [of "add_missing acc p"] by (simp add: Un_assoc add.assoc)
qed simp

lemma cut_off_nonneg: "0 \<le> cut_off p"
  by (simp add: cut_off_def split: option.splits)

lemma cut_off_le: "p \<in> set ps \<Longrightarrow> cut_off p \<le> sum_list (map cut_off ps)"
proof (induction ps)
  case (Cons q ps)
  have "0 \<le> sum_list (map cut_off ps)" by (rule sum_list_nonneg) (auto simp: cut_off_nonneg)
  then show ?case using Cons cut_off_nonneg [of q] by auto
qed simp

text \<open>
  the missing meters of several files are counted once each: the ids are the union of what the
  files list, without repetition, the count adds what each file's list was cut by, and so the count is
  never below what any one file reports.
\<close>

theorem missing_meters_counted:
  assumes "p \<in> set previews" "fp_preview p = Some r" "distinct (ip_missing_meter_ids r)"
  shows "distinct (snd (aggregateMissingMeters previews))
    \<and> set (snd (aggregateMissingMeters previews)) = (\<Union>q \<in> set previews. set (listed_ids q))
    \<and> fst (aggregateMissingMeters previews) =
        int (card (\<Union>q \<in> set previews. set (listed_ids q))) + sum_list (map cut_off previews)
    \<and> su_missing_metering_points (ip_summary r) \<le> fst (aggregateMissingMeters previews)"
proof -
  obtain ids n where f: "foldl add_missing ([], 0) previews = (ids, n)" by fastforce
  let ?U = "\<Union>q \<in> set previews. set (listed_ids q)"
  have d: "distinct ids" and s: "set ids = ?U" and n: "n = sum_list (map cut_off previews)"
    using add_missing_fold [of "([], 0)" previews] f by simp_all
  have len: "length ids = card ?U" using d s by (metis distinct_card)
  have "cut_off p \<le> sum_list (map cut_off previews)" using assms(1) by (rule cut_off_le)
  moreover have "length (ip_missing_meter_ids r) \<le> card ?U"
  proof -
    have "set (ip_missing_meter_ids r) \<subseteq> ?U" using assms(1,2) by (force simp: listed_ids_def)
    then show ?thesis using assms(3) by (metis List.finite_set card_mono distinct_card s)
  qed
  ultimately have "su_missing_metering_points (ip_summary r) \<le> int (length ids) + n"
    using assms(2) len n by (simp add: cut_off_def)
  then show ?thesis using f d s n len by (simp add: aggregateMissingMeters_def)
qed

definition sample_preview :: "string list \<Rightarrow> int \<Rightarrow> FilePreview" where
  "sample_preview ids n =
     \<lparr>fp_fileName = ''a.csv'', fp_preview = Some
       \<lparr>ip_rows_total = 0, ip_preview_rows = [], ip_summary =
          \<lparr>su_existing_metering_points = 0, su_missing_metering_points = n, su_rows_previewed = 0,
           su_rows_skipped_existing = 0, su_readings_existing = 0\<rparr>,
        ip_missing_meter_ids = ids, ip_errors = [], ip_timestamp_timezone = UTC, ip_rows_skipped_dst_gap = 0\<rparr>, fp_error = None\<rparr>"

theorem missing_meters_counted_witness:
  "5 \<le> fst (aggregateMissingMeters [sample_preview [''a'', ''b''] 5, sample_preview [''b'', ''c''] 2])"
  using missing_meters_counted [of "sample_preview [''a'', ''b''] 5"
      "[sample_preview [''a'', ''b''] 5, sample_preview [''b'', ''c''] 2]" "the (fp_preview (sample_preview [''a'', ''b''] 5))"]
  by (simp add: sample_preview_def)

section \<open>Preview stamps\<close>

text \<open>Two number fields mean the same: the same number, or the same text that is not one.\<close>

definition same_number :: "string \<Rightarrow> string \<Rightarrow> bool" where
  "same_number x y \<longleftrightarrow> parsePositiveInt x = parsePositiveInt y \<and> (parsePositiveInt x = None \<longrightarrow> x = y)"

lemma not_digits: "\<not> is_digit (CHR ''-'')" "\<not> is_digit (CHR ''i'')"
  by code_simp+

lemma nat_str_not [simp]:
  assumes "\<not> is_digit c"
  shows "nat_str k \<noteq> c # s" "c # s \<noteq> nat_str k"
proof -
  show "nat_str k \<noteq> c # s"
  proof
    assume "nat_str k = c # s"
    then have "c \<in> set (nat_str k)" by simp
    then show False using nat_str_digits assms by blast
  qed
  then show "c # s \<noteq> nat_str k" by metis
qed

lemma int_str_not_i [simp]: "int_str n \<noteq> CHR ''i'' # s" "CHR ''i'' # s \<noteq> int_str n"
  by (simp_all add: int_str_def not_digits)

lemma int_str_inject [simp]: "int_str m = int_str n \<longleftrightarrow> m = n"
  by (auto simp: int_str_def not_digits)

lemma normalizePositiveInt_eq: "normalizePositiveInt x = normalizePositiveInt y \<longleftrightarrow> same_number x y"
  by (auto simp: normalizePositiveInt_def same_number_def split: option.splits)

text \<open>
  a preview stays valid exactly as long as the import would run the same way: the stamps compare
  equal if and only if they agree on the files and on every setting, where two spellings of one number
  and the two spellings of a tab are the same, and a number that cannot be read only equals itself.
\<close>

theorem stamps_equal_iff:
  "previewStampsEqual (Some a) (Some b) \<longleftrightarrow>
     same_number (ps_intervalMinutes a) (ps_intervalMinutes b) \<and> same_number (ps_valuesCount a) (ps_valuesCount b)
     \<and> normalizeDelimiter (ps_delimiter a) = normalizeDelimiter (ps_delimiter b)
     \<and> a\<lparr>ps_intervalMinutes := [], ps_valuesCount := [], ps_delimiter := []\<rparr>
       = b\<lparr>ps_intervalMinutes := [], ps_valuesCount := [], ps_delimiter := []\<rparr>"
  unfolding normalizePositiveInt_eq [symmetric]
  by (cases a; cases b) (auto simp: previewStampsEqual_def normalize_stamp_def)

section \<open>Batches\<close>

definition state_after :: "('s \<Rightarrow> File \<Rightarrow> 's \<times> ('e + 'v)) \<Rightarrow> 's \<Rightarrow> File list \<Rightarrow> 's" where
  "state_after run s fs = foldl (\<lambda>s f. fst (run s f)) s fs"

lemma runPerFile_state: "fst (runPerFile run s fs) = state_after run s fs"
  by (induction fs arbitrary: s) (simp_all add: state_after_def case_prod_beta Let_def)

lemma runPerFile_nth:
  "i < length fs \<Longrightarrow> snd (runPerFile run s fs) ! i =
     (case snd (run (state_after run s (take i fs)) (fs ! i)) of
        Inr v \<Rightarrow> \<lparr>bo_file = fs ! i, bo_value = Some v, bo_error = None\<rparr>
      | Inl e \<Rightarrow> \<lparr>bo_file = fs ! i, bo_value = None, bo_error = Some e\<rparr>)"
proof (induction fs arbitrary: s i)
  case (Cons f fs)
  show ?case
  proof (cases i)
    case 0
    show ?thesis unfolding 0 nth_Cons_0 by (simp add: state_after_def case_prod_beta Let_def)
  next
    case (Suc j)
    then have "j < length fs" using Cons.prems by simp
    from Cons.IH [OF this] show ?thesis unfolding Suc nth_Cons_Suc by (simp add: state_after_def case_prod_beta Let_def)
  qed
qed simp

text \<open>
  A batch reports every file, in order, and a failing file stops nothing: the request of each file
  is made whatever became of the others, on the state its predecessors left, and its outcome holds
  either the value or the error of that request, never both.
\<close>

theorem batch_isolates_failures:
  assumes "i < length files"
  shows "map bo_file (snd (runPerFile run s files)) = files
    \<and> (\<forall>v. bo_value (snd (runPerFile run s files) ! i) = Some v \<longleftrightarrow>
         snd (run (state_after run s (take i files)) (files ! i)) = Inr v)
    \<and> (\<forall>e. bo_error (snd (runPerFile run s files) ! i) = Some e \<longleftrightarrow>
         snd (run (state_after run s (take i files)) (files ! i)) = Inl e)
    \<and> fst (runPerFile run s files) = state_after run s files"
proof -
  have "map bo_file (snd (runPerFile run s files)) = files" for s
    by (induction files arbitrary: s) (simp_all add: case_prod_beta Let_def split: sum.splits)
  then show ?thesis
    using runPerFile_nth [OF assms, of run s] runPerFile_state [of run s files] by (auto split: sum.splits)
qed

theorem batch_isolates_failures_witness:
  "let run = (\<lambda>n f. (n + 1, if f_name f = ''bad'' then Inl ''400'' else Inr n)) :: nat \<Rightarrow> File \<Rightarrow> nat \<times> (string + nat);
       file = (\<lambda>n. \<lparr>f_name = n, f_size = 1, f_lastModified = 0\<rparr>)
   in bo_value (snd (runPerFile run 0 [file ''a'', file ''bad'', file ''c'']) ! 2) = Some 2"
  using batch_isolates_failures [of 2 "[\<lparr>f_name = ''a'', f_size = 1, f_lastModified = 0\<rparr>,
      \<lparr>f_name = ''bad'', f_size = 1, f_lastModified = 0\<rparr>, \<lparr>f_name = ''c'', f_size = 1, f_lastModified = 0\<rparr>]"
      "\<lambda>n f. (n + 1, if f_name f = ''bad'' then Inl ''400'' else Inr n)" "0 :: nat"]
  by (simp add: Let_def state_after_def)

end
