(* ===== verification/Access.thy ===== *)
theory Access
  imports JS_Number Billing_Period
begin

text \<open>
  Who may see and change what: \<open>frontend/src/lib/membership.ts\<close>, \<open>communityAccess.ts\<close>,
  \<open>managedZev.tsx\<close> (the provider that tracks the selected community, as a state machine),
  \<open>features/accounts/accountList.ts\<close>, \<open>features/account/credentials.ts\<close> and
  \<open>apiKeyStatus.ts\<close>. Collation, lower-casing and timestamp parsing are arguments.
\<close>

section \<open>Accounts and memberships\<close>

datatype UserRole = admin_role | user_role

datatype ZevAccessRole = access_manager | access_viewer

datatype community_role = issuer | representative

record MembershipParticipant =
  mp_id :: string
  mp_valid_from :: string
  mp_valid_to :: "string option"
  mp_live :: bool

record Membership =
  m_zev :: string
  m_zev_name :: string
  m_zev_disabled :: bool
  m_zev_billing_interval :: BillingInterval
  m_access :: "ZevAccessRole option"
  m_roles :: "community_role list option"
  m_participants :: "MembershipParticipant list"

record User =
  u_id :: int
  u_username :: string
  u_email :: string
  u_first_name :: string
  u_last_name :: string
  u_role :: UserRole
  u_preferred_zev :: "string option"
  u_memberships :: "Membership list option"

datatype zev_type = zt_zev | zt_vzev

datatype invoice_language = il_de | il_fr | il_it | il_en

datatype vat_mode = vat_not_registered | vat_registered | vat_inclusive

datatype invoice_rounding = rounding_none | five_rappen

record Zev =
  z_id :: string
  z_updated_at :: string
  z_name :: string
  z_start_date :: string
  z_issuer :: "(string \<times> string) option"
  z_zev_type :: zev_type
  z_postal_code :: "string option"
  z_grid_operator :: string
  z_grid_operator_elcom_id :: "int option"
  z_tariff_source_url :: "string option"
  z_grid_connection_point :: "string option"
  z_billing_interval :: string
  z_invoice_prefix :: "string option"
  z_credit_note_prefix :: "string option"
  z_invoice_language :: "invoice_language option"
  z_payment_term_days :: "jsnum option"
  z_bank_iban :: "string option"
  z_bank_name :: "string option"
  z_vat_mode :: "vat_mode option"
  z_vat_number :: "string option"
  z_invoice_rounding :: "invoice_rounding option"
  z_itemize_tariff_bands :: "bool option"
  z_participant_invoice_access :: "bool option"
  z_notes :: "string option"
  z_email_subject_template :: "string option"
  z_email_body_template :: "string option"
  z_local_tariff_notes :: "string option"
  z_additional_contract_notes :: "string option"
  z_disabled_at :: "string option"
  z_disabled_by :: "int option"
  z_disabled_reason :: "string option"

datatype CommunityRelation = rel_admin | rel_manager | rel_viewer | rel_participant | rel_former

definition relationOf :: "Membership \<Rightarrow> CommunityRelation" where
  "relationOf membership =
     (case m_access membership of
        Some access_manager \<Rightarrow> rel_manager
      | Some access_viewer \<Rightarrow> rel_viewer
      | None \<Rightarrow> if list_ex mp_live (m_participants membership) then rel_participant else rel_former)"

definition ownParticipantIds :: "User option \<Rightarrow> string list" where
  "ownParticipantIds user =
     uniq (concat (map (\<lambda>m. map mp_id (m_participants m)) (nullish (Option.bind user u_memberships) [])))"

definition soleCommunityName :: "User option \<Rightarrow> string option" where
  "soleCommunityName user =
     (let memberships = nullish (Option.bind user u_memberships) []
      in if length memberships = 1 then Some (m_zev_name (hd memberships)) else None)"

definition selectedCommunityName :: "Zev option \<Rightarrow> (string \<times> string) list option \<Rightarrow> string option \<Rightarrow> string option" where
  "selectedCommunityName selectedZev entries selectedZevId =
     (case selectedZev of
        Some z \<Rightarrow> Some (z_name z)
      | None \<Rightarrow> map_option snd (Option.bind entries (find (\<lambda>e. Some (fst e) = selectedZevId))))"

section \<open>Shell role and access\<close>

datatype ShellRole = shell CommunityRelation | shell_none

definition shellRoleFor :: "User option \<Rightarrow> CommunityRelation option \<Rightarrow> ShellRole" where
  "shellRoleFor user relation =
     (case user of
        None \<Rightarrow> shell_none
      | Some u \<Rightarrow> if u_role u = admin_role then shell rel_admin
                  else case relation of None \<Rightarrow> shell_none | Some r \<Rightarrow> shell r)"

record CommunityAccess =
  shellRole :: ShellRole
  isZevScope :: bool
  canManage :: bool
  canWriteSelectedCommunity :: bool
  isParticipantScope :: bool
  isAdmin :: bool

definition accessFor :: "ShellRole \<Rightarrow> CommunityAccess" where
  "accessFor role =
     (let manage = (role = shell rel_admin \<or> role = shell rel_manager)
      in \<lparr>shellRole = role,
          isZevScope = (role = shell rel_admin \<or> role = shell rel_manager \<or> role = shell rel_viewer),
          canManage = manage, canWriteSelectedCommunity = manage,
          isParticipantScope = (role = shell rel_participant \<or> role = shell rel_former),
          isAdmin = (role = shell rel_admin)\<rparr>)"

definition canWriteInSelectedCommunity :: "CommunityAccess \<Rightarrow> Zev option \<Rightarrow> bool" where
  "canWriteInSelectedCommunity access selectedZev =
     (canManage access \<and> (isAdmin access \<or>
        (case selectedZev of None \<Rightarrow> False | Some z \<Rightarrow> \<not> truthy (z_disabled_at z))))"

definition useCommunityAccess :: "User option \<Rightarrow> CommunityRelation option \<Rightarrow> Zev option \<Rightarrow> CommunityAccess" where
  "useCommunityAccess user relation selectedZev =
     (let base = accessFor (shellRoleFor user relation)
      in base\<lparr>canWriteSelectedCommunity := canWriteInSelectedCommunity base selectedZev\<rparr>)"

definition relationToZev :: "User option \<Rightarrow> string option \<Rightarrow> CommunityRelation option" where
  "relationToZev user zevId =
     (case user of
        None \<Rightarrow> None
      | Some u \<Rightarrow>
          if u_role u = admin_role then Some rel_admin
          else map_option relationOf
            (if truthy zevId then Option.bind (u_memberships u) (find (\<lambda>entry. Some (m_zev entry) = zevId)) else None))"

definition hasCommunityWideAccess :: "User option \<Rightarrow> bool" where
  "hasCommunityWideAccess user =
     (case user of
        None \<Rightarrow> False
      | Some u \<Rightarrow> u_role u = admin_role \<or>
          list_ex (\<lambda>m. m_access m \<noteq> None \<or> 0 < length (nullish (m_roles m) [])) (nullish (u_memberships u) []))"

definition shellRoleForZev :: "User option \<Rightarrow> string option \<Rightarrow> ShellRole" where
  "shellRoleForZev user zevId = shellRoleFor user (relationToZev user zevId)"

definition scopeNoteKey :: "ShellRole \<Rightarrow> string option" where
  "scopeNoteKey role = (if role = shell rel_viewer then Some ''nav.relation.viewer'' else None)"

section \<open>The selected community\<close>

record CommunityEntry =
  e_id :: string
  e_name :: string
  e_relation :: CommunityRelation

record ManagedSelection =
  sel_isSelectable :: bool
  selection :: string
  allowedIds :: "string list"

definition resolveCommunitySelection :: "bool \<Rightarrow> string list \<Rightarrow> string \<Rightarrow> string option \<Rightarrow> ManagedSelection" where
  "resolveCommunitySelection is_admin entryIds currentId preferredZevId =
     (let preferredId = nullish preferredZevId []
      in \<lparr>sel_isSelectable = (is_admin \<or> 1 < length entryIds),
          selection = (if 0 < length entryIds
            then (if currentId \<in> set entryIds then currentId
                  else if preferredId \<in> set entryIds then preferredId else hd entryIds)
            else []),
          allowedIds = entryIds\<rparr>)"

definition communityEntries :: "User option \<Rightarrow> Zev list \<Rightarrow> CommunityEntry list" where
  "communityEntries user zevs =
     (case user of
        None \<Rightarrow> []
      | Some u \<Rightarrow>
          if u_role u = admin_role
          then map (\<lambda>zev. \<lparr>e_id = z_id zev, e_name = z_name zev, e_relation = rel_admin\<rparr>) zevs
          else map (\<lambda>m. \<lparr>e_id = m_zev m, e_name = m_zev_name m, e_relation = relationOf m\<rparr>)
                 (nullish (u_memberships u) []))"

text \<open>
  The provider: the signed-in account and the result of the ZEV query (\<^const>\<open>None\<close> before it
  arrives) come from outside, the explicit pick and the account it belongs to are its own state.
\<close>

record provider =
  prov_user :: "User option"
  prov_zevs :: "Zev list option"
  explicitPick :: "string option"
  lastAccountId :: "int option"

definition provider_init :: "User option \<Rightarrow> provider" where
  "provider_init u = \<lparr>prov_user = u, prov_zevs = None, explicitPick = None, lastAccountId = map_option u_id u\<rparr>"

definition prov_entries :: "provider \<Rightarrow> CommunityEntry list" where
  "prov_entries st =
     (let memberships = communityEntries (prov_user st) (nullish (prov_zevs st) [])
      in case prov_zevs st of
           None \<Rightarrow> memberships
         | Some zevs \<Rightarrow> filter (\<lambda>entry. e_relation entry = rel_participant \<or> e_relation entry = rel_former
             \<or> e_id entry \<in> set (map z_id zevs)) memberships)"

definition prov_is_admin :: "provider \<Rightarrow> bool" where
  "prov_is_admin st \<longleftrightarrow> map_option u_role (prov_user st) = Some admin_role"

definition prov_managedZevs :: "provider \<Rightarrow> Zev list" where
  "prov_managedZevs st =
     (let zevs = nullish (prov_zevs st) []
      in if prov_is_admin st then zevs
         else let managedIds = map e_id (filter (\<lambda>e. e_relation e = rel_manager \<or> e_relation e = rel_viewer) (prov_entries st))
              in filter (\<lambda>zev. z_id zev \<in> set managedIds) zevs)"

definition prov_resolution :: "provider \<Rightarrow> ManagedSelection" where
  "prov_resolution st =
     resolveCommunitySelection (prov_is_admin st) (map e_id (prov_entries st)) (nullish (explicitPick st) [])
       (Some (nullish (Option.bind (prov_user st) u_preferred_zev) []))"

definition prov_selectedZevId :: "provider \<Rightarrow> string" where
  "prov_selectedZevId st = selection (prov_resolution st)"

definition prov_selectedZev :: "provider \<Rightarrow> Zev option" where
  "prov_selectedZev st = find (\<lambda>zev. z_id zev = prov_selectedZevId st) (prov_managedZevs st)"

definition prov_relation :: "provider \<Rightarrow> CommunityRelation option" where
  "prov_relation st = map_option e_relation (find (\<lambda>entry. e_id entry = prov_selectedZevId st) (prov_entries st))"

text \<open>A render with the current account and query result; the pick is dropped when the account changed. React
  runs a component again at once when it sets its state while rendering, so the model has one step for both.\<close>

definition prov_render :: "User option \<Rightarrow> Zev list option \<Rightarrow> provider \<Rightarrow> provider" where
  "prov_render u zevs st =
     (let accountId = map_option u_id u
      in if lastAccountId st \<noteq> accountId
         then \<lparr>prov_user = u, prov_zevs = zevs, explicitPick = None, lastAccountId = accountId\<rparr>
         else st\<lparr>prov_user := u, prov_zevs := zevs\<rparr>)"

definition setSelectedZevId :: "string \<Rightarrow> provider \<Rightarrow> provider" where
  "setSelectedZevId zevId st =
     (if zevId \<notin> set (allowedIds (prov_resolution st)) then st else st\<lparr>explicitPick := Some zevId\<rparr>)"

definition prov_access :: "provider \<Rightarrow> CommunityAccess" where
  "prov_access st = useCommunityAccess (prov_user st) (prov_relation st) (prov_selectedZev st)"

section \<open>The account list\<close>

datatype mfa_status = compliant | grace | mfa_overdue

record AdminUser = User +
  au_is_active :: bool
  au_memberships :: "Membership list"
  au_mfa_methods :: "string list"
  au_mfa_compliance :: "mfa_status option"
  au_last_login :: "string option"

record AccountFilters =
  flt_search :: string
  flt_role :: "UserRole option"
  flt_zevId :: "string option"
  flt_needsTwoFactor :: bool

text \<open>The filter value \<open>'all'\<close> is \<^const>\<open>None\<close> (or \<^const>\<open>False\<close>).\<close>

definition DEFAULT_ACCOUNT_FILTERS :: AccountFilters where
  "DEFAULT_ACCOUNT_FILTERS = \<lparr>flt_search = [], flt_role = None, flt_zevId = None, flt_needsTwoFactor = False\<rparr>"

definition needsTwoFactor :: "AdminUser \<Rightarrow> bool" where
  "needsTwoFactor account \<longleftrightarrow> au_mfa_compliance account = Some grace \<or> au_mfa_compliance account = Some mfa_overdue"

definition hasActiveFilters :: "AccountFilters \<Rightarrow> bool" where
  "hasActiveFilters filters \<longleftrightarrow>
     trim (flt_search filters) \<noteq> [] \<or> flt_role filters \<noteq> None \<or> flt_zevId filters \<noteq> None \<or> flt_needsTwoFactor filters"

definition accountDisplayName :: "'a User_scheme \<Rightarrow> string" where
  "accountDisplayName account =
     or_str (Some (trim (u_first_name account @ '' '' @ u_last_name account))) (u_username account)"

text \<open>\<open>s.includes(needle)\<close>.\<close>

definition includes_str :: "string \<Rightarrow> string \<Rightarrow> bool" where
  "includes_str needle s = list_ex (\<lambda>k. starts_with needle (drop k s)) [0..<Suc (length s)]"

definition filterAccounts ::
    "(string \<Rightarrow> string) \<Rightarrow> (string \<Rightarrow> string \<Rightarrow> int) \<Rightarrow> AdminUser list \<Rightarrow> AccountFilters \<Rightarrow> AdminUser list" where
  "filterAccounts lower localeCompare accounts filters =
     (let needle = lower (trim (flt_search filters))
      in sort_by (\<lambda>l r. localeCompare (accountDisplayName l) (accountDisplayName r) \<le> 0)
           (filter (\<lambda>a. needle = [] \<or>
               list_ex (\<lambda>v. includes_str needle (lower v)) [accountDisplayName a, u_username a, u_email a])
             (filter (\<lambda>a. \<not> flt_needsTwoFactor filters \<or> needsTwoFactor a)
               (filter (\<lambda>a. flt_zevId filters = None \<or> list_ex (\<lambda>m. Some (m_zev m) = flt_zevId filters) (au_memberships a))
                 (filter (\<lambda>a. flt_role filters = None \<or> Some (u_role a) = flt_role filters) accounts)))))"

definition linkableAccounts :: "(string \<Rightarrow> string \<Rightarrow> int) \<Rightarrow> AdminUser list \<Rightarrow> AdminUser list" where
  "linkableAccounts localeCompare accounts =
     sort_by (\<lambda>l r. localeCompare (u_username l) (u_username r) \<le> 0)
       (filter (\<lambda>a. u_role a \<noteq> admin_role) accounts)"

definition canDeleteAccount :: "AdminUser \<Rightarrow> bool" where
  "canDeleteAccount account \<longleftrightarrow> length (au_memberships account) = 0"

definition canImpersonateAccount :: "AdminUser \<Rightarrow> bool" where
  "canImpersonateAccount account \<longleftrightarrow> u_role account \<noteq> admin_role \<and> au_is_active account"

record account_stats =
  st_total :: nat
  st_withTwoFactor :: nat
  st_guests :: nat
  st_needsTwoFactor :: nat
  st_neverSignedIn :: nat

definition accountStats :: "AdminUser list \<Rightarrow> account_stats" where
  "accountStats accounts =
     \<lparr>st_total = length accounts,
      st_withTwoFactor = length (filter (\<lambda>a. 0 < length (au_mfa_methods a)) accounts),
      st_guests = length (filter (\<lambda>a. u_role a \<noteq> admin_role \<and> length (au_memberships a) = 0) accounts),
      st_needsTwoFactor = length (filter needsTwoFactor accounts),
      st_neverSignedIn = length (filter (\<lambda>a. au_last_login a = None) accounts)\<rparr>"

section \<open>Credentials\<close>

datatype CredentialKind = ck_api_key | ck_analytics | ck_energy_push

record AccessCredential =
  cr_kind :: CredentialKind
  cr_id :: string

definition credentialCounts :: "AccessCredential list \<Rightarrow> CredentialKind option \<Rightarrow> nat" where
  "credentialCounts credentials fltr =
     (case fltr of None \<Rightarrow> length credentials | Some k \<Rightarrow> length (filter (\<lambda>c. cr_kind c = k) credentials))"

definition filterCredentials :: "AccessCredential list \<Rightarrow> CredentialKind option \<Rightarrow> AccessCredential list" where
  "filterCredentials credentials fltr =
     (case fltr of None \<Rightarrow> credentials | Some k \<Rightarrow> filter (\<lambda>c. cr_kind c = k) credentials)"

record AnalyticsScopeOption =
  so_value :: string
  so_zev :: string
  so_zevName :: string
  so_participant :: "string option"

definition zev_scope :: "string \<Rightarrow> string \<Rightarrow> AnalyticsScopeOption" where
  "zev_scope zev name = \<lparr>so_value = ''zev:'' @ zev, so_zev = zev, so_zevName = name, so_participant = None\<rparr>"

definition membership_scopes :: "Membership \<Rightarrow> AnalyticsScopeOption list" where
  "membership_scopes m =
     (if m_zev_disabled m then []
      else (if m_access m \<noteq> None \<or> 0 < length (nullish (m_roles m) []) then [zev_scope (m_zev m) (m_zev_name m)] else [])
        @ map (\<lambda>p. \<lparr>so_value = ''participant:'' @ m_zev m @ '':'' @ mp_id p, so_zev = m_zev m,
              so_zevName = m_zev_name m, so_participant = Some (mp_id p)\<rparr>) (filter mp_live (m_participants m)))"

definition analyticsScopeOptions ::
    "(string \<Rightarrow> string \<Rightarrow> int) \<Rightarrow> Membership list option \<Rightarrow> Zev list option \<Rightarrow> AnalyticsScopeOption list" where
  "analyticsScopeOptions localeCompare memberships allZevs =
     (let options = concat (map membership_scopes (nullish memberships []));
          offered = map so_value options;
          rest = sort_by (\<lambda>a b. localeCompare (z_name a) (z_name b) \<le> 0)
            (filter (\<lambda>zev. \<not> truthy (z_disabled_at zev) \<and> ''zev:'' @ z_id zev \<notin> set offered) (nullish allZevs []))
      in options @ map (\<lambda>zev. zev_scope (z_id zev) (z_name zev)) rest)"

datatype ApiKeyStatus = key_active | key_expiring | key_expired

definition EXPIRY_WARNING_DAYS :: jsnum where "EXPIRY_WARNING_DAYS = Fin 14"

text \<open>\<open>Math.ceil\<close>.\<close>

fun js_ceil :: "jsnum \<Rightarrow> jsnum" where
  "js_ceil (Fin a) = Fin (of_int \<lceil>a\<rceil>)"
| "js_ceil x = x"

definition daysUntilExpiry :: "(string \<Rightarrow> int option) \<Rightarrow> string option \<Rightarrow> int \<Rightarrow> jsnum option" where
  "daysUntilExpiry dateParse expires_at now =
     (if \<not> truthy expires_at then None
      else Some (case dateParse (nullish expires_at []) of
          None \<Rightarrow> NaN
        | Some expiry \<Rightarrow> js_ceil (js_div (Fin (of_int (expiry - now))) (Fin 86400000))))"

definition apiKeyStatus :: "(string \<Rightarrow> int option) \<Rightarrow> string option \<Rightarrow> int \<Rightarrow> ApiKeyStatus" where
  "apiKeyStatus dateParse expires_at now =
     (case daysUntilExpiry dateParse expires_at now of
        None \<Rightarrow> key_active
      | Some days \<Rightarrow> if js_le days (Fin 0) then key_expired
          else if js_le days EXPIRY_WARNING_DAYS then key_expiring else key_active)"

section \<open>Selection never leaves the account's own communities\<close>

text \<open>Reachable provider states; the second argument records who made the explicit pick.\<close>

inductive prov_reach :: "provider \<Rightarrow> int option option \<Rightarrow> bool" where
  prov_start: "prov_reach (provider_init u) None"
| prov_rerender: "prov_reach st who \<Longrightarrow>
    prov_reach (prov_render u zevs st) (if lastAccountId st = map_option u_id u then who else None)"
| prov_select: "prov_reach st who \<Longrightarrow>
    prov_reach (setSelectedZevId z st)
      (if z \<in> set (allowedIds (prov_resolution st)) then Some (lastAccountId st) else who)"

lemma prov_reach_inv:
  "prov_reach st who \<Longrightarrow> lastAccountId st = map_option u_id (prov_user st)
     \<and> (explicitPick st \<noteq> None \<longleftrightarrow> who \<noteq> None) \<and> (who \<noteq> None \<longrightarrow> who = Some (lastAccountId st))"
  by (induction rule: prov_reach.induct)
    (auto simp: provider_init_def prov_render_def setSelectedZevId_def Let_def)

lemma resolve_in_entries:
  "selection (resolveCommunitySelection a ids cur pref) \<in> set ids \<or> ids = [] \<and> selection (resolveCommunitySelection a ids cur pref) = []"
  by (auto simp: resolveCommunitySelection_def Let_def)

text \<open>
  C23: the selected community is always one the signed-in account can switch to; when the account has
  none (nobody is signed in, or it has no entry), none is selected. And an explicit pick is never carried over from
  another account: in every reachable state it was made by the account that is signed in now.
\<close>

theorem selection_belongs_to_account:
  assumes "prov_reach st who"
  shows "(prov_selectedZevId st \<in> e_id ` set (prov_entries st) \<or> prov_entries st = [] \<and> prov_selectedZevId st = [])
    \<and> (explicitPick st \<noteq> None \<longrightarrow> who = Some (map_option u_id (prov_user st)))"
  using prov_reach_inv [OF assms]
    resolve_in_entries [of "prov_is_admin st" "map e_id (prov_entries st)" "nullish (explicitPick st) []"
      "Some (nullish (Option.bind (prov_user st) u_preferred_zev) [])"]
  by (auto simp: prov_selectedZevId_def prov_resolution_def)

text \<open>A manager of two communities picks the second; then a viewer of a third signs in on the same page.\<close>

definition grant_of :: "string \<Rightarrow> ZevAccessRole \<Rightarrow> Membership" where
  "grant_of zev access = \<lparr>m_zev = zev, m_zev_name = zev, m_zev_disabled = False, m_zev_billing_interval = monthly, m_access = Some access,
     m_roles = None, m_participants = []\<rparr>"

definition member_of :: "int \<Rightarrow> Membership list \<Rightarrow> User" where
  "member_of i ms = \<lparr>u_id = i, u_username = ''u'', u_email = ''u@example.ch'', u_first_name = ''U'', u_last_name = ''V'',
     u_role = user_role, u_preferred_zev = None, u_memberships = Some ms\<rparr>"

definition manager_of_two :: provider where
  "manager_of_two = provider_init (Some (member_of 1 [grant_of ''a'' access_manager, grant_of ''b'' access_manager]))"

definition second_picked :: provider where
  "second_picked = setSelectedZevId ''b'' manager_of_two"

definition next_account :: provider where
  "next_account = prov_render (Some (member_of 2 [grant_of ''c'' access_viewer])) None second_picked"

theorem selection_belongs_to_account_witness:
  "prov_reach second_picked (Some (Some 1)) \<and> explicitPick second_picked = Some ''b'' \<and> map_option u_id (prov_user second_picked) = Some 1
   \<and> prov_selectedZevId second_picked = ''b'' \<and> ''b'' \<in> e_id ` set (prov_entries second_picked)
   \<and> prov_selectedZevId next_account \<in> e_id ` set (prov_entries next_account) \<and> prov_selectedZevId next_account = ''c''"
proof -
  have pick: "''b'' \<in> set (allowedIds (prov_resolution manager_of_two))" "lastAccountId manager_of_two = Some 1"
    "explicitPick second_picked = Some ''b''" "prov_selectedZevId second_picked = ''b''"
    "prov_entries second_picked \<noteq> []" by code_simp+
  have render: "lastAccountId second_picked = Some 1" "prov_entries next_account \<noteq> []" "prov_selectedZevId next_account = ''c''" by code_simp+
  have "prov_reach manager_of_two None" unfolding manager_of_two_def by (rule prov_start)
  from prov_select [OF this, of "''b''"] have first: "prov_reach second_picked (Some (Some 1))"
    using pick by (simp add: second_picked_def)
  from prov_rerender [OF this, of "Some (member_of 2 [grant_of ''c'' access_viewer])" None]
  have "prov_reach next_account None" using render(1) by (simp add: next_account_def member_of_def)
  from selection_belongs_to_account [OF first] selection_belongs_to_account [OF this] first pick render show ?thesis by simp
qed

text \<open>
  C24: a page offers writing only to those who may write. In every state of the provider the selected
  community is writable exactly when the account is an administrator, or it holds a manager grant in
  that very community, its record has been loaded and the community is not disabled.
\<close>

theorem write_access_exact:
  "canWriteSelectedCommunity (prov_access st) \<longleftrightarrow>
     (\<exists>u. prov_user st = Some u \<and>
       (u_role u = admin_role \<or>
        (\<exists>e. find (\<lambda>e. e_id e = prov_selectedZevId st) (prov_entries st) = Some e \<and> e_relation e = rel_manager
          \<and> (\<exists>m \<in> set (nullish (u_memberships u) []). m_zev m = prov_selectedZevId st \<and> m_access m = Some access_manager)
          \<and> (\<exists>z zevs. prov_zevs st = Some zevs \<and> find (\<lambda>z. z_id z = prov_selectedZevId st) (prov_managedZevs st) = Some z
               \<and> z \<in> set zevs \<and> \<not> truthy (z_disabled_at z)))))"
proof (cases "prov_user st")
  case None
  then show ?thesis
    by (simp add: prov_access_def useCommunityAccess_def shellRoleFor_def accessFor_def canWriteInSelectedCommunity_def Let_def)
next
  case (Some u)
  show ?thesis
  proof (cases "u_role u = admin_role")
    case True
    with Some show ?thesis
      by (simp add: prov_access_def useCommunityAccess_def shellRoleFor_def accessFor_def canWriteInSelectedCommunity_def Let_def)
  next
    case False
    have manager: "\<exists>m \<in> set (nullish (u_memberships u) []). m_zev m = prov_selectedZevId st \<and> m_access m = Some access_manager"
      if "find (\<lambda>e. e_id e = prov_selectedZevId st) (prov_entries st) = Some e" "e_relation e = rel_manager" for e
    proof -
      have "e \<in> set (prov_entries st)" "e_id e = prov_selectedZevId st" using find_in_set [OF that(1)] by simp_all
      then obtain m where "m \<in> set (nullish (u_memberships u) [])" "e_id e = m_zev m" "e_relation e = relationOf m"
        using Some False by (auto simp: prov_entries_def communityEntries_def Let_def split: option.splits)
      with that(2) \<open>e_id e = prov_selectedZevId st\<close> show ?thesis
        by (auto simp: relationOf_def split: option.splits ZevAccessRole.splits if_splits)
    qed
    have loaded: "\<exists>zevs. prov_zevs st = Some zevs \<and> z \<in> set zevs" if "prov_selectedZev st = Some z" for z
      using find_in_set [OF that [unfolded prov_selectedZev_def]] Some False
      by (cases "prov_zevs st") (auto simp: prov_managedZevs_def prov_is_admin_def Let_def)
    have not_admin: "prov_relation st \<noteq> Some rel_admin"
    proof
      assume "prov_relation st = Some rel_admin"
      then obtain e where "find (\<lambda>entry. e_id entry = prov_selectedZevId st) (prov_entries st) = Some e" "e_relation e = rel_admin"
        by (auto simp: prov_relation_def)
      then have "e \<in> set (prov_entries st)" "e_relation e = rel_admin" using find_in_set by force+
      then show False
        using Some False by (auto simp: prov_entries_def communityEntries_def relationOf_def Let_def
            split: option.splits ZevAccessRole.splits if_splits)
    qed
    have "canWriteSelectedCommunity (prov_access st) \<longleftrightarrow> prov_relation st = Some rel_manager
        \<and> (\<exists>z. prov_selectedZev st = Some z \<and> \<not> truthy (z_disabled_at z))"
      using Some False not_admin by (auto simp: prov_access_def useCommunityAccess_def shellRoleFor_def accessFor_def
          canWriteInSelectedCommunity_def Let_def split: option.splits)
    then show ?thesis
      using Some False manager loaded by (auto simp: prov_relation_def prov_selectedZev_def)
  qed
qed

end
