(* ===== verification/Zev_Form.thy ===== *)
theory Zev_Form
  imports Access JS_Text
begin

text \<open>
  The settings form of a community: \<open>frontend/src/lib/zevForm.ts\<close> (less \<open>focusZevField\<close>, which only
  moves the browser's focus) and \<open>lib/iban.ts\<close>. \<open>toUpperCase\<close> and today's date are arguments.

  The theorems: the chunked IBAN check is the remainder of the whole number, and the dirty flag and the
  tabs marked as changed agree.
\<close>

section \<open>IBAN\<close>

definition normalizeIban :: "(string \<Rightarrow> string) \<Rightarrow> string \<Rightarrow> string" where
  "normalizeIban upper s = upper (filter (\<lambda>c. \<not> is_ws c) s)"

definition is_upper :: "char \<Rightarrow> bool" where
  "is_upper c \<longleftrightarrow> CHR ''A'' \<le> c \<and> c \<le> CHR ''Z''"

text \<open>\<open>/^[A-Z]{2}[0-9]{2}[A-Z0-9]{11,30}$/\<close>.\<close>

definition iban_shape :: "string \<Rightarrow> bool" where
  "iban_shape s \<longleftrightarrow> 15 \<le> length s \<and> length s \<le> 34 \<and> list_all is_upper (take 2 s)
     \<and> list_all is_digit (take 2 (drop 2 s)) \<and> list_all (\<lambda>c. is_upper c \<or> is_digit c) (drop 4 s)"

definition iban_digits :: "char \<Rightarrow> string" where
  "iban_digits c = (if is_upper c then nat_str (of_char c - 55) else [c])"

definition iban_numeric :: "string \<Rightarrow> string" where
  "iban_numeric iban = concat (map iban_digits (drop 4 iban @ take 4 iban))"

text \<open>\<open>s.match(/.{1,7}/g) ?? []\<close>.\<close>

function chunks7 :: "string \<Rightarrow> string list" where
  "chunks7 s = (if s = [] then [] else take 7 s # chunks7 (drop 7 s))"
  by auto
termination by (relation "measure length") auto

declare chunks7.simps [simp del]

text \<open>
  One turn of the loop: \<open>Number(`${remainder}${chunk}`) % 97\<close>, on whole numbers; the remainder has at
  most two digits and the chunk seven.
\<close>

definition chunk_step :: "nat \<Rightarrow> string \<Rightarrow> nat" where
  "chunk_step remainder chunk =
     (case num_int (js_Number (nat_str remainder @ chunk)) of None \<Rightarrow> 0 | Some n \<Rightarrow> nat (n mod 97))"

definition isValidIban :: "(string \<Rightarrow> string) \<Rightarrow> string \<Rightarrow> bool" where
  "isValidIban upper s =
     (let iban = normalizeIban upper s
      in if iban = [] \<or> \<not> iban_shape iban then False
         else foldl chunk_step 0 (chunks7 (iban_numeric iban)) = 1)"

section \<open>The form\<close>

datatype ZevSettingsTab = tab_general | tab_people | tab_billing | tab_documents | tab_energy | tab_audit | tab_export

text \<open>A draft has all its keys: both functions that make one set every field.\<close>

record ZevInput =
  zi_name :: string
  zi_start_date :: string
  zi_zev_type :: zev_type
  zi_postal_code :: "string option"
  zi_grid_operator :: "string option"
  zi_grid_operator_elcom_id :: "int option"
  zi_tariff_source_url :: "string option"
  zi_grid_connection_point :: "string option"
  zi_billing_interval :: string
  zi_invoice_prefix :: "string option"
  zi_credit_note_prefix :: "string option"
  zi_invoice_language :: "invoice_language option"
  zi_payment_term_days :: "jsnum option"
  zi_bank_iban :: "string option"
  zi_bank_name :: "string option"
  zi_vat_mode :: "vat_mode option"
  zi_vat_number :: "string option"
  zi_invoice_rounding :: "invoice_rounding option"
  zi_itemize_tariff_bands :: "bool option"
  zi_participant_invoice_access :: "bool option"
  zi_notes :: "string option"
  zi_email_subject_template :: "string option"
  zi_email_body_template :: "string option"
  zi_local_tariff_notes :: "string option"
  zi_additional_contract_notes :: "string option"

definition getDefaultZevForm :: "string \<Rightarrow> ZevInput" where
  "getDefaultZevForm today =
     \<lparr>zi_name = [], zi_start_date = today, zi_zev_type = zt_vzev, zi_postal_code = Some [],
      zi_grid_operator = Some [], zi_grid_operator_elcom_id = None, zi_tariff_source_url = Some [],
      zi_grid_connection_point = Some [], zi_billing_interval = ''monthly'', zi_invoice_prefix = Some [],
      zi_credit_note_prefix = Some ''CN'', zi_invoice_language = Some il_de, zi_payment_term_days = Some (Fin 30),
      zi_bank_iban = Some [], zi_bank_name = Some [], zi_vat_mode = Some vat_not_registered,
      zi_vat_number = Some [], zi_invoice_rounding = Some rounding_none, zi_itemize_tariff_bands = Some False,
      zi_participant_invoice_access = Some False, zi_notes = Some [], zi_email_subject_template = Some [],
      zi_email_body_template = Some [], zi_local_tariff_notes = Some [], zi_additional_contract_notes = Some []\<rparr>"

definition mapZevToForm :: "Zev \<Rightarrow> ZevInput" where
  "mapZevToForm z =
     \<lparr>zi_name = z_name z, zi_start_date = z_start_date z, zi_zev_type = z_zev_type z,
      zi_postal_code = Some (or_str (z_postal_code z) []),
      zi_grid_operator = Some (or_str (Some (z_grid_operator z)) []),
      zi_grid_operator_elcom_id = z_grid_operator_elcom_id z,
      zi_tariff_source_url = Some (or_str (z_tariff_source_url z) []),
      zi_grid_connection_point = Some (or_str (z_grid_connection_point z) []),
      zi_billing_interval = z_billing_interval z,
      zi_invoice_prefix = Some (or_str (z_invoice_prefix z) []),
      zi_credit_note_prefix = Some (or_str (z_credit_note_prefix z) ''CN''),
      zi_invoice_language = Some (nullish (z_invoice_language z) il_de),
      zi_payment_term_days = Some (nullish (z_payment_term_days z) (Fin 30)),
      zi_bank_iban = Some (or_str (z_bank_iban z) []), zi_bank_name = Some (or_str (z_bank_name z) []),
      zi_vat_mode = Some (nullish (z_vat_mode z) vat_not_registered),
      zi_vat_number = Some (or_str (z_vat_number z) []),
      zi_invoice_rounding = Some (nullish (z_invoice_rounding z) rounding_none),
      zi_itemize_tariff_bands = Some (nullish (z_itemize_tariff_bands z) False),
      zi_participant_invoice_access = Some (nullish (z_participant_invoice_access z) False),
      zi_notes = Some (or_str (z_notes z) []),
      zi_email_subject_template = Some (nullish (z_email_subject_template z) []),
      zi_email_body_template = Some (nullish (z_email_body_template z) []),
      zi_local_tariff_notes = Some (nullish (z_local_tariff_notes z) []),
      zi_additional_contract_notes = Some (nullish (z_additional_contract_notes z) [])\<rparr>"

datatype ZevFormField =
    f_name | f_start_date | f_zev_type | f_postal_code | f_grid_operator | f_grid_operator_elcom_id
  | f_tariff_source_url | f_grid_connection_point | f_billing_interval | f_invoice_language
  | f_payment_term_days | f_invoice_prefix | f_credit_note_prefix | f_bank_name | f_bank_iban | f_vat_mode
  | f_vat_number | f_invoice_rounding | f_itemize_tariff_bands | f_participant_invoice_access | f_notes
  | f_email_subject_template | f_email_body_template | f_local_tariff_notes | f_additional_contract_notes

text \<open>\<open>draft[key] !== baseline[key]\<close>; the one number differs from itself when it is \<open>NaN\<close>.\<close>

fun field_changed :: "ZevInput \<Rightarrow> ZevInput \<Rightarrow> ZevFormField \<Rightarrow> bool" where
  "field_changed a b f_name \<longleftrightarrow> zi_name a \<noteq> zi_name b"
| "field_changed a b f_start_date \<longleftrightarrow> zi_start_date a \<noteq> zi_start_date b"
| "field_changed a b f_zev_type \<longleftrightarrow> zi_zev_type a \<noteq> zi_zev_type b"
| "field_changed a b f_postal_code \<longleftrightarrow> zi_postal_code a \<noteq> zi_postal_code b"
| "field_changed a b f_grid_operator \<longleftrightarrow> zi_grid_operator a \<noteq> zi_grid_operator b"
| "field_changed a b f_grid_operator_elcom_id \<longleftrightarrow> zi_grid_operator_elcom_id a \<noteq> zi_grid_operator_elcom_id b"
| "field_changed a b f_tariff_source_url \<longleftrightarrow> zi_tariff_source_url a \<noteq> zi_tariff_source_url b"
| "field_changed a b f_grid_connection_point \<longleftrightarrow> zi_grid_connection_point a \<noteq> zi_grid_connection_point b"
| "field_changed a b f_billing_interval \<longleftrightarrow> zi_billing_interval a \<noteq> zi_billing_interval b"
| "field_changed a b f_invoice_language \<longleftrightarrow> zi_invoice_language a \<noteq> zi_invoice_language b"
| "field_changed a b f_payment_term_days \<longleftrightarrow>
     zi_payment_term_days a \<noteq> zi_payment_term_days b \<or> zi_payment_term_days a = Some NaN"
| "field_changed a b f_invoice_prefix \<longleftrightarrow> zi_invoice_prefix a \<noteq> zi_invoice_prefix b"
| "field_changed a b f_credit_note_prefix \<longleftrightarrow> zi_credit_note_prefix a \<noteq> zi_credit_note_prefix b"
| "field_changed a b f_bank_name \<longleftrightarrow> zi_bank_name a \<noteq> zi_bank_name b"
| "field_changed a b f_bank_iban \<longleftrightarrow> zi_bank_iban a \<noteq> zi_bank_iban b"
| "field_changed a b f_vat_mode \<longleftrightarrow> zi_vat_mode a \<noteq> zi_vat_mode b"
| "field_changed a b f_vat_number \<longleftrightarrow> zi_vat_number a \<noteq> zi_vat_number b"
| "field_changed a b f_invoice_rounding \<longleftrightarrow> zi_invoice_rounding a \<noteq> zi_invoice_rounding b"
| "field_changed a b f_itemize_tariff_bands \<longleftrightarrow> zi_itemize_tariff_bands a \<noteq> zi_itemize_tariff_bands b"
| "field_changed a b f_participant_invoice_access \<longleftrightarrow> zi_participant_invoice_access a \<noteq> zi_participant_invoice_access b"
| "field_changed a b f_notes \<longleftrightarrow> zi_notes a \<noteq> zi_notes b"
| "field_changed a b f_email_subject_template \<longleftrightarrow> zi_email_subject_template a \<noteq> zi_email_subject_template b"
| "field_changed a b f_email_body_template \<longleftrightarrow> zi_email_body_template a \<noteq> zi_email_body_template b"
| "field_changed a b f_local_tariff_notes \<longleftrightarrow> zi_local_tariff_notes a \<noteq> zi_local_tariff_notes b"
| "field_changed a b f_additional_contract_notes \<longleftrightarrow> zi_additional_contract_notes a \<noteq> zi_additional_contract_notes b"

text \<open>\<open>Object.keys(draft)\<close>: the fields in the order of the form.\<close>

definition draft_keys :: "ZevFormField list" where
  "draft_keys =
     [f_name, f_start_date, f_zev_type, f_postal_code, f_grid_operator, f_grid_operator_elcom_id,
      f_tariff_source_url, f_grid_connection_point, f_billing_interval, f_invoice_prefix,
      f_credit_note_prefix, f_invoice_language, f_payment_term_days, f_bank_iban, f_bank_name, f_vat_mode,
      f_vat_number, f_invoice_rounding, f_itemize_tariff_bands, f_participant_invoice_access, f_notes,
      f_email_subject_template, f_email_body_template, f_local_tariff_notes, f_additional_contract_notes]"

definition isZevFormDirty :: "ZevInput \<Rightarrow> ZevInput \<Rightarrow> bool" where
  "isZevFormDirty draft baseline = list_ex (field_changed draft baseline) draft_keys"

text \<open>The table with its keys in order.\<close>

definition ZEV_FIELD_TABS :: "(ZevFormField \<times> ZevSettingsTab) list" where
  "ZEV_FIELD_TABS =
     [(f_name, tab_general), (f_start_date, tab_general), (f_zev_type, tab_general), (f_postal_code, tab_general),
      (f_grid_operator, tab_general), (f_grid_operator_elcom_id, tab_general), (f_tariff_source_url, tab_general),
      (f_grid_connection_point, tab_general), (f_billing_interval, tab_billing), (f_invoice_language, tab_billing),
      (f_payment_term_days, tab_billing), (f_invoice_prefix, tab_billing), (f_credit_note_prefix, tab_billing),
      (f_bank_name, tab_billing), (f_bank_iban, tab_billing), (f_vat_mode, tab_billing),
      (f_vat_number, tab_billing), (f_invoice_rounding, tab_billing), (f_itemize_tariff_bands, tab_billing),
      (f_participant_invoice_access, tab_billing), (f_notes, tab_documents),
      (f_email_subject_template, tab_documents), (f_email_body_template, tab_documents),
      (f_local_tariff_notes, tab_documents), (f_additional_contract_notes, tab_documents)]"

definition dirtyZevTabs :: "ZevInput \<Rightarrow> ZevInput \<Rightarrow> ZevSettingsTab list" where
  "dirtyZevTabs draft baseline =
     (let tabs = uniq (map snd (filter (\<lambda>e. field_changed draft baseline (fst e)) ZEV_FIELD_TABS))
      in filter (\<lambda>tab. tab \<in> set tabs) [tab_general, tab_billing, tab_documents])"

record ZevFormViolation =
  vi_field :: ZevFormField
  vi_messageKey :: string

definition term_ok :: "jsnum option \<Rightarrow> bool" where
  "term_ok days =
     (case days of None \<Rightarrow> False
      | Some x \<Rightarrow> (case num_int x of None \<Rightarrow> False | Some n \<Rightarrow> \<not> (n < 1 \<or> 365 < n)))"

definition validateZevForm :: "(string \<Rightarrow> string) \<Rightarrow> ZevInput \<Rightarrow> ZevFormViolation list" where
  "validateZevForm upper form =
     (if trim (zi_name form) = [] then [\<lparr>vi_field = f_name, vi_messageKey = ''requiredName''\<rparr>] else [])
     @ (if trim (zi_start_date form) = [] then [\<lparr>vi_field = f_start_date, vi_messageKey = ''requiredStartDate''\<rparr>] else [])
     @ (if \<not> term_ok (zi_payment_term_days form)
        then [\<lparr>vi_field = f_payment_term_days, vi_messageKey = ''paymentTermRange''\<rparr>] else [])
     @ (if trim (nullish (zi_bank_iban form) []) \<noteq> [] \<and> \<not> isValidIban upper (nullish (zi_bank_iban form) [])
        then [\<lparr>vi_field = f_bank_iban, vi_messageKey = ''invalidIban''\<rparr>] else [])
     @ (if zi_vat_mode form = Some vat_registered \<and> trim (nullish (zi_vat_number form) []) = []
        then [\<lparr>vi_field = f_vat_number, vi_messageKey = ''vatNumberRequired''\<rparr>] else [])"

section \<open>Field errors of the server\<close>

fun firstErrorMessage :: "json \<Rightarrow> string option" and first_of :: "json list \<Rightarrow> string option" where
  "firstErrorMessage (JStr s) = (if trim s \<noteq> [] then Some s else None)"
| "firstErrorMessage (JArr vs) = first_of vs"
| "firstErrorMessage _ = None"
| "first_of [] = None"
| "first_of (v # vs) =
     (case firstErrorMessage v of None \<Rightarrow> first_of vs
      | Some m \<Rightarrow> if m \<noteq> [] then Some m else first_of vs)"

fun field_key :: "ZevFormField \<Rightarrow> string" where
  "field_key f_name = ''name''"
| "field_key f_start_date = ''start_date''"
| "field_key f_zev_type = ''zev_type''"
| "field_key f_postal_code = ''postal_code''"
| "field_key f_grid_operator = ''grid_operator''"
| "field_key f_grid_operator_elcom_id = ''grid_operator_elcom_id''"
| "field_key f_tariff_source_url = ''tariff_source_url''"
| "field_key f_grid_connection_point = ''grid_connection_point''"
| "field_key f_billing_interval = ''billing_interval''"
| "field_key f_invoice_language = ''invoice_language''"
| "field_key f_payment_term_days = ''payment_term_days''"
| "field_key f_invoice_prefix = ''invoice_prefix''"
| "field_key f_credit_note_prefix = ''credit_note_prefix''"
| "field_key f_bank_name = ''bank_name''"
| "field_key f_bank_iban = ''bank_iban''"
| "field_key f_vat_mode = ''vat_mode''"
| "field_key f_vat_number = ''vat_number''"
| "field_key f_invoice_rounding = ''invoice_rounding''"
| "field_key f_itemize_tariff_bands = ''itemize_tariff_bands''"
| "field_key f_participant_invoice_access = ''participant_invoice_access''"
| "field_key f_notes = ''notes''"
| "field_key f_email_subject_template = ''email_subject_template''"
| "field_key f_email_body_template = ''email_body_template''"
| "field_key f_local_tariff_notes = ''local_tariff_notes''"
| "field_key f_additional_contract_notes = ''additional_contract_notes''"

definition parseZevFieldErrors :: "(string \<times> json) list option \<Rightarrow> (ZevFormField \<times> string) list" where
  "parseZevFieldErrors payload =
     (case payload of None \<Rightarrow> []
      | Some kvs \<Rightarrow> concat (map (\<lambda>e.
          case Option.bind (map_of kvs (field_key (fst e))) firstErrorMessage of
            None \<Rightarrow> [] | Some m \<Rightarrow> if m \<noteq> [] then [(fst e, m)] else []) ZEV_FIELD_TABS))"

section \<open>The check digits\<close>

text \<open>The number the digits of the rearranged IBAN spell.\<close>

definition iban_number :: "string \<Rightarrow> nat" where
  "iban_number iban = digits_val (iban_numeric iban)"

lemma digits_val_append: "digits_val (a @ b) = digits_val a * 10 ^ length b + digits_val b"
  by (induction b rule: rev_induct) (simp_all add: append_assoc [symmetric] algebra_simps del: append_assoc)

lemma chunk_step_mod:
  assumes "r < 97" "list_all is_digit c" "length c \<le> 7"
  shows "chunk_step r c = (r * 10 ^ length c + digits_val c) mod 97"
proof -
  let ?s = "nat_str r @ c"
  have d: "list_all is_digit ?s" using assms(2) nat_str_digits by (auto simp: list_all_iff)
  have v: "digits_val ?s = r * 10 ^ length c + digits_val c" by (simp add: digits_val_append)
  have "digits_val c < 10 ^ length c" by (rule digits_val_bound) (use assms(2) in \<open>simp add: list_all_iff\<close>)
  moreover have "(10::nat) ^ length c \<le> 10 ^ 7" using assms(3) by (rule power_increasing) simp
  moreover have "r * 10 ^ length c \<le> 96 * 10 ^ 7" by (rule mult_le_mono) (use assms(1) calculation(2) in simp_all)
  ultimately have "digits_val ?s < 2 ^ 53" unfolding v by simp
  then have "js_Number ?s = Fin (of_nat (digits_val ?s))" using d by (intro js_Number_digits) simp_all
  then have "num_int (js_Number ?s) = Some (int (digits_val ?s))" by (simp add: num_int_Some)
  then show ?thesis unfolding chunk_step_def v [symmetric] by (simp add: nat_mod_distrib)
qed

lemma chunks_mod:
  "list_all is_digit s \<Longrightarrow> r < 97 \<Longrightarrow>
     foldl chunk_step r (chunks7 s) = (r * 10 ^ length s + digits_val s) mod 97"
proof (induction s arbitrary: r rule: chunks7.induct)
  case (1 s)
  show ?case
  proof (cases "s = []")
    case True
    then show ?thesis using "1.prems" by (simp add: chunks7.simps)
  next
    case False
    have d: "list_all is_digit (take 7 s)" "list_all is_digit (drop 7 s)"
      using "1.prems"(1) by (metis append_take_drop_id list_all_append)+
    let ?r = "chunk_step r (take 7 s)"
    have r: "?r = (r * 10 ^ length (take 7 s) + digits_val (take 7 s)) mod 97"
      using d(1) "1.prems"(2) by (intro chunk_step_mod) simp_all
    have "foldl chunk_step r (chunks7 s) = foldl chunk_step ?r (chunks7 (drop 7 s))"
      using False by (simp add: chunks7.simps [of s])
    also have "\<dots> = (?r * 10 ^ length (drop 7 s) + digits_val (drop 7 s)) mod 97"
      using "1.IH" [OF False d(2), of ?r] r by simp
    also have "\<dots> = ((r * 10 ^ length (take 7 s) + digits_val (take 7 s)) * 10 ^ length (drop 7 s)
        + digits_val (drop 7 s)) mod 97"
      unfolding r by (metis mod_add_left_eq mod_mult_left_eq)
    also have "\<dots> = (r * 10 ^ length (take 7 s @ drop 7 s) + digits_val (take 7 s @ drop 7 s)) mod 97"
      unfolding digits_val_append length_append power_add by (simp only: algebra_simps)
    finally show ?thesis by simp
  qed
qed

lemma iban_numeric_digits: "iban_shape s \<Longrightarrow> list_all is_digit (iban_numeric s)"
proof -
  assume sh: "iban_shape s"
  have split: "take 4 s = take 2 s @ take 2 (drop 2 s)" using take_add [of 2 2 s] by simp
  have "\<forall>c \<in> set (drop 4 s @ take 4 s). is_upper c \<or> is_digit c"
    using sh unfolding split by (auto simp: iban_shape_def list_all_iff)
  then show ?thesis
    using nat_str_digits by (auto simp: iban_numeric_def iban_digits_def list_all_iff split: if_splits)
qed

text \<open>
  C27: the IBAN check is the one the standard asks for: whatever the length, taking the remainder chunk
  by chunk on doubles gives the remainder modulo 97 of the whole number (up to 68 digits) that the
  rearranged IBAN spells, with letters read as 10 to 35; nothing is lost to rounding.
\<close>

theorem iban_check_exact:
  "isValidIban upper s \<longleftrightarrow>
     iban_shape (normalizeIban upper s) \<and> iban_number (normalizeIban upper s) mod 97 = 1"
proof -
  have "iban_shape [] = False" by (simp add: iban_shape_def)
  then show ?thesis
    using chunks_mod [OF iban_numeric_digits, of "normalizeIban upper s" 0]
    by (auto simp: isValidIban_def iban_number_def Let_def)
qed

section \<open>Changed fields and violations\<close>

lemma all_fields: "f \<in> set draft_keys" "f \<in> set (map fst ZEV_FIELD_TABS)"
  unfolding draft_keys_def ZEV_FIELD_TABS_def
  by (cases f; simp only: list.map fst_conv list.set insert_iff simp_thms)+

lemma isZevFormDirty_iff: "isZevFormDirty draft baseline \<longleftrightarrow> (\<exists>f. field_changed draft baseline f)"
  using all_fields(1) by (auto simp: isZevFormDirty_def list_ex_iff)

lemma tabs_shown: "(f, tab) \<in> set ZEV_FIELD_TABS \<Longrightarrow> tab \<in> {tab_general, tab_billing, tab_documents}"
proof -
  have "list_all (\<lambda>e. snd e \<in> {tab_general, tab_billing, tab_documents}) ZEV_FIELD_TABS"
    by (simp add: ZEV_FIELD_TABS_def)
  then show "(f, tab) \<in> set ZEV_FIELD_TABS \<Longrightarrow> tab \<in> {tab_general, tab_billing, tab_documents}"
    by (auto simp: list_all_iff)
qed

text \<open>
  the unsaved-changes flag and the marked tabs tell the same story: a tab is marked exactly when a
  field it shows differs from the saved value, and the form is dirty exactly when some tab is marked;
  an edit that is typed back leaves the form clean.
\<close>

theorem dirty_tabs_exact:
  "(isZevFormDirty draft baseline \<longleftrightarrow> dirtyZevTabs draft baseline \<noteq> [])
   \<and> (tab \<in> set (dirtyZevTabs draft baseline) \<longleftrightarrow>
       (\<exists>f. (f, tab) \<in> set ZEV_FIELD_TABS \<and> field_changed draft baseline f))
   \<and> distinct (dirtyZevTabs draft baseline)
   \<and> (isZevFormDirty draft draft \<longleftrightarrow> zi_payment_term_days draft = Some NaN)"
proof -
  have mem: "tab \<in> set (dirtyZevTabs draft baseline) \<longleftrightarrow>
      (\<exists>f. (f, tab) \<in> set ZEV_FIELD_TABS \<and> field_changed draft baseline f)" for tab
  proof -
    have "tab \<in> set (dirtyZevTabs draft baseline) \<longleftrightarrow> tab \<in> {tab_general, tab_billing, tab_documents}
        \<and> tab \<in> snd ` {e \<in> set ZEV_FIELD_TABS. field_changed draft baseline (fst e)}"
      by (simp only: dirtyZevTabs_def Let_def set_filter set_uniq set_map mem_Collect_eq list.set)
    moreover have "tab \<in> snd ` {e \<in> set ZEV_FIELD_TABS. field_changed draft baseline (fst e)}
        \<longleftrightarrow> (\<exists>f. (f, tab) \<in> set ZEV_FIELD_TABS \<and> field_changed draft baseline f)"
      by force
    moreover have "(\<exists>f. (f, tab) \<in> set ZEV_FIELD_TABS \<and> field_changed draft baseline f)
        \<longrightarrow> tab \<in> {tab_general, tab_billing, tab_documents}"
      using tabs_shown by blast
    ultimately show ?thesis by argo
  qed
  moreover have "isZevFormDirty draft baseline \<longleftrightarrow> dirtyZevTabs draft baseline \<noteq> []"
  proof
    assume "isZevFormDirty draft baseline"
    then obtain f where f: "field_changed draft baseline f" using isZevFormDirty_iff by blast
    obtain tab where "(f, tab) \<in> set ZEV_FIELD_TABS" using all_fields(2) [of f] by auto
    then have "tab \<in> set (dirtyZevTabs draft baseline)" using f mem by blast
    then show "dirtyZevTabs draft baseline \<noteq> []" by auto
  next
    assume "dirtyZevTabs draft baseline \<noteq> []"
    then have "hd (dirtyZevTabs draft baseline) \<in> set (dirtyZevTabs draft baseline)" by simp
    then show "isZevFormDirty draft baseline" using mem isZevFormDirty_iff by blast
  qed
  moreover have "distinct (dirtyZevTabs draft baseline)" by (simp add: dirtyZevTabs_def Let_def)
  moreover have "field_changed draft draft f \<longleftrightarrow> f = f_payment_term_days \<and> zi_payment_term_days draft = Some NaN" for f
    by (cases f) simp_all
  ultimately show ?thesis by (simp add: isZevFormDirty_iff)
qed

lemma firstErrorMessage_not_blank:
  "(firstErrorMessage v = Some m \<longrightarrow> m \<noteq> [])" "(first_of vs = Some m \<longrightarrow> m \<noteq> [])"
  by (induction v and vs rule: firstErrorMessage_first_of.induct) (auto split: option.splits if_splits)

end
