(* ===== verification/Progression.thy ===== *)
theory Progression
  imports Tariff_Model Dates
begin

text \<open>
  The combined price over time: \<open>frontend/src/features/tariffs/progression/progression.ts\<close> with the
  records of \<open>types/api.ts\<close>. The server delivers the intervals; the code lays them out as a step chart,
  looks up the composition of a day, names the lines and merges what is missing from the totals.

  The theorem: the reported issues cover exactly the days on which the total is understated.
\<close>

section \<open>The API records\<close>

datatype TariffProgressionVatMode = vm_not_registered | vm_registered | vm_inclusive

datatype TariffProgressionEnergyType = pe_grid | pe_local | pe_feed_in

datatype TariffProgressionIncompleteReason = dynamic_partial | dynamic_no_data | dynamic_base | no_bands

record TariffProgressionRule =
  ru_months :: "int list"
  ru_weekdays :: "int list"
  ru_windows :: "(string \<times> string) list"

record TariffProgressionComponent =
  co_tariff_id :: string
  co_name :: string
  co_billing_mode :: TariffBillingMode
  co_band_period_id :: "string option"
  co_net :: string
  co_gross :: "string option"
  co_dynamic :: bool
  co_coverage :: "string option"
  co_percentage :: "string option"
  co_base_net :: "string option"

record TariffProgressionSubtotal =
  sb_category :: TariffCategory
  sb_net :: string
  sb_gross :: "string option"
  sb_components :: "TariffProgressionComponent list"

record TariffProgressionSlot =
  sl_line :: string
  sl_net :: string
  sl_gross :: "string option"
  sl_categories :: "TariffProgressionSubtotal list"

record incomplete_item =
  in_tariff_id :: string
  in_name :: string
  in_reason :: TariffProgressionIncompleteReason

record TariffProgressionInterval =
  iv_from :: string
  iv_to :: string
  iv_vat_rate :: "string option"
  iv_missing_categories :: "TariffCategory list"
  iv_incomplete :: "incomplete_item list"
  iv_slots :: "TariffProgressionSlot list"

datatype fee_unit = fee_month | fee_year

datatype fee_scope = fs_participant | fs_metering_point | fs_community

record fee_version =
  fv_tariff_id :: string
  fv_valid_from :: string
  fv_valid_to :: "string option"
  fv_amount_net :: string
  fv_amount_gross :: "string option"
  fv_vat_rate :: "string option"

record TariffProgressionFixedFee =
  fe_name :: string
  fe_category :: TariffCategory
  fe_billing_mode :: TariffBillingMode
  fe_unit :: fee_unit
  fe_scope :: fee_scope
  fe_split_key :: "split_key option"
  fe_versions :: "fee_version list"

record progression_line =
  ln_key :: string
  ln_rules :: "TariffProgressionRule list"

record TariffProgression =
  pg_zev :: string
  pg_energy_type :: TariffProgressionEnergyType
  pg_vat_mode :: TariffProgressionVatMode
  pg_from :: string
  pg_to :: string
  pg_expected_categories :: "TariffCategory list"
  pg_lines :: "progression_line list"
  pg_intervals :: "TariffProgressionInterval list"
  pg_fixed_fees :: "TariffProgressionFixedFee list"

section \<open>The chart\<close>

datatype PriceBasis = net | gross

text \<open>\<open>dayMs\<close>: epoch milliseconds, \<^const>\<open>None\<close> for \<open>NaN\<close>.\<close>

definition dayMs :: "string \<Rightarrow> instant option" where
  "dayMs isoDate = utc_midnight isoDate"

definition hasGross :: "TariffProgressionVatMode \<Rightarrow> bool" where
  "hasGross vatMode \<longleftrightarrow> vatMode \<noteq> vm_not_registered"

definition valueOf :: "string \<Rightarrow> string option \<Rightarrow> PriceBasis \<Rightarrow> string" where
  "valueOf net_value gross_value basis =
     (case gross_value of Some g \<Rightarrow> if basis = gross then g else net_value | None \<Rightarrow> net_value)"

record ProgressionPoint =
  pp_t :: "instant option"
  pp_values :: "(string \<times> jsnum option) list"

record ProgressionChartData =
  cd_points :: "ProgressionPoint list"
  cd_flagged :: "(instant option \<times> instant option) list"

text \<open>\<open>new Map(slots.map(...))\<close> keeps the last slot of a line.\<close>

definition slot_of :: "TariffProgressionInterval \<Rightarrow> string \<Rightarrow> TariffProgressionSlot option" where
  "slot_of interval line = find_last (\<lambda>slot. sl_line slot = line) (iv_slots interval)"

definition valuesOf :: "progression_line list \<Rightarrow> PriceBasis \<Rightarrow> TariffProgressionInterval \<Rightarrow> (string \<times> jsnum option) list" where
  "valuesOf lines basis interval =
     map (\<lambda>line. (ln_key line,
       map_option (\<lambda>slot. js_Number (valueOf (sl_net slot) (sl_gross slot) basis)) (slot_of interval (ln_key line)))) lines"

definition is_flagged :: "TariffProgressionInterval \<Rightarrow> bool" where
  "is_flagged interval \<longleftrightarrow> length (iv_slots interval) = 0 \<or> 0 < length (iv_missing_categories interval)
     \<or> 0 < length (iv_incomplete interval)"

definition buildChartData :: "TariffProgression \<Rightarrow> PriceBasis \<Rightarrow> ProgressionChartData" where
  "buildChartData progression basis =
     (let intervals = pg_intervals progression; lines = pg_lines progression
      in \<lparr>cd_points =
            map (\<lambda>interval. \<lparr>pp_t = dayMs (iv_from interval), pp_values = valuesOf lines basis interval\<rparr>) intervals
            @ (case last_opt intervals of None \<Rightarrow> []
               | Some interval \<Rightarrow> [\<lparr>pp_t = dayMs (iv_to interval), pp_values = valuesOf lines basis interval\<rparr>]),
          cd_flagged =
            map (\<lambda>interval. (dayMs (iv_from interval), map_option (\<lambda>t. t + day_ms) (dayMs (iv_to interval))))
              (filter is_flagged intervals)\<rparr>)"

section \<open>The composition of a day\<close>

definition intervalOn :: "TariffProgression \<Rightarrow> string \<Rightarrow> TariffProgressionInterval option" where
  "intervalOn progression day = find (\<lambda>interval. iv_from interval \<le> day \<and> day \<le> iv_to interval) (pg_intervals progression)"

definition clampDay :: "string \<Rightarrow> string \<Rightarrow> string \<Rightarrow> string" where
  "clampDay day from til = (if day < from then from else if day > til then til else day)"

definition compositionOn ::
    "TariffProgression \<Rightarrow> string \<Rightarrow> string \<Rightarrow> (TariffProgressionInterval \<times> TariffProgressionSlot) option" where
  "compositionOn progression day lineKey =
     (case intervalOn progression day of None \<Rightarrow> None
      | Some interval \<Rightarrow> map_option (\<lambda>slot. (interval, slot)) (find (\<lambda>slot. sl_line slot = lineKey) (iv_slots interval)))"

definition lineOn :: "TariffProgression \<Rightarrow> string \<Rightarrow> string option \<Rightarrow> string option" where
  "lineOn progression day preferred =
     (case intervalOn progression day of None \<Rightarrow> preferred
      | Some interval \<Rightarrow>
          if length (iv_slots interval) = 0 then preferred
          else if list_ex (\<lambda>slot. Some (sl_line slot) = preferred) (iv_slots interval) then preferred
          else Some (sl_line (hd (iv_slots interval))))"

section \<open>Line labels\<close>

definition ALL_HOURS :: "string \<times> string" where "ALL_HOURS = (''00:00'', ''24:00'')"

definition isAllDay :: "TariffProgressionRule \<Rightarrow> bool" where
  "isAllDay rule \<longleftrightarrow> ru_windows rule = [ALL_HOURS]"

definition numbers_str :: "int list \<Rightarrow> string" where
  "numbers_str ns = join '','' (map int_str ns)"

definition rule_label :: "string list \<Rightarrow> string list \<Rightarrow> TariffProgressionRule \<Rightarrow> string" where
  "rule_label dayNames monthNames rule =
     join '' '' (filter (\<lambda>s. s \<noteq> [])
       [formatSeason (Some (numbers_str (ru_months rule))) monthNames,
        formatWeekdays (Some (numbers_str (ru_weekdays rule))) dayNames,
        if isAllDay rule then []
        else join '', '' (map (\<lambda>(from, til). from @ en_dash @ til) (ru_windows rule))])"

definition lineLabel :: "TariffProgressionRule list \<Rightarrow> (string \<Rightarrow> string) \<Rightarrow> string list \<Rightarrow> string list \<Rightarrow> string" where
  "lineLabel rules t dayNames monthNames =
     (if length rules = 1 \<and> length (ru_months (hd rules)) = 12 \<and> length (ru_weekdays (hd rules)) = 7 \<and> isAllDay (hd rules)
      then t ''pages.tariffs.progression.allHours''
      else join ''; '' (map (\<lambda>part. if part \<noteq> [] then part else t ''pages.tariffs.progression.allHours'')
        (map (rule_label dayNames monthNames) rules)))"

section \<open>What is missing\<close>

datatype issue_kind = kind_missing | kind_incomplete TariffProgressionIncompleteReason

record ProgressionIssue =
  pi_kind :: issue_kind
  pi_subject :: string
  pi_from :: string
  pi_to :: string

fun kind_str :: "issue_kind \<Rightarrow> string" where
  "kind_str kind_missing = ''missing''"
| "kind_str (kind_incomplete dynamic_partial) = ''dynamic_partial''"
| "kind_str (kind_incomplete dynamic_no_data) = ''dynamic_no_data''"
| "kind_str (kind_incomplete dynamic_base) = ''dynamic_base''"
| "kind_str (kind_incomplete no_bands) = ''no_bands''"

fun category_str :: "TariffCategory \<Rightarrow> string" where
  "category_str cat_energy = ''energy''"
| "category_str grid_fees = ''grid_fees''"
| "category_str levies = ''levies''"
| "category_str cat_metering = ''metering''"

text \<open>\<open>toISOString\<close> throws on an invalid date: \<^const>\<open>None\<close>.\<close>

definition dayAfter :: "string \<Rightarrow> string option" where
  "dayAfter isoDate =
     (case parse_day isoDate of None \<Rightarrow> None
      | Some d \<Rightarrow> if \<bar>d + 1\<bar> \<le> 100000000 then Some (toISODate (d + 1)) else None)"

type_synonym finding = "issue_kind \<times> string"

type_synonym issue_state = "(string \<times> ProgressionIssue) list \<times> ProgressionIssue list"

definition found_in :: "TariffProgressionInterval \<Rightarrow> finding list" where
  "found_in interval =
     map (\<lambda>category. (kind_missing, category_str category)) (iv_missing_categories interval)
     @ map (\<lambda>item. (kind_incomplete (in_reason item), in_name item)) (iv_incomplete interval)"

definition issue_key :: "finding \<Rightarrow> string" where
  "issue_key f = kind_str (fst f) @ ''|'' @ snd f"

definition new_issue :: "TariffProgressionInterval \<Rightarrow> finding \<Rightarrow> ProgressionIssue" where
  "new_issue interval f = \<lparr>pi_kind = fst f, pi_subject = snd f, pi_from = iv_from interval, pi_to = iv_to interval\<rparr>"

text \<open>The first component is the map \<open>open\<close>, the second the list \<open>done\<close>.\<close>

definition add_finding :: "TariffProgressionInterval \<Rightarrow> issue_state \<Rightarrow> finding \<Rightarrow> issue_state option" where
  "add_finding interval st f =
     (let (opened, ended) = st; key = issue_key f
      in case map_of opened key of
           None \<Rightarrow> Some (AList.update key (new_issue interval f) opened, ended)
         | Some current \<Rightarrow>
             (case dayAfter (pi_to current) of
                None \<Rightarrow> None
              | Some day \<Rightarrow>
                  if day = iv_from interval
                  then Some (AList.update key (current\<lparr>pi_to := iv_to interval\<rparr>) opened, ended)
                  else Some (AList.update key (new_issue interval f) opened, ended @ [current])))"

fun add_findings :: "TariffProgressionInterval \<Rightarrow> issue_state \<Rightarrow> finding list \<Rightarrow> issue_state option" where
  "add_findings interval st [] = Some st"
| "add_findings interval st (f # fs) = Option.bind (add_finding interval st f) (\<lambda>st'. add_findings interval st' fs)"

definition close_absent :: "string list \<Rightarrow> issue_state \<Rightarrow> issue_state" where
  "close_absent present st =
     (filter (\<lambda>e. fst e \<in> set present) (fst st),
      snd st @ map snd (filter (\<lambda>e. fst e \<notin> set present) (fst st)))"

definition issue_step :: "issue_state \<Rightarrow> TariffProgressionInterval \<Rightarrow> issue_state option" where
  "issue_step st interval =
     map_option (close_absent (map issue_key (found_in interval))) (add_findings interval st (found_in interval))"

fun issue_steps :: "issue_state \<Rightarrow> TariffProgressionInterval list \<Rightarrow> issue_state option" where
  "issue_steps st [] = Some st"
| "issue_steps st (iv # ivs) = Option.bind (issue_step st iv) (\<lambda>st'. issue_steps st' ivs)"

definition progressionIssues :: "TariffProgression \<Rightarrow> ProgressionIssue list option" where
  "progressionIssues progression =
     map_option (\<lambda>st. sort_by (\<lambda>l r. pi_from l \<le> pi_from r) (snd st @ map snd (fst st)))
       (issue_steps ([], []) (pg_intervals progression))"

section \<open>Fixed fees\<close>

definition groupFees :: "TariffProgressionFixedFee list \<Rightarrow> TariffProgressionFixedFee list \<times> TariffProgressionFixedFee list" where
  "groupFees fees = (filter (\<lambda>fee. fe_unit fee = fee_month) fees, filter (\<lambda>fee. fe_unit fee = fee_year) fees)"

text \<open>\<^const>\<open>None\<close> (undefined) only for a fee without versions.\<close>

definition feeVersionOn :: "TariffProgressionFixedFee \<Rightarrow> string \<Rightarrow> fee_version option" where
  "feeVersionOn fee day =
     (case find (\<lambda>v. fv_valid_from v \<le> day \<and> (\<not> truthy (fv_valid_to v) \<or> nullish (fv_valid_to v) [] \<ge> day)) (fe_versions fee) of
        Some v \<Rightarrow> Some v
      | None \<Rightarrow>
          (case last_opt (filter (\<lambda>v. fv_valid_from v \<le> day) (fe_versions fee)) of
             Some v \<Rightarrow> Some v
           | None \<Rightarrow> nth_opt (fe_versions fee) 0))"

section \<open>The issues cover exactly the understated days\<close>

definition proper_interval :: "TariffProgressionInterval \<Rightarrow> bool" where
  "proper_interval iv \<longleftrightarrow> valid_iso (iv_from iv) \<and> valid_iso (iv_to iv) \<and> iv_from iv \<le> iv_to iv"

definition proper_issue :: "ProgressionIssue \<Rightarrow> bool" where
  "proper_issue i \<longleftrightarrow> valid_iso (pi_from i) \<and> valid_iso (pi_to i) \<and> iso_day (pi_from i) \<le> iso_day (pi_to i)"

definition finding_of :: "ProgressionIssue \<Rightarrow> finding" where
  "finding_of i = (pi_kind i, pi_subject i)"

text \<open>The days the issues of a finding span, and the days of the intervals that have it.\<close>

definition issue_days :: "ProgressionIssue set \<Rightarrow> finding \<Rightarrow> int set" where
  "issue_days I f = (\<Union>i \<in> {i \<in> I. finding_of i = f}. {iso_day (pi_from i)..iso_day (pi_to i)})"

definition interval_days :: "TariffProgressionInterval list \<Rightarrow> finding \<Rightarrow> int set" where
  "interval_days ivs f = (\<Union>iv \<in> {iv \<in> set ivs. f \<in> set (found_in iv)}. {iso_day (iv_from iv)..iso_day (iv_to iv)})"

definition all_issues :: "issue_state \<Rightarrow> ProgressionIssue set" where
  "all_issues st = snd ` set (fst st) \<union> set (snd st)"

definition good_state :: "issue_state \<Rightarrow> bool" where
  "good_state st \<longleftrightarrow> distinct (map fst (fst st)) \<and> (\<forall>i \<in> all_issues st. proper_issue i)
     \<and> (\<forall>(k, i) \<in> set (fst st). k = issue_key (finding_of i))"

lemma issue_key_inject: "issue_key f = issue_key g \<longleftrightarrow> f = g"
proof -
  have bar: "CHR ''|'' \<notin> set (kind_str k)" for k by (cases k rule: kind_str.cases) simp_all
  have kinj: "kind_str k = kind_str l \<longleftrightarrow> k = l" for k l
    by (cases k rule: kind_str.cases; cases l rule: kind_str.cases) simp_all
  have "split_on (CHR ''|'') (issue_key f) = kind_str (fst f) # split_on (CHR ''|'') (snd f)" for f
    using split_on_append [OF bar [of "fst f"], of "snd f"] by (simp add: issue_key_def)
  moreover have "snd f = snd g" if "issue_key f = issue_key g" "kind_str (fst f) = kind_str (fst g)"
    using that by (simp add: issue_key_def)
  ultimately show ?thesis using kinj by (metis list.inject prod_eqI)
qed

lemma dayAfter_valid:
  assumes "valid_iso s"
  shows "dayAfter s = Some (toISODate (iso_day s + 1))"
proof -
  have h: "four_digit_year (iso_day s)" using assms by (rule four_digit_year_iso_day)
  have "DayFromYear 0 \<le> iso_day s" "iso_day s < DayFromYear 10000"
    using YearFromDay_bounds [of "iso_day s"] h DayFromYear_mono [of 0 "YearFromDay (iso_day s)"]
      DayFromYear_mono [of "YearFromDay (iso_day s) + 1" 10000] by simp_all
  then have "\<bar>iso_day s + 1\<bar> \<le> 100000000" by (simp add: DayFromYear_def)
  then show ?thesis using parse_day_valid [OF assms] by (simp add: dayAfter_def)
qed

text \<open>A day printed like a four-digit ISO date is that date.\<close>

lemma toISODate_valid_day:
  assumes "toISODate x = s" "valid_iso s"
  shows "iso_day s = x"
proof (cases "four_digit_year x")
  case True
  then show ?thesis using assms by auto
next
  case False
  have "s = toISODate (iso_day s)" "four_digit_year (iso_day s)"
    using assms(2) by (simp_all add: four_digit_year_iso_day)
  then have "is_digit (hd s)"
    using digs_digits [of _ 4] by (metis append_is_Nil_conv hd_append2 hd_in_set length_digs list.size(3) toISODate_eq zero_neq_numeral)
  moreover have "hd s \<in> {CHR ''+'', CHR ''-''}"
    using False assms(1) by (auto simp: toISODate_def iso_year_def)
  moreover have "\<not> is_digit (CHR ''+'')" "\<not> is_digit (CHR ''-'')" by code_simp+
  ultimately show ?thesis by auto
qed

lemma all_issues_update:
  assumes "distinct (map fst m)"
  shows "snd ` set (AList.update k v m) = insert v (snd ` {e \<in> set m. fst e \<noteq> k})"
  using assms
proof (induction m)
  case (Cons e m)
  obtain a b where e: "e = (a, b)" by fastforce
  show ?case
  proof (cases "a = k")
    case True
    then have "{x \<in> set m. fst x \<noteq> k} = set m" using Cons.prems e by (force simp: image_iff)
    then show ?thesis using True e by auto
  next
    case False
    then have "{x \<in> set (e # m). fst x \<noteq> k} = insert e {x \<in> set m. fst x \<noteq> k}" using e by auto
    then show ?thesis using Cons False e by (simp add: insert_commute)
  qed
qed simp

lemma issue_days_insert:
  "issue_days (insert i I) g = issue_days I g \<union>
     (if finding_of i = g then {iso_day (pi_from i)..iso_day (pi_to i)} else {})"
  by (auto simp: issue_days_def)

lemma good_update:
  assumes "good_state (m, ended)" "proper_issue i" "list_all proper_issue c"
  defines "k \<equiv> issue_key (finding_of i)"
  shows "good_state (AList.update k i m, c)"
    and "all_issues (AList.update k i m, c) = insert i (snd ` {e \<in> set m. fst e \<noteq> k} \<union> set c)"
proof -
  have d: "distinct (map fst m)" and keys: "\<And>k i. (k, i) \<in> set m \<Longrightarrow> k = issue_key (finding_of i)"
    and proper: "\<And>i. i \<in> snd ` set m \<Longrightarrow> proper_issue i"
    using assms(1) by (auto simp: good_state_def all_issues_def)
  show a: "all_issues (AList.update k i m, c) = insert i (snd ` {e \<in> set m. fst e \<noteq> k} \<union> set c)"
    by (simp add: all_issues_def all_issues_update [OF d])
  have "\<forall>j \<in> all_issues (AList.update k i m, c). proper_issue j"
    using assms(2,3) proper unfolding a by (auto simp: list_all_iff)
  moreover have "set (AList.update k i m) \<subseteq> insert (k, i) (set m)" by (induction m) auto
  then have "\<forall>(k, j) \<in> set (AList.update k i m). k = issue_key (finding_of j)"
    using keys unfolding k_def by fastforce
  ultimately show "good_state (AList.update k i m, c)"
    using d by (simp add: good_state_def distinct_update)
qed

lemma split_at_key:
  assumes "distinct (map fst m)" "map_of m k = Some cur"
  shows "snd ` set m = insert cur (snd ` {e \<in> set m. fst e \<noteq> k})"
proof -
  have mem: "(k, cur) \<in> set m" using assms(2) by (rule map_of_SomeD)
  have "e = (k, cur)" if "e \<in> set m" "fst e = k" for e
    using that mem assms(1) by (metis eq_key_imp_eq_value prod.collapse)
  then have "set m = insert (k, cur) {e \<in> set m. fst e \<noteq> k}" using mem by blast
  then have "snd ` set m = snd ` (insert (k, cur) {e \<in> set m. fst e \<noteq> k})" by (rule arg_cong)
  then show ?thesis by (simp only: image_insert snd_conv)
qed

text \<open>One finding adds the days of its interval to its own issues and leaves the others alone.\<close>

definition adds_days :: "issue_state \<Rightarrow> issue_state \<Rightarrow> TariffProgressionInterval \<Rightarrow> finding \<Rightarrow> bool" where
  "adds_days st st' iv f \<longleftrightarrow> (\<forall>g. issue_days (all_issues st') g =
     issue_days (all_issues st) g \<union> (if g = f then {iso_day (iv_from iv)..iso_day (iv_to iv)} else {}))"

lemma add_finding_new:
  assumes "good_state (m, ended)" "proper_interval iv" "list_all proper_issue c"
    "snd ` {e \<in> set m. fst e \<noteq> issue_key f} \<union> set c = all_issues (m, ended)"
  shows "good_state (AList.update (issue_key f) (new_issue iv f) m, c)
    \<and> adds_days (m, ended) (AList.update (issue_key f) (new_issue iv f) m, c) iv f"
proof -
  have new: "proper_issue (new_issue iv f)" "finding_of (new_issue iv f) = f"
    using assms(2) by (auto simp: proper_issue_def finding_of_def new_issue_def proper_interval_def iso_le_iff)
  note u = good_update [OF assms(1) new(1) assms(3), unfolded new(2)]
  have "issue_days (all_issues (AList.update (issue_key f) (new_issue iv f) m, c)) g = issue_days (all_issues (m, ended)) g
      \<union> (if g = f then {iso_day (iv_from iv)..iso_day (iv_to iv)} else {})" for g
    unfolding u(2) issue_days_insert new(2) assms(4) by (simp add: new_issue_def eq_commute)
  then show ?thesis using u(1) unfolding adds_days_def by blast
qed

lemma add_finding_extend:
  assumes "good_state (m, ended)" "proper_interval iv" "map_of m (issue_key f) = Some cur"
    "iso_day (iv_from iv) = iso_day (pi_to cur) + 1"
  shows "good_state (AList.update (issue_key f) (cur\<lparr>pi_to := iv_to iv\<rparr>) m, ended)
    \<and> adds_days (m, ended) (AList.update (issue_key f) (cur\<lparr>pi_to := iv_to iv\<rparr>) m, ended) iv f"
proof -
  let ?cur = "cur\<lparr>pi_to := iv_to iv\<rparr>"
  have mem: "(issue_key f, cur) \<in> set m" using assms(3) by (rule map_of_SomeD)
  then have "issue_key f = issue_key (finding_of cur)" using assms(1) by (auto simp: good_state_def)
  then have cf: "finding_of cur = f" using issue_key_inject [of f "finding_of cur"] by simp
  then have cf': "finding_of ?cur = f" by (simp add: finding_of_def)
  have "cur \<in> all_issues (m, ended)" using imageI [OF mem, of snd] by (simp add: all_issues_def)
  then have pc: "proper_issue cur" using assms(1) unfolding good_state_def by blast
  have cl: "list_all proper_issue ended" using assms(1) by (auto simp: good_state_def all_issues_def list_all_iff)
  have le: "iso_day (iv_from iv) \<le> iso_day (iv_to iv)" using assms(2) by (auto simp: proper_interval_def iso_le_iff)
  have p': "proper_issue ?cur" using pc assms(2,4) le by (simp add: proper_issue_def proper_interval_def)
  note u = good_update [OF assms(1) p' cl, unfolded cf']
  have old: "all_issues (m, ended) = insert cur (snd ` {e \<in> set m. fst e \<noteq> issue_key f} \<union> set ended)"
    using split_at_key [OF _ assms(3)] assms(1) by (simp add: all_issues_def good_state_def)
  have span: "{iso_day (pi_from cur)..iso_day (iv_to iv)} =
      {iso_day (pi_from cur)..iso_day (pi_to cur)} \<union> {iso_day (iv_from iv)..iso_day (iv_to iv)}"
    using pc le assms(4) by (auto simp: proper_issue_def)
  have "issue_days (all_issues (AList.update (issue_key f) ?cur m, ended)) g = issue_days (all_issues (m, ended)) g
      \<union> (if g = f then {iso_day (iv_from iv)..iso_day (iv_to iv)} else {})" for g
    unfolding u(2) old issue_days_insert cf cf' using span by (simp add: Un_assoc eq_commute)
  then show ?thesis using u(1) unfolding adds_days_def by blast
qed

lemma add_finding_ok:
  assumes "good_state st" "proper_interval iv"
  shows "\<exists>st'. add_finding iv st f = Some st' \<and> good_state st' \<and> adds_days st st' iv f"
proof -
  obtain m ended where st: "st = (m, ended)" by fastforce
  note g = assms(1) [unfolded st]
  have cl: "list_all proper_issue ended" using g by (auto simp: good_state_def all_issues_def list_all_iff)
  have d: "distinct (map fst m)" using g by (simp add: good_state_def)
  show ?thesis
  proof (cases "map_of m (issue_key f)")
    case None
    then have "{e \<in> set m. fst e \<noteq> issue_key f} = set m" by (auto simp: map_of_eq_None_iff image_iff)
    then have "snd ` {e \<in> set m. fst e \<noteq> issue_key f} \<union> set ended = all_issues (m, ended)" by (simp add: all_issues_def)
    from add_finding_new [OF g assms(2) cl this] show ?thesis using None by (simp add: add_finding_def st)
  next
    case (Some cur)
    have "cur \<in> all_issues (m, ended)" using imageI [OF map_of_SomeD [OF Some], of snd] by (simp add: all_issues_def)
    then have pc: "proper_issue cur" using g unfolding good_state_def by blast
    have day: "dayAfter (pi_to cur) = Some (toISODate (iso_day (pi_to cur) + 1))"
      using pc by (intro dayAfter_valid) (simp add: proper_issue_def)
    show ?thesis
    proof (cases "toISODate (iso_day (pi_to cur) + 1) = iv_from iv")
      case True
      then have "iso_day (iv_from iv) = iso_day (pi_to cur) + 1"
        using assms(2) toISODate_valid_day [OF True] by (simp add: proper_interval_def)
      from add_finding_extend [OF g assms(2) Some this] show ?thesis
        using Some True day by (simp add: add_finding_def st)
    next
      case False
      have "snd ` {e \<in> set m. fst e \<noteq> issue_key f} \<union> set (ended @ [cur]) = all_issues (m, ended)"
        using split_at_key [OF d Some] by (simp add: all_issues_def)
      moreover have "list_all proper_issue (ended @ [cur])" using cl pc by simp
      ultimately have "good_state (AList.update (issue_key f) (new_issue iv f) m, ended @ [cur])
          \<and> adds_days (m, ended) (AList.update (issue_key f) (new_issue iv f) m, ended @ [cur]) iv f"
        by (intro add_finding_new [OF g assms(2)])
      then show ?thesis using Some False day by (simp add: add_finding_def st)
    qed
  qed
qed

lemma add_findings_ok:
  "good_state st \<Longrightarrow> proper_interval iv \<Longrightarrow>
     \<exists>st'. add_findings iv st fs = Some st' \<and> good_state st'
       \<and> (\<forall>g. issue_days (all_issues st') g = issue_days (all_issues st) g
            \<union> (if g \<in> set fs then {iso_day (iv_from iv)..iso_day (iv_to iv)} else {}))"
proof (induction fs arbitrary: st)
  case (Cons f fs)
  obtain s1 where s1: "add_finding iv st f = Some s1" "good_state s1" "adds_days st s1 iv f"
    using add_finding_ok [OF Cons.prems] by blast
  obtain s2 where s2: "add_findings iv s1 fs = Some s2" "good_state s2"
    and d2: "\<And>g. issue_days (all_issues s2) g = issue_days (all_issues s1) g
            \<union> (if g \<in> set fs then {iso_day (iv_from iv)..iso_day (iv_to iv)} else {})"
    using Cons.IH [OF s1(2) Cons.prems(2)] by blast
  have "issue_days (all_issues s2) g = issue_days (all_issues st) g
      \<union> (if g \<in> set (f # fs) then {iso_day (iv_from iv)..iso_day (iv_to iv)} else {})" for g
    unfolding d2 s1(3) [unfolded adds_days_def, THEN spec] by (simp add: Un_assoc)
  then show ?case using s1(1) s2 by auto
qed simp

lemma close_absent_ok: "good_state st \<Longrightarrow> good_state (close_absent ks st) \<and> all_issues (close_absent ks st) = all_issues st"
proof -
  assume g: "good_state st"
  have a: "all_issues (close_absent ks st) = all_issues st" by (auto simp: all_issues_def close_absent_def)
  then show ?thesis using g by (auto simp: good_state_def close_absent_def distinct_map_filter)
qed

lemma issue_steps_ok:
  "good_state st \<Longrightarrow> list_all proper_interval ivs \<Longrightarrow>
     \<exists>st'. issue_steps st ivs = Some st'
       \<and> (\<forall>g. issue_days (all_issues st') g = issue_days (all_issues st) g \<union> interval_days ivs g)"
proof (induction ivs arbitrary: st)
  case Nil
  then show ?case by (simp add: interval_days_def)
next
  case (Cons iv ivs)
  obtain s1 where s1: "add_findings iv st (found_in iv) = Some s1" "good_state s1"
    and d1: "\<And>g. issue_days (all_issues s1) g = issue_days (all_issues st) g
            \<union> (if g \<in> set (found_in iv) then {iso_day (iv_from iv)..iso_day (iv_to iv)} else {})"
    using add_findings_ok [of st iv "found_in iv"] Cons.prems by auto
  let ?s2 = "close_absent (map issue_key (found_in iv)) s1"
  have s2: "issue_step st iv = Some ?s2" using s1(1) by (simp add: issue_step_def)
  have iv: "interval_days (iv # ivs) g = (if g \<in> set (found_in iv) then {iso_day (iv_from iv)..iso_day (iv_to iv)} else {})
      \<union> interval_days ivs g" for g
    by (auto simp: interval_days_def)
  obtain s3 where "issue_steps ?s2 ivs = Some s3"
    "\<And>g. issue_days (all_issues s3) g = issue_days (all_issues ?s2) g \<union> interval_days ivs g"
    using Cons.IH [of ?s2] close_absent_ok [OF s1(2)] Cons.prems(2) by auto
  then show ?case using s2 d1 iv close_absent_ok [OF s1(2)] by (simp add: Un_assoc)
qed

text \<open>
  C25: an understated total is always reported, and nothing else is: for every kind of problem and every
  category or tariff, the merged date ranges together are exactly the days of the intervals that have
  it, however the intervals follow on one another.
\<close>

theorem progression_issues_exact:
  assumes "list_all proper_interval (pg_intervals progression)"
  shows "\<exists>issues. progressionIssues progression = Some issues
    \<and> (\<forall>f. issue_days (set issues) f = interval_days (pg_intervals progression) f)"
proof -
  have "good_state ([], [])" by (simp add: good_state_def all_issues_def)
  from issue_steps_ok [OF this assms] obtain st where
    "issue_steps ([], []) (pg_intervals progression) = Some st"
    "\<And>f. issue_days (all_issues st) f = interval_days (pg_intervals progression) f"
    by (auto simp: all_issues_def issue_days_def)
  moreover have "set (snd st @ map snd (fst st)) = all_issues st" by (auto simp: all_issues_def)
  ultimately show ?thesis by (simp add: progressionIssues_def)
qed

definition sample_progression :: TariffProgression where
  "sample_progression =
     \<lparr>pg_zev = ''z'', pg_energy_type = pe_grid, pg_vat_mode = vm_not_registered, pg_from = ''2024-01-01'',
      pg_to = ''2024-12-31'', pg_expected_categories = [levies], pg_lines = [],
      pg_intervals =
        [\<lparr>iv_from = ''2024-01-01'', iv_to = ''2024-12-31'', iv_vat_rate = None, iv_missing_categories = [levies],
          iv_incomplete = [], iv_slots = []\<rparr>],
      pg_fixed_fees = []\<rparr>"

theorem progression_issues_exact_witness:
  "list_all proper_interval (pg_intervals sample_progression)
   \<and> (\<exists>issues. progressionIssues sample_progression = Some issues
      \<and> issue_days (set issues) (kind_missing, ''levies'') = {iso_day ''2024-01-01''..iso_day ''2024-12-31''})"
proof -
  have "proper_interval (hd (pg_intervals sample_progression))" by code_simp
  then have p: "list_all proper_interval (pg_intervals sample_progression)" by (simp add: sample_progression_def)
  moreover have "interval_days (pg_intervals sample_progression) (kind_missing, ''levies'') =
      {iso_day ''2024-01-01''..iso_day ''2024-12-31''}"
    by (simp add: sample_progression_def interval_days_def found_in_def)
  ultimately show ?thesis using progression_issues_exact [OF p] by metis
qed

end
