(* ===== verification/Live_Energy.thy ===== *)
theory Live_Energy
  imports Dates JS_Text
begin

text \<open>
  The live view and the energy page: the pure parts of \<open>frontend/src/lib/live.ts\<close>,
  \<open>myEnergy.ts\<close>, \<open>forecast.ts\<close> and \<open>pvPlanes.ts\<close> with the records of
  \<open>types/api.ts\<close> (the \<open>useQuery\<close> hooks around them only configure polling). Timestamps are read by
  \<open>Date.parse\<close>, an argument whose \<^const>\<open>None\<close> is \<open>NaN\<close>; powers are doubles.

  The theorem: stored history and live readings never overlap on the chart of the day, each row has its
  own instant and they are in the order of time.
\<close>

section \<open>Live data\<close>

datatype LiveState = ls_fresh | ls_stale | ls_never

datatype LiveTier = tier_none | tier_production | tier_exact

datatype SourceTarget = target_metering_point | target_connection_point

datatype SourceHolder = holder_participant | holder_zev

datatype meter_type = mt_consumption | mt_production | mt_bidirectional

record LiveOwn =
  lo_consumption_w :: "jsnum option"
  lo_local_w :: "jsnum option"
  lo_grid_w :: "jsnum option"
  lo_production_w :: "jsnum option"
  lo_to_zev_w :: "jsnum option"
  lo_to_grid_w :: "jsnum option"
  lo_gross_production_w :: "jsnum option"
  lo_gross_consumption_w :: "jsnum option"
  lo_complete :: bool
  lo_points :: int
  lo_points_fresh :: int
  lo_split_inconsistent :: bool

record LivePoint =
  lp_metering_point_id :: "string option"
  lp_target :: SourceTarget
  lp_meter_id :: "string option"
  lp_meter_type :: "meter_type option"
  lp_participant_name :: "string option"
  lp_held_by :: "SourceHolder option"
  lp_live_state :: LiveState
  lp_meter_power_w :: "jsnum option"
  lp_age_s :: "jsnum option"
  lp_source_id :: "string option"

record live_coverage =
  lc_producing_points :: int
  lc_producing_fresh :: int
  lc_consuming_points :: int
  lc_consuming_fresh :: int
  lc_connection_point :: "LiveState option"
  lc_live_sources :: int
  lc_points :: int
  lc_points_fresh :: int

datatype consumption_basis = all_points | basis_connection_point

record LiveSnapshot =
  sn_zev_id :: string
  sn_as_of :: "string option"
  sn_tier :: LiveTier
  sn_consumption_basis :: "consumption_basis option"
  sn_production_w :: "jsnum option"
  sn_consumption_w :: "jsnum option"
  sn_surplus_w :: "jsnum option"
  sn_grid_import_w :: "jsnum option"
  sn_local_share_pct :: "jsnum option"
  sn_coverage :: live_coverage
  sn_own :: "LiveOwn option"
  sn_points :: "LivePoint list option"
  sn_max_age_s :: jsnum

record LiveCurveBucket =
  lb_start :: string
  lb_tier :: LiveTier
  lb_production_w :: "jsnum option"
  lb_consumption_w :: "jsnum option"
  lb_surplus_w :: "jsnum option"
  lb_own_consumption_w :: "jsnum option"
  lb_own_local_w :: "jsnum option"
  lb_own_production_w :: "jsnum option"
  lb_points :: "(string option \<times> SourceTarget \<times> jsnum option) list option"

record OwnHistoryRow =
  oh_start :: string
  oh_consumption_w :: jsnum
  oh_production_w :: jsnum

record LiveCurve =
  cu_date :: string
  cu_bucket_s :: jsnum
  cu_buckets :: "LiveCurveBucket list"
  cu_own_history :: "OwnHistoryRow list"
  cu_own_history_through :: "string option"

definition LIVE_SNAPSHOT_INTERVAL_MS :: int where "LIVE_SNAPSHOT_INTERVAL_MS = 15000"

definition LIVE_CURVE_INTERVAL_MS :: int where "LIVE_CURVE_INTERVAL_MS = 60000"

text \<open>The query's data: \<open>undefined\<close> before the first answer, \<open>null\<close> after a 404; \<open>false\<close> stops polling.\<close>

datatype 'a query_data = undefined_data | null_data | some_data 'a

definition liveSnapshotRefetchInterval :: "'a query_data \<Rightarrow> int option" where
  "liveSnapshotRefetchInterval d = (case d of null_data \<Rightarrow> None | _ \<Rightarrow> Some LIVE_SNAPSHOT_INTERVAL_MS)"

datatype LivePointFlow = produced | consumed | fed | fromGrid | toGrid

fun js_abs :: "jsnum \<Rightarrow> jsnum" where
  "js_abs NaN = NaN"
| "js_abs (Infty p) = Infty True"
| "js_abs (Fin a) = Fin \<bar>a\<bar>"

definition livePointFlow :: "LivePoint \<Rightarrow> (LivePointFlow \<times> jsnum) option" where
  "livePointFlow point =
     (case lp_meter_power_w point of
        None \<Rightarrow> None
      | Some watts \<Rightarrow>
          if js_eq (js_round (js_div watts (Fin 100))) (Fin 0) then None
          else let drawing = js_less (Fin 0) watts;
                   flow = (if lp_target point = target_connection_point then if drawing then fromGrid else toGrid
                           else if drawing then consumed
                           else if lp_meter_type point = Some mt_production then produced else fed)
               in Some (flow, js_abs watts))"

definition showLiveCard :: "LiveSnapshot option \<Rightarrow> bool" where
  "showLiveCard snapshot = (case snapshot of None \<Rightarrow> False | Some s \<Rightarrow> 0 < lc_live_sources (sn_coverage s))"

datatype own_split = split_shown | split_inconsistent | split_none

record LiveCardState =
  card_tier :: LiveTier
  card_detailed :: bool
  card_showProduction :: bool
  card_showExact :: bool
  card_ownConsumption :: bool
  card_ownProduction :: bool
  card_ownSplit :: own_split
  card_ownProductionSplit :: bool

definition liveCardState :: "LiveSnapshot option \<Rightarrow> LiveCardState option" where
  "liveCardState snapshot =
     (if \<not> showLiveCard snapshot then None
      else let s = the snapshot; tier = sn_tier s; exact = (tier = tier_exact);
               has = (\<lambda>f. case sn_own s of None \<Rightarrow> False | Some own \<Rightarrow> f own \<noteq> None);
               ownReady = (case sn_own s of None \<Rightarrow> False | Some own \<Rightarrow> lo_complete own);
               ownConsumption = (ownReady \<and> has lo_consumption_w);
               ownProduction = (ownReady \<and> has lo_production_w);
               inconsistent = (case sn_own s of None \<Rightarrow> False | Some own \<Rightarrow> lo_split_inconsistent own)
           in Some \<lparr>card_tier = tier,
                card_detailed = (sn_points s \<noteq> None),
                card_showProduction = (tier \<noteq> tier_none \<and> sn_production_w s \<noteq> None),
                card_showExact = exact,
                card_ownConsumption = ownConsumption,
                card_ownProduction = ownProduction,
                card_ownSplit =
                  (if exact \<and> ownReady
                   then if inconsistent then split_inconsistent
                        else if ownConsumption \<and> has lo_local_w \<and> has lo_grid_w then split_shown else split_none
                   else split_none),
                card_ownProductionSplit = (exact \<and> ownProduction \<and> has lo_to_zev_w \<and> has lo_to_grid_w)\<rparr>)"

record LiveCurveRow =
  lr_ts :: "instant option"
  lr_production :: "jsnum option"
  lr_consumption :: "jsnum option"
  lr_own :: "jsnum option"
  lr_ownProduction :: "jsnum option"

definition toKw :: "jsnum option \<Rightarrow> jsnum option" where
  "toKw watts = map_option (\<lambda>w. js_div w (Fin 1000)) watts"

definition liveCurveRows :: "(string \<Rightarrow> instant option) \<Rightarrow> LiveCurveBucket list \<Rightarrow> LiveCurveRow list" where
  "liveCurveRows dateParse buckets =
     map (\<lambda>b. let known = (lb_tier b \<noteq> tier_none)
          in \<lparr>lr_ts = dateParse (lb_start b),
              lr_production = (if known then toKw (lb_production_w b) else None),
              lr_consumption = (if lb_tier b = tier_exact then toKw (lb_consumption_w b) else None),
              lr_own = (if known then toKw (lb_own_consumption_w b) else None),
              lr_ownProduction = (if known then toKw (lb_own_production_w b) else None)\<rparr>) buckets"

text \<open>\<open>for (ts = start; ts <= end; ts += step)\<close> and its strict variant, on instants.\<close>

definition ticks_upto :: "int \<Rightarrow> int \<Rightarrow> int \<Rightarrow> int list" where
  "ticks_upto step start end =
     (if end < start then [] else map (\<lambda>k. start + step * int k) [0..<Suc (nat ((end - start) div step))])"

definition liveDayAxis :: "(instant \<Rightarrow> int) \<Rightarrow> string \<Rightarrow> instant option \<times> instant option \<times> instant list" where
  "liveDayAxis off isoDate =
     (let start = businessDayStartMs off isoDate; end = businessDayStartMs off (nextIsoDate isoDate)
      in (start, end, case (start, end) of (Some s, Some e) \<Rightarrow> ticks_upto 10800000 s e | _ \<Rightarrow> []))"

section \<open>My energy\<close>

datatype MyEnergyRange = mr_today | mr_tomorrow | mr_week | mr_period

fun range_str :: "MyEnergyRange \<Rightarrow> string" where
  "range_str mr_today = ''today''"
| "range_str mr_tomorrow = ''tomorrow''"
| "range_str mr_week = ''week''"
| "range_str mr_period = ''period''"

definition MY_ENERGY_RANGES :: "MyEnergyRange list" where
  "MY_ENERGY_RANGES = [mr_today, mr_tomorrow, mr_week, mr_period]"

definition MY_ENERGY_DEFAULT_RANGE :: MyEnergyRange where "MY_ENERGY_DEFAULT_RANGE = mr_today"

definition parseMyEnergyRange :: "string option \<Rightarrow> MyEnergyRange" where
  "parseMyEnergyRange v = nullish (find (\<lambda>r. v = Some (range_str r)) MY_ENERGY_RANGES) MY_ENERGY_DEFAULT_RANGE"

text \<open>\<open>toISOString\<close> throws on an invalid date: \<^const>\<open>None\<close>.\<close>

definition shiftIsoDate :: "string \<Rightarrow> int \<Rightarrow> string option" where
  "shiftIsoDate isoDate days =
     (case parse_day isoDate of None \<Rightarrow> None
      | Some d \<Rightarrow> if \<bar>d + days\<bar> \<le> 100000000 then Some (toISODate (d + days)) else None)"

definition lastDaysRange :: "string \<Rightarrow> int \<Rightarrow> (string \<times> string) option" where
  "lastDaysRange todayIso days = map_option (\<lambda>from. (from, todayIso)) (shiftIsoDate todayIso (- (days - 1)))"

definition showMyEnergyEntry :: "bool \<Rightarrow> bool \<Rightarrow> bool \<Rightarrow> bool \<Rightarrow> bool" where
  "showMyEnergyEntry liveEnabled energyDataOn isZevScope holdsHistoryMeter \<longleftrightarrow>
     liveEnabled \<or> (energyDataOn \<and> (isZevScope \<or> holdsHistoryMeter))"

record timeline_item =
  tl_bucket :: string
  tl_consumption_kwh :: jsnum
  tl_production_kwh :: jsnum

text \<open>Of a series, the timeline of its gross figures and the end of its history are read.\<close>

record own_series =
  os_timeline :: "timeline_item list option"
  os_history_through :: "string option"

definition ownHistoryFromSeries :: "own_series option \<Rightarrow> OwnHistoryRow list \<times> string option" where
  "ownHistoryFromSeries series =
     (map (\<lambda>item. \<lparr>oh_start = tl_bucket item, oh_consumption_w = js_mul (tl_consumption_kwh item) (Fin 4000),
            oh_production_w = js_mul (tl_production_kwh item) (Fin 4000)\<rparr>)
        (nullish (Option.bind series os_timeline) []),
      Option.bind series os_history_through)"

record ForecastHour =
  fh_start :: string
  fh_power_w :: jsnum
  fh_min_w :: "jsnum option"
  fh_max_w :: "jsnum option"

record TodayRow =
  tr_ts :: "instant option"
  tr_production :: "jsnum option"
  tr_consumption :: "jsnum option"
  tr_ownHistory :: "jsnum option"
  tr_ownHistoryProduction :: "jsnum option"
  tr_ownLive :: "jsnum option"
  tr_ownLiveProduction :: "jsnum option"
  tr_forecast :: "jsnum option"
  tr_forecastBand :: "(jsnum \<times> jsnum) option"

definition HISTORY_INTERVAL_MS :: int where "HISTORY_INTERVAL_MS = 900000"

definition LIVE_STEP_MS :: int where "LIVE_STEP_MS = 300000"

definition blankRow :: "instant option \<Rightarrow> TodayRow" where
  "blankRow ts = \<lparr>tr_ts = ts, tr_production = None, tr_consumption = None, tr_ownHistory = None,
     tr_ownHistoryProduction = None, tr_ownLive = None, tr_ownLiveProduction = None, tr_forecast = None,
     tr_forecastBand = None\<rparr>"

type_synonym rows = "(instant option \<times> TodayRow) list"

text \<open>\<open>row(ts)\<close> finds the row of an instant or makes a blank one; the caller then sets its fields.\<close>

definition on_row :: "instant option \<Rightarrow> (TodayRow \<Rightarrow> TodayRow) \<Rightarrow> rows \<Rightarrow> rows" where
  "on_row ts f m = AList.update ts (f (nullish (map_of m ts) (blankRow ts))) m"

text \<open>\<open>a >= b\<close> and \<open>a < b\<close> with \<open>NaN\<close>.\<close>

definition ts_ge :: "instant option \<Rightarrow> instant option \<Rightarrow> bool" where
  "ts_ge a b = (case (a, b) of (Some x, Some y) \<Rightarrow> y \<le> x | _ \<Rightarrow> False)"

text \<open>\<open>through\<close> is \<^const>\<open>None\<close> for \<open>null\<close>, else the instant it parses to.\<close>

definition add_live :: "instant option option \<Rightarrow> rows \<Rightarrow> LiveCurveRow \<Rightarrow> rows" where
  "add_live through m live =
     on_row (lr_ts live) (\<lambda>r.
       let r = r\<lparr>tr_production := lr_production live, tr_consumption := lr_consumption live\<rparr>
       in if (case through of None \<Rightarrow> True | Some t \<Rightarrow> ts_ge (lr_ts live) t)
          then r\<lparr>tr_ownLive := lr_own live, tr_ownLiveProduction := lr_ownProduction live\<rparr> else r) m"

definition steps_below :: "int \<Rightarrow> int \<Rightarrow> int \<Rightarrow> int list" where
  "steps_below step start end = ticks_upto step start (end - 1)"

definition kw :: "jsnum \<Rightarrow> jsnum" where
  "kw w = js_div w (Fin 1000)"

definition set_history :: "OwnHistoryRow \<Rightarrow> TodayRow \<Rightarrow> TodayRow" where
  "set_history item r = r\<lparr>tr_ownHistory := Some (kw (oh_consumption_w item)), tr_ownHistoryProduction := Some (kw (oh_production_w item))\<rparr>"

text \<open>The instants an interval is drawn at: every five minutes of its quarter hour, before \<open>through\<close>.\<close>

definition history_steps :: "instant option option \<Rightarrow> instant option \<Rightarrow> int list" where
  "history_steps through start =
     (case start of None \<Rightarrow> []
      | Some s \<Rightarrow> (case through of
          None \<Rightarrow> steps_below LIVE_STEP_MS s (s + HISTORY_INTERVAL_MS)
        | Some None \<Rightarrow> []
        | Some (Some t) \<Rightarrow> takeWhile (\<lambda>ts. ts < t) (steps_below LIVE_STEP_MS s (s + HISTORY_INTERVAL_MS))))"

definition add_history ::
    "(string \<Rightarrow> instant option) \<Rightarrow> instant option option \<Rightarrow> rows \<times> OwnHistoryRow option \<Rightarrow> OwnHistoryRow \<Rightarrow> rows \<times> OwnHistoryRow option" where
  "add_history dateParse through st item =
     (let (m, latest) = st; start = dateParse (oh_start item)
      in if (case through of None \<Rightarrow> False | Some t \<Rightarrow> ts_ge start t) then st
         else (foldl (\<lambda>m ts. on_row (Some ts) (set_history item) m) m (history_steps through start),
               case latest of None \<Rightarrow> Some item
               | Some l \<Rightarrow> (case (start, dateParse (oh_start l)) of
                   (Some s, Some p) \<Rightarrow> if p < s then Some item else latest | _ \<Rightarrow> latest)))"

definition band_of :: "ForecastHour \<Rightarrow> (jsnum \<times> jsnum) option" where
  "band_of hour = (case (fh_min_w hour, fh_max_w hour) of (Some a, Some b) \<Rightarrow> Some (kw a, kw b) | _ \<Rightarrow> None)"

text \<open>A comparison with a bound that is \<open>NaN\<close> is false, so nothing is skipped then.\<close>

definition add_forecast_hour ::
    "(string \<Rightarrow> instant option) \<Rightarrow> instant option \<Rightarrow> instant option \<Rightarrow> rows \<Rightarrow> ForecastHour \<Rightarrow> rows" where
  "add_forecast_hour dateParse dayStart dayEnd m hour =
     (case dateParse (fh_start hour) of None \<Rightarrow> m
      | Some s \<Rightarrow>
          foldl (\<lambda>m ts. on_row (Some ts) (\<lambda>r. r\<lparr>tr_forecast := Some (kw (fh_power_w hour)), tr_forecastBand := band_of hour\<rparr>) m) m
            (filter (\<lambda>ts. \<not> ((case dayStart of None \<Rightarrow> False | Some a \<Rightarrow> ts < a) \<or> ts_ge (Some ts) dayEnd))
              (steps_below LIVE_STEP_MS s (s + 3600000))))"

definition todayRows ::
    "(string \<Rightarrow> instant option) \<Rightarrow> (instant \<Rightarrow> int) \<Rightarrow> LiveCurve option \<Rightarrow> OwnHistoryRow list \<Rightarrow> string option
      \<Rightarrow> (string \<times> ForecastHour list) option \<Rightarrow> TodayRow list" where
  "todayRows dateParse off curve history through forecast =
     (let throughMs = (if truthy through then Some (dateParse (the through)) else None);
          m1 = foldl (add_live throughMs) [] (liveCurveRows dateParse (case curve of None \<Rightarrow> [] | Some c \<Rightarrow> cu_buckets c));
          (m2, latest) = foldl (add_history dateParse throughMs) (m1, None) history;
          m3 = (case forecast of None \<Rightarrow> m2
            | Some (date, hours) \<Rightarrow>
                foldl (add_forecast_hour dateParse (businessDayStartMs off date) (businessDayStartMs off (nextIsoDate date))) m2 hours);
          m4 = (case (throughMs, latest) of (Some t, Some l) \<Rightarrow> on_row t (set_history l) m3 | _ \<Rightarrow> m3)
      in sort_by (\<lambda>a b. case (tr_ts a, tr_ts b) of (Some x, Some y) \<Rightarrow> x \<le> y | _ \<Rightarrow> True) (map snd m4))"

section \<open>The forecast\<close>

record ForecastPeakWindow =
  pk_date :: string
  pk_from :: string
  pk_to :: string
  pk_peak_w :: jsnum

record plant_forecast =
  pf_metering_point_id :: string
  pf_meter_id :: string
  pf_hours :: "ForecastHour list"

record ProductionForecast =
  fc_zev_id :: string
  fc_horizon_h :: jsnum
  fc_complete :: bool
  fc_plants :: int
  fc_plants_with_forecast :: int
  fc_fetched_at :: "string option"
  fc_hours :: "ForecastHour list"
  fc_peak_windows :: "ForecastPeakWindow list"
  fc_per_plant :: "plant_forecast list option"

definition FORECAST_INTERVAL_MS :: int where "FORECAST_INTERVAL_MS = 15 * 60000"

record ForecastRow =
  fr_ts :: "instant option"
  fr_power :: jsnum
  fr_band :: "(jsnum \<times> jsnum) option"

definition forecastRows :: "(string \<Rightarrow> instant option) \<Rightarrow> ForecastHour list \<Rightarrow> ForecastRow list" where
  "forecastRows dateParse hours =
     map (\<lambda>hour. \<lparr>fr_ts = dateParse (fh_start hour), fr_power = kw (fh_power_w hour), fr_band = band_of hour\<rparr>) hours"

definition hasForecast :: "ProductionForecast option \<Rightarrow> bool" where
  "hasForecast forecast =
     (case forecast of None \<Rightarrow> False | Some f \<Rightarrow> 0 < fc_plants_with_forecast f \<and> 0 < length (fc_hours f))"

definition nextPeakWindow :: "(string \<Rightarrow> instant option) \<Rightarrow> ForecastPeakWindow list \<Rightarrow> instant \<Rightarrow> ForecastPeakWindow option" where
  "nextPeakWindow dateParse windows now =
     find (\<lambda>w. case dateParse (pk_to w) of None \<Rightarrow> False | Some t \<Rightarrow> now < t) windows"

datatype peak_day = pd_today | pd_tomorrow | pd_date

definition peakDayKind :: "(instant \<Rightarrow> int) \<Rightarrow> ForecastPeakWindow \<Rightarrow> instant \<Rightarrow> peak_day" where
  "peakDayKind off w now =
     (if pk_date w = formatBusinessIsoDate off now then pd_today
      else if pk_date w = formatBusinessIsoDate off (now + 24 * 3600000) then pd_tomorrow else pd_date)"

text \<open>\<open>hh:mm\<close> of an instant in the business time zone.\<close>

definition formatClockMinutes :: "(instant \<Rightarrow> int) \<Rightarrow> instant \<Rightarrow> string" where
  "formatClockMinutes off t =
     (let p = zonedParts off t
      in padStart 2 (CHR ''0'') (int_str (zp_hours p)) @ '':'' @ padStart 2 (CHR ''0'') (int_str (zp_minutes p)))"

text \<open>\<^const>\<open>None\<close>: the formatter throws on an invalid date.\<close>

definition peakRange :: "(string \<Rightarrow> instant option) \<Rightarrow> (instant \<Rightarrow> int) \<Rightarrow> ForecastPeakWindow \<Rightarrow> string option" where
  "peakRange dateParse off w =
     (case (dateParse (pk_from w), dateParse (pk_to w)) of
        (Some a, Some b) \<Rightarrow> Some (formatClockMinutes off a @ en_dash @ formatClockMinutes off b)
      | _ \<Rightarrow> None)"

definition tomorrowBusinessIso :: "(instant \<Rightarrow> int) \<Rightarrow> instant \<Rightarrow> string option" where
  "tomorrowBusinessIso off now = shiftIsoDate (todayBusinessIso off now) 1"

text \<open>An hour with an unreadable start formats as \<open>NaN-NaN-NaN\<close>.\<close>

definition hoursOfDay :: "(string \<Rightarrow> instant option) \<Rightarrow> (instant \<Rightarrow> int) \<Rightarrow> ForecastHour list \<Rightarrow> string \<Rightarrow> ForecastHour list" where
  "hoursOfDay dateParse off hours isoDate =
     filter (\<lambda>hour. (case dateParse (fh_start hour) of None \<Rightarrow> ''NaN-NaN-NaN'' | Some t \<Rightarrow> formatBusinessIsoDate off t) = isoDate) hours"

definition forecastForDay ::
    "(string \<Rightarrow> instant option) \<Rightarrow> (instant \<Rightarrow> int) \<Rightarrow> ProductionForecast \<Rightarrow> string \<Rightarrow> ProductionForecast" where
  "forecastForDay dateParse off forecast isoDate =
     forecast\<lparr>fc_hours := hoursOfDay dateParse off (fc_hours forecast) isoDate,
       fc_peak_windows := filter (\<lambda>w. pk_date w = isoDate) (fc_peak_windows forecast), fc_per_plant := None\<rparr>"

definition hasExpectedProduction ::
    "(string \<Rightarrow> instant option) \<Rightarrow> (instant \<Rightarrow> int) \<Rightarrow> ProductionForecast option \<Rightarrow> string \<Rightarrow> bool" where
  "hasExpectedProduction dateParse off forecast isoDate \<longleftrightarrow>
     hasForecast forecast \<and> list_ex (\<lambda>hour. js_less (Fin 0) (fh_power_w hour)) (hoursOfDay dateParse off (fc_hours (the forecast)) isoDate)"

section \<open>Roof planes\<close>

definition maxKwp :: jsnum where "maxKwp = Fin 10000"

record PlaneDraft =
  pl_label :: string
  pl_kwp :: string
  pl_tilt :: string
  pl_azimuth :: string

record PvPlaneInput =
  pv_label :: string
  pv_peak_power_kwp :: string
  pv_tilt_deg :: jsnum
  pv_azimuth_deg :: jsnum

definition int_in :: "jsnum \<Rightarrow> int \<Rightarrow> int \<Rightarrow> bool" where
  "int_in x lo hi = (case num_int x of None \<Rightarrow> False | Some n \<Rightarrow> \<not> (n < lo \<or> hi < n))"

definition planeFieldProblems :: "PlaneDraft \<Rightarrow> string list" where
  "planeFieldProblems draft =
     (let k = js_Number (pl_kwp draft)
      in (if trim (pl_kwp draft) = [] \<or> \<not> js_isFinite k \<or> js_less k (js_Number ''0.01'') \<or> js_less maxKwp k then [''kwp''] else [])
         @ (if trim (pl_tilt draft) = [] \<or> \<not> int_in (js_Number (pl_tilt draft)) 0 90 then [''tilt''] else [])
         @ (if trim (pl_azimuth draft) = [] \<or> \<not> int_in (js_Number (pl_azimuth draft)) (- 180) 180 then [''azimuth''] else []))"

definition planeInput :: "PlaneDraft \<Rightarrow> PvPlaneInput option" where
  "planeInput draft =
     (if 0 < length (planeFieldProblems draft) then None
      else Some \<lparr>pv_label = trim (pl_label draft), pv_peak_power_kwp = to_fixed 2 (js_Number (pl_kwp draft)),
                 pv_tilt_deg = js_Number (pl_tilt draft), pv_azimuth_deg = js_Number (pl_azimuth draft)\<rparr>)"

definition DIRECTION_KEYS :: "string list" where
  "DIRECTION_KEYS = map (\<lambda>d. ''pages.meteringPoints.planes.direction.'' @ d)
     [''south'', ''southWest'', ''west'', ''northWest'', ''north'', ''northEast'', ''east'', ''southEast'']"

text \<open>On whole degrees, which is what a plane holds; the quotient is never half-way, so it rounds exactly.\<close>

definition azimuthLabelKey :: "int \<Rightarrow> string" where
  "azimuthLabelKey azimuth =
     (let normalised = (azimuth mod 360 + 360) mod 360
      in DIRECTION_KEYS ! nat (\<lfloor>of_int normalised / 45 + 1 / 2 :: rat\<rfloor> mod 8))"

datatype coordinate = coordinate_missing | coordinate_invalid | coordinate_text string

fun comma_to_point :: "string \<Rightarrow> string" where
  "comma_to_point [] = []"
| "comma_to_point (c # cs) = (if c = CHR '','' then CHR ''.'' # cs else c # comma_to_point cs)"

definition coordinateInput :: "string \<Rightarrow> jsnum \<Rightarrow> coordinate" where
  "coordinateInput text limit =
     (let trimmed = comma_to_point (trim text); v = js_Number trimmed
      in if trimmed = [] then coordinate_missing
         else if \<not> js_isFinite v \<or> js_less limit (js_abs v) then coordinate_invalid
         else coordinate_text (to_fixed 5 v))"

section \<open>The chart of the day\<close>

text \<open>What holds of a row when the own source has history up to the instant \<open>t\<close>.\<close>

definition row_ok :: "instant \<Rightarrow> instant option \<Rightarrow> TodayRow \<Rightarrow> bool" where
  "row_ok t ts r \<longleftrightarrow> tr_ts r = ts
     \<and> (tr_ownLive r \<noteq> None \<or> tr_ownLiveProduction r \<noteq> None \<longrightarrow> ts_ge ts (Some t))
     \<and> (tr_ownHistory r \<noteq> None \<or> tr_ownHistoryProduction r \<noteq> None \<longrightarrow> ts_ge (Some t) ts)"

definition rows_ok :: "instant \<Rightarrow> rows \<Rightarrow> bool" where
  "rows_ok t m \<longleftrightarrow> distinct (map fst m) \<and> (\<forall>e \<in> set m. row_ok t (fst e) (snd e))"

lemma row_ok_blank [simp]: "row_ok t ts (blankRow ts)"
  by (simp add: row_ok_def blankRow_def)

lemma rows_ok_on_row:
  assumes "rows_ok t m" "\<And>r. row_ok t ts r \<Longrightarrow> row_ok t ts (f r)"
  shows "rows_ok t (on_row ts f m)"
proof -
  have "row_ok t ts (nullish (map_of m ts) (blankRow ts))"
  proof (cases "map_of m ts")
    case (Some r)
    then have "(ts, r) \<in> set m" by (rule map_of_SomeD)
    then have "row_ok t (fst (ts, r)) (snd (ts, r))" using assms(1) unfolding rows_ok_def by blast
    then show ?thesis using Some by simp
  qed simp
  then have new: "row_ok t ts (f (nullish (map_of m ts) (blankRow ts)))" by (rule assms(2))
  have sub: "set (AList.update ts v m) \<subseteq> insert (ts, v) (set m)" for v by (induction m) auto
  have "row_ok t (fst e) (snd e)" if "e \<in> set (on_row ts f m)" for e
    using that sub new assms(1) unfolding on_row_def rows_ok_def by fastforce
  then show ?thesis using assms(1) by (simp add: rows_ok_def on_row_def distinct_update)
qed

lemma rows_ok_foldl_on_row:
  assumes "rows_ok t m" "\<And>ts r. ts \<in> set tss \<Longrightarrow> row_ok t (Some ts) r \<Longrightarrow> row_ok t (Some ts) (f r)"
  shows "rows_ok t (foldl (\<lambda>m ts. on_row (Some ts) f m) m tss)"
  using assms by (induction tss arbitrary: m) (simp_all add: rows_ok_on_row)

lemma rows_ok_live: "rows_ok t m \<Longrightarrow> rows_ok t (add_live (Some (Some t)) m live)"
  unfolding add_live_def by (rule rows_ok_on_row) (auto simp: row_ok_def Let_def)

lemma history_steps_before: "ts \<in> set (history_steps (Some (Some t)) start) \<Longrightarrow> ts < t"
  by (auto simp: history_steps_def split: option.splits dest: set_takeWhileD)

lemma rows_ok_history: "rows_ok t (fst st) \<Longrightarrow> rows_ok t (fst (add_history dp (Some (Some t)) st item))"
proof -
  assume ok: "rows_ok t (fst st)"
  have "rows_ok t (foldl (\<lambda>m ts. on_row (Some ts) (set_history item) m) (fst st) (history_steps (Some (Some t)) start))" for start
    using ok by (rule rows_ok_foldl_on_row)
      (auto simp: row_ok_def set_history_def ts_ge_def dest: history_steps_before)
  then show ?thesis using ok by (simp add: add_history_def case_prod_beta Let_def)
qed

lemma rows_ok_forecast: "rows_ok t m \<Longrightarrow> rows_ok t (add_forecast_hour dp a b m hour)"
  unfolding add_forecast_hour_def
  by (cases "dp (fh_start hour)") (auto simp: row_ok_def intro!: rows_ok_foldl_on_row)

lemma foldl_keeps: "P a \<Longrightarrow> (\<And>a x. P a \<Longrightarrow> P (f a x)) \<Longrightarrow> P (foldl f a xs)"
  by (induction xs arbitrary: a) simp_all

text \<open>
  C28: on the chart of the day history and live readings never overlap: no live value of the own system
  is shown before the instant its stored history reaches, and no history after it; each instant has
  one row, and the rows are in the order of time.
\<close>

theorem today_rows_hand_over:
  assumes "through = Some s" "s \<noteq> []" "dateParse s = Some t"
    and "result = todayRows dateParse off curve history through forecast"
  shows "(\<forall>r \<in> set result. row_ok t (tr_ts r) r) \<and> distinct (map tr_ts result)
    \<and> ((\<forall>r \<in> set result. tr_ts r \<noteq> None) \<longrightarrow> sorted (map (\<lambda>r. the (tr_ts r)) result))"
proof -
  let ?le = "\<lambda>a b. case (tr_ts a, tr_ts b) of (Some x, Some y) \<Rightarrow> x \<le> y | _ \<Rightarrow> True"
  define m1 where "m1 = foldl (add_live (Some (Some t))) [] (liveCurveRows dateParse (case curve of None \<Rightarrow> [] | Some c \<Rightarrow> cu_buckets c))"
  define h where "h = foldl (add_history dateParse (Some (Some t))) (m1, None) history"
  define m3 where "m3 = (case forecast of None \<Rightarrow> fst h
            | Some (date, hours) \<Rightarrow>
                foldl (add_forecast_hour dateParse (businessDayStartMs off date) (businessDayStartMs off (nextIsoDate date))) (fst h) hours)"
  define m4 where "m4 = (case snd h of None \<Rightarrow> m3 | Some l \<Rightarrow> on_row (Some t) (set_history l) m3)"
  have th: "(if truthy through then Some (dateParse (the through)) else None) = Some (Some t)"
    using assms(1-3) by simp
  have res: "result = sort_by ?le (map snd m4)"
    unfolding assms(4) todayRows_def th Let_def m4_def m3_def h_def m1_def
    by (simp only: case_prod_beta prod.case option.case fst_conv snd_conv)
  have "rows_ok t m1" unfolding m1_def by (rule foldl_keeps) (simp_all add: rows_ok_def [of _ "[]"] rows_ok_live)
  then have "rows_ok t (fst h)" unfolding h_def by (intro foldl_keeps [where P = "\<lambda>st. rows_ok t (fst st)"] rows_ok_history) simp_all
  then have "rows_ok t m3" unfolding m3_def by (auto split: option.splits intro!: foldl_keeps rows_ok_forecast)
  then have ok: "rows_ok t m4" unfolding m4_def
    by (auto split: option.splits intro!: rows_ok_on_row simp: row_ok_def set_history_def ts_ge_def)
  have keys: "map tr_ts (map snd m4) = map fst m4" using ok by (auto simp: rows_ok_def row_ok_def)
  have "distinct (map tr_ts (map snd m4))" unfolding keys using ok by (simp add: rows_ok_def)
  moreover have "mset (map tr_ts result) = mset (map tr_ts (map snd m4))"
    unfolding res by (simp only: mset_map mset_sort_by)
  ultimately have d: "distinct (map tr_ts result)" using mset_eq_imp_distinct_iff by blast
  have each: "\<forall>r \<in> set result. row_ok t (tr_ts r) r"
    using ok unfolding res by (auto simp: rows_ok_def row_ok_def)
  have "sorted (map (\<lambda>r. the (tr_ts r)) result)" if "\<forall>r \<in> set result. tr_ts r \<noteq> None"
  proof -
    have "x \<in> set result" if "x \<in> set (map snd m4)" for x using that unfolding res by simp
    then have some: "\<exists>t. tr_ts x = Some t" if "x \<in> set (map snd m4)" for x
      using that \<open>\<forall>r \<in> set result. tr_ts r \<noteq> None\<close> by blast
    have "sort_by (\<le>) (map (\<lambda>r. the (tr_ts r)) (map snd m4)) = map (\<lambda>r. the (tr_ts r)) (sort_by ?le (map snd m4))"
    proof (rule sort_by_map)
      fix x y
      assume "x \<in> set (map snd m4)" "y \<in> set (map snd m4)"
      then obtain a b where "tr_ts x = Some a" "tr_ts y = Some b" using some by blast
      then show "(the (tr_ts x) \<le> the (tr_ts y)) = ?le x y" by simp
    qed
    moreover have "sorted_wrt (\<le>) (sort_by (\<le>) (map (\<lambda>r. the (tr_ts r)) (map snd m4)))"
      by (rule sorted_sort_by) (auto intro: transpI totalpI reflpI)
    ultimately show ?thesis unfolding res by simp
  qed
  then show ?thesis using each d by blast
qed

theorem today_rows_hand_over_witness:
  "list_all (\<lambda>r. row_ok 900000 (tr_ts r) r)
     (todayRows (\<lambda>s. if s = ''a'' then Some 0 else Some 900000) (\<lambda>_. 0) None
       [\<lparr>oh_start = ''a'', oh_consumption_w = Fin 500, oh_production_w = Fin 0\<rparr>] (Some ''b'') None)"
  using today_rows_hand_over [where through = "Some ''b''" and s = "''b''" and t = 900000
      and dateParse = "\<lambda>s. if s = ''a'' then Some 0 else Some 900000", OF refl _ _ refl]
  by (simp add: list_all_iff)

end
