(* ===== verification/Documents.thy ===== *)
theory Documents
  imports JS_Text Overview Invoices
begin

text \<open>
  Delivered documents and one-off charges: \<open>frontend/src/features/inbox/documentPresentation.ts\<close>
  (less the icons) and \<open>features/charges/chargeForm.ts\<close> with the records of \<open>types/api.ts\<close> they use.
  Translation, date formatting and lower-casing are arguments.

  The theorems: the outbox shows every document once and a delivery to many as one line, and a charge is
  sent only when its form is complete and with the bearers its allocation asks for.
\<close>

section \<open>Documents\<close>

datatype DocumentKind = dk_invoice | dk_contract | dk_annual_statement | dk_financial_summary
  | dk_tariff_overview | dk_credit_note | dk_operator

fun kind_name :: "DocumentKind \<Rightarrow> string" where
  "kind_name dk_invoice = ''invoice''"
| "kind_name dk_contract = ''contract''"
| "kind_name dk_annual_statement = ''annual_statement''"
| "kind_name dk_financial_summary = ''financial_summary''"
| "kind_name dk_tariff_overview = ''tariff_overview''"
| "kind_name dk_credit_note = ''credit_note''"
| "kind_name dk_operator = ''operator''"

definition DOCUMENT_KINDS :: "DocumentKind list" where
  "DOCUMENT_KINDS = [dk_invoice, dk_credit_note, dk_annual_statement, dk_financial_summary, dk_tariff_overview,
     dk_contract, dk_operator]"

record InvoiceFigures =
  if_status :: string
  if_due_date :: "string option"
  if_total_chf :: string
  if_credit_applied_chf :: string
  if_amount_due_chf :: string
  if_paid_chf :: string
  if_outstanding_chf :: string
  if_open_data_impact_count :: int

record CreditFigures =
  cf_amount_chf :: string
  cf_remaining_chf :: string
  cf_status :: CreditStatus
  cf_source_invoice_number :: "string option"
  cf_applied_to :: "(string \<times> string) list"

record DeliveredDocument =
  dd_id :: string
  dd_zev :: "string option"
  dd_zev_name :: string
  dd_participant :: "string option"
  dd_participant_name :: "string option"
  dd_kind :: DocumentKind
  dd_title :: string
  dd_document_number :: string
  dd_period_start :: "string option"
  dd_period_end :: "string option"
  dd_file_name :: string
  dd_size_bytes :: "int option"
  dd_sha256 :: string
  dd_delivered_at :: string
  dd_delivered_by_name :: "string option"
  dd_superseded_at :: "string option"
  dd_superseded_by :: "string option"
  dd_withdrawn_at :: "string option"
  dd_batch_id :: "string option"
  dd_invoice :: "string option"
  dd_invoice_status :: "string option"
  dd_invoice_figures :: "InvoiceFigures option"
  dd_credit_figures :: "CreditFigures option"
  dd_contract_issue :: "string option"

datatype DocumentStanding = withdrawn | doc_cancelled | superseded

definition documentStanding :: "DeliveredDocument \<Rightarrow> DocumentStanding option" where
  "documentStanding doc =
     (if truthy (dd_withdrawn_at doc) then Some withdrawn
      else if dd_invoice_status doc = Some ''cancelled'' then Some doc_cancelled
      else if truthy (dd_superseded_at doc) then Some superseded
      else None)"

definition documentYear :: "DeliveredDocument \<Rightarrow> jsnum" where
  "documentYear doc = js_Number (take 4 (nullish (dd_period_start doc) (dd_delivered_at doc)))"

definition BROADCAST_KINDS :: "DocumentKind list" where
  "BROADCAST_KINDS = [dk_operator, dk_tariff_overview]"

record OutboxEntry =
  oe_key :: string
  oe_documents :: "DeliveredDocument list"

definition is_broadcast :: "DeliveredDocument \<Rightarrow> bool" where
  "is_broadcast doc \<longleftrightarrow> truthy (dd_batch_id doc) \<and> dd_kind doc \<in> set BROADCAST_KINDS"

definition batch_key :: "DeliveredDocument \<Rightarrow> string" where
  "batch_key doc = kind_name (dd_kind doc) @ '':'' @ nullish (dd_batch_id doc) []"

text \<open>The entries in order, each with whether the map \<open>batches\<close> holds it too.\<close>

definition add_document :: "(bool \<times> OutboxEntry) list \<Rightarrow> DeliveredDocument \<Rightarrow> (bool \<times> OutboxEntry) list" where
  "add_document entries doc =
     (if is_broadcast doc
      then update_first (\<lambda>e. fst e \<and> oe_key (snd e) = batch_key doc)
             (\<lambda>e. (fst e, (snd e)\<lparr>oe_documents := oe_documents (snd e) @ [doc]\<rparr>))
             (True, \<lparr>oe_key = batch_key doc, oe_documents = [doc]\<rparr>) entries
      else entries @ [(False, \<lparr>oe_key = dd_id doc, oe_documents = [doc]\<rparr>)])"

definition groupOutbox :: "DeliveredDocument list \<Rightarrow> OutboxEntry list" where
  "groupOutbox documents = map snd (foldl add_document [] documents)"

definition countByKind :: "DeliveredDocument list \<Rightarrow> (DocumentKind \<times> nat) list" where
  "countByKind documents =
     foldl (\<lambda>counts doc. map (\<lambda>(k, n). (k, if k = dd_kind doc then n + 1 else n)) counts)
       (map (\<lambda>k. (k, 0)) DOCUMENT_KINDS) documents"

definition formatFileSize :: "int option \<Rightarrow> string" where
  "formatFileSize bytes =
     (case bytes of None \<Rightarrow> []
      | Some b \<Rightarrow>
          if b < 1024 then int_str b @ '' B''
          else if b < 1024 * 1024 then num_str (js_round (js_div (Fin (of_int b)) (Fin 1024))) @ '' KB''
          else to_fixed 1 (js_div (Fin (of_int b)) (Fin (1024 * 1024))) @ '' MB'')"

definition MAX_DOCUMENT_BYTES :: int where
  "MAX_DOCUMENT_BYTES = 10 * 1024 * 1024"

datatype UploadFileProblem = up_empty | tooLarge | notPdf

definition uploadFileProblem :: "(string \<Rightarrow> string) \<Rightarrow> string \<Rightarrow> int \<Rightarrow> string \<Rightarrow> UploadFileProblem option" where
  "uploadFileProblem lower name bytes mime =
     (if bytes = 0 then Some up_empty
      else if MAX_DOCUMENT_BYTES < bytes then Some tooLarge
      else if mime \<noteq> ''application/pdf'' \<and> \<not> ends_with ''.pdf'' (lower name) then Some notPdf
      else None)"

section \<open>The outbox\<close>

definition entry_fits :: "bool \<times> OutboxEntry \<Rightarrow> bool" where
  "entry_fits e \<longleftrightarrow> oe_documents (snd e) \<noteq> [] \<and>
     (if fst e then list_all (\<lambda>d. is_broadcast d \<and> batch_key d = oe_key (snd e)) (oe_documents (snd e))
      else length (oe_documents (snd e)) = 1 \<and> \<not> is_broadcast (hd (oe_documents (snd e))))"

lemma add_document_fits: "list_all entry_fits es \<Longrightarrow> list_all entry_fits (add_document es d)"
  by (auto simp: add_document_def entry_fits_def intro!: update_first_all)

lemma add_document_mset:
  "sum_list (map (\<lambda>e. mset (oe_documents (snd e))) (add_document es d))
     = sum_list (map (\<lambda>e. mset (oe_documents (snd e))) es) + {#d#}"
  by (auto simp: add_document_def mset_update_first [where d = "{#d#}"])

definition batch_keys :: "(bool \<times> OutboxEntry) list \<Rightarrow> string list" where
  "batch_keys es = map (\<lambda>e. oe_key (snd e)) (filter fst es)"

lemma batch_keys_simps [simp]:
  "batch_keys [] = []" "batch_keys (e # es) = (if fst e then oe_key (snd e) # batch_keys es else batch_keys es)"
  "batch_keys (es @ fs) = batch_keys es @ batch_keys fs"
  by (simp_all add: batch_keys_def)

lemma batch_keys_update:
  "set (batch_keys (update_first (\<lambda>e. fst e \<and> oe_key (snd e) = k)
      (\<lambda>e. (fst e, (snd e)\<lparr>oe_documents := oe_documents (snd e) @ [d]\<rparr>)) (True, \<lparr>oe_key = k, oe_documents = ds\<rparr>) es))
     = insert k (set (batch_keys es))
   \<and> (distinct (batch_keys es) \<longrightarrow> distinct (batch_keys (update_first (\<lambda>e. fst e \<and> oe_key (snd e) = k)
      (\<lambda>e. (fst e, (snd e)\<lparr>oe_documents := oe_documents (snd e) @ [d]\<rparr>)) (True, \<lparr>oe_key = k, oe_documents = ds\<rparr>) es)))"
  by (induction es) auto

lemma add_document_keys: "distinct (batch_keys es) \<Longrightarrow> distinct (batch_keys (add_document es d))"
  by (simp add: add_document_def batch_keys_update)

text \<open>
  The outbox loses nothing and repeats nothing: every document is on exactly one line, a line is
  either a single document or one delivery of a notice or tariff overview, and no delivery is spread
  over two lines.
\<close>

theorem outbox_partition:
  "\<exists>marked. groupOutbox documents = map snd marked
    \<and> sum_list (map (\<lambda>e. mset (oe_documents e)) (groupOutbox documents)) = mset documents
    \<and> list_all entry_fits marked \<and> distinct (batch_keys marked)"
proof -
  have "sum_list (map (\<lambda>e. mset (oe_documents (snd e))) (foldl add_document es ds))
      = sum_list (map (\<lambda>e. mset (oe_documents (snd e))) es) + mset ds
    \<and> (list_all entry_fits es \<longrightarrow> list_all entry_fits (foldl add_document es ds))
    \<and> (distinct (batch_keys es) \<longrightarrow> distinct (batch_keys (foldl add_document es ds)))" for es ds
    by (induction ds arbitrary: es) (simp_all add: add_document_fits add_document_mset add_document_keys)
  from this [of "[]" documents] show ?thesis
    by (intro exI [of _ "foldl add_document [] documents"]) (simp add: groupOutbox_def comp_def)
qed

section \<open>Charges\<close>

datatype ChargeAllocation = all_participants | selected_participants

datatype ChargeSplitKey = charge_equal | charge_weight

datatype ChargeVatTreatment = taxable | pass_through

record Charge =
  ch_id :: string
  ch_zev :: string
  ch_description :: string
  ch_amount_chf :: string
  ch_charge_date :: string
  ch_allocation :: ChargeAllocation
  ch_split_key :: ChargeSplitKey
  ch_vat_treatment :: ChargeVatTreatment
  ch_participants :: "string list"
  ch_is_locked :: bool
  ch_created_at :: string
  ch_updated_at :: string

record ChargeInput =
  ci_zev :: string
  ci_description :: string
  ci_amount_chf :: string
  ci_charge_date :: string
  ci_allocation :: ChargeAllocation
  ci_split_key :: ChargeSplitKey
  ci_vat_treatment :: ChargeVatTreatment
  ci_participants :: "string list"

record ChargeFormValues =
  cv_description :: string
  cv_amount :: string
  cv_chargeDate :: "string option"
  cv_allocation :: ChargeAllocation
  cv_participants :: "string list"
  cv_splitKey :: ChargeSplitKey
  cv_vatTreatment :: ChargeVatTreatment

definition emptyChargeValues :: "string \<Rightarrow> ChargeFormValues" where
  "emptyChargeValues today =
     \<lparr>cv_description = [], cv_amount = [], cv_chargeDate = Some today, cv_allocation = all_participants,
      cv_participants = [], cv_splitKey = charge_equal, cv_vatTreatment = taxable\<rparr>"

definition chargeToValues :: "Charge \<Rightarrow> ChargeFormValues" where
  "chargeToValues c =
     \<lparr>cv_description = ch_description c, cv_amount = ch_amount_chf c, cv_chargeDate = Some (ch_charge_date c),
      cv_allocation = ch_allocation c, cv_participants = ch_participants c, cv_splitKey = ch_split_key c,
      cv_vatTreatment = ch_vat_treatment c\<rparr>"

record ChargeFieldErrors =
  er_description :: bool
  er_amount :: bool
  er_chargeDate :: bool
  er_participants :: bool

definition chargeFieldErrors :: "ChargeFormValues \<Rightarrow> ChargeFieldErrors" where
  "chargeFieldErrors v =
     \<lparr>er_description = (trim (cv_description v) = []), er_amount = (\<not> js_less (Fin 0) (js_Number (cv_amount v))),
      er_chargeDate = (\<not> truthy (cv_chargeDate v)),
      er_participants = (cv_allocation v = selected_participants \<and> length (cv_participants v) = 0)\<rparr>"

definition has_errors :: "ChargeFieldErrors \<Rightarrow> bool" where
  "has_errors e \<longleftrightarrow> er_description e \<or> er_amount e \<or> er_chargeDate e \<or> er_participants e"

definition chargeInputFrom :: "ChargeFormValues \<Rightarrow> string \<Rightarrow> ChargeInput option" where
  "chargeInputFrom v zevId =
     (if has_errors (chargeFieldErrors v) \<or> \<not> truthy (cv_chargeDate v) then None
      else Some \<lparr>ci_zev = zevId, ci_description = trim (cv_description v),
        ci_amount_chf = to_fixed 2 (js_Number (cv_amount v)), ci_charge_date = the (cv_chargeDate v),
        ci_allocation = cv_allocation v, ci_split_key = cv_splitKey v, ci_vat_treatment = cv_vatTreatment v,
        ci_participants = (if cv_allocation v = selected_participants then cv_participants v else [])\<rparr>)"

definition bearersLabel ::
    "ChargeAllocation \<Rightarrow> string list \<Rightarrow> (string \<times> string) list \<Rightarrow> (string \<Rightarrow> (string \<times> tvar) list \<Rightarrow> string) \<Rightarrow> string" where
  "bearersLabel allocation participants names t =
     (if allocation = all_participants then t ''pages.charges.bearers.all'' []
      else if length participants = 1 then nullish (map_of names (hd participants)) (t ''pages.charges.bearers.one'' [])
      else t ''pages.charges.bearers.selected'' [(''count'', VNum (int (length participants)))])"

definition clampDate :: "string \<Rightarrow> string \<Rightarrow> string \<Rightarrow> string" where
  "clampDate day lo hi = (if day < lo then lo else if day > hi then hi else day)"

text \<open>The fields of a participant and its meters the labels are made of.\<close>

record label_meter =
  lm_meter_id :: string
  lm_location_description :: "string option"

record label_participant =
  pa_id :: string
  pa_party :: "string option"
  pa_display_name :: "string option"
  pa_full_name :: "string option"
  pa_valid_from :: string
  pa_valid_to :: "string option"
  pa_metering_points :: "label_meter list option"

definition nameOf :: "label_participant \<Rightarrow> string" where
  "nameOf p = or_str (pa_display_name p) (or_str (pa_full_name p) [])"

definition partyOf :: "label_participant \<Rightarrow> string" where
  "partyOf p = nullish (pa_party p) (pa_id p)"

definition partySize :: "label_participant list \<Rightarrow> string \<Rightarrow> nat" where
  "partySize ps party = length (filter (\<lambda>p. partyOf p = party) ps)"

definition meter_places :: "label_participant \<Rightarrow> string list" where
  "meter_places p = sort_by (\<le>) (uniq (map (\<lambda>m. or_str (map_option trim (lm_location_description m)) (lm_meter_id m))
     (nullish (pa_metering_points p) [])))"

definition validity_text :: "(string \<Rightarrow> string) \<Rightarrow> (string \<Rightarrow> (string \<times> tvar) list \<Rightarrow> string) \<Rightarrow> label_participant \<Rightarrow> string" where
  "validity_text formatDate t p =
     (if truthy (pa_valid_to p)
      then t ''pages.charges.fields.participantValidity''
        [(''from'', VStr (formatDate (pa_valid_from p))), (''to'', VStr (formatDate (the (pa_valid_to p))))]
      else t ''pages.charges.fields.participantValiditySince'' [(''from'', VStr (formatDate (pa_valid_from p)))])"

definition labelWith ::
    "label_participant list \<Rightarrow> (string \<Rightarrow> string) \<Rightarrow> (string \<Rightarrow> (string \<times> tvar) list \<Rightarrow> string) \<Rightarrow> label_participant \<Rightarrow> bool \<Rightarrow> string" where
  "labelWith ps formatDate t p withValidity =
     (if partySize ps (partyOf p) < 2 then nameOf p
      else let details = meter_places p @ (if withValidity then [validity_text formatDate t p] else [])
           in if 0 < length details then nameOf p @ '' ('' @ join '', '' details @ '')'' else nameOf p)"

text \<open>\<open>new Map(pairs)\<close>: a repeated key keeps its place and takes the last value.\<close>

definition map_from :: "(string \<times> string) list \<Rightarrow> (string \<times> string) list" where
  "map_from kvs = foldl (\<lambda>m (k, v). AList.update k v m) [] kvs"

definition participantLabels ::
    "label_participant list \<Rightarrow> (string \<Rightarrow> string) \<Rightarrow> (string \<Rightarrow> (string \<times> tvar) list \<Rightarrow> string) \<Rightarrow> (string \<times> string) list" where
  "participantLabels ps formatDate t =
     (let plain = map_from (map (\<lambda>p. (pa_id p, labelWith ps formatDate t p False)) ps);
          occurrences = (\<lambda>l. length (filter (\<lambda>x. x = l) (map snd plain)));
          plain_of = (\<lambda>p. nullish (map_of plain (pa_id p)) [])
      in map_from (map (\<lambda>p. (pa_id p,
           if 1 < occurrences (plain_of p) then labelWith ps formatDate t p True else plain_of p)) ps))"

section \<open>What a charge is sent with\<close>

text \<open>
  A charge reaches the server only when it is complete: a request exists exactly when the form shows
  no error, its description is not blank and its amount is a positive number; the bearers are named
  exactly when the charge is for selected participants, and then there is at least one.
\<close>

theorem charge_request_iff:
  "(chargeInputFrom v zevId = None \<longleftrightarrow> has_errors (chargeFieldErrors v))
   \<and> (\<forall>c. chargeInputFrom v zevId = Some c \<longrightarrow>
        ci_description c \<noteq> [] \<and> js_less (Fin 0) (js_Number (cv_amount v)) \<and> cv_chargeDate v = Some (ci_charge_date c)
        \<and> (ci_participants c \<noteq> [] \<longleftrightarrow> ci_allocation c = selected_participants))"
  by (auto simp: chargeInputFrom_def has_errors_def chargeFieldErrors_def truthy_iff)

theorem charge_request_iff_witness:
  "chargeInputFrom (emptyChargeValues ''2026-01-01'') ''z'' = None"
  using charge_request_iff [of "emptyChargeValues ''2026-01-01''" "''z''"]
  by (simp add: has_errors_def chargeFieldErrors_def emptyChargeValues_def)

end
