(* ===== verification/Session.thy ===== *)
theory Session
  imports Access Api_Client
begin

text \<open>
  The signed-in session: \<open>frontend/src/lib/auth.tsx\<close> (\<open>AuthProvider\<close>) with \<open>mfaGate.ts\<close> and
  \<open>mfaChallenge.ts\<close>. The provider's operations are asynchronous, so the model is a machine: an operation
  runs to its first \<open>await\<close> and leaves a task; the answers of the server and of the browser arrive as
  events, in any order and between any other operations. A function that the context hands out sees the
  \<open>user\<close> of the render it was taken from, which is an argument.

  The theorems: after a logout no late answer brings an account back; a preference is never saved under
  another session than the one it was chosen in, one save at a time; a sign-in request is only sent after
  the query cache was cleared. A late answer of a save can still overwrite a newer choice of the same
  account, which a run of the machine shows.
\<close>

section \<open>The enrolment gate and the second step\<close>

record MfaStatus =
  ms_required :: bool
  ms_grace_until :: "string option"
  ms_totp_confirmed_at :: "string option"
  ms_passkeys :: nat

datatype MfaGateState = gate_pass | gate_grace | gate_hard

text \<open>\<open>matchPath('/account', _)\<close> of the router and \<open>Date.parse\<close> are arguments.\<close>

definition mfaGateState ::
    "(string \<Rightarrow> bool) \<Rightarrow> (string \<Rightarrow> int option) \<Rightarrow> MfaStatus option \<Rightarrow> int \<Rightarrow> bool \<Rightarrow> bool \<Rightarrow> string \<Rightarrow> MfaGateState" where
  "mfaGateState accountPath dateParse status now dismissed impersonating pathname =
     (case status of
        None \<Rightarrow> gate_pass
      | Some s \<Rightarrow>
          if impersonating then gate_pass
          else let enrolled = (truthy (ms_totp_confirmed_at s) \<or> 0 < ms_passkeys s)
               in if \<not> ms_required s \<or> enrolled \<or> accountPath pathname then gate_pass
                  else let inGrace = (case ms_grace_until s of
                             None \<Rightarrow> False
                           | Some d \<Rightarrow> (case dateParse d of None \<Rightarrow> False | Some t \<Rightarrow> t > now))
                       in if inGrace then (if dismissed then gate_pass else gate_grace) else gate_hard)"

datatype mfa_method = totp | recovery_code

definition challengeInput :: "mfa_method list \<Rightarrow> bool \<Rightarrow> bool \<times> bool" where
  "challengeInput methods preferRecovery =
     (let t = (totp \<in> set methods); r = (recovery_code \<in> set methods)
      in (\<not> t \<or> r \<and> preferRecovery, t \<and> r))"

section \<open>State\<close>

record SessionUser = User +
  su_impersonated_by :: "User option"

datatype LoginOutcome = authenticated SessionUser | mfa_required string "mfa_method list"

text \<open>Calls that leave the provider: to the query client and to the server.\<close>

datatype call =
    call_cancelQueries
  | call_clear
  | call_login string string
  | call_mfa string string
  | call_passkey_begin "string option"
  | call_passkey_complete json
  | call_impersonate int
  | call_stopImpersonation
  | call_logout
  | call_me
  | call_updateProfile "string option"

text \<open>Who opens a session, and the cache reset of a logout.\<close>

datatype flow =
    by_password string string
  | by_code string string
  | by_passkey "string option"
  | as_participant int
  | back_to_admin
  | signing_out

datatype load_purpose = boot | for_login | for_caller | after_impersonation

text \<open>What the provider waits for.\<close>

datatype task =
    resetting flow
  | requesting flow
  | prompting
  | passkey_checking
  | loading nat load_purpose

text \<open>A queued save: its sequence number, caller and value, whether its PATCH is out, and (only for
  the theorems) the session it was asked in.\<close>

record save_job =
  jb_seq :: nat
  jb_caller :: "int option"
  jb_zev :: "string option"
  jb_sent :: bool
  jb_asked :: nat

text \<open>The object in \<open>prefSaveRef\<close>; its promise chain \<open>tail\<close> is the queue of unsettled saves.\<close>

record save_slot =
  sl_userId :: "int option"
  sl_seq :: nat
  sl_tail :: "save_job list"

definition new_slot :: save_slot where
  "new_slot = \<lparr>sl_userId = None, sl_seq = 0, sl_tail = []\<rparr>"

text \<open>
  All slots ever made, the current one being \<open>prefSaveRef.current\<close>. Each call is recorded with the session
  it is issued in and the session it was asked for in.
\<close>

record session =
  ss_user :: "SessionUser option"
  ss_isLoading :: bool
  ss_version :: nat
  ss_slots :: "save_slot list"
  ss_slot :: nat
  ss_tasks :: "task list"
  ss_calls :: "(nat \<times> nat \<times> call) list"
  ss_outcomes :: "LoginOutcome list"

definition isAuthenticated :: "session \<Rightarrow> bool" where
  "isAuthenticated st \<longleftrightarrow> ss_user st \<noteq> None"

definition impersonator :: "session \<Rightarrow> User option" where
  "impersonator st = Option.bind (ss_user st) su_impersonated_by"

definition isImpersonating :: "session \<Rightarrow> bool" where
  "isImpersonating st \<longleftrightarrow> impersonator st \<noteq> None"

definition issue :: "call \<Rightarrow> session \<Rightarrow> session" where
  "issue c st = st\<lparr>ss_calls := ss_calls st @ [(ss_version st, ss_version st, c)]\<rparr>"

definition await :: "task \<Rightarrow> session \<Rightarrow> session" where
  "await t st = st\<lparr>ss_tasks := ss_tasks st @ [t]\<rparr>"

section \<open>Operations up to their first await\<close>

definition invalidateSessionRequests :: "session \<Rightarrow> session" where
  "invalidateSessionRequests st =
     st\<lparr>ss_version := ss_version st + 1, ss_slots := ss_slots st @ [new_slot], ss_slot := length (ss_slots st)\<rparr>"

definition resetQueryCache :: "flow \<Rightarrow> session \<Rightarrow> session" where
  "resetQueryCache f st = await (resetting f) (issue call_cancelQueries st)"

definition loadCurrentUser :: "load_purpose \<Rightarrow> session \<Rightarrow> session" where
  "loadCurrentUser p st = await (loading (ss_version st) p) (issue call_me st)"

definition login :: "string \<Rightarrow> string \<Rightarrow> session \<Rightarrow> session" where
  "login email password st = resetQueryCache (by_password email password) (invalidateSessionRequests st)"

definition completeMfaChallenge :: "string \<Rightarrow> string \<Rightarrow> session \<Rightarrow> session" where
  "completeMfaChallenge mfaToken code st = resetQueryCache (by_code mfaToken code) (invalidateSessionRequests st)"

definition loginWithPasskey :: "string option \<Rightarrow> session \<Rightarrow> session" where
  "loginWithPasskey email st = resetQueryCache (by_passkey email) (invalidateSessionRequests st)"

definition refreshUser :: "session \<Rightarrow> session" where
  "refreshUser st = loadCurrentUser for_caller st"

text \<open>It throws for anyone but an administrator: \<^const>\<open>None\<close>.\<close>

definition startImpersonation :: "SessionUser option \<Rightarrow> int \<Rightarrow> session \<Rightarrow> session option" where
  "startImpersonation rendered participantUserId st =
     (case rendered of
        None \<Rightarrow> None
      | Some u \<Rightarrow> if u_role u \<noteq> admin_role then None
          else Some (resetQueryCache (as_participant participantUserId) (invalidateSessionRequests st)))"

definition stopImpersonation :: "session \<Rightarrow> session" where
  "stopImpersonation st = resetQueryCache back_to_admin (invalidateSessionRequests st)"

definition logout :: "session \<Rightarrow> session" where
  "logout st = issue call_logout (resetQueryCache signing_out ((invalidateSessionRequests st)\<lparr>ss_user := None\<rparr>))"

definition updatePreferredZev :: "SessionUser option \<Rightarrow> string option \<Rightarrow> session \<Rightarrow> session" where
  "updatePreferredZev rendered zevId st =
     (let callerId = map_option u_id rendered;
          slot = ss_slots st ! ss_slot st;
          slot = (if sl_userId slot \<noteq> callerId then slot\<lparr>sl_userId := callerId, sl_seq := 0\<rparr> else slot);
          mySeq = sl_seq slot + 1;
          job = \<lparr>jb_seq = mySeq, jb_caller = callerId, jb_zev = zevId, jb_sent = False, jb_asked = ss_version st\<rparr>
      in st\<lparr>ss_slots := (ss_slots st)[ss_slot st := slot\<lparr>sl_seq := mySeq, sl_tail := sl_tail slot @ [job]\<rparr>]\<rparr>)"

section \<open>Continuations\<close>

text \<open>After \<open>cancelQueries\<close>: the cache is cleared and the flow sends its first request.\<close>

fun flow_call :: "flow \<Rightarrow> call option" where
  "flow_call (by_password email password) = Some (call_login email password)"
| "flow_call (by_code mfaToken code) = Some (call_mfa mfaToken code)"
| "flow_call (by_passkey email) = Some (call_passkey_begin email)"
| "flow_call (as_participant participantUserId) = Some (call_impersonate participantUserId)"
| "flow_call back_to_admin = Some call_stopImpersonation"
| "flow_call signing_out = None"

definition after_reset :: "flow \<Rightarrow> session \<Rightarrow> session" where
  "after_reset f st =
     (case flow_call f of
        None \<Rightarrow> issue call_clear st
      | Some c \<Rightarrow> await (requesting f) (issue c (issue call_clear st)))"

text \<open>The answer to the first request of a flow; only a password sign-in may ask for a second factor.\<close>

datatype reply = accepted | second_factor string "mfa_method list"

definition error_code :: "api_error \<Rightarrow> json option" where
  "error_code e = Option.bind (apiErrorPayload e) (\<lambda>payload. json_get payload ''code'')"

definition after_login :: "reply \<Rightarrow> session \<Rightarrow> session" where
  "after_login r st =
     (case r of
        second_factor tok methods \<Rightarrow> st\<lparr>ss_outcomes := ss_outcomes st @ [mfa_required tok methods]\<rparr>
      | accepted \<Rightarrow> loadCurrentUser for_login st)"

definition after_stop :: "api_error + reply \<Rightarrow> session \<Rightarrow> session" where
  "after_stop answer st =
     (case answer of
        Inl e \<Rightarrow> if error_code e = Some (JStr ''impersonation_session_expired'') then st\<lparr>ss_user := None\<rparr> else st
      | Inr _ \<Rightarrow> loadCurrentUser after_impersonation (st\<lparr>ss_isLoading := True, ss_user := None\<rparr>))"

definition after_request :: "flow \<Rightarrow> api_error + reply \<Rightarrow> session \<Rightarrow> session" where
  "after_request f answer st =
     (if f = back_to_admin then after_stop answer st
      else case answer of
             Inl _ \<Rightarrow> st
           | Inr r \<Rightarrow>
               (case f of
                  by_password _ _ \<Rightarrow> after_login r st
                | by_passkey _ \<Rightarrow> await prompting st
                | _ \<Rightarrow> loadCurrentUser for_caller st))"

text \<open>The browser's passkey prompt: an assertion, or cancelled.\<close>

definition after_prompt :: "json option \<Rightarrow> session \<Rightarrow> session" where
  "after_prompt assertion st =
     (case assertion of
        None \<Rightarrow> st
      | Some a \<Rightarrow> await passkey_checking (issue (call_passkey_complete a) st))"

definition after_passkey :: "bool \<Rightarrow> session \<Rightarrow> session" where
  "after_passkey ok st = (if ok then loadCurrentUser for_caller st else st)"

definition after_load :: "nat \<Rightarrow> load_purpose \<Rightarrow> api_error + SessionUser \<Rightarrow> session \<Rightarrow> session" where
  "after_load version p answer st =
     (let st1 = (case answer of
                   Inr me \<Rightarrow>
                     (let st' = (if version = ss_version st then st\<lparr>ss_user := Some me\<rparr> else st)
                      in if p = for_login then st'\<lparr>ss_outcomes := ss_outcomes st' @ [authenticated me]\<rparr> else st')
                 | Inl _ \<Rightarrow> if p = boot \<and> version = ss_version st then st\<lparr>ss_user := None\<rparr> else st)
      in if p = boot \<or> p = after_impersonation then st1\<lparr>ss_isLoading := False\<rparr> else st1)"

text \<open>The first save of a slot's chain is dispatched, unless the session has turned over.\<close>

definition dispatch_save :: "nat \<Rightarrow> session \<Rightarrow> session option" where
  "dispatch_save k st =
     (if k < length (ss_slots st)
      then let slot = ss_slots st ! k
           in case sl_tail slot of
                [] \<Rightarrow> None
              | job # rest \<Rightarrow>
                  if jb_sent job then None
                  else if ss_slot st \<noteq> k
                  then Some (st\<lparr>ss_slots := (ss_slots st)[k := slot\<lparr>sl_tail := rest\<rparr>]\<rparr>)
                  else Some (st\<lparr>ss_slots := (ss_slots st)[k := slot\<lparr>sl_tail := job\<lparr>jb_sent := True\<rparr> # rest\<rparr>],
                        ss_calls := ss_calls st @ [(ss_version st, jb_asked job, call_updateProfile (jb_zev job))]\<rparr>)
      else None)"

definition merge_preference :: "SessionUser \<Rightarrow> SessionUser option \<Rightarrow> SessionUser option" where
  "merge_preference me current =
     (case current of
        None \<Rightarrow> None
      | Some u \<Rightarrow> if u_id u = u_id me then Some (u\<lparr>u_preferred_zev := u_preferred_zev me\<rparr>) else current)"

definition answer_save :: "nat \<Rightarrow> api_error + SessionUser \<Rightarrow> session \<Rightarrow> session option" where
  "answer_save k answer st =
     (if k < length (ss_slots st)
      then let slot = ss_slots st ! k
           in case sl_tail slot of
                [] \<Rightarrow> None
              | job # rest \<Rightarrow>
                  if \<not> jb_sent job then None
                  else let st' = st\<lparr>ss_slots := (ss_slots st)[k := slot\<lparr>sl_tail := rest\<rparr>]\<rparr>;
                           latest = ss_slots st' ! ss_slot st'
                       in case answer of
                            Inl _ \<Rightarrow> Some st'
                          | Inr me \<Rightarrow>
                              if sl_userId latest \<noteq> jb_caller job \<or> sl_seq latest \<noteq> jb_seq job then Some st'
                              else Some (st'\<lparr>ss_user := merge_preference me (ss_user st')\<rparr>)
      else None)"

section \<open>Events and runs\<close>

datatype task_answer =
    reset_done
  | replied "api_error + reply"
  | prompted "json option"
  | passkey_verified bool
  | loaded "api_error + SessionUser"

datatype event =
    Login string string
  | CompleteMfaChallenge string string
  | LoginWithPasskey "string option"
  | RefreshUser
  | StartImpersonation "SessionUser option" int
  | StopImpersonation
  | Logout
  | UpdatePreferredZev "SessionUser option" "string option"
  | Settled nat task_answer
  | DispatchSave nat
  | AnswerSave nat "api_error + SessionUser"

fun continue :: "task \<Rightarrow> task_answer \<Rightarrow> session \<Rightarrow> session option" where
  "continue (resetting f) reset_done st = Some (after_reset f st)"
| "continue (requesting f) (replied a) st = Some (after_request f a st)"
| "continue prompting (prompted a) st = Some (after_prompt a st)"
| "continue passkey_checking (passkey_verified ok) st = Some (after_passkey ok st)"
| "continue (loading version p) (loaded a) st = Some (after_load version p a st)"
| "continue _ _ _ = None"

definition drop_task :: "nat \<Rightarrow> session \<Rightarrow> session" where
  "drop_task i st = st\<lparr>ss_tasks := take i (ss_tasks st) @ drop (Suc i) (ss_tasks st)\<rparr>"

text \<open>An event that cannot happen in a state is \<^const>\<open>None\<close>.\<close>

fun step :: "event \<Rightarrow> session \<Rightarrow> session option" where
  "step (Login email password) st = Some (login email password st)"
| "step (CompleteMfaChallenge mfaToken code) st = Some (completeMfaChallenge mfaToken code st)"
| "step (LoginWithPasskey email) st = Some (loginWithPasskey email st)"
| "step RefreshUser st = Some (refreshUser st)"
| "step (StartImpersonation rendered participantUserId) st = startImpersonation rendered participantUserId st"
| "step StopImpersonation st = Some (stopImpersonation st)"
| "step Logout st = Some (logout st)"
| "step (UpdatePreferredZev rendered zevId) st = Some (updatePreferredZev rendered zevId st)"
| "step (Settled i a) st =
     (if i < length (ss_tasks st) then continue (ss_tasks st ! i) a (drop_task i st) else None)"
| "step (DispatchSave k) st = dispatch_save k st"
| "step (AnswerSave k a) st = answer_save k a st"

fun run :: "event list \<Rightarrow> session \<Rightarrow> session option" where
  "run [] st = Some st"
| "run (e # es) st = Option.bind (step e st) (run es)"

text \<open>The provider after its first effect: the identity is being loaded.\<close>

definition mounted :: session where
  "mounted = loadCurrentUser boot
     \<lparr>ss_user = None, ss_isLoading = True, ss_version = 0, ss_slots = [new_slot], ss_slot = 0,
      ss_tasks = [], ss_calls = [], ss_outcomes = []\<rparr>"

inductive session_reach :: "session \<Rightarrow> bool" where
  reach_mounted: "session_reach mounted"
| reach_step: "session_reach st \<Longrightarrow> step e st = Some st' \<Longrightarrow> session_reach st'"

section \<open>What every step keeps\<close>

lemmas operation_defs = login_def completeMfaChallenge_def loginWithPasskey_def refreshUser_def startImpersonation_def
  stopImpersonation_def logout_def resetQueryCache_def loadCurrentUser_def invalidateSessionRequests_def
  issue_def await_def drop_task_def

lemmas continuation_defs = after_reset_def after_request_def after_login_def after_stop_def after_prompt_def after_passkey_def after_load_def

text \<open>Chains of one save slot: only the first save is out, and all belong to the slot's session.\<close>

definition chain_ok :: "nat \<Rightarrow> save_slot \<Rightarrow> bool" where
  "chain_ok k slot \<longleftrightarrow> list_all (\<lambda>job. jb_asked job = k) (sl_tail slot) \<and> list_all (\<lambda>job. \<not> jb_sent job) (tl (sl_tail slot))"

definition slots_ok :: "session \<Rightarrow> bool" where
  "slots_ok st \<longleftrightarrow> length (ss_slots st) = Suc (ss_version st) \<and> ss_slot st = ss_version st
     \<and> (\<forall>k < length (ss_slots st). chain_ok k (ss_slots st ! k))"

definition loads_ok :: "session \<Rightarrow> bool" where
  "loads_ok st \<longleftrightarrow> (\<forall>v p. loading v p \<in> set (ss_tasks st) \<longrightarrow> v \<le> ss_version st)"

fun is_save :: "call \<Rightarrow> bool" where
  "is_save (call_updateProfile _) = True"
| "is_save _ = False"

lemma slots_ok_put: "slots_ok st \<Longrightarrow> chain_ok k slot \<Longrightarrow> slots_ok (st\<lparr>ss_slots := (ss_slots st)[k := slot]\<rparr>)"
  by (auto simp: slots_ok_def) (metis nth_list_update_eq nth_list_update_neq)

lemma slots_ok_nth: "slots_ok st \<Longrightarrow> k < length (ss_slots st) \<Longrightarrow> chain_ok k (ss_slots st ! k) \<and> k \<le> ss_version st"
  by (simp add: slots_ok_def)

lemma slots_ok_invalidate: "slots_ok st \<Longrightarrow> slots_ok (invalidateSessionRequests st)"
  by (auto simp: slots_ok_def invalidateSessionRequests_def nth_append new_slot_def chain_ok_def less_Suc_eq)

lemma slots_ok_frame [simp]:
  "slots_ok (issue c st) = slots_ok st" "slots_ok (await t st) = slots_ok st" "slots_ok (drop_task i st) = slots_ok st"
  "slots_ok (st\<lparr>ss_user := u\<rparr>) = slots_ok st" "slots_ok (st\<lparr>ss_isLoading := b\<rparr>) = slots_ok st"
  "slots_ok (st\<lparr>ss_outcomes := os\<rparr>) = slots_ok st" "slots_ok (st\<lparr>ss_calls := cs\<rparr>) = slots_ok st"
  by (simp_all add: slots_ok_def issue_def await_def drop_task_def)

lemma slots_ok_continue: "continue t a st = Some st' \<Longrightarrow> slots_ok st \<Longrightarrow> slots_ok st'"
  by (induction t a st rule: continue.induct)
    (auto simp: continuation_defs loadCurrentUser_def Let_def split: option.splits sum.splits flow.splits reply.splits)

lemma slots_ok_save:
  assumes "slots_ok st"
  shows "slots_ok (updatePreferredZev rendered zevId st)"
proof -
  let ?slot = "ss_slots st ! ss_slot st"
  have k: "ss_slot st = ss_version st" "chain_ok (ss_version st) ?slot"
    using assms slots_ok_nth [OF assms, of "ss_version st"] by (simp_all add: slots_ok_def)
  show ?thesis
    unfolding updatePreferredZev_def Let_def
    by (rule slots_ok_put [OF assms]) (use k in \<open>auto simp: chain_ok_def tl_append split: list.splits\<close>)
qed

lemma chain_ok_pop: "chain_ok k slot \<Longrightarrow> sl_tail slot = job # rest \<Longrightarrow> chain_ok k (slot\<lparr>sl_tail := rest\<rparr>)"
  by (cases rest) (simp_all add: chain_ok_def)

lemma chain_ok_send:
  "chain_ok k slot \<Longrightarrow> sl_tail slot = job # rest \<Longrightarrow> chain_ok k (slot\<lparr>sl_tail := job\<lparr>jb_sent := True\<rparr> # rest\<rparr>)"
  by (simp add: chain_ok_def)

lemma slots_ok_dispatch: "dispatch_save k st = Some st' \<Longrightarrow> slots_ok st \<Longrightarrow> slots_ok st'"
  using slots_ok_nth [of st k]
  by (auto simp: dispatch_save_def Let_def slots_ok_put chain_ok_pop chain_ok_send split: if_splits list.splits)

lemma slots_ok_answer: "answer_save k a st = Some st' \<Longrightarrow> slots_ok st \<Longrightarrow> slots_ok st'"
  using slots_ok_nth [of st k]
  by (auto simp: answer_save_def Let_def slots_ok_put chain_ok_pop split: if_splits list.splits sum.splits)

lemma slots_ok_step: "step e st = Some st' \<Longrightarrow> slots_ok st \<Longrightarrow> slots_ok st'"
  by (cases e)
    (auto simp: login_def completeMfaChallenge_def loginWithPasskey_def refreshUser_def startImpersonation_def
      stopImpersonation_def logout_def resetQueryCache_def loadCurrentUser_def
      intro: slots_ok_continue slots_ok_dispatch slots_ok_answer slots_ok_save slots_ok_invalidate
      split: if_splits option.splits)

lemma session_reach_invariant:
  assumes "session_reach st" "P mounted" "\<And>e st st'. step e st = Some st' \<Longrightarrow> P st \<Longrightarrow> P st'"
  shows "P st"
  using assms(1) by (induction rule: session_reach.induct) (use assms(2,3) in blast)+

lemma session_reach_slots: "session_reach st \<Longrightarrow> slots_ok st"
  by (erule session_reach_invariant)
    (simp add: mounted_def loadCurrentUser_def slots_ok_def new_slot_def chain_ok_def issue_def await_def, rule slots_ok_step)

text \<open>Identity loads remember a session that is not in the future.\<close>

definition fresh_task :: "nat \<Rightarrow> task \<Rightarrow> bool" where
  "fresh_task v t = (case t of loading w _ \<Rightarrow> w = v | _ \<Rightarrow> True)"

lemma continue_tasks:
  "continue t a st = Some st' \<Longrightarrow>
     ss_version st' = ss_version st \<and> set (ss_tasks st') \<subseteq> set (ss_tasks st) \<union> Collect (fresh_task (ss_version st))"
  by (induction t a st rule: continue.induct)
    (auto simp: continuation_defs loadCurrentUser_def issue_def await_def fresh_task_def Let_def
      split: option.splits sum.splits flow.splits reply.splits if_splits)

lemma drop_task_tasks: "set (ss_tasks (drop_task i st)) \<subseteq> set (ss_tasks st)"
  by (auto simp: drop_task_def dest: in_set_takeD in_set_dropD)

lemma step_tasks:
  "step e st = Some st' \<Longrightarrow>
     ss_version st \<le> ss_version st' \<and> set (ss_tasks st') \<subseteq> set (ss_tasks st) \<union> Collect (fresh_task (ss_version st'))"
proof (cases e)
  case (Settled i a)
  assume "step e st = Some st'"
  then have "continue (ss_tasks st ! i) a (drop_task i st) = Some st'" using Settled by (simp split: if_splits)
  moreover have "ss_version (drop_task i st) = ss_version st" by (simp add: drop_task_def)
  ultimately show ?thesis using continue_tasks drop_task_tasks [of i st] by fastforce
qed (auto simp: operation_defs fresh_task_def updatePreferredZev_def dispatch_save_def answer_save_def Let_def
      split: if_splits option.splits list.splits sum.splits)

lemma loads_ok_step: "step e st = Some st' \<Longrightarrow> loads_ok st \<Longrightarrow> loads_ok st'"
  using step_tasks [of e st st'] by (fastforce simp: loads_ok_def fresh_task_def)

lemma session_reach_loads: "session_reach st \<Longrightarrow> loads_ok st"
  by (erule session_reach_invariant) (simp add: mounted_def operation_defs loads_ok_def, rule loads_ok_step)

text \<open>The calls a step adds: saves of the current session, and sign-ins right after a clearing of the cache.\<close>

fun opens_session :: "call \<Rightarrow> bool" where
  "opens_session (call_login _ _) = True"
| "opens_session (call_mfa _ _) = True"
| "opens_session (call_passkey_begin _) = True"
| "opens_session (call_impersonate _) = True"
| "opens_session call_stopImpersonation = True"
| "opens_session _ = False"

fun cleared_first :: "call option \<Rightarrow> call list \<Rightarrow> bool" where
  "cleared_first previous [] = True"
| "cleared_first previous (c # cs) = ((opens_session c \<longrightarrow> previous = Some call_clear) \<and> cleared_first (Some c) cs)"

definition calls_of :: "session \<Rightarrow> call list" where
  "calls_of st = map (snd \<circ> snd) (ss_calls st)"

lemma cleared_first_append:
  "cleared_first p (cs @ ds) \<longleftrightarrow> cleared_first p cs \<and> cleared_first (if cs = [] then p else Some (last cs)) ds"
  by (induction cs arbitrary: p) auto

lemma cleared_first_quiet: "cleared_first None ds \<Longrightarrow> cleared_first p ds"
  by (cases ds) auto

definition good_calls :: "(nat \<times> nat \<times> call) list \<Rightarrow> bool" where
  "good_calls cs \<longleftrightarrow> cleared_first None (map (snd \<circ> snd) cs)
     \<and> list_all (\<lambda>(issued, asked, c). is_save c \<longrightarrow> issued = asked) cs"

definition adds_good_calls :: "session \<Rightarrow> session \<Rightarrow> bool" where
  "adds_good_calls st st' \<longleftrightarrow> (\<exists>cs. ss_calls st' = ss_calls st @ cs \<and> good_calls cs)"

lemma continue_calls: "continue t a st = Some st' \<Longrightarrow> adds_good_calls st st'"
  by (induction t a st rule: continue.induct)
    (auto simp: adds_good_calls_def good_calls_def continuation_defs loadCurrentUser_def issue_def await_def Let_def
      split: option.splits sum.splits flow.splits reply.splits if_splits elim: flow_call.elims)

lemma save_calls:
  assumes "dispatch_save k st = Some st'" "slots_ok st"
  shows "adds_good_calls st st'"
  using assms(1) slots_ok_nth [OF assms(2), of k] assms(2)
  by (auto simp: adds_good_calls_def good_calls_def dispatch_save_def Let_def chain_ok_def slots_ok_def
      split: if_splits list.splits)

lemma step_calls: "step e st = Some st' \<Longrightarrow> slots_ok st \<Longrightarrow> adds_good_calls st st'"
proof (cases e)
  case (Settled i a)
  assume "step e st = Some st'"
  then have "continue (ss_tasks st ! i) a (drop_task i st) = Some st'" using Settled by (simp split: if_splits)
  then show ?thesis using continue_calls by (fastforce simp: adds_good_calls_def drop_task_def)
next
  case (DispatchSave k)
  assume "step e st = Some st'" "slots_ok st"
  then show ?thesis using DispatchSave save_calls by simp
qed (auto simp: adds_good_calls_def good_calls_def operation_defs updatePreferredZev_def answer_save_def Let_def
      split: if_splits option.splits list.splits sum.splits)

lemma good_calls_append: "good_calls cs \<Longrightarrow> good_calls ds \<Longrightarrow> good_calls (cs @ ds)"
  by (auto simp: good_calls_def cleared_first_append intro: cleared_first_quiet)

lemma session_reach_calls: "session_reach st \<Longrightarrow> good_calls (ss_calls st)"
proof (induction rule: session_reach.induct)
  case reach_mounted
  then show ?case by (simp add: mounted_def operation_defs good_calls_def)
next
  case (reach_step st e st')
  then have "adds_good_calls st st'" using step_calls session_reach_slots by blast
  then show ?case using reach_step.IH good_calls_append by (auto simp: adds_good_calls_def)
qed

text \<open>
  C10: in every reachable state, whatever the order in which requests are answered: a preference is only
  ever sent to the server in the session it was chosen in, each chain of saves has at most one request
  out, its first, and no request that opens a session is sent before the query cache of the session
  before was cleared.
\<close>

theorem requests_stay_in_session:
  assumes "session_reach st"
  shows "list_all (\<lambda>(issued, asked, c). is_save c \<longrightarrow> issued = asked) (ss_calls st)
    \<and> list_all (\<lambda>slot. list_all (\<lambda>job. \<not> jb_sent job) (tl (sl_tail slot))) (ss_slots st)
    \<and> cleared_first None (map (snd \<circ> snd) (ss_calls st))"
  using session_reach_calls [OF assms] session_reach_slots [OF assms]
  by (auto simp: good_calls_def slots_ok_def chain_ok_def list_all_length)

text \<open>A signed-in account in a run.\<close>

definition account :: "int \<Rightarrow> string option \<Rightarrow> SessionUser" where
  "account i z = \<lparr>u_id = i, u_username = ''u'', u_email = ''u'', u_first_name = [], u_last_name = [], u_role = user_role,
     u_preferred_zev = z, u_memberships = None, su_impersonated_by = None\<rparr>"

lemma run_reach: "session_reach st \<Longrightarrow> run es st = Some st' \<Longrightarrow> session_reach st'"
  by (induction es arbitrary: st) (auto intro: reach_step split: Option.bind_splits)

definition save_run :: "event list" where
  "save_run = [Settled 0 (loaded (Inr (account 5 None))), UpdatePreferredZev (Some (account 5 None)) (Some ''a''),
     UpdatePreferredZev (Some (account 5 None)) (Some ''b''), DispatchSave 0]"

theorem requests_stay_in_session_witness:
  "\<exists>st. run save_run mounted = Some st
    \<and> list_all (\<lambda>slot. list_all (\<lambda>job. \<not> jb_sent job) (tl (sl_tail slot))) (ss_slots st)
    \<and> map jb_sent (sl_tail (hd (ss_slots st))) = [True, False]"
proof -
  have "map_option (\<lambda>st. map jb_sent (sl_tail (hd (ss_slots st)))) (run save_run mounted) = Some [True, False]"
    by code_simp
  then have "\<exists>st. run save_run mounted = Some st \<and> map jb_sent (sl_tail (hd (ss_slots st))) = [True, False]"
    by (simp only: map_option_eq_Some)
  then obtain st where st: "run save_run mounted = Some st" "map jb_sent (sl_tail (hd (ss_slots st))) = [True, False]"
    by (elim exE conjE)
  show ?thesis
    by (rule exI [of _ st], intro conjI, rule st(1),
        rule requests_stay_in_session [OF run_reach [OF reach_mounted st(1)], THEN conjunct2, THEN conjunct1], rule st(2))
qed

section \<open>Nobody comes back after a logout\<close>

fun late_event :: "event \<Rightarrow> bool" where
  "late_event (Login _ _) = False"
| "late_event (CompleteMfaChallenge _ _) = False"
| "late_event (LoginWithPasskey _) = False"
| "late_event RefreshUser = False"
| "late_event (StartImpersonation _ _) = False"
| "late_event StopImpersonation = False"
| "late_event _ = True"

text \<open>Nothing that would load an account of the current session is under way.\<close>

fun late_task :: "nat \<Rightarrow> task \<Rightarrow> bool" where
  "late_task v (loading w _) = (w < v)"
| "late_task v (resetting f) = (f = signing_out)"
| "late_task v _ = False"

text \<open>A task that belongs to no sign-in under way.\<close>

fun quiet_task :: "task \<Rightarrow> bool" where
  "quiet_task (loading _ _) = True"
| "quiet_task (resetting f) = (f = signing_out)"
| "quiet_task _ = False"

definition signed_out :: "session \<Rightarrow> bool" where
  "signed_out st \<longleftrightarrow> ss_user st = None \<and> list_all (late_task (ss_version st)) (ss_tasks st)"

lemma late_task_Suc: "late_task v t \<Longrightarrow> late_task (Suc v) t"
  by (cases t) auto

lemma signed_out_drop: "signed_out st \<Longrightarrow> signed_out (drop_task i st)"
  by (auto simp: signed_out_def drop_task_def list_all_iff dest: in_set_takeD in_set_dropD)

lemma signed_out_continue:
  assumes "continue t a st = Some st'" "late_task (ss_version st) t" "signed_out st"
  shows "signed_out st'"
  using assms
  by (induction t a st rule: continue.induct)
    (auto simp: after_reset_def after_load_def issue_def signed_out_def Let_def split: sum.splits if_splits)

lemma signed_out_step:
  assumes "step e st = Some st'" "late_event e" "signed_out st"
  shows "signed_out st'"
proof (cases e)
  case (Settled i a)
  then have c: "i < length (ss_tasks st)" "continue (ss_tasks st ! i) a (drop_task i st) = Some st'"
    using assms(1) by (simp_all split: if_splits)
  then have "late_task (ss_version st) (ss_tasks st ! i)" using assms(3) by (simp add: signed_out_def list_all_length)
  then show ?thesis
    using signed_out_continue [OF c(2)] signed_out_drop [OF assms(3)] by (simp add: drop_task_def)
next
  case Logout
  then show ?thesis using assms
    by (auto simp: signed_out_def operation_defs list_all_iff late_task_Suc)
qed (use assms in \<open>auto simp: signed_out_def updatePreferredZev_def dispatch_save_def answer_save_def merge_preference_def Let_def
      split: if_splits option.splits list.splits sum.splits\<close>)

lemma signed_out_run: "run es st = Some st' \<Longrightarrow> list_all late_event es \<Longrightarrow> signed_out st \<Longrightarrow> signed_out st'"
  by (induction es arbitrary: st) (auto intro: signed_out_step split: Option.bind_splits)

text \<open>
  C9: after a logout nothing brings an account back. Whatever identity loads and saves of the old session
  are still under way, in whichever order and however often they are answered, and even when pages of the
  old session go on saving preferences, nobody is shown as signed in until a new sign-in is asked for.
\<close>

theorem logout_is_final:
  assumes "session_reach st" "list_all quiet_task (ss_tasks st)"
    and "run (Logout # es) st = Some st'" "list_all late_event es"
  shows "ss_user st' = None"
proof -
  have "late_task (Suc (ss_version st)) t" if "t \<in> set (ss_tasks st)" for t
    by (cases t) (use that assms(2) session_reach_loads [OF assms(1)] in \<open>auto simp: list_all_iff loads_ok_def less_Suc_eq_le\<close>)
  then have "signed_out (logout st)" by (simp add: signed_out_def operation_defs list_all_iff)
  then show ?thesis using signed_out_run [of es "logout st" st'] assms(3,4) by (simp add: signed_out_def)
qed

definition logout_run :: "event list" where
  "logout_run = [UpdatePreferredZev (Some (account 5 None)) (Some ''a''), Settled 0 (loaded (Inr (account 5 None))),
     DispatchSave 1, Settled 0 reset_done]"

theorem logout_is_final_witness:
  "\<exists>st'. run (Logout # logout_run) mounted = Some st' \<and> ss_user st' = None"
proof -
  have "map_option (\<lambda>_. True) (run (Logout # logout_run) mounted) = Some True" by code_simp
  then obtain st' where st': "run (Logout # logout_run) mounted = Some st'" unfolding map_option_eq_Some by blast
  have "list_all quiet_task (ss_tasks mounted)" "list_all late_event logout_run"
    by (simp_all add: mounted_def operation_defs logout_run_def)
  then show ?thesis using logout_is_final [OF reach_mounted _ st'] st' by blast
qed

section \<open>A late save can overwrite a newer one\<close>

text \<open>
  \<open>updatePreferredZev\<close> drops a late answer by comparing account and sequence number with the current slot,
  but not the slot itself, and a new session counts from one again. In this run an account saves
  \<open>old\<close>, signs out and in again and saves \<open>new\<close>; the answer to the first save arrives last and is merged.
\<close>

definition late_save_run :: "event list" where
  "late_save_run =
     [Settled 0 (loaded (Inr (account 5 None))), UpdatePreferredZev (Some (account 5 None)) (Some ''old''), DispatchSave 0,
      Logout, Settled 0 reset_done,
      Login ''u'' ''p'', Settled 0 reset_done, Settled 0 (replied (Inr accepted)), Settled 0 (loaded (Inr (account 5 None))),
      UpdatePreferredZev (Some (account 5 None)) (Some ''new''), DispatchSave 2,
      AnswerSave 2 (Inr (account 5 (Some ''new''))), AnswerSave 0 (Inr (account 5 (Some ''old'')))]"

text \<open>
  In the run above the two saves are sent in order, the newer one last, and the account shown in the
  end has the older preference.
\<close>

theorem late_save_overwrites:
  "map_option (\<lambda>st. (filter is_save (calls_of st), map_option u_preferred_zev (ss_user st))) (run late_save_run mounted)
     = Some ([call_updateProfile (Some ''old''), call_updateProfile (Some ''new'')], Some (Some ''old''))"
  by code_simp

end
