(* ===== verification/Passkeys.thy ===== *)
theory Passkeys
  imports Prelude "HOL-Library.Word"
begin

text \<open>
  \<open>frontend/src/lib/webauthn.ts\<close>: the bridge between the server's WebAuthn JSON, in which binary data is
  base64url text, and the browser's credential interface, which takes and gives buffers. A buffer is a list
  of bytes; a \<open>binary string\<close> of the code is a string of characters up to 255, which is what \<open>atob\<close> gives
  and \<open>btoa\<close> takes. The browser's ceremony is an argument.

  The theorem: a buffer goes through its text and back unchanged, and the text is URL-safe.
\<close>

section \<open>Base64\<close>

definition base64_alphabet :: string where
  "base64_alphabet = ''ABCDEFGHIJKLMNOPQRSTUVWXYZabcdefghijklmnopqrstuvwxyz0123456789+/''"

definition b64_char :: "nat \<Rightarrow> char" where
  "b64_char n = base64_alphabet ! n"

fun index_of :: "char \<Rightarrow> string \<Rightarrow> nat option" where
  "index_of c [] = None"
| "index_of c (d # ds) = (if c = d then Some 0 else map_option Suc (index_of c ds))"

text \<open>Six-bit digits of a list of byte values, and back; leftover bits are discarded.\<close>

fun sextets :: "nat list \<Rightarrow> nat list" where
  "sextets (a # b # c # r) = [a div 4, (a mod 4) * 16 + b div 16, (b mod 16) * 4 + c div 64, c mod 64] @ sextets r"
| "sextets [a, b] = [a div 4, (a mod 4) * 16 + b div 16, (b mod 16) * 4]"
| "sextets [a] = [a div 4, (a mod 4) * 16]"
| "sextets [] = []"

fun octets :: "nat list \<Rightarrow> nat list" where
  "octets (w # x # y # z # r) = [w * 4 + x div 16, (x mod 16) * 16 + y div 4, (y mod 4) * 64 + z] @ octets r"
| "octets [w, x, y] = [w * 4 + x div 16, (x mod 16) * 16 + y div 4]"
| "octets [w, x] = [w * 4 + x div 16]"
| "octets _ = []"

definition pad_end :: "nat \<Rightarrow> char \<Rightarrow> string \<Rightarrow> string" where
  "pad_end n c s = s @ replicate (n - length s) c"

text \<open>\<open>Math.ceil(n / 4) * 4\<close>.\<close>

definition ceil4 :: "nat \<Rightarrow> nat" where
  "ceil4 n = (n + 3) div 4 * 4"

definition btoa :: "string \<Rightarrow> string" where
  "btoa binary = (let ds = map b64_char (sextets (map of_char binary)) in pad_end (ceil4 (length ds)) (CHR ''='') ds)"

text \<open>
  \<open>atob\<close>: white space is removed, up to two padding characters at the end of a text of full groups too;
  it throws (\<^const>\<open>None\<close>) on a length of one more than full groups and on any other character.
\<close>

definition b64_ws :: "char \<Rightarrow> bool" where
  "b64_ws c \<longleftrightarrow> c \<in> {CHR '' '', CHR 0x09, CHR 0x0A, CHR 0x0C, CHR 0x0D}"

definition atob :: "string \<Rightarrow> string option" where
  "atob s =
     (let s = filter (\<lambda>c. \<not> b64_ws c) s;
          s = (if length s mod 4 = 0
               then (if drop (length s - 2) s = ''=='' then take (length s - 2) s
                     else if drop (length s - 1) s = ''='' then take (length s - 1) s else s)
               else s)
      in if length s mod 4 = 1 then None
         else map_option (\<lambda>ds. map char_of (octets ds)) (those (map (\<lambda>c. index_of c base64_alphabet) s)))"

section \<open>Buffers and base64url text\<close>

definition replace_char :: "char \<Rightarrow> char \<Rightarrow> string \<Rightarrow> string" where
  "replace_char c d s = map (\<lambda>x. if x = c then d else x) s"

definition base64urlToBuffer :: "string \<Rightarrow> 8 word list option" where
  "base64urlToBuffer s =
     (let padded = pad_end (ceil4 (length s)) (CHR ''='') (replace_char (CHR ''_'') (CHR ''/'') (replace_char (CHR ''-'') (CHR ''+'') s))
      in map_option (map (\<lambda>c. word_of_nat (of_char c))) (atob padded))"

definition strip_padding :: "string \<Rightarrow> string" where
  "strip_padding s = rev (dropWhile (\<lambda>c. c = CHR ''='') (rev s))"

definition bufferToBase64url :: "8 word list option \<Rightarrow> string" where
  "bufferToBase64url buffer =
     (case buffer of
        None \<Rightarrow> []
      | Some bytes \<Rightarrow>
          let binary = map (\<lambda>b. char_of (unat b)) bytes
          in strip_padding (replace_char (CHR ''/'') (CHR ''_'') (replace_char (CHR ''+'') (CHR ''-'') (btoa binary))))"

section \<open>Ceremonies\<close>

record CredentialDescriptorJSON =
  cd_id :: string
  cd_type :: string
  cd_transports :: "string list option"

text \<open>The same with its id as a buffer.\<close>

record PublicKeyCredentialDescriptor =
  pd_id :: "8 word list"
  pd_type :: string
  pd_transports :: "string list option"

text \<open>\<^const>\<open>None\<close> where \<open>atob\<close> throws; an absent list stays absent.\<close>

definition descriptor :: "CredentialDescriptorJSON \<Rightarrow> PublicKeyCredentialDescriptor option" where
  "descriptor item =
     map_option (\<lambda>b. \<lparr>pd_id = b, pd_type = cd_type item, pd_transports = cd_transports item\<rparr>) (base64urlToBuffer (cd_id item))"

definition descriptors :: "CredentialDescriptorJSON list option \<Rightarrow> PublicKeyCredentialDescriptor list option option" where
  "descriptors xs = (case xs of None \<Rightarrow> Some None | Some items \<Rightarrow> map_option Some (those (map descriptor items)))"

text \<open>The fields the bridge converts; what it passes through untouched is \<open>'o\<close>.\<close>

record 'o CreationOptionsJSON =
  co_challenge :: string
  co_user :: "string \<times> string \<times> string"
  co_excludeCredentials :: "CredentialDescriptorJSON list option"
  co_other :: 'o

record 'o RequestOptionsJSON =
  ro_challenge :: string
  ro_allowCredentials :: "CredentialDescriptorJSON list option"
  ro_other :: 'o

text \<open>What the browser is asked with: challenge, user, descriptors and the rest.\<close>

type_synonym 'o creation_request =
  "8 word list \<times> (8 word list \<times> string \<times> string) \<times> PublicKeyCredentialDescriptor list option \<times> 'o"

type_synonym 'o assertion_request = "8 word list \<times> PublicKeyCredentialDescriptor list option \<times> 'o"

text \<open>A \<open>DOMException\<close> has a name; what the ceremony gives may be no public-key credential.\<close>

datatype browser_error = DOMException string | other_error

definition isCancellation :: "browser_error \<Rightarrow> bool" where
  "isCancellation e = (case e of DOMException name \<Rightarrow> name = ''NotAllowedError'' \<or> name = ''AbortError'' | other_error \<Rightarrow> False)"

record attestation =
  at_id :: string
  at_rawId :: "8 word list"
  at_type :: string
  at_clientDataJSON :: "8 word list"
  at_attestationObject :: "8 word list"
  at_transports :: "string list option"
  at_extensions :: "(string \<times> string) list"

record assertion =
  as_id :: string
  as_rawId :: "8 word list"
  as_type :: string
  as_clientDataJSON :: "8 word list"
  as_authenticatorData :: "8 word list"
  as_signature :: "8 word list"
  as_userHandle :: "8 word list option"
  as_extensions :: "(string \<times> string) list"

datatype passkey_error = PasskeyCancelledError | invalid_text | raised browser_error

record RegistrationJSON =
  rj_id :: string
  rj_rawId :: string
  rj_type :: string
  rj_clientDataJSON :: string
  rj_attestationObject :: string
  rj_transports :: "string list"
  rj_extensions :: "(string \<times> string) list"

record AssertionJSON =
  aj_id :: string
  aj_rawId :: string
  aj_type :: string
  aj_clientDataJSON :: string
  aj_authenticatorData :: string
  aj_signature :: string
  aj_userHandle :: string
  aj_extensions :: "(string \<times> string) list"

text \<open>
  The conversion runs inside the \<open>try\<close>, so an invalid text is rethrown like any error that is not a
  cancellation. \<open>getTransports\<close> may be missing.
\<close>

definition createPasskey ::
    "('o creation_request \<Rightarrow> browser_error + attestation option) \<Rightarrow> 'o CreationOptionsJSON \<Rightarrow> passkey_error + RegistrationJSON" where
  "createPasskey create options =
     (case (base64urlToBuffer (co_challenge options), base64urlToBuffer (fst (co_user options)),
            descriptors (co_excludeCredentials options)) of
        (Some challenge, Some userId, Some excluded) \<Rightarrow>
          (case create (challenge, (userId, snd (co_user options)), excluded, co_other options) of
             Inl e \<Rightarrow> Inl (if isCancellation e then PasskeyCancelledError else raised e)
           | Inr None \<Rightarrow> Inl PasskeyCancelledError
           | Inr (Some c) \<Rightarrow> Inr \<lparr>rj_id = at_id c, rj_rawId = bufferToBase64url (Some (at_rawId c)), rj_type = at_type c,
               rj_clientDataJSON = bufferToBase64url (Some (at_clientDataJSON c)),
               rj_attestationObject = bufferToBase64url (Some (at_attestationObject c)),
               rj_transports = nullish (at_transports c) [], rj_extensions = at_extensions c\<rparr>)
      | _ \<Rightarrow> Inl invalid_text)"

definition getPasskey ::
    "('o assertion_request \<Rightarrow> browser_error + assertion option) \<Rightarrow> 'o RequestOptionsJSON \<Rightarrow> passkey_error + AssertionJSON" where
  "getPasskey get options =
     (case (base64urlToBuffer (ro_challenge options), descriptors (ro_allowCredentials options)) of
        (Some challenge, Some allowed) \<Rightarrow>
          (case get (challenge, allowed, ro_other options) of
             Inl e \<Rightarrow> Inl (if isCancellation e then PasskeyCancelledError else raised e)
           | Inr None \<Rightarrow> Inl PasskeyCancelledError
           | Inr (Some c) \<Rightarrow> Inr \<lparr>aj_id = as_id c, aj_rawId = bufferToBase64url (Some (as_rawId c)), aj_type = as_type c,
               aj_clientDataJSON = bufferToBase64url (Some (as_clientDataJSON c)),
               aj_authenticatorData = bufferToBase64url (Some (as_authenticatorData c)),
               aj_signature = bufferToBase64url (Some (as_signature c)),
               aj_userHandle = bufferToBase64url (as_userHandle c), aj_extensions = as_extensions c\<rparr>)
      | _ \<Rightarrow> Inl invalid_text)"

section \<open>Round trip\<close>

lemma octets_sextets: "list_all (\<lambda>b. b < 256) bs \<Longrightarrow> octets (sextets bs) = bs"
  by (induction bs rule: sextets.induct) auto

lemma sextets_bound: "list_all (\<lambda>b. b < 256) bs \<Longrightarrow> list_all (\<lambda>d. d < 64) (sextets bs)"
  by (induction bs rule: sextets.induct) auto

lemma sextets_length: "length (sextets bs) mod 4 \<noteq> 1"
  by (induction bs rule: sextets.induct) simp_all

definition plain_digit :: "nat \<Rightarrow> bool" where
  "plain_digit n \<longleftrightarrow> index_of (b64_char n) base64_alphabet = Some n \<and> b64_char n \<notin> {CHR ''='', CHR ''-'', CHR ''_''} \<and> \<not> b64_ws (b64_char n)"

lemma plain_digits: "list_all plain_digit [0..<64]"
  by code_simp

lemma plain_digit_below: "n < 64 \<Longrightarrow> plain_digit n"
  using plain_digits by (simp add: list_all_iff)

lemma plain_text:
  assumes "list_all (\<lambda>d. d < 64) ds" "c \<in> {CHR ''='', CHR ''-'', CHR ''_''}"
  shows "c \<notin> set (map b64_char ds)"
proof
  assume "c \<in> set (map b64_char ds)"
  then obtain d where "d \<in> set ds" "c = b64_char d" by auto
  then show False using assms plain_digit_below [of d] unfolding plain_digit_def by (auto simp: list_all_iff)
qed

lemma replace_char_notin: "c \<notin> set t \<Longrightarrow> c \<noteq> d \<Longrightarrow> c \<notin> set (replace_char e d t)"
  by (auto simp: replace_char_def)

definition unpad :: "string \<Rightarrow> string" where
  "unpad s = (if length s mod 4 = 0
     then (if drop (length s - 2) s = ''=='' then take (length s - 2) s
           else if drop (length s - 1) s = ''='' then take (length s - 1) s else s)
     else s)"

lemma unpad_replicate:
  assumes "CHR ''='' \<notin> set t" "k \<le> 2" "(length t + k) mod 4 = 0"
  shows "unpad (t @ replicate k (CHR ''='')) = t"
proof -
  consider "k = 0" | "k = 1" | "k = 2" using assms(2) by linarith
  then show ?thesis
  proof cases
    case 1
    then show ?thesis
      using assms(1) set_drop_subset [of "length t - 2" t] set_drop_subset [of "length t - 1" t] by (auto simp: unpad_def)
  next
    case 2
    then show ?thesis using assms(1,3) by (cases t rule: rev_cases) (auto simp: unpad_def)
  next
    case 3
    then show ?thesis using assms(3) by (simp add: unpad_def numeral_2_eq_2)
  qed
qed

text \<open>The text of a list of digits, padded, is read back as the digits.\<close>

lemma ceil4_padding: "n mod 4 \<noteq> 1 \<Longrightarrow> ceil4 n - n \<le> 2 \<and> (n + (ceil4 n - n)) mod 4 = 0"
  unfolding ceil4_def by presburger

lemma atob_padded:
  assumes "list_all (\<lambda>d. d < 64) ds" "length ds mod 4 \<noteq> 1"
  shows "atob (pad_end (ceil4 (length ds)) (CHR ''='') (map b64_char ds)) = Some (map char_of (octets ds))"
proof -
  let ?t = "map b64_char ds" and ?p = "pad_end (ceil4 (length ds)) (CHR ''='') (map b64_char ds)"
  have plain: "plain_digit d" if "d \<in> set ds" for d using that assms(1) plain_digit_below by (simp add: list_all_iff)
  have nows: "filter (\<lambda>c. \<not> b64_ws c) ?p = ?p"
    using plain by (auto simp: pad_end_def filter_id_conv plain_digit_def b64_ws_def)
  have "CHR ''='' \<notin> set ?t" by (rule plain_text [OF assms(1)]) simp
  then have u: "unpad ?p = ?t"
    using unpad_replicate [of ?t] ceil4_padding [OF assms(2)] by (simp add: pad_end_def)
  have decode: "those (map (\<lambda>c. index_of c base64_alphabet) ?t) = Some ds"
    using those_map_Some [of ds "\<lambda>d. index_of (b64_char d) base64_alphabet" "\<lambda>d. d"] plain
    by (simp add: plain_digit_def comp_def)
  show ?thesis
    using assms(2) decode by (simp only: atob_def nows Let_def unpad_def [symmetric] u length_map) simp
qed

lemma replace_back:
  "CHR ''-'' \<notin> set t \<Longrightarrow> CHR ''_'' \<notin> set t \<Longrightarrow>
     replace_char (CHR ''_'') (CHR ''/'') (replace_char (CHR ''-'') (CHR ''+'')
       (replace_char (CHR ''/'') (CHR ''_'') (replace_char (CHR ''+'') (CHR ''-'') t))) = t"
  by (induction t) (auto simp: replace_char_def)

lemma strip_padding_replicate: "CHR ''='' \<notin> set t \<Longrightarrow> strip_padding (t @ replicate k (CHR ''='')) = t"
  by (cases t rule: rev_cases) (auto simp: strip_padding_def dropWhile_append)

definition url_safe :: "char \<Rightarrow> bool" where
  "url_safe c \<longleftrightarrow> CHR ''A'' \<le> c \<and> c \<le> CHR ''Z'' \<or> CHR ''a'' \<le> c \<and> c \<le> CHR ''z''
     \<or> CHR ''0'' \<le> c \<and> c \<le> CHR ''9'' \<or> c = CHR ''-'' \<or> c = CHR ''_''"

definition url_digit :: "nat \<Rightarrow> string" where
  "url_digit n = replace_char (CHR ''/'') (CHR ''_'') (replace_char (CHR ''+'') (CHR ''-'') [b64_char n])"

lemma alphabet_url_safe: "list_all (\<lambda>n. list_all url_safe (url_digit n)) [0..<64]"
  by code_simp

lemma url_digits:
  "replace_char (CHR ''/'') (CHR ''_'') (replace_char (CHR ''+'') (CHR ''-'') (map b64_char ds)) = concat (map url_digit ds)"
  by (induction ds) (simp_all add: url_digit_def replace_char_def)

text \<open>
  C30: a buffer handed to the server as text and read back is the same buffer, byte for byte and at
  every length, and the text has only letters, digits, hyphens and underscores, without padding.
\<close>

theorem base64url_round_trip:
  "base64urlToBuffer (bufferToBase64url (Some bytes)) = Some bytes \<and> list_all url_safe (bufferToBase64url (Some bytes))"
proof -
  let ?bs = "map unat bytes"
  let ?ds = "sextets ?bs"
  let ?url = "\<lambda>t. replace_char (CHR ''/'') (CHR ''_'') (replace_char (CHR ''+'') (CHR ''-'') t)"
  let ?t = "map b64_char ?ds"
  have "unat b < 256" for b :: "8 word" using unsigned_less [of b] by simp
  then have b: "list_all (\<lambda>b. b < 256) ?bs" by (simp add: list_all_iff)
  then have ds: "list_all (\<lambda>d. d < 64) ?ds" "octets ?ds = ?bs" "length ?ds mod 4 \<noteq> 1"
    by (rule sextets_bound, rule octets_sextets) (rule sextets_length)
  have codes: "map of_char (map (\<lambda>b. char_of (unat b)) bytes) = ?bs"
    using b by (auto simp: list_all_iff of_char_of)
  have enc: "bufferToBase64url (Some bytes) = ?url ?t"
  proof -
    have "?url (?t @ replicate k (CHR ''='')) = ?url ?t @ replicate k (CHR ''='')" for k by (simp add: replace_char_def)
    moreover have "CHR ''='' \<notin> set (?url ?t)" by (intro replace_char_notin plain_text [OF ds(1)]) simp_all
    ultimately show ?thesis
      by (simp add: bufferToBase64url_def btoa_def codes Let_def pad_end_def strip_padding_replicate del: map_map)
  qed
  have "replace_char (CHR ''_'') (CHR ''/'') (replace_char (CHR ''-'') (CHR ''+'') (?url ?t)) = ?t"
    by (intro replace_back plain_text [OF ds(1)]) simp_all
  moreover have "length (?url ?t) = length ?ds" by (simp add: replace_char_def)
  ultimately have "base64urlToBuffer (?url ?t) = map_option (map (\<lambda>c. word_of_nat (of_char c))) (Some (map char_of ?bs))"
    using atob_padded [OF ds(1,3)] ds(2) by (simp add: base64urlToBuffer_def Let_def)
  also have "\<dots> = Some bytes" using b by (auto simp: list_all_iff of_char_of intro!: map_idI)
  finally have rt: "base64urlToBuffer (?url ?t) = Some bytes" .
  have "list_all url_safe (?url ?t)"
    unfolding url_digits using alphabet_url_safe ds(1) by (fastforce simp: list_all_iff)
  then show ?thesis using rt enc by simp
qed

end
