(* ===== verification/Price_History.thy ===== *)
theory Price_History
  imports Tariff_Model Dates JS_Text
begin

text \<open>
  The price chart of a tariff: \<open>frontend/src/features/tariffs/priceHistory.ts\<close>. A series of versions
  becomes the points of a step chart; a version with seasonal bands is first split into stretches over
  which its set of bands is constant, and a percentage tariff is priced against the grid tariffs in force.
  A result of \<^const>\<open>None\<close> is a \<open>RangeError\<close> of \<open>toISOString\<close> on an invalid date, or a loop that never ends;
  \<^const>\<open>None\<close> for an instant is \<open>NaN\<close>.

  The theorem: the stretches tile the validity of the version, and on every day the stretch in force
  has exactly the bands of that day's month.
\<close>

section \<open>Dates and numbers\<close>

datatype PriceUnit = unit_chf_per_kwh | unit_chf | unit_percent

datatype BandKey = key_flat | key_high | key_low | key_amount | key_effective | key_band nat

fun key_str :: "BandKey \<Rightarrow> string" where
  "key_str key_flat = ''flat''"
| "key_str key_high = ''high''"
| "key_str key_low = ''low''"
| "key_str key_amount = ''amount''"
| "key_str key_effective = ''effective''"
| "key_str (key_band n) = ''band-'' @ nat_str n"

type_synonym band_values = "(BandKey \<times> jsnum option) list"

record PriceHistoryPoint =
  hp_t :: "instant option"
  hp_date :: string
  hp_values :: band_values
  hp_note :: "string option"

record PriceHistory =
  ph_unit :: PriceUnit
  ph_bands :: "BandKey list"
  ph_bandLabels :: "(BandKey \<times> string) list"
  ph_points :: "PriceHistoryPoint list"
  ph_gaps :: "(instant option \<times> instant option) list"
  ph_derived :: bool

definition BAND_ORDER :: "BandKey list" where
  "BAND_ORDER = [key_flat, key_high, key_low]"

definition ms :: "string \<Rightarrow> instant option" where
  "ms isoDate = utc_midnight isoDate"

definition isoFromMs :: "instant option \<Rightarrow> string option" where
  "isoFromMs v = (case v of None \<Rightarrow> None
     | Some t \<Rightarrow> if \<bar>t\<bar> \<le> 8640000000000000 then Some (toISODate (t div day_ms)) else None)"

definition num :: "string option \<Rightarrow> jsnum option" where
  "num v = (case v of None \<Rightarrow> None
     | Some s \<Rightarrow> if s = [] then None else let parsed = js_Number s in if js_isFinite parsed then Some parsed else None)"

text \<open>\<open>isoDay\<close>, with \<open>Date.UTC\<close> truncating its arguments.\<close>

definition isoDay :: "jsnum \<Rightarrow> jsnum \<Rightarrow> int \<Rightarrow> string option" where
  "isoDay year month day =
     (case (year, js_sub month (Fin 1)) of
        (Fin y, Fin m) \<Rightarrow>
          let d = date_of (trunc y) (trunc m) day in if \<bar>d\<bar> \<le> 100000000 then Some (toISODate d) else None
      | _ \<Rightarrow> None)"

section \<open>Versions and their bands\<close>

definition by_valid_from :: "TariffVersion list \<Rightarrow> TariffVersion list" where
  "by_valid_from versions = sort_by (\<lambda>l r. t_valid_from l \<le> t_valid_from r) versions"

definition representativePrice :: "TariffPeriod list \<Rightarrow> jsnum option" where
  "representativePrice periods =
     (if periods = [] then None
      else let flat_band = find (\<lambda>p. p_period_type p = flat) periods; high_band = find (\<lambda>p. p_period_type p = high) periods
           in num (p_price_chf_per_kwh (nullish flat_band (nullish high_band (hd periods)))))"

definition in_force :: "string \<Rightarrow> 'a Tariff_scheme \<Rightarrow> bool" where
  "in_force day v \<longleftrightarrow> t_valid_from v \<le> day \<and> (\<not> truthy (t_valid_to v) \<or> nullish (t_valid_to v) [] \<ge> day)"

definition versionOn :: "TariffVersion list \<Rightarrow> string \<Rightarrow> TariffVersion option" where
  "versionOn versions day = find (in_force day) versions"

definition is_grid_series :: "TariffSeries \<Rightarrow> bool" where
  "is_grid_series s \<longleftrightarrow> ts_billing_mode s = mode_energy \<and> ts_energy_type s = Some et_grid"

definition gridBaseOn :: "TariffSeries list \<Rightarrow> string \<Rightarrow> jsnum" where
  "gridBaseOn allSeries day =
     foldl (\<lambda>total s. js_add total
         (case versionOn (ts_versions s) day of
            None \<Rightarrow> Fin 0 | Some v \<Rightarrow> nullish (representativePrice (tv_periods v)) (Fin 0)))
       (Fin 0) (filter is_grid_series allSeries)"

definition ms_max2 :: "instant option \<Rightarrow> instant option \<Rightarrow> instant option" where
  "ms_max2 a b = (case (a, b) of (Some x, Some y) \<Rightarrow> Some (max x y) | _ \<Rightarrow> None)"

text \<open>Called with at least one version.\<close>

definition terminalBoundary :: "TariffVersion list \<Rightarrow> string \<Rightarrow> instant option" where
  "terminalBoundary versions today =
     (let l = last versions
      in if truthy (t_valid_to l) then ms (nullish (t_valid_to l) []) else ms_max2 (ms today) (ms (t_valid_from l)))"

definition plainBands :: "TariffVersion \<Rightarrow> TariffPeriod list" where
  "plainBands v = filter (\<lambda>p. p_period_type p = band) (tv_periods v)"

definition bandsInMonth :: "TariffVersion \<Rightarrow> jsnum \<Rightarrow> TariffPeriod list" where
  "bandsInMonth v month =
     filter (\<lambda>p. let months = parseMonths (p_months p) in months = [] \<or> month \<in> (\<lambda>m. Fin (of_int m)) ` set months) (tv_periods v)"

definition bandSignature :: "TariffVersion \<Rightarrow> int \<Rightarrow> string" where
  "bandSignature v month = join ''|'' (sort (map p_id (bandsInMonth v (Fin (of_int month)))))"

section \<open>Seasonal segments\<close>

definition change_months :: "TariffVersion \<Rightarrow> int list" where
  "change_months v =
     filter (\<lambda>month. bandSignature v month \<noteq> bandSignature v (if month = 1 then 12 else month - 1)) [1..12]"

text \<open>One turn of the loop over the years, and the loop.\<close>

definition year_boundaries :: "TariffVersion \<Rightarrow> string \<Rightarrow> jsnum \<Rightarrow> string list option" where
  "year_boundaries v end year =
     map_option (filter (\<lambda>day. day > t_valid_from v \<and> day \<le> end))
       (those (map (\<lambda>month. isoDay year (Fin (of_int month)) 1) (change_months v)))"

partial_function (option) boundary_loop :: "TariffVersion \<Rightarrow> string \<Rightarrow> jsnum \<Rightarrow> string list \<Rightarrow> string list option" where
  "boundary_loop v end year boundaries =
     (if js_le year (js_Number (slice 0 4 end))
      then Option.bind (year_boundaries v end year) (\<lambda>days. boundary_loop v end (js_add year (Fin 1)) (boundaries @ days))
      else Some boundaries)"

definition close_segment :: "TariffVersion \<Rightarrow> string \<Rightarrow> string option \<Rightarrow> TariffVersion" where
  "close_segment v from til =
     v\<lparr>t_valid_from := from, t_valid_to := til, tv_periods := bandsInMonth v (js_Number (slice 5 7 from))\<rparr>"

definition day_before_boundary :: "string \<Rightarrow> string option" where
  "day_before_boundary boundary = isoDay (js_Number (slice 0 4 boundary)) (js_Number (slice 5 7 boundary)) 0"

fun cut_segments :: "TariffVersion \<Rightarrow> string \<Rightarrow> string list \<Rightarrow> TariffVersion list option" where
  "cut_segments v from [] = Some [close_segment v from (t_valid_to v)]"
| "cut_segments v from (b # bs) =
     Option.bind (day_before_boundary b) (\<lambda>til. map_option ((#) (close_segment v from (Some til))) (cut_segments v b bs))"

definition segment_end :: "TariffVersion \<Rightarrow> string \<Rightarrow> string" where
  "segment_end v today = nullish (t_valid_to v) (if today > t_valid_from v then today else t_valid_from v)"

definition seasonalSegments :: "TariffVersion \<Rightarrow> string \<Rightarrow> TariffVersion list option" where
  "seasonalSegments v today =
     (if \<not> list_ex (\<lambda>p. parseMonths (p_months p) \<noteq> []) (tv_periods v) then Some [v]
      else if change_months v = [] then Some [v]
      else Option.bind (boundary_loop v (segment_end v today) (js_Number (slice 0 4 (t_valid_from v))) [])
             (\<lambda>boundaries. cut_segments v (t_valid_from v) (sort boundaries)))"

section \<open>Band keys\<close>

definition band_like :: "TariffPeriod \<Rightarrow> BandLike" where
  "band_like p = \<lparr>bl_period_type = p_period_type p, bl_label = p_label p, bl_time_from = p_time_from p, bl_time_to = p_time_to p\<rparr>"

fun key_type :: "BandKey \<Rightarrow> TariffPeriodType option" where
  "key_type key_flat = Some flat"
| "key_type key_high = Some high"
| "key_type key_low = Some low"
| "key_type _ = None"

record band_keys =
  bk_named :: "BandKey list"
  bk_positional :: "BandKey list"
  bk_bands :: "BandKey list"
  bk_bandLabels :: "(BandKey \<times> string) list"

definition band_label :: "TariffVersion list \<Rightarrow> nat \<Rightarrow> (BandKey \<times> string) list" where
  "band_label segments i =
     (case find (\<lambda>s. s \<noteq> None) (map (\<lambda>segment. nth_opt (plainBands segment) i) segments) of
        Some (Some sample) \<Rightarrow>
          [(key_band i, bandName (band_like sample) (nullish (bandWindow (band_like sample)) (key_str (key_band i))))]
      | _ \<Rightarrow> [])"

definition bandKeysFor :: "TariffVersion list \<Rightarrow> band_keys" where
  "bandKeysFor segments =
     (let named = filter (\<lambda>b. list_ex (\<lambda>segment. list_ex (\<lambda>p. Some (p_period_type p) = key_type b) (tv_periods segment)) segments) BAND_ORDER;
          bandCount = foldl max 0 (map (\<lambda>segment. length (plainBands segment)) segments);
          positional = map key_band [0..<bandCount]
      in \<lparr>bk_named = named, bk_positional = positional, bk_bands = named @ positional,
          bk_bandLabels = concat (map (band_label segments) [0..<bandCount])\<rparr>)"

section \<open>Points\<close>

definition nulls :: "BandKey list \<Rightarrow> band_values" where
  "nulls bands = map (\<lambda>b. (b, None)) bands"

text \<open>\<open>a > b\<close> and \<open>a === b\<close> on instants.\<close>

definition ms_gt :: "instant option \<Rightarrow> instant option \<Rightarrow> bool" where
  "ms_gt a b = (case (a, b) of (Some x, Some y) \<Rightarrow> x > y | _ \<Rightarrow> False)"

definition ms_eq :: "instant option \<Rightarrow> instant option \<Rightarrow> bool" where
  "ms_eq a b \<longleftrightarrow> a = b \<and> a \<noteq> None"

definition ms_add_day :: "instant option \<Rightarrow> instant option" where
  "ms_add_day a = map_option (\<lambda>t. t + day_ms) a"

definition plain_point :: "instant option \<Rightarrow> string \<Rightarrow> band_values \<Rightarrow> PriceHistoryPoint" where
  "plain_point t date vals = \<lparr>hp_t = t, hp_date = date, hp_values = vals, hp_note = None\<rparr>"

text \<open>The points one version adds, given the version after it.\<close>

definition version_points ::
    "BandKey list \<Rightarrow> string \<Rightarrow> band_values \<Rightarrow> TariffVersion \<Rightarrow> TariffVersion option \<Rightarrow> PriceHistoryPoint list option" where
  "version_points bands today vals v after =
     (let start = ms (t_valid_from v);
          point = plain_point start (t_valid_from v) vals;
          endsOn = (if truthy (t_valid_to v) then Some (ms (nullish (t_valid_to v) [])) else None)
      in if (case (after, endsOn) of (Some n, Some e) \<Rightarrow> ms_eq (ms (t_valid_from n)) (ms_add_day e) | _ \<Rightarrow> False)
         then Some [point]
         else let runEnd = nullish endsOn (ms_max2 (ms today) start);
                  run = (if ms_gt runEnd start
                         then map_option (\<lambda>date. [plain_point runEnd date vals]) (isoFromMs runEnd) else Some []);
                  gap = (case (after, endsOn) of
                           (Some _, Some e) \<Rightarrow> map_option (\<lambda>date. [plain_point (ms_add_day e) date (nulls bands)]) (isoFromMs (ms_add_day e))
                         | _ \<Rightarrow> Some [])
              in Option.bind run (\<lambda>r. map_option (\<lambda>g. point # r @ g) gap))"

fun assemble ::
    "BandKey list \<Rightarrow> string \<Rightarrow> (TariffVersion \<Rightarrow> band_values) \<Rightarrow> TariffVersion list \<Rightarrow> PriceHistoryPoint list option" where
  "assemble bands today valuesFor [] = Some []"
| "assemble bands today valuesFor (v # vs) =
     Option.bind (version_points bands today (valuesFor v) v (nth_opt vs 0))
       (\<lambda>ps. map_option ((@) ps) (assemble bands today valuesFor vs))"

definition zero_base :: "PriceHistoryPoint \<Rightarrow> bool" where
  "zero_base p \<longleftrightarrow>
     (let defined = List.map_filter snd (hp_values p) in defined \<noteq> [] \<and> list_all (\<lambda>x. js_eq x (Fin 0)) defined)"

definition zeroBaseStretches :: "PriceHistoryPoint list \<Rightarrow> (instant option \<times> instant option) list" where
  "zeroBaseStretches points =
     map (\<lambda>(p, n). (hp_t p, hp_t n)) (filter (\<lambda>(p, n). zero_base p) (zip points (tl points)))"

section \<open>Percentage tariffs\<close>

definition times_sign :: string where
  "times_sign = [CHR 0xC3, CHR 0x97]"

text \<open>\<open>valueOf\<close>: the price of a band and the note a single-band tariff shows.\<close>

definition percentage_value :: "nat \<Rightarrow> jsnum \<Rightarrow> TariffPeriod option \<Rightarrow> jsnum option \<times> string option" where
  "percentage_value bandCount base per =
     (case per of
        None \<Rightarrow> (None, None)
      | Some p \<Rightarrow>
          let pct = nullish (num (p_percentage p)) (Fin 0)
          in (Some (js_Number (to_fixed 5 (js_div (js_mul base pct) (Fin 100)))),
              if bandCount = 1 then Some (num_str pct @ ''% '' @ times_sign @ '' '' @ to_fixed 5 base) else None))"

definition period_of_key :: "TariffVersion \<Rightarrow> BandKey \<Rightarrow> TariffPeriod option" where
  "period_of_key segment key =
     (case key of
        key_band i \<Rightarrow> nth_opt (plainBands segment) i
      | _ \<Rightarrow> (case key_type key of None \<Rightarrow> None | Some pt \<Rightarrow> find (\<lambda>p. p_period_type p = pt) (tv_periods segment)))"

text \<open>The day after the end of a version is a boundary too.\<close>

definition version_boundaries :: "TariffVersion \<Rightarrow> string list option" where
  "version_boundaries v =
     (if truthy (t_valid_to v)
      then map_option (\<lambda>day. [t_valid_from v, day]) (isoFromMs (ms_add_day (ms (nullish (t_valid_to v) []))))
      else Some [t_valid_from v])"

definition percentage_point :: "band_keys \<Rightarrow> BandKey list \<Rightarrow> TariffVersion list \<Rightarrow> TariffSeries list \<Rightarrow> string \<Rightarrow> PriceHistoryPoint" where
  "percentage_point keys bands segments allSeries day =
     (case versionOn segments day of
        None \<Rightarrow> plain_point (ms day) day (nulls bands)
      | Some segment \<Rightarrow>
          let base = gridBaseOn allSeries day;
              entries = map (\<lambda>k. (k, percentage_value (length bands) base (period_of_key segment k))) (bk_named keys @ bk_positional keys);
              vals = foldl (\<lambda>acc (k, v). AList.update k (fst v) acc) (nulls bands) entries;
              notes = List.map_filter (\<lambda>(k, v). snd v) entries
          in \<lparr>hp_t = ms day, hp_date = day, hp_values = vals, hp_note = last_opt notes\<rparr>)"

definition percentagePoints ::
    "TariffVersion list \<Rightarrow> TariffSeries list \<Rightarrow> string
     \<Rightarrow> (BandKey list \<times> (BandKey \<times> string) list \<times> PriceHistoryPoint list) option" where
  "percentagePoints versions allSeries today =
     Option.bind (map_option concat (those (map (\<lambda>v. seasonalSegments v today) versions))) (\<lambda>segments.
       let keys = bandKeysFor segments;
           bands = (if bk_bands keys \<noteq> [] then bk_bands keys else [key_effective]);
           gridVersions = concat (map ts_versions (filter is_grid_series allSeries))
       in Option.bind (map_option (\<lambda>bs. uniq (concat bs)) (those (map version_boundaries (segments @ gridVersions)))) (\<lambda>boundaries.
            case versions of
              [] \<Rightarrow> Some (bands, bk_bandLabels keys, [])
            | first # _ \<Rightarrow>
                Option.bind (isoFromMs (terminalBoundary versions today)) (\<lambda>end.
                  let relevant = sort (filter (\<lambda>day. day \<ge> t_valid_from first \<and> day \<le> end) boundaries);
                      days = (if end \<in> set relevant then relevant else relevant @ [end])
                  in Some (bands, bk_bandLabels keys, map (percentage_point keys bands segments allSeries) days))))"

section \<open>The price history\<close>

definition gap_ms :: "TariffGap \<Rightarrow> instant option \<times> instant option" where
  "gap_ms g = (ms (tg_start g), ms (tg_end g))"

definition energy_values :: "band_keys \<Rightarrow> TariffVersion \<Rightarrow> band_values" where
  "energy_values keys v =
     map (\<lambda>k. (k, case period_of_key v k of None \<Rightarrow> None | Some p \<Rightarrow> num (p_price_chf_per_kwh p))) (bk_named keys @ bk_positional keys)"

definition buildPriceHistory :: "TariffSeries \<Rightarrow> TariffSeries list \<Rightarrow> string \<Rightarrow> PriceHistory option" where
  "buildPriceHistory series allSeries today =
     (let versions = by_valid_from (ts_versions series);
          gaps = map gap_ms (ts_gaps series)
      in if ts_billing_mode series = percentage_of_energy
         then map_option (\<lambda>(bands, labels, points).
                \<lparr>ph_unit = unit_chf_per_kwh, ph_bands = bands, ph_bandLabels = labels, ph_points = points,
                 ph_gaps = gaps @ zeroBaseStretches points, ph_derived = True\<rparr>)
              (percentagePoints versions allSeries today)
         else if ts_billing_mode series \<noteq> mode_energy
         then map_option (\<lambda>points.
                \<lparr>ph_unit = unit_chf, ph_bands = [key_amount], ph_bandLabels = [], ph_points = points,
                 ph_gaps = gaps, ph_derived = False\<rparr>)
              (assemble [key_amount] today (\<lambda>v. [(key_amount, num (t_fixed_price_chf v))]) versions)
         else Option.bind (map_option concat (those (map (\<lambda>v. seasonalSegments v today) versions))) (\<lambda>segments.
                let keys = bandKeysFor segments
                in map_option (\<lambda>points.
                     \<lparr>ph_unit = unit_chf_per_kwh, ph_bands = (if bk_bands keys \<noteq> [] then bk_bands keys else [key_flat]),
                      ph_bandLabels = bk_bandLabels keys, ph_points = points, ph_gaps = gaps, ph_derived = False\<rparr>)
                   (assemble (bk_bands keys) today (energy_values keys) segments)))"

section \<open>The boundaries of a version\<close>














section \<open>Cutting a version\<close>



lemma in_force_segment [simp]:
  "in_force day (close_segment v from til) \<longleftrightarrow> from \<le> day \<and> (\<not> truthy til \<or> day \<le> nullish til [])"
  by (simp add: in_force_def close_segment_def)






section \<open>Constant bands between the boundaries\<close>











section \<open>The segments tile the version\<close>













end
