(* ===== verification/Metering_Points.thy ===== *)
theory Metering_Points
  imports Dates Live_Energy
begin

text \<open>
  The metering-point page: \<open>frontend/src/features/meteringPoints/useMeteringPointForms.ts\<close>. Forms and server
  errors, assignments and the guidance for the next one, data health, sorting, grouping by building and
  the filters read from the URL. Collation (plain and numeric) and today's date are arguments.

  The theorems: a new assignment that follows the guidance meets no existing one unless the page warns of
  an open-ended assignment; grouping by building shows every point of a listed building exactly once.
\<close>

section \<open>Records\<close>

datatype meter_type = mt_consumption | mt_production | mt_bidirectional

datatype SupplementaryStatus = ss_pending | ss_ok | ss_error | ss_reconnect_required | ss_disabled

record MeteringPoint =
  mp_point_id :: string
  mp_zev :: string
  mp_meter_id :: string
  mp_secondary_meter_id :: "string option"
  mp_meter_type :: meter_type
  mp_is_active :: bool
  mp_location_description :: "string option"
  mp_building :: string
  mp_building_name :: string
  mp_has_behind_meter_generation :: bool
  mp_history_protected :: "bool option"
  mp_reading_count :: int
  mp_assignment_count :: int
  mp_first_reading_at :: "string option"
  mp_last_reading_at :: "string option"
  mp_supplementary_source_status :: "SupplementaryStatus option"
  mp_live_state :: "LiveState option"

record MeteringPointInput =
  mi_zev :: string
  mi_meter_id :: string
  mi_secondary_meter_id :: "string option"
  mi_meter_type :: meter_type
  mi_is_active :: bool
  mi_location_description :: "string option"
  mi_building :: "string option"
  mi_has_behind_meter_generation :: "bool option"

datatype allocation_mode = am_personal | am_community

record MeteringPointAssignment =
  ma_id :: string
  ma_metering_point :: string
  ma_participant :: string
  ma_valid_from :: string
  ma_valid_to :: "string option"
  ma_created_at :: string
  ma_updated_at :: string
  ma_allocation_mode :: allocation_mode

record MeteringPointAssignmentInput =
  mai_metering_point :: string
  mai_participant :: string
  mai_valid_from :: string
  mai_valid_to :: "string option"
  mai_allocation_mode :: allocation_mode

text \<open>Of a building and of a quality report the fields this file reads.\<close>

record Building =
  bg_id :: string
  bg_name :: string
  bg_metering_point_count :: int

datatype DataQualitySeverity = dq_green | dq_yellow | dq_red

section \<open>Forms\<close>

definition defaultMeteringPointForm :: MeteringPointInput where
  "defaultMeteringPointForm =
     \<lparr>mi_zev = [], mi_meter_id = [], mi_secondary_meter_id = Some [], mi_meter_type = mt_consumption, mi_is_active = True,
      mi_location_description = Some [], mi_building = None, mi_has_behind_meter_generation = Some False\<rparr>"

definition normalizeSecondaryMeterId :: "string option \<Rightarrow> string option" where
  "normalizeSecondaryMeterId v =
     (case v of None \<Rightarrow> None | Some s \<Rightarrow> let trimmed = trim s in if trimmed = [] then None else Some trimmed)"

definition toMeteringPointPayload :: "MeteringPointInput \<Rightarrow> MeteringPointInput" where
  "toMeteringPointPayload form = form\<lparr>mi_secondary_meter_id := normalizeSecondaryMeterId (mi_secondary_meter_id form)\<rparr>"

definition METERING_POINT_FIELD_ERROR_KEYS :: "string list" where
  "METERING_POINT_FIELD_ERROR_KEYS = [''meter_id'', ''secondary_meter_id'', ''meter_type'']"

text \<open>The message of one field: a string, or the first non-blank string of a list.\<close>

definition field_message :: "json option \<Rightarrow> string option" where
  "field_message v =
     (case v of
        Some (JStr s) \<Rightarrow> if trim s \<noteq> [] then Some s else None
      | Some (JArr vs) \<Rightarrow>
          (case find (\<lambda>e. case e of JStr s \<Rightarrow> trim s \<noteq> [] | _ \<Rightarrow> False) vs of Some (JStr s) \<Rightarrow> Some s | _ \<Rightarrow> None)
      | _ \<Rightarrow> None)"

text \<open>\<open>data\<close> is the body of the response, if the error has one.\<close>

definition meteringPointFieldErrors :: "json option \<Rightarrow> (string \<times> string) list" where
  "meteringPointFieldErrors data =
     (case data of
        Some (JObj kvs) \<Rightarrow>
          List.map_filter (\<lambda>key. map_option (Pair key) (field_message (map_of kvs key))) METERING_POINT_FIELD_ERROR_KEYS
      | _ \<Rightarrow> [])"

definition defaultAssignmentForm :: "string \<Rightarrow> string \<Rightarrow> MeteringPointAssignmentInput" where
  "defaultAssignmentForm today meteringPointId =
     \<lparr>mai_metering_point = meteringPointId, mai_participant = [], mai_valid_from = today, mai_valid_to = None,
      mai_allocation_mode = am_personal\<rparr>"

section \<open>Buildings\<close>

record BuildingGroup =
  gr_building :: Building
  gr_points :: "MeteringPoint list"

text \<open>\<open>a || b\<close> on comparison results.\<close>

definition cmp_or :: "int \<Rightarrow> int \<Rightarrow> int" where
  "cmp_or a b = (if a = 0 then b else a)"

definition groupMeteringPointsByBuilding ::
    "(string \<Rightarrow> string \<Rightarrow> int) \<Rightarrow> Building list \<Rightarrow> MeteringPoint list \<Rightarrow> bool \<Rightarrow> BuildingGroup list" where
  "groupMeteringPointsByBuilding localeCompare buildings points filtersActive =
     filter (\<lambda>g. 0 < length (gr_points g) \<or> \<not> filtersActive \<and> bg_metering_point_count (gr_building g) = 0)
       (map (\<lambda>b. \<lparr>gr_building = b, gr_points = filter (\<lambda>p. mp_building p = bg_id b) points\<rparr>)
         (sort_by (\<lambda>l r. cmp_or (localeCompare (bg_name l) (bg_name r)) (localeCompare (bg_id l) (bg_id r)) \<le> 0) buildings))"

section \<open>Assignments\<close>

datatype AssignmentState = as_current | as_upcoming | as_ended

definition getAssignmentState :: "MeteringPointAssignment \<Rightarrow> string \<Rightarrow> AssignmentState" where
  "getAssignmentState a todayIso =
     (if ma_valid_from a > todayIso then as_upcoming
      else if truthy (ma_valid_to a) \<and> nullish (ma_valid_to a) [] < todayIso then as_ended
      else as_current)"

definition isAssignmentCurrent :: "MeteringPointAssignment \<Rightarrow> string \<Rightarrow> bool" where
  "isAssignmentCurrent a todayIso \<longleftrightarrow> getAssignmentState a todayIso = as_current"

fun assignmentStateBadgeClass :: "AssignmentState \<Rightarrow> string" where
  "assignmentStateBadgeClass as_current = ''badge badge-success''"
| "assignmentStateBadgeClass as_upcoming = ''badge badge-info''"
| "assignmentStateBadgeClass as_ended = ''badge badge-neutral''"

fun assignmentStateSortOrder :: "AssignmentState \<Rightarrow> int" where
  "assignmentStateSortOrder as_current = 0"
| "assignmentStateSortOrder as_upcoming = 1"
| "assignmentStateSortOrder as_ended = 2"

text \<open>\<open>new Date(year, month, day)\<close> on numbers; a missing part is \<open>NaN\<close>.\<close>

definition num_date :: "jsnum \<Rightarrow> jsnum \<Rightarrow> jsnum \<Rightarrow> js_date" where
  "num_date y m d = (case (y, m, d) of (Fin a, Fin b, Fin c) \<Rightarrow> mk_date (trunc a) (trunc b) (trunc c) | _ \<Rightarrow> None)"

definition addDaysIso :: "string \<Rightarrow> int \<Rightarrow> string" where
  "addDaysIso isoDay days =
     (let parts = map js_Number (split_on (CHR ''-'') isoDay); part = (\<lambda>i. nullish (nth_opt parts i) NaN)
      in formatIsoDate (num_date (part 0) (js_sub (part 1) (Fin 1)) (js_add (part 2) (Fin (of_int days)))))"

record NextAssignmentGuidance =
  ng_suggestedValidFrom :: string
  ng_hasOpenEndedAssignment :: bool

definition getNextAssignmentGuidance :: "MeteringPointAssignment list \<Rightarrow> string \<Rightarrow> NextAssignmentGuidance" where
  "getNextAssignmentGuidance assignments todayIso =
     (let latestValidTo = last_opt (sort (filter (\<lambda>s. s \<noteq> []) (List.map_filter ma_valid_to assignments)))
      in \<lparr>ng_suggestedValidFrom = (case latestValidTo of None \<Rightarrow> todayIso | Some d \<Rightarrow> addDaysIso d 1),
          ng_hasOpenEndedAssignment = list_ex (\<lambda>a. \<not> truthy (ma_valid_to a)) assignments\<rparr>)"

section \<open>Data health\<close>

definition HEALTH_WINDOW_DAYS :: int where "HEALTH_WINDOW_DAYS = 30"

definition getMeteringPointHealthWindow :: "string \<Rightarrow> int \<Rightarrow> string \<times> string" where
  "getMeteringPointHealthWindow todayIso days = (addDaysIso todayIso (- days), addDaysIso todayIso (- 1))"

datatype MeteringPointHealth = severity DataQualitySeverity | no_data | health_unknown

definition getMeteringPointHealth :: "MeteringPoint \<Rightarrow> DataQualitySeverity option \<Rightarrow> MeteringPointHealth" where
  "getMeteringPointHealth point quality =
     (if mp_reading_count point = 0 then no_data
      else case quality of None \<Rightarrow> health_unknown | Some s \<Rightarrow> severity s)"

definition isMeteringPointHolderLess :: "MeteringPoint \<Rightarrow> MeteringPointAssignment list \<Rightarrow> string \<Rightarrow> bool" where
  "isMeteringPointHolderLess point assignments todayIso =
     (if \<not> mp_is_active point \<or> mp_reading_count point = 0 then False
      else \<not> list_ex (\<lambda>a. isAssignmentCurrent a todayIso) assignments)"

definition meteringPointNeedsAttention :: "MeteringPoint \<Rightarrow> MeteringPointHealth \<Rightarrow> bool \<Rightarrow> bool" where
  "meteringPointNeedsAttention point health holderLess \<longleftrightarrow>
     mp_is_active point \<and> (health = severity dq_yellow \<or> health = severity dq_red \<or> health = no_data \<or> holderLess)"

section \<open>Sorting and filters\<close>

datatype MeteringPointSort = by_meter_id | by_location | by_last_reading

definition readMeteringPointSort :: "string option \<Rightarrow> MeteringPointSort" where
  "readMeteringPointSort v =
     (if v = Some ''location'' then by_location else if v = Some ''last_reading'' then by_last_reading else by_meter_id)"

definition point_cmp ::
    "(string \<Rightarrow> string \<Rightarrow> int) \<Rightarrow> (string \<Rightarrow> string \<Rightarrow> int) \<Rightarrow> MeteringPointSort \<Rightarrow> MeteringPoint \<Rightarrow> MeteringPoint \<Rightarrow> int" where
  "point_cmp localeCompare numericCompare srt l r =
     (let byMeterId = numericCompare (mp_meter_id l) (mp_meter_id r)
      in case srt of
           by_location \<Rightarrow>
             (let a = nullish (map_option trim (mp_location_description l)) [];
                  b = nullish (map_option trim (mp_location_description r)) []
              in if (a = []) \<noteq> (b = []) then (if a \<noteq> [] then - 1 else 1)
                 else cmp_or (numericCompare a b) byMeterId)
         | by_last_reading \<Rightarrow>
             cmp_or (localeCompare (nullish (mp_last_reading_at l) []) (nullish (mp_last_reading_at r) [])) byMeterId
         | by_meter_id \<Rightarrow> byMeterId)"

definition sortMeteringPoints ::
    "(string \<Rightarrow> string \<Rightarrow> int) \<Rightarrow> (string \<Rightarrow> string \<Rightarrow> int) \<Rightarrow> MeteringPoint list \<Rightarrow> MeteringPointSort \<Rightarrow> MeteringPoint list" where
  "sortMeteringPoints localeCompare numericCompare points srt =
     sort_by (\<lambda>l r. point_cmp localeCompare numericCompare srt l r \<le> 0) points"

definition readMeteringPointBuildingFilter :: "string option \<Rightarrow> string" where
  "readMeteringPointBuildingFilter v = or_str v ''all''"

text \<open>\<^const>\<open>None\<close> is \<open>'all'\<close>.\<close>

definition readMeteringPointTypeFilter :: "string option \<Rightarrow> meter_type option" where
  "readMeteringPointTypeFilter v =
     (if v = Some ''consumption'' then Some mt_consumption else if v = Some ''production'' then Some mt_production
      else if v = Some ''bidirectional'' then Some mt_bidirectional else None)"

datatype MeteringPointView = view_all | view_active | view_inactive | view_unassigned | view_attention

definition readMeteringPointView :: "string option \<Rightarrow> MeteringPointView" where
  "readMeteringPointView v =
     (if v = Some ''active'' then view_active else if v = Some ''inactive'' then view_inactive
      else if v = Some ''unassigned'' then view_unassigned else if v = Some ''attention'' then view_attention else view_all)"

section \<open>Day arithmetic on ISO dates\<close>

lemma dash_not_digs: "CHR ''-'' \<notin> set (digs k n)"
  using digs_digits [of "CHR ''-''" k n] by (auto simp: is_digit_def less_eq_char_def)

lemma split_iso:
  assumes "four_digit_year d"
  shows "map js_Number (split_on (CHR ''-'') (toISODate d)) =
    [Fin (of_int (YearFromDay d)), Fin (of_int (MonthFromDay d + 1)), Fin (of_int (DateFromDay d))]"
proof -
  have "split_on (CHR ''-'') (toISODate d) =
      [digs 4 (nat (YearFromDay d)), digs 2 (nat (MonthFromDay d + 1)), digs 2 (nat (DateFromDay d))]"
    unfolding toISODate_eq [OF assms] by (simp add: split_on_append split_on_no_sep dash_not_digs del: digs.simps)
  moreover have "nat (YearFromDay d) < 10000" using assms by linarith
  ultimately show ?thesis
    using assms month_range [of d] date_range [of d] nat_bounds_of_day [of d]
    by (simp add: js_Number_digs mod_less [of "nat (YearFromDay d)" 10000] del: digs.simps)
qed

lemma addDaysIso_eq:
  assumes "four_digit_year d" "100 \<le> YearFromDay d" "\<bar>n\<bar> \<le> 900" "padded_year (d + n)"
  shows "addDaysIso (toISODate d) n = toISODate (d + n)"
proof -
  have m: "js_sub (Fin (of_int (MonthFromDay d + 1))) (Fin 1) = Fin (of_int (MonthFromDay d))"
    using js_sub_int [of "MonthFromDay d + 1" 1] month_range [of d] by simp
  have a: "js_add (Fin (of_int (DateFromDay d))) (Fin (of_int n)) = Fin (of_int (DateFromDay d + n))"
    using js_add_int [of "DateFromDay d" n] date_range [of d] assms(3) by simp
  have "mk_date (YearFromDay d) (MonthFromDay d) (DateFromDay d + n) = Some (month_day (month_index d) + (DateFromDay d + n) - 1)"
    using assms(1-3) month_range [of d] date_range [of d] by (subst mk_date_month_day) (simp_all add: month_index_def)
  also have "month_day (month_index d) + (DateFromDay d + n) - 1 = d + n" using month_day_of_day [of d] by simp
  finally show ?thesis
    using formatIsoDate_Some [OF assms(4)]
    unfolding addDaysIso_def split_iso [OF assms(1)] Let_def by (simp add: nth_opt_def m a num_date_def del: js_add.simps of_int_add)
qed

section \<open>The next assignment\<close>

text \<open>An end the page accepts: a calendar day of the years 1000 to 9999 whose next day is one too.\<close>

definition end_ok :: "MeteringPointAssignment \<Rightarrow> bool" where
  "end_ok a = (case ma_valid_to a of None \<Rightarrow> True
     | Some s \<Rightarrow> s = [] \<or> valid_iso s \<and> 1000 \<le> YearFromDay (iso_day s) \<and> YearFromDay (iso_day s + 1) \<le> 9999)"

definition closed_ends :: "MeteringPointAssignment list \<Rightarrow> string list" where
  "closed_ends assignments = filter (\<lambda>s. s \<noteq> []) (List.map_filter ma_valid_to assignments)"

lemma in_closed_ends: "s \<in> set (closed_ends xs) \<longleftrightarrow> s \<noteq> [] \<and> (\<exists>a \<in> set xs. ma_valid_to a = Some s)"
  unfolding closed_ends_def map_filter_def by (auto simp: image_iff)

lemma guidance_day:
  assumes "list_all end_ok xs" "closed_ends xs \<noteq> []"
  obtains m where "m \<in> set (closed_ends xs)" "\<And>s. s \<in> set (closed_ends xs) \<Longrightarrow> s \<le> m" "valid_iso m"
    "padded_year (iso_day m + 1)" "ng_suggestedValidFrom (getNextAssignmentGuidance xs today) = toISODate (iso_day m + 1)"
proof
  let ?m = "Max (set (closed_ends xs))"
  show in_m: "?m \<in> set (closed_ends xs)" using assms(2) by (intro Max_in) auto
  show "s \<le> ?m" if "s \<in> set (closed_ends xs)" for s using that by (intro Max_ge) auto
  from in_m obtain a where "a \<in> set xs" "ma_valid_to a = Some ?m" "?m \<noteq> []" by (auto simp: in_closed_ends)
  then have ok: "valid_iso ?m" "1000 \<le> YearFromDay (iso_day ?m)" "YearFromDay (iso_day ?m + 1) \<le> 9999"
    using assms(1) by (auto simp: list_all_iff end_ok_def split: option.splits)
  then show "valid_iso ?m" "padded_year (iso_day ?m + 1)"
    using YearFromDay_mono [of "iso_day ?m" "iso_day ?m + 1"] by auto
  then have "addDaysIso ?m 1 = toISODate (iso_day ?m + 1)"
    using addDaysIso_eq [of "iso_day ?m" 1] ok YearFromDay_mono [of "iso_day ?m" "iso_day ?m + 1"] by simp
  then show "ng_suggestedValidFrom (getNextAssignmentGuidance xs today) = toISODate (iso_day ?m + 1)"
    using assms(2) by (simp add: getNextAssignmentGuidance_def closed_ends_def [symmetric] last_opt_sort)
qed

text \<open>
  C20: Guidance for the next assignment of a meter (calendar dates of the years 1000 to 9999). An
  assignment in force on or after the suggested day has no end, and then the page says that there is an
  open-ended assignment; the suggestion wastes no day: where some assignment has an end, one ends on the day before.
\<close>

theorem next_assignment_no_overlap:
  assumes "list_all end_ok assignments"
    and "g = getNextAssignmentGuidance assignments today"
  shows "(\<forall>a \<in> set assignments. \<forall>d. padded_year d \<longrightarrow> ng_suggestedValidFrom g \<le> toISODate d \<longrightarrow>
            isAssignmentCurrent a (toISODate d) \<longrightarrow> \<not> truthy (ma_valid_to a) \<and> ng_hasOpenEndedAssignment g)
    \<and> (list_ex (\<lambda>a. truthy (ma_valid_to a)) assignments \<longrightarrow>
         list_ex (\<lambda>b. \<exists>til. ma_valid_to b = Some til \<and> nextIsoDate til = ng_suggestedValidFrom g) assignments)"
proof (intro conjI ballI allI impI)
  fix a d
  assume a: "a \<in> set assignments" and d: "padded_year d" "ng_suggestedValidFrom g \<le> toISODate d"
    and cur: "isAssignmentCurrent a (toISODate d)"
  show open_a: "\<not> truthy (ma_valid_to a)"
  proof
    assume "truthy (ma_valid_to a)"
    then obtain s where s: "ma_valid_to a = Some s" "s \<in> set (closed_ends assignments)"
      using a by (auto simp: truthy_iff in_closed_ends)
    from s(2) have "closed_ends assignments \<noteq> []" by auto
    from guidance_day [OF assms(1) this, of today] obtain m where m: "s \<le> m" "valid_iso m" "padded_year (iso_day m + 1)"
      "ng_suggestedValidFrom g = toISODate (iso_day m + 1)" using s(2) assms(2) by metis
    then have "iso_day m + 1 \<le> d" using d by (simp add: toISODate_le_iff)
    then have "m < toISODate d" using m(2) d(1) toISODate_less_iff [of "iso_day m" d] valid_isoE [OF m(2)]
      by (metis less_add_one order_less_le_trans padded_imp_four toISODate_iso_day)
    then show False using cur s m(1) by (auto simp: isAssignmentCurrent_def getAssignmentState_def in_closed_ends split: if_splits)
  qed
  then show "ng_hasOpenEndedAssignment g" using a assms(2) by (auto simp: getNextAssignmentGuidance_def list_ex_iff)
next
  assume "list_ex (\<lambda>a. truthy (ma_valid_to a)) assignments"
  then obtain s where "s \<in> set (closed_ends assignments)" by (auto simp: list_ex_iff truthy_iff in_closed_ends)
  then have "closed_ends assignments \<noteq> []" by auto
  from guidance_day [OF assms(1) this, of today] obtain m where
    m: "m \<in> set (closed_ends assignments)" "valid_iso m" "padded_year (iso_day m + 1)"
      "ng_suggestedValidFrom g = toISODate (iso_day m + 1)" using assms(2) by metis
  then show "list_ex (\<lambda>b. \<exists>til. ma_valid_to b = Some til \<and> nextIsoDate til = ng_suggestedValidFrom g) assignments"
    using nextIsoDate_valid [OF m(2,3)] by (auto simp: list_ex_iff in_closed_ends)
qed

text \<open>The meter of a tenant handover: one assignment ended on 31 March, the next runs without end.\<close>

definition handover :: "MeteringPointAssignment list" where
  "handover = map (\<lambda>(i, f, e). \<lparr>ma_id = i, ma_metering_point = ''m'', ma_participant = i, ma_valid_from = f, ma_valid_to = e,
     ma_created_at = [], ma_updated_at = [], ma_allocation_mode = am_personal\<rparr>)
     [(''a'', ''2025-01-01'', Some ''2026-03-31''), (''b'', ''2026-04-01'', None)]"

theorem next_assignment_no_overlap_witness:
  "list_all end_ok handover \<and> ng_suggestedValidFrom (getNextAssignmentGuidance handover ''2026-05-01'') = ''2026-04-01''
   \<and> isAssignmentCurrent (handover ! 1) ''2026-04-01'' \<and> ma_valid_to (handover ! 1) = None
   \<and> ng_hasOpenEndedAssignment (getNextAssignmentGuidance handover ''2026-05-01'')
   \<and> list_ex (\<lambda>b. \<exists>til. ma_valid_to b = Some til \<and> nextIsoDate til = ''2026-04-01'') handover"
proof -
  have ok: "list_all end_ok handover" by code_simp
  have d: "toISODate 20544 = ''2026-04-01''" "padded_year 20544" by code_simp+
  have "toISODate 20543 = ''2026-03-31''" "padded_year 20543" by code_simp+
  then have "addDaysIso ''2026-03-31'' 1 = ''2026-04-01''" using addDaysIso_eq [of 20543 1] d by simp
  then have s: "ng_suggestedValidFrom (getNextAssignmentGuidance handover ''2026-05-01'') = ''2026-04-01''"
    by (simp add: getNextAssignmentGuidance_def handover_def List.map_filter_def last_opt_def)
  have c: "isAssignmentCurrent (handover ! 1) ''2026-04-01''" by code_simp
  have b: "handover ! 1 \<in> set handover" by (simp add: handover_def)
  have e: "list_ex (\<lambda>a. truthy (ma_valid_to a)) handover" by code_simp
  note law = next_assignment_no_overlap [OF ok refl, of "''2026-05-01''"]
  have "\<not> truthy (ma_valid_to (handover ! 1)) \<and> ng_hasOpenEndedAssignment (getNextAssignmentGuidance handover ''2026-05-01'')"
    using law [THEN conjunct1, rule_format, OF b, of 20544] unfolding d(1) s using d(2) c by simp
  moreover have "list_ex (\<lambda>b. \<exists>til. ma_valid_to b = Some til \<and> nextIsoDate til = ''2026-04-01'') handover"
    using law [THEN conjunct2, rule_format, OF e] unfolding s .
  moreover have "ma_valid_to (handover ! 1) = None" by (simp add: handover_def)
  ultimately show ?thesis using ok s c by simp
qed

section \<open>Grouping by building\<close>

lemma mset_group_points:
  assumes "distinct (map bg_id bs)"
  shows "mset (concat (map (\<lambda>b. filter (\<lambda>p. mp_building p = bg_id b) points) bs)) =
    mset (filter (\<lambda>p. mp_building p \<in> bg_id ` set bs) points)"
  using assms
proof (induction bs)
  case (Cons b bs)
  have "mset (filter (\<lambda>p. mp_building p \<in> bg_id ` set (b # bs)) points) =
      mset (filter (\<lambda>p. mp_building p = bg_id b) points) + mset (filter (\<lambda>p. mp_building p \<in> bg_id ` set bs) points)"
    using Cons.prems by (induction points) auto
  then show ?case using Cons by simp
qed simp

lemma concat_filter_nonempty: "(\<And>x. x \<in> set xs \<Longrightarrow> \<not> P x \<Longrightarrow> f x = []) \<Longrightarrow> concat (map f (filter P xs)) = concat (map f xs)"
  by (induction xs) auto

text \<open>
  Grouping by building. Where no two buildings share an id, the groups hold each metering point of a
  listed building exactly once and no other; every group's points are of its building; and a group with no
  point is shown exactly for a building that has no metering points, and only while no filter is active.
\<close>

theorem building_groups_partition:
  assumes "distinct (map bg_id buildings)"
    and "gs = groupMeteringPointsByBuilding localeCompare buildings points filtersActive"
  shows "mset (concat (map gr_points gs)) = mset (filter (\<lambda>p. mp_building p \<in> bg_id ` set buildings) points)
    \<and> (\<forall>g \<in> set gs. \<forall>p \<in> set (gr_points g). mp_building p = bg_id (gr_building g))
    \<and> (\<forall>b \<in> set buildings. (\<exists>g \<in> set gs. gr_building g = b) \<longleftrightarrow>
         (\<exists>p \<in> set points. mp_building p = bg_id b) \<or> \<not> filtersActive \<and> bg_metering_point_count b = 0)"
proof -
  define le where "le = (\<lambda>(l :: Building) (r :: Building). cmp_or (localeCompare (bg_name l) (bg_name r)) (localeCompare (bg_id l) (bg_id r)) \<le> 0)"
  let ?pts = "\<lambda>b. filter (\<lambda>p. mp_building p = bg_id b) points"
  have gs: "gs = filter (\<lambda>g. 0 < length (gr_points g) \<or> \<not> filtersActive \<and> bg_metering_point_count (gr_building g) = 0)
      (map (\<lambda>b. \<lparr>gr_building = b, gr_points = ?pts b\<rparr>) (sort_by le buildings))"
    unfolding assms(2) groupMeteringPointsByBuilding_def le_def by (rule refl)
  have "mset (map bg_id (sort_by le buildings)) = mset (map bg_id buildings)" by simp
  then have "distinct (map bg_id (sort_by le buildings))" using assms(1) mset_eq_imp_distinct_iff by blast
  then have "mset (concat (map gr_points gs)) = mset (filter (\<lambda>p. mp_building p \<in> bg_id ` set buildings) points)"
    unfolding gs by (subst concat_filter_nonempty) (simp_all add: comp_def mset_group_points)
  moreover have "\<forall>g \<in> set gs. \<forall>p \<in> set (gr_points g). mp_building p = bg_id (gr_building g)" unfolding gs by auto
  moreover have "\<forall>b \<in> set buildings. (\<exists>g \<in> set gs. gr_building g = b) \<longleftrightarrow>
      (\<exists>p \<in> set points. mp_building p = bg_id b) \<or> \<not> filtersActive \<and> bg_metering_point_count b = 0"
    unfolding gs by (auto simp: filter_empty_conv)
  ultimately show ?thesis by blast
qed

definition example_point :: "string \<Rightarrow> string \<Rightarrow> MeteringPoint" where
  "example_point i b =
     \<lparr>mp_point_id = i, mp_zev = ''z'', mp_meter_id = i, mp_secondary_meter_id = None, mp_meter_type = mt_consumption,
      mp_is_active = True, mp_location_description = None, mp_building = b, mp_building_name = b,
      mp_has_behind_meter_generation = False, mp_history_protected = None, mp_reading_count = 0, mp_assignment_count = 0,
      mp_first_reading_at = None, mp_last_reading_at = None, mp_supplementary_source_status = None, mp_live_state = None\<rparr>"

definition example_buildings :: "Building list" where
  "example_buildings = [\<lparr>bg_id = ''b2'', bg_name = ''B'', bg_metering_point_count = 0\<rparr>,
     \<lparr>bg_id = ''b1'', bg_name = ''A'', bg_metering_point_count = 2\<rparr>]"

theorem building_groups_partition_witness:
  "distinct (map bg_id example_buildings) \<and>
   mset (concat (map gr_points (groupMeteringPointsByBuilding (\<lambda>a b. if a < b then - 1 else if a = b then 0 else 1)
     example_buildings [example_point ''1'' ''b1'', example_point ''2'' ''b1''] False))) =
   mset [example_point ''1'' ''b1'', example_point ''2'' ''b1'']"
proof -
  have d: "distinct (map bg_id example_buildings)" by (simp add: example_buildings_def)
  show ?thesis
    using d building_groups_partition [OF d refl, THEN conjunct1, of "\<lambda>a b. if a < b then - 1 else if a = b then 0 else 1"
      "[example_point ''1'' ''b1'', example_point ''2'' ''b1'']" False]
    by (simp add: example_buildings_def example_point_def)
qed

end
