(* ===== verification/Formatting.thy ===== *)
theory Formatting
  imports Dates JS_Text
begin

text \<open>
  How the application writes dates and numbers: \<open>frontend/src/lib/appSettings.tsx\<close>, \<open>lib/numbers.ts\<close> and
  \<open>features/tariffs/datePresentation.ts\<close>. The host's date parser (\<open>new Date(string)\<close> of anything but a bare
  date), the offset of the business time zone, the month names and the minus sign of the number format are arguments.

  The theorems: in every short format two different days look different, and the ISO format writes a day
  as it is stored; an amount in francs never shows a negative zero.
\<close>

section \<open>Settings\<close>

text \<open>The short formats, then the long ones; both have the ISO format.\<close>

datatype DateFormat = dd_dot_MM_dot_yyyy | dd_slash_MM_slash_yyyy | MM_slash_dd_slash_yyyy | yyyy_MM_dd
  | d_MMMM_yyyy | d_dot_MMMM_yyyy | MMMM_d_yyyy

datatype DateTimeFormat = dt_dd_dot | dt_dd_slash | dt_MM_slash | dt_iso

record AppSettings =
  date_format_short :: DateFormat
  date_format_long :: DateFormat
  date_time_format :: DateTimeFormat

definition DEFAULT_APP_SETTINGS :: AppSettings where
  "DEFAULT_APP_SETTINGS = \<lparr>date_format_short = dd_dot_MM_dot_yyyy, date_format_long = d_MMMM_yyyy, date_time_format = dt_dd_dot\<rparr>"

definition SHORT_DATE_FORMAT_OPTIONS :: "(DateFormat \<times> string) list" where
  "SHORT_DATE_FORMAT_OPTIONS = [(dd_dot_MM_dot_yyyy, ''DD.MM.YYYY''), (dd_slash_MM_slash_yyyy, ''DD/MM/YYYY''),
     (MM_slash_dd_slash_yyyy, ''MM/DD/YYYY''), (yyyy_MM_dd, ''YYYY-MM-DD'')]"

definition LONG_DATE_FORMAT_OPTIONS :: "(DateFormat \<times> string) list" where
  "LONG_DATE_FORMAT_OPTIONS = [(d_MMMM_yyyy, ''D MMMM YYYY''), (d_dot_MMMM_yyyy, ''D. MMMM YYYY''),
     (MMMM_d_yyyy, ''MMMM D, YYYY''), (yyyy_MM_dd, ''YYYY-MM-DD'')]"

definition DATE_TIME_FORMAT_OPTIONS :: "(DateTimeFormat \<times> string) list" where
  "DATE_TIME_FORMAT_OPTIONS = [(dt_dd_dot, ''DD.MM.YYYY HH:mm''), (dt_dd_slash, ''DD/MM/YYYY HH:mm''),
     (dt_MM_slash, ''MM/DD/YYYY HH:mm''), (dt_iso, ''YYYY-MM-DD HH:mm'')]"

section \<open>Dates\<close>

definition pad :: "int \<Rightarrow> string" where
  "pad value = padStart 2 (CHR ''0'') (int_str value)"

text \<open>A bare date is a civil day, anything else an instant.\<close>

datatype parsed_date = civil_day js_date | at_instant instant

definition bare_date :: "string \<Rightarrow> bool" where
  "bare_date s \<longleftrightarrow> length s = 10 \<and> all_digits (take 4 s) \<and> s ! 4 = CHR ''-'' \<and> all_digits (slice 5 7 s)
     \<and> s ! 7 = CHR ''-'' \<and> all_digits (slice 8 10 s)"

definition parseDateValue :: "(string \<Rightarrow> instant option) \<Rightarrow> string \<Rightarrow> parsed_date option" where
  "parseDateValue dateParse value =
     (if value = [] then None
      else if bare_date value then
        Some (civil_day (mk_date (int (digits_val (take 4 value))) (int (digits_val (slice 5 7 value)) - 1)
          (int (digits_val (slice 8 10 value)))))
      else map_option at_instant (dateParse value))"

text \<open>The parts shown; \<open>monthLong\<close> names a month by its number. An invalid civil day prints \<open>NaN\<close>.\<close>

record date_parts =
  dp_day :: string
  dp_dayPadded :: string
  dp_hoursPadded :: string
  dp_minutesPadded :: string
  dp_monthPadded :: string
  dp_monthLong :: string
  dp_year :: string

definition formatDateParts :: "(int \<Rightarrow> string) \<Rightarrow> (instant \<Rightarrow> int) \<Rightarrow> parsed_date \<Rightarrow> date_parts" where
  "formatDateParts monthLong off parsed =
     (case parsed of
        civil_day None \<Rightarrow>
          \<lparr>dp_day = ''NaN'', dp_dayPadded = ''NaN'', dp_hoursPadded = ''00'', dp_minutesPadded = ''00'', dp_monthPadded = ''NaN'',
           dp_monthLong = ''Invalid Date'', dp_year = ''NaN''\<rparr>
      | civil_day (Some d) \<Rightarrow>
          \<lparr>dp_day = int_str (DateFromDay d), dp_dayPadded = pad (DateFromDay d), dp_hoursPadded = pad 0, dp_minutesPadded = pad 0,
           dp_monthPadded = pad (MonthFromDay d + 1), dp_monthLong = monthLong (MonthFromDay d + 1), dp_year = int_str (YearFromDay d)\<rparr>
      | at_instant t \<Rightarrow>
          let p = zonedParts off t
          in \<lparr>dp_day = int_str (zp_day p), dp_dayPadded = pad (zp_day p), dp_hoursPadded = pad (zp_hours p),
              dp_minutesPadded = pad (zp_minutes p), dp_monthPadded = pad (zp_month p), dp_monthLong = monthLong (zp_month p),
              dp_year = int_str (zp_year p)\<rparr>)"

fun write_parts :: "date_parts \<Rightarrow> DateFormat \<Rightarrow> string" where
  "write_parts p dd_dot_MM_dot_yyyy = dp_dayPadded p @ ''.'' @ dp_monthPadded p @ ''.'' @ dp_year p"
| "write_parts p dd_slash_MM_slash_yyyy = dp_dayPadded p @ ''/'' @ dp_monthPadded p @ ''/'' @ dp_year p"
| "write_parts p MM_slash_dd_slash_yyyy = dp_monthPadded p @ ''/'' @ dp_dayPadded p @ ''/'' @ dp_year p"
| "write_parts p yyyy_MM_dd = dp_year p @ ''-'' @ dp_monthPadded p @ ''-'' @ dp_dayPadded p"
| "write_parts p d_MMMM_yyyy = dp_day p @ '' '' @ dp_monthLong p @ '' '' @ dp_year p"
| "write_parts p d_dot_MMMM_yyyy = dp_day p @ ''. '' @ dp_monthLong p @ '' '' @ dp_year p"
| "write_parts p MMMM_d_yyyy = dp_monthLong p @ '' '' @ dp_day p @ '', '' @ dp_year p"

text \<open>The host: its date parser, its month names and the offset of the business time zone.\<close>

record host =
  h_dateParse :: "string \<Rightarrow> instant option"
  h_monthLong :: "int \<Rightarrow> string"
  h_off :: "instant \<Rightarrow> int"

definition formatDateByPattern :: "host \<Rightarrow> string option \<Rightarrow> DateFormat \<Rightarrow> string" where
  "formatDateByPattern h value pattern =
     (if \<not> truthy value then em_dash
      else case parseDateValue (h_dateParse h) (the value) of
             None \<Rightarrow> the value
           | Some parsed \<Rightarrow> write_parts (formatDateParts (h_monthLong h) (h_off h) parsed) pattern)"

definition formatShortDate :: "host \<Rightarrow> string option \<Rightarrow> AppSettings \<Rightarrow> string" where
  "formatShortDate h value settings = formatDateByPattern h value (date_format_short settings)"

text \<open>\<open>settings.date_time_format.split(' ')[0]\<close>.\<close>

fun date_part :: "DateTimeFormat \<Rightarrow> DateFormat" where
  "date_part dt_dd_dot = dd_dot_MM_dot_yyyy"
| "date_part dt_dd_slash = dd_slash_MM_slash_yyyy"
| "date_part dt_MM_slash = MM_slash_dd_slash_yyyy"
| "date_part dt_iso = yyyy_MM_dd"

definition formatDateTime :: "host \<Rightarrow> string option \<Rightarrow> AppSettings \<Rightarrow> string" where
  "formatDateTime h value settings =
     (if \<not> truthy value then em_dash
      else case parseDateValue (h_dateParse h) (the value) of
             None \<Rightarrow> the value
           | Some parsed \<Rightarrow>
               if CHR ''T'' \<notin> set (the value) \<and> CHR '' '' \<notin> set (the value)
               then formatDateByPattern h value (date_part (date_time_format settings))
               else let p = formatDateParts (h_monthLong h) (h_off h) parsed
                    in write_parts p (date_part (date_time_format settings)) @ '' '' @ dp_hoursPadded p @ '':'' @ dp_minutesPadded p)"

definition toDayJsDateFormat :: "DateFormat \<Rightarrow> string" where
  "toDayJsDateFormat pattern = nullish (map_of SHORT_DATE_FORMAT_OPTIONS pattern) ''DD.MM.YYYY''"

section \<open>Emphasised dates\<close>

record DatePart =
  part_text :: string
  part_strong :: bool

text \<open>\<open>s.split(/([./-])/)\<close>: fields and separators alternate.\<close>

fun split_fields :: "string \<Rightarrow> string list" where
  "split_fields [] = [[]]"
| "split_fields (c # s) =
     (if c \<in> {CHR ''.'', CHR ''/'', CHR ''-''} then [] # [c] # split_fields s
      else case split_fields s of f # fs \<Rightarrow> (c # f) # fs | [] \<Rightarrow> [[c]])"

fun pattern_text :: "DateFormat \<Rightarrow> string" where
  "pattern_text dd_dot_MM_dot_yyyy = ''dd.MM.yyyy''"
| "pattern_text dd_slash_MM_slash_yyyy = ''dd/MM/yyyy''"
| "pattern_text MM_slash_dd_slash_yyyy = ''MM/dd/yyyy''"
| "pattern_text yyyy_MM_dd = ''yyyy-MM-dd''"
| "pattern_text d_MMMM_yyyy = ''d MMMM yyyy''"
| "pattern_text d_dot_MMMM_yyyy = ''d. MMMM yyyy''"
| "pattern_text MMMM_d_yyyy = ''MMMM d, yyyy''"

definition push_part :: "DatePart list \<Rightarrow> string \<times> bool \<Rightarrow> DatePart list" where
  "push_part runs p =
     (if runs \<noteq> [] \<and> part_strong (last runs) = snd p
      then butlast runs @ [(last runs)\<lparr>part_text := part_text (last runs) @ fst p\<rparr>]
      else runs @ [\<lparr>part_text = fst p, part_strong = snd p\<rparr>])"

definition emphasizedDate :: "string \<Rightarrow> DateFormat \<Rightarrow> bool \<Rightarrow> DatePart list" where
  "emphasizedDate formatted pattern withMonth =
     (let fields = split_fields (pattern_text pattern); texts = split_fields formatted;
          field = (\<lambda>i. nth_opt fields i = Some ''yyyy'' \<or> withMonth \<and> nth_opt fields i = Some ''MM'')
      in if length fields \<noteq> length texts then [\<lparr>part_text = formatted, part_strong = False\<rparr>]
         else foldl push_part []
           (map (\<lambda>(i, text). (text, if even i then field i else field (i - 1) \<and> field (i + 1))) (enumerate 0 texts)))"

section \<open>Numbers\<close>

text \<open>
  \<open>Intl.NumberFormat('de-CH')\<close> without grouping: the decimal nearest to the value, halves away from zero, with
  trailing zeros cut off down to the least number of decimals. \<open>neg\<close> is the format's own minus sign.
\<close>

definition cut_zeros :: "nat \<Rightarrow> string \<Rightarrow> string" where
  "cut_zeros least decs = take (max least (length (dropWhile (\<lambda>c. c = CHR ''0'') (rev decs)))) decs"

definition decimal_text :: "nat \<Rightarrow> nat \<Rightarrow> rat \<Rightarrow> string" where
  "decimal_text least most q =
     (let m = nat \<lfloor>q * 10 ^ most + 1 / 2\<rfloor>; decs = cut_zeros least (digs most m)
      in nat_str (m div 10 ^ most) @ (if decs = [] then [] else ''.'' @ decs))"

lemma decimal_text_code [code]:
  "decimal_text least most q =
     (let m = max 0 \<lfloor>q * 10 ^ most + 1 / 2\<rfloor>; decs = cut_zeros least (int_digs most m)
      in int_nat_str (m div 10 ^ most) @ (if decs = [] then [] else ''.'' @ decs))"
proof -
  define m where "m = max 0 \<lfloor>q * 10 ^ most + 1 / 2\<rfloor>"
  have "nat \<lfloor>q * 10 ^ most + 1 / 2\<rfloor> = nat m" "0 \<le> m" by (simp_all add: m_def)
  moreover from this(2) have "nat m div 10 ^ most = nat (m div 10 ^ most)" by (simp add: nat_div_distrib nat_power_eq)
  ultimately show ?thesis
    unfolding decimal_text_def m_def [symmetric] Let_def by (simp only: nat_str_code digs_nat)
qed

definition infinity_sign :: string where
  "infinity_sign = [CHR 0xE2, CHR 0x88, CHR 0x9E]"

definition formatNumber :: "string \<Rightarrow> nat \<Rightarrow> nat option \<Rightarrow> jsnum \<Rightarrow> string" where
  "formatNumber neg maxDecimals minDecimals value =
     (let least = nullish minDecimals 0; most = max maxDecimals (nullish minDecimals 0)
      in case value of
           NaN \<Rightarrow> ''NaN''
         | Infty p \<Rightarrow> (if p then [] else neg) @ infinity_sign
         | Fin q \<Rightarrow> if q < 0 then neg @ decimal_text least most (- q) else decimal_text least most q)"

definition formatKwh :: "string \<Rightarrow> nat \<Rightarrow> jsnum \<Rightarrow> string" where
  "formatKwh neg maxDecimals value = (if \<not> js_isFinite value then en_dash else formatNumber neg maxDecimals (Some 0) value)"

definition formatPercentFigure :: "string \<Rightarrow> nat \<Rightarrow> jsnum \<Rightarrow> string" where
  "formatPercentFigure neg maxDecimals value =
     (if \<not> js_isFinite value then en_dash else formatNumber neg maxDecimals None value)"

definition no_break_space :: string where
  "no_break_space = [CHR 0xC2, CHR 0xA0]"

definition formatPercent :: "string \<Rightarrow> nat \<Rightarrow> jsnum \<Rightarrow> string" where
  "formatPercent neg maxDecimals value =
     (if \<not> js_isFinite value then en_dash else formatPercentFigure neg maxDecimals value @ no_break_space @ ''%'')"

fun js_abs :: "jsnum \<Rightarrow> jsnum" where
  "js_abs NaN = NaN"
| "js_abs (Infty _) = Infty True"
| "js_abs (Fin q) = Fin \<bar>q\<bar>"

definition minus_sign :: string where
  "minus_sign = [CHR 0xE2, CHR 0x88, CHR 0x92]"

text \<open>The literal \<open>0.005\<close> is the double nearest to it.\<close>

definition formatChfAmount :: "string \<Rightarrow> jsnum \<Rightarrow> string" where
  "formatChfAmount neg value =
     (if \<not> js_isFinite value \<or> js_less (js_abs value) (Fin (fl (5 / 1000))) then ''0.00''
      else let absFormatted = formatNumber neg 2 (Some 2) (js_abs value)
           in if js_less value (Fin 0) then minus_sign @ absFormatted else absFormatted)"

definition formatChf :: "string \<Rightarrow> jsnum \<Rightarrow> string" where
  "formatChf neg value = ''CHF '' @ formatChfAmount neg value"

text \<open>The \<open>do\<close>-\<open>while\<close> loop of \<open>formatBytes\<close>, over the units that are left after the present one.\<close>

fun scale_bytes :: "jsnum \<Rightarrow> string \<Rightarrow> string list \<Rightarrow> jsnum \<times> string" where
  "scale_bytes scaled unit [] = (scaled, unit)"
| "scale_bytes scaled unit (u # us) =
     (if js_le (Fin 1024) scaled then scale_bytes (js_div scaled (Fin 1024)) u us else (scaled, unit))"

definition formatBytes :: "string \<Rightarrow> jsnum \<Rightarrow> string" where
  "formatBytes neg value =
     (if \<not> js_isFinite value \<or> js_less value (Fin 0) then en_dash
      else if js_less value (Fin 1024) then num_str (js_round value) @ '' B''
      else let (scaled, unit) = scale_bytes (js_div value (Fin 1024)) ''KiB'' [''MiB'', ''GiB'', ''TiB'']
           in formatNumber neg 1 (Some 1) scaled @ '' '' @ unit)"

section \<open>Dates stay apart\<close>

lemma bare_date_iso:
  assumes "four_digit_year d"
  shows "bare_date (toISODate d)" "digits_val (take 4 (toISODate d)) = nat (YearFromDay d)"
    "digits_val (slice 5 7 (toISODate d)) = nat (MonthFromDay d + 1)" "digits_val (slice 8 10 (toISODate d)) = nat (DateFromDay d)"
proof -
  have y: "nat (YearFromDay d) < 10000" using assms by linarith
  have e: "take 4 (toISODate d) = digs 4 (nat (YearFromDay d))" "slice 5 7 (toISODate d) = digs 2 (nat (MonthFromDay d + 1))"
    "slice 8 10 (toISODate d) = digs 2 (nat (DateFromDay d))" "toISODate d ! 4 = CHR ''-''" "toISODate d ! 7 = CHR ''-''"
    unfolding toISODate_eq [OF assms] by (simp_all add: slice_def nth_append)
  show "bare_date (toISODate d)" using length_toISODate [OF assms] by (simp add: bare_date_def e)
  show "digits_val (take 4 (toISODate d)) = nat (YearFromDay d)" "digits_val (slice 5 7 (toISODate d)) = nat (MonthFromDay d + 1)"
    "digits_val (slice 8 10 (toISODate d)) = nat (DateFromDay d)"
    using y nat_bounds_of_day [of d] by (simp_all only: e digits_val_digs) simp_all
qed

lemma parse_iso_day:
  assumes "padded_year d"
  shows "parseDateValue f (toISODate d) = Some (civil_day (Some d))"
proof -
  note v = bare_date_iso [OF padded_imp_four [OF assms]]
  have "mk_date (YearFromDay d) (MonthFromDay d) (DateFromDay d) = Some (month_day (month_index d) + DateFromDay d - 1)"
    using assms month_range [of d] date_range [of d] by (subst mk_date_month_day) (simp_all add: month_index_def)
  then have "mk_date (YearFromDay d) (MonthFromDay d) (DateFromDay d) = Some d" using month_day_of_day [of d] by simp
  moreover have "toISODate d \<noteq> []" using length_toISODate [of d] assms by auto
  ultimately show ?thesis
    using v assms month_range [of d] date_range [of d] by (simp add: parseDateValue_def)
qed

definition short_format :: "DateFormat \<Rightarrow> bool" where
  "short_format p \<longleftrightarrow> p \<in> fst ` set SHORT_DATE_FORMAT_OPTIONS"

lemma parts_digs:
  assumes "padded_year d"
  shows "pad (DateFromDay d) = digs 2 (nat (DateFromDay d))" "pad (MonthFromDay d + 1) = digs 2 (nat (MonthFromDay d + 1))"
    "int_str (YearFromDay d) = digs 4 (nat (YearFromDay d))"
proof -
  have "1000 \<le> nat (YearFromDay d)" "nat (YearFromDay d) < 10000" using assms by linarith+
  then show "int_str (YearFromDay d) = digs 4 (nat (YearFromDay d))" using nat_str_4 [of "nat (YearFromDay d)"] assms by simp
qed (use month_range [of d] date_range [of d] nat_bounds_of_day [of d] in \<open>simp_all add: pad_def padStart_2\<close>)

lemma digs_eq_mod: "digs k m = digs k n \<Longrightarrow> m mod 10 ^ k = n mod 10 ^ k"
  by (metis digits_val_digs)

text \<open>In a short format the day can be read off, hence two days written alike are the same day.\<close>

theorem short_dates_differ:
  assumes "padded_year a" "padded_year b" "short_format p"
    "formatDateByPattern h (Some (toISODate a)) p = formatDateByPattern h (Some (toISODate b)) p"
  shows "a = b"
proof -
  have ne: "toISODate d \<noteq> []" if "padded_year d" for d using length_toISODate [of d] that by auto
  define w where "w d = (digs 2 (nat (DateFromDay d)), digs 2 (nat (MonthFromDay d + 1)), digs 4 (nat (YearFromDay d)))" for d
  have "w a = w b"
    using assms ne
    by (auto simp: w_def formatDateByPattern_def parse_iso_day formatDateParts_def parts_digs short_format_def SHORT_DATE_FORMAT_OPTIONS_def
      simp del: digs.simps)
  then have "nat (DateFromDay a) mod 10 ^ 2 = nat (DateFromDay b) mod 10 ^ 2"
    "nat (MonthFromDay a + 1) mod 10 ^ 2 = nat (MonthFromDay b + 1) mod 10 ^ 2"
    "nat (YearFromDay a) mod 10 ^ 4 = nat (YearFromDay b) mod 10 ^ 4"
    unfolding w_def prod.inject by (blast dest: digs_eq_mod)+
  then have "DateFromDay a = DateFromDay b" "MonthFromDay a = MonthFromDay b" "YearFromDay a = YearFromDay b"
    using assms(1,2) month_range [of a] month_range [of b] date_range [of a] date_range [of b]
      nat_bounds_of_day [of a] nat_bounds_of_day [of b] by auto
  then show ?thesis using day_eqI by blast
qed

theorem iso_format_is_stored_form:
  assumes "padded_year d"
  shows "formatDateByPattern h (Some (toISODate d)) yyyy_MM_dd = toISODate d"
proof -
  have "formatDateByPattern h (Some (toISODate d)) yyyy_MM_dd =
      digs 4 (nat (YearFromDay d)) @ ''-'' @ digs 2 (nat (MonthFromDay d + 1)) @ ''-'' @ digs 2 (nat (DateFromDay d))"
    using length_toISODate [of d] assms parts_digs [OF assms]
    by (auto simp: formatDateByPattern_def parse_iso_day formatDateParts_def simp del: digs.simps)
  then show ?thesis using toISODate_eq [of d] assms by simp
qed

section \<open>Amounts\<close>

lemma cut_zeros_all: "length decs \<le> least \<Longrightarrow> cut_zeros least decs = decs"
  by (simp add: cut_zeros_def)

text \<open>An amount with a minus sign is at least one centime.\<close>

lemma half_centime: "1 / 200 \<le> fl (5 / 1000)"
  by code_simp

theorem no_negative_zero:
  assumes "formatChfAmount neg (Fin q) = minus_sign @ s"
  shows "s \<noteq> ''0.00''"
proof -
  let ?m = "nat \<lfloor>- q * 100 + 1 / 2\<rfloor>"
  have big: "fl (5 / 1000) \<le> \<bar>q\<bar>"
    using assms by (auto simp: formatChfAmount_def js_isFinite_def minus_sign_def split: if_splits)
  have "q < 0"
  proof (rule ccontr)
    assume "\<not> q < 0"
    then have "formatChfAmount neg (Fin q) = decimal_text 2 2 q"
      using big by (simp add: formatChfAmount_def js_isFinite_def formatNumber_def)
    then have "decimal_text 2 2 q = CHR 0xE2 # CHR 0x88 # CHR 0x92 # s" using assms by (simp add: minus_sign_def)
    then have "hd (decimal_text 2 2 q) = CHR 0xE2" by simp
    moreover have "hd (decimal_text 2 2 q) = hd (nat_str (nat \<lfloor>q * 10 ^ 2 + 1 / 2\<rfloor> div 10 ^ 2))"
      by (simp add: decimal_text_def Let_def hd_append)
    ultimately have "is_digit (CHR 0xE2)" using nat_str_digits [of "hd (nat_str (nat \<lfloor>q * 10 ^ 2 + 1 / 2\<rfloor> div 10 ^ 2))"] by (metis list.set_sel(1) nat_str_not_Nil)
    then show False by (simp add: is_digit_def less_eq_char_def)
  qed
  then have s: "s = nat_str (?m div 100) @ ''.'' @ digs 2 ?m"
    using assms big by (simp add: formatChfAmount_def js_isFinite_def formatNumber_def decimal_text_def cut_zeros_all Let_def digs_2)
  have "1 \<le> ?m" using big half_centime \<open>q < 0\<close> by (simp add: le_nat_iff)
  show ?thesis
  proof
    assume "s = ''0.00''"
    then have e: "nat_str (?m div 100) @ (''.'' @ digs 2 ?m) = nat_str 0 @ (''.'' @ digs 2 0)" using s by (simp add: digs_2 digit_0 nat_str.simps [of 0])
    then have "nat_str (?m div 100) = nat_str 0 \<and> ''.'' @ digs 2 ?m = ''.'' @ digs 2 0" by (subst (asm) append_eq_append_conv) simp_all
    then have "?m div 100 = 0" "digs 2 ?m = digs 2 0" by (simp_all del: digs.simps)
    with digs_eq_mod [of 2 ?m 0] have "?m = 0" by simp
    with \<open>1 \<le> ?m\<close> show False by simp
  qed
qed

end
