(* ===== verification/Tariff_Errors.thy ===== *)
theory Tariff_Errors
  imports Api_Client Formatting Recurrence
begin

text \<open>
  \<open>frontend/src/features/tariffs/errors.ts\<close>: what the server says against a tariff, written in the user's
  language. Coded errors carry their parameters and the place they are about; other responses are
  collected as text, and the errors on the bands sent with a new tariff go to the rows of those bands. The translation
  function \<open>t\<close> is an argument.

  The theorem: splitting a response into the rows of the bands and a notice loses no coded error.
\<close>

type_synonym translate = "string \<Rightarrow> (string \<times> json) list \<Rightarrow> string"

section \<open>Tables\<close>

definition tariffErrorKeys :: "(string \<times> string) list" where
  "tariffErrorKeys =
     [(''band_time_pair'', ''bandTimePair''), (''name_required'', ''nameRequired''), (''use_new_version'', ''useNewVersion''),
      (''date_range'', ''dateRange''), (''energy_type_required'', ''energyTypeRequired''), (''category'', ''category''),
      (''remove_bands_for_mode'', ''removeBandsForMode''), (''dynamic_bands'', ''dynamicBands''),
      (''minimum_dynamic'', ''minimumDynamic''), (''minimum_feed_in'', ''minimumFeedIn''),
      (''source_missing'', ''sourceMissing''), (''storage_refund'', ''storageRefund''),
      (''bands_energy_only'', ''bandsEnergyOnly''), (''months_blank'', ''monthsBlank''),
      (''price_required'', ''priceRequired''), (''percentage_mode_only'', ''percentageModeOnly''),
      (''percentage_required'', ''percentageRequired''), (''percentage_not_price'', ''percentageNotPrice''),
      (''remove_bands_for_source'', ''removeBandsForSource''), (''billed_source_change'', ''billedSourceChange''),
      (''billed_delete'', ''billedDelete''), (''initial_bands'', ''initialBands''),
      (''edit_existing_bands'', ''editExistingBands''), (''fixed_price_required'', ''fixedPriceRequired''),
      (''product_required'', ''productRequired''), (''source_identity'', ''sourceIdentity''),
      (''source_range'', ''sourceRange''), (''admin_source'', ''adminSource''), (''history_access'', ''historyAccess''),
      (''source_busy'', ''sourceBusy''), (''confirmation_mismatch'', ''confirmationMismatch''),
      (''source_in_use'', ''sourceInUse''), (''source_protected'', ''sourceProtected''), (''prices_in_use'', ''pricesInUse''),
      (''fetch_unavailable'', ''fetchUnavailable''), (''product_selection_required'', ''productSelectionRequired''),
      (''permission'', ''permission''), (''invalid_url'', ''invalidUrl''), (''import_url'', ''importUrl''),
      (''download_failed'', ''downloadFailed''), (''import_json'', ''importJson''),
      (''reference_missing'', ''referenceMissing''), (''duplicate_date'', ''duplicateDate''),
      (''name_exists'', ''nameExists''), (''overlap'', ''overlap''), (''series_identity'', ''seriesIdentity''),
      (''source_energy_only'', ''sourceEnergyOnly''), (''source_type_mismatch'', ''sourceTypeMismatch''),
      (''invalid_weekdays'', ''weekdays''), (''invalid_months'', ''months''), (''technology'', ''technology''),
      (''bfe_feed_in'', ''bfeFeedIn''), (''import_changed'', ''importChanged''), (''public_url'', ''publicUrl''),
      (''host_unresolved'', ''hostUnresolved''), (''http_status'', ''httpStatus''), (''document_size'', ''documentSize''),
      (''history_limit'', ''historyLimit''), (''invalid_date'', ''invalidDate''), (''invalid_time'', ''invalidTime''),
      (''invalid_choice'', ''invalidChoice''), (''does_not_exist'', ''referenceMissing''),
      (''not_found'', ''referenceMissing''), (''permission_denied'', ''permission''), (''min_value'', ''minValue''),
      (''max_value'', ''maxValue''), (''max_digits'', ''maxDigits''), (''max_decimal_places'', ''maxDecimals''),
      (''max_whole_digits'', ''maxWholeDigits''), (''max_length'', ''maxLength''), (''min_length'', ''minLength'')]"

definition fieldKeys :: "(string \<times> string) list" where
  "fieldKeys =
     [(''name'', ''pages.tariffs.form.name''), (''label'', ''pages.dynamicSources.form.label''),
      (''valid_from'', ''pages.tariffs.form.validFrom''), (''valid_to'', ''pages.tariffs.form.validTo''),
      (''category'', ''pages.tariffs.form.category''), (''billing_mode'', ''pages.tariffs.form.billingMode''),
      (''energy_type'', ''pages.tariffs.form.energyType''), (''dynamic_source'', ''pages.tariffs.form.dynamicSource''),
      (''minimum_price_chf_per_kwh'', ''pages.tariffs.form.minimumPrice''),
      (''price_chf_per_kwh'', ''pages.tariffs.form.pricePerKwh''), (''percentage'', ''pages.tariffs.form.percentage''),
      (''initial_percentage'', ''pages.tariffs.form.initialPercentage''),
      (''fixed_price_chf'', ''pages.tariffs.form.fixedPrice''), (''period_type'', ''pages.tariffs.form.periodType''),
      (''time_from'', ''pages.tariffs.form.timeFrom''), (''time_to'', ''pages.tariffs.form.timeTo''),
      (''weekdays'', ''pages.tariffs.form.weekdays''), (''months'', ''pages.tariffs.form.months''),
      (''url'', ''pages.dynamicSources.form.url''), (''api_version'', ''pages.dynamicSources.form.apiVersion''),
      (''tariff_type'', ''pages.dynamicSources.form.tariffType''), (''tariff_name'', ''pages.dynamicSources.form.tariffName''),
      (''dynamic_tariff_name'', ''pages.dynamicSources.form.tariffName''),
      (''date_from'', ''pages.dynamicSources.history.dateFrom''), (''date_to'', ''pages.dynamicSources.history.dateTo''),
      (''zev'', ''admin.fields.zev''), (''confirmation'', ''pages.tariffs.apiErrorFields.confirmation''),
      (''document_digest'', ''pages.tariffs.apiErrorFields.documentDigest'')]"

definition parameterKeys :: "(string \<times> string list) list" where
  "parameterKeys =
     [(''duplicate_date'', [''name'', ''date'']), (''name_exists'', [''name'']), (''overlap'', [''name'']), (''series_identity'', [''name'']),
      (''source_in_use'', [''tariff_count'', ''community_count'']), (''confirmation_mismatch'', [''name'']),
      (''host_unresolved'', [''host'']), (''http_status'', [''status'']), (''document_size'', [''size'']),
      (''history_limit'', [''count'']), (''max_digits'', [''count'']), (''max_decimal_places'', [''count'']),
      (''max_whole_digits'', [''count'']), (''max_length'', [''count'']), (''min_length'', [''count'']),
      (''min_value'', [''value'']), (''max_value'', [''value''])]"

definition FIXED_PRICE_LABELS :: "(string \<times> string) list" where
  "FIXED_PRICE_LABELS =
     [(''monthly_fee'', ''pages.tariffs.form.monthlyFee''), (''yearly_fee'', ''pages.tariffs.form.yearlyFee''),
      (''per_metering_point_monthly_fee'', ''pages.tariffs.form.mpMonthlyFee''),
      (''per_metering_point_yearly_fee'', ''pages.tariffs.form.mpYearlyFee''),
      (''shared_monthly_fee'', ''pages.tariffs.form.sharedMonthlyFee''),
      (''shared_yearly_fee'', ''pages.tariffs.form.sharedYearlyFee'')]"

section \<open>Parameters\<close>

text \<open>\<open>/^-?\d+(?:\.\d+)?$/\<close>.\<close>

definition decimal_string :: "string \<Rightarrow> bool" where
  "decimal_string s =
     (let u = (if s \<noteq> [] \<and> hd s = CHR ''-'' then tl s else s)
      in case split_on (CHR ''.'') u of
           [a] \<Rightarrow> a \<noteq> [] \<and> all_digits a
         | [a, b] \<Rightarrow> a \<noteq> [] \<and> all_digits a \<and> b \<noteq> [] \<and> all_digits b
         | _ \<Rightarrow> False)"

text \<open>A bare date that is a day of the calendar.\<close>

definition calendar_date :: "string \<Rightarrow> bool" where
  "calendar_date s \<longleftrightarrow> bare_date s \<and> (case parse_day s of None \<Rightarrow> False | Some d \<Rightarrow> toISODate d = s)"

text \<open>One parameter of a message; \<^const>\<open>None\<close> when the value does not fit and the message cannot be written.\<close>

definition param_option :: "host \<Rightarrow> AppSettings \<Rightarrow> string \<Rightarrow> json option \<Rightarrow> (string \<times> json) option" where
  "param_option h settings key value =
     (if key \<in> {''count'', ''status'', ''size'', ''tariff_count'', ''community_count''} then
        (case value of
           Some (JNum x) \<Rightarrow>
             if \<not> js_isFinite x \<or> js_less x (Fin 0) \<or> key \<noteq> ''size'' \<and> num_int x = None
               \<or> key = ''status'' \<and> (js_less x (Fin 100) \<or> js_less (Fin 599) x) then None
             else Some (key, JNum x)
         | _ \<Rightarrow> None)
      else if key = ''value'' then
        (case value of
           Some (JNum x) \<Rightarrow> if js_isFinite x then Some (key, JNum x) else None
         | Some (JStr s) \<Rightarrow> if decimal_string s then Some (key, JStr s) else None
         | _ \<Rightarrow> None)
      else
        (case value of
           Some (JStr s) \<Rightarrow>
             if trim s = [] then None
             else if key = ''date'' then
               (if calendar_date s then Some (''date'', JStr (formatShortDate h (Some s) settings)) else None)
             else Some (key, JStr s)
         | _ \<Rightarrow> None))"

definition translationOptions :: "host \<Rightarrow> AppSettings \<Rightarrow> string \<Rightarrow> (string \<times> json) list \<Rightarrow> (string \<times> json) list option" where
  "translationOptions h settings code params =
     those (map (\<lambda>key. param_option h settings key (map_of params key)) (nullish (map_of parameterKeys code) []))"

section \<open>Coded errors\<close>

record TariffValidationError =
  ve_code :: string
  ve_field :: "string option"
  ve_path :: "json list"
  ve_params :: "(string \<times> json) list"
  ve_message :: string

definition path_key :: "json \<Rightarrow> bool" where
  "path_key k = (case k of JStr _ \<Rightarrow> True | JNum x \<Rightarrow> (case num_int x of None \<Rightarrow> False | Some i \<Rightarrow> 0 \<le> i) | _ \<Rightarrow> False)"

text \<open>\<open>isCodedError\<close>, with the record it recognises.\<close>

definition isCodedError :: "json \<Rightarrow> TariffValidationError option" where
  "isCodedError value =
     (case (json_get value ''code'', json_get value ''message'', json_get value ''field'', json_get value ''path'', json_get value ''params'') of
        (Some (JStr code), Some (JStr message), Some field, Some (JArr path), Some (JObj params)) \<Rightarrow>
          if (field = JNull \<or> json_string (Some field) \<noteq> None) \<and> list_all path_key path
          then Some \<lparr>ve_code = code, ve_field = json_string (Some field), ve_path = path, ve_params = params, ve_message = message\<rparr>
          else None
      | _ \<Rightarrow> None)"

definition codedErrors :: "json option \<Rightarrow> TariffValidationError list option" where
  "codedErrors value = (case value of Some (JArr vs) \<Rightarrow> those (map isCodedError vs) | _ \<Rightarrow> None)"

definition month_param :: "json \<Rightarrow> int option" where
  "month_param m =
     (case m of JNum x \<Rightarrow> (case num_int x of Some i \<Rightarrow> if 1 \<le> i \<and> i \<le> 12 then Some i else None | None \<Rightarrow> None) | _ \<Rightarrow> None)"

definition conflict_text :: "translate \<Rightarrow> TariffValidationError \<Rightarrow> string" where
  "conflict_text t e =
     (case map_of (ve_params e) ''months'' of
        Some (JArr months) \<Rightarrow>
          (case those (map month_param months) of
             Some ms \<Rightarrow>
               if 0 < length ms then
                 t (if ve_code e = ''catch_all_conflict'' then ''pages.tariffs.apiErrors.catchAllConflict''
                    else ''pages.tariffs.form.errorFlatTimed'')
                   [(''months'', JStr (join '', '' (map (\<lambda>m. t (''pages.tariffs.monthsShort.'' @ MONTH_KEYS ! nat (m - 1)) []) ms)))]
               else ve_message e
           | None \<Rightarrow> ve_message e)
      | _ \<Rightarrow> ve_message e)"

definition FIELD_NAMED_CODES :: "string list" where
  "FIELD_NAMED_CODES =
     [''invalid_date'', ''invalid_time'', ''invalid_choice'', ''does_not_exist'', ''min_value'', ''max_value'', ''max_digits'',
      ''max_decimal_places'', ''max_whole_digits'', ''max_length'', ''min_length'', ''fixed_price_required'', ''series_identity'']"

text \<open>The text of an error and whether the field is named before it.\<close>

definition coded_text :: "host \<Rightarrow> AppSettings \<Rightarrow> translate \<Rightarrow> TariffValidationError \<Rightarrow> string \<times> bool" where
  "coded_text h settings t e =
     (let code = ve_code e; options = translationOptions h settings code (ve_params e)
      in if code \<in> {''flat_timed_conflict'', ''catch_all_conflict''} then (conflict_text t e, False)
         else if code = ''empty'' then
           (t (''pages.tariffs.apiErrors.'' @
             (if JStr ''initial_periods'' \<in> set (ve_path e) then ''emptyBands''
              else if JStr ''selections'' \<in> set (ve_path e) then ''emptySelections'' else ''emptyList'')) [], False)
         else if code \<in> {''required'', ''null'', ''blank''} then (t ''pages.tariffs.form.errorRequired'' [], True)
         else if code = ''invalid_number'' then (t ''pages.tariffs.form.errorNumber'' [], True)
         else if code = ''too_many_bands'' then (t ''pages.tariffs.progression.errors.tooManyBands'' [], False)
         else case (map_of tariffErrorKeys code, options) of
                (Some key, Some opts) \<Rightarrow> (t (''pages.tariffs.apiErrors.'' @ key) opts, code \<in> set FIELD_NAMED_CODES)
              | _ \<Rightarrow> (ve_message e, True))"

definition field_label :: "translate \<Rightarrow> (string \<times> json) list \<Rightarrow> string \<Rightarrow> string" where
  "field_label t params field =
     (let mode = nullish (json_string (map_of params ''billing_mode'')) [];
          feeLabel = (if field = ''fixed_price_chf'' then map_of FIXED_PRICE_LABELS mode else None)
      in case feeLabel of
           Some key \<Rightarrow> t key []
         | None \<Rightarrow> (case map_of fieldKeys field of Some key \<Rightarrow> t key [] | None \<Rightarrow> field))"

fun find_index :: "('a \<Rightarrow> bool) \<Rightarrow> 'a list \<Rightarrow> nat option" where
  "find_index P [] = None"
| "find_index P (x # xs) = (if P x then Some 0 else map_option Suc (find_index P xs))"

definition band_number :: "TariffValidationError \<Rightarrow> jsnum option" where
  "band_number e =
     (case find_index (\<lambda>key. key = JStr ''initial_periods'' \<or> key = JStr ''periods'') (ve_path e) of
        None \<Rightarrow> None
      | Some i \<Rightarrow> (case nth_opt (ve_path e) (i + 1) of Some (JNum x) \<Rightarrow> Some x | _ \<Rightarrow> None))"

definition formatCodedError :: "host \<Rightarrow> AppSettings \<Rightarrow> translate \<Rightarrow> TariffValidationError \<Rightarrow> string" where
  "formatCodedError h settings t e =
     (let (plain, withField) = coded_text h settings t e;
          text = (if withField \<and> truthy (ve_field e) then field_label t (ve_params e) (the (ve_field e)) @ '': '' @ plain else plain)
      in case band_number e of
           Some x \<Rightarrow> t ''pages.tariffs.bandEntry.band'' [(''number'', JNum (js_add x (Fin 1)))] @ '': '' @ text
         | None \<Rightarrow> text)"

section \<open>Other responses\<close>

text \<open>\<open>whole\<close>: the value is the response itself, whose \<open>code\<close> is not a message.\<close>

fun collect :: "translate \<Rightarrow> bool \<Rightarrow> json \<Rightarrow> string \<Rightarrow> string \<Rightarrow> string list"
  and collect_list :: "translate \<Rightarrow> nat \<Rightarrow> json list \<Rightarrow> string \<Rightarrow> string \<Rightarrow> string list"
  and collect_entries :: "translate \<Rightarrow> bool \<Rightarrow> (string \<times> json) list \<Rightarrow> string \<Rightarrow> string list" where
  "collect t whole (JArr vs) field context = collect_list t 0 vs field context"
| "collect t whole (JObj kvs) field context = collect_entries t whole kvs context"
| "collect t whole (JStr s) field context =
     (if trim s = [] then []
      else let label = (case map_of fieldKeys field of Some key \<Rightarrow> t key [] | None \<Rightarrow> field);
               text = (if label \<noteq> [] then label @ '': '' @ s else s)
           in [if context \<noteq> [] then context @ '': '' @ text else text])"
| "collect t whole JNull field context = []"
| "collect t whole (JBool b) field context = []"
| "collect t whole (JNum x) field context = []"
| "collect_list t i [] field context = []"
| "collect_list t i (v # vs) field context =
     collect t False v field
       (if field \<in> {''periods'', ''initial_periods''} \<and> (case v of JObj _ \<Rightarrow> True | JArr _ \<Rightarrow> True | _ \<Rightarrow> False)
        then t ''pages.tariffs.bandEntry.band'' [(''number'', JNum (Fin (of_nat (i + 1))))] else context)
     @ collect_list t (i + 1) vs field context"
| "collect_entries t whole [] context = []"
| "collect_entries t whole (kv # kvs) context =
     (if fst kv = ''validation_errors'' \<or> whole \<and> fst kv = ''code'' then []
      else collect t False (snd kv)
        (if fst kv \<in> {''detail'', ''error'', ''non_field_errors'', ''__all__''} then [] else fst kv) context)
     @ collect_entries t whole kvs context"

text \<open>The texts of the notice, each once: of the coded errors if there are any, else of the whole response.\<close>

definition notice_texts :: "host \<Rightarrow> AppSettings \<Rightarrow> translate \<Rightarrow> json \<Rightarrow> string list" where
  "notice_texts h settings t body =
     (case codedErrors (json_get body ''validation_errors'') of
        Some (e # es) \<Rightarrow> filter (\<lambda>s. s \<noteq> []) (uniq (map (formatCodedError h settings t) (e # es)))
      | _ \<Rightarrow> uniq (collect t True body [] []))"

definition formatTariffErrorData :: "host \<Rightarrow> AppSettings \<Rightarrow> translate \<Rightarrow> json \<Rightarrow> string \<Rightarrow> string" where
  "formatTariffErrorData h settings t body fallback = or_str (Some (join '' '' (notice_texts h settings t body))) fallback"

definition formatTariffError :: "host \<Rightarrow> AppSettings \<Rightarrow> translate \<Rightarrow> api_error \<Rightarrow> string \<Rightarrow> string" where
  "formatTariffError h settings t error fallback =
     (case error of
        AxiosError _ (Some body) \<Rightarrow>
          if body = JNull then formatApiError error fallback else formatTariffErrorData h settings t body fallback
      | _ \<Rightarrow> formatApiError error fallback)"

section \<open>Errors on the bands of a new tariff\<close>

text \<open>The coded errors about one field of one band sent with the tariff.\<close>

definition about_field :: "nat \<Rightarrow> string \<Rightarrow> TariffValidationError \<Rightarrow> bool" where
  "about_field i field e \<longleftrightarrow> ve_path e = [JStr ''initial_periods'', JNum (Fin (of_nat i)), JStr field]"

definition row_texts :: "host \<Rightarrow> AppSettings \<Rightarrow> translate \<Rightarrow> TariffValidationError list \<Rightarrow> nat \<Rightarrow> ItemFieldErrors \<Rightarrow> ItemFieldErrors" where
  "row_texts h settings t entries i item =
     map (\<lambda>(field, messages).
       let coded = filter (about_field i field) entries
       in (field, uniq (if 0 < length coded
             then map (\<lambda>e. formatCodedError h settings t (e\<lparr>ve_field := None, ve_path := []\<rparr>)) coded else messages))) item"

text \<open>An entry is taken over by a row exactly when it is about a field that row has messages for.\<close>

definition consumed :: "ItemFieldErrors list \<Rightarrow> TariffValidationError \<Rightarrow> bool" where
  "consumed items e \<longleftrightarrow> list_ex (\<lambda>(i, item). list_ex (\<lambda>(field, _). about_field i field e) item) (enumerate 0 items)"

definition set_key :: "string \<Rightarrow> json \<Rightarrow> json \<Rightarrow> json" where
  "set_key key v body = (case body of JObj kvs \<Rightarrow> JObj (AList.update key v kvs) | _ \<Rightarrow> body)"

definition remaining :: "ItemFieldErrors list \<Rightarrow> json list \<Rightarrow> json list" where
  "remaining items vs = filter (\<lambda>v. case isCodedError v of Some e \<Rightarrow> \<not> consumed items e | None \<Rightarrow> True) vs"

definition splitTariffBandErrors ::
    "host \<Rightarrow> AppSettings \<Rightarrow> translate \<Rightarrow> api_error \<Rightarrow> ItemFieldErrors list option \<times> json option" where
  "splitTariffBandErrors h settings t error =
     (case splitIndexedErrors error ''initial_periods'' of
        (None, rest) \<Rightarrow> (None, rest)
      | (Some items, rest) \<Rightarrow>
          (case (rest, codedErrors (case rest of None \<Rightarrow> None | Some r \<Rightarrow> json_get r ''validation_errors'')) of
             (Some r, Some entries) \<Rightarrow>
               (Some (map (\<lambda>(i, item). row_texts h settings t entries i item) (enumerate 0 items)),
                Some (set_key ''validation_errors''
                  (JArr (remaining items (case json_get r ''validation_errors'' of Some (JArr vs) \<Rightarrow> vs | _ \<Rightarrow> []))) r))
           | _ \<Rightarrow> (Some items, rest)))"

section \<open>No error is lost\<close>

lemma those_Some_Cons: "those (x # xs) = Some ys \<longleftrightarrow> (\<exists>y zs. x = Some y \<and> those xs = Some zs \<and> ys = y # zs)"
  by (auto split: option.splits)

lemma those_remaining:
  "those (map isCodedError vs) = Some es \<Longrightarrow>
     those (map isCodedError (remaining items vs)) = Some (filter (\<lambda>e. \<not> consumed items e) es)"
proof (induction vs arbitrary: es)
  case (Cons v vs)
  then obtain e es' where "isCodedError v = Some e" "those (map isCodedError vs) = Some es'" "es = e # es'"
    by (auto simp only: list.map those_Some_Cons)
  then show ?case using Cons.IH [of es'] by (simp add: remaining_def)
qed (simp add: remaining_def)

lemma consumedE:
  assumes "consumed items e"
  obtains i field messages where "i < length items" "(field, messages) \<in> set (items ! i)" "about_field i field e"
  using assms by (auto simp: consumed_def list_ex_iff in_set_enumerate_eq)

lemma row_texts_has:
  assumes "(field, messages) \<in> set item" "about_field i field e" "e \<in> set entries"
  shows "\<exists>texts. (field, texts) \<in> set (row_texts h settings t entries i item)
    \<and> formatCodedError h settings t (e\<lparr>ve_field := None, ve_path := []\<rparr>) \<in> set texts"
proof -
  let ?coded = "filter (about_field i field) entries"
  have "e \<in> set ?coded" using assms by simp
  then have "0 < length ?coded" by (metis length_pos_if_in_set)
  then have "(field, uniq (map (\<lambda>e. formatCodedError h settings t (e\<lparr>ve_field := None, ve_path := []\<rparr>)) ?coded))
      \<in> set (row_texts h settings t entries i item)"
    unfolding row_texts_def set_map by (rule_tac image_eqI [OF _ assms(1)]) (simp add: Let_def)
  with \<open>e \<in> set ?coded\<close> show ?thesis by force
qed

lemma notice_has:
  assumes "codedErrors (json_get body ''validation_errors'') = Some es" "e \<in> set es" "formatCodedError h settings t e \<noteq> []"
  shows "formatCodedError h settings t e \<in> set (notice_texts h settings t body)"
  using assms by (cases es) (auto simp: notice_texts_def)

text \<open>
  C19: A refused new tariff. The response names errors on the bands that were sent and carries coded errors.
  Each coded error is shown: on the row of its band, under its field, where the response has messages
  for that field; and in the notice otherwise (where its text is not empty).
\<close>

theorem no_coded_error_lost:
  assumes "error = AxiosError m (Some (JObj kvs))"
    and "map_of kvs ''initial_periods'' = Some (JArr bands)" "list_all (\<lambda>b. object_entries b \<noteq> None) bands"
    and "codedErrors (map_of kvs ''validation_errors'') = Some entries" "e \<in> set entries"
  shows "\<exists>rows rest. splitTariffBandErrors h settings t error = (Some rows, Some rest) \<and> length rows = length bands \<and>
    ((\<exists>i field texts. about_field i field e \<and> i < length rows \<and> (field, texts) \<in> set (rows ! i)
        \<and> formatCodedError h settings t (e\<lparr>ve_field := None, ve_path := []\<rparr>) \<in> set texts)
     \<or> formatCodedError h settings t e \<in> insert [] (set (notice_texts h settings t rest)))"
proof -
  define items where "items = map (\<lambda>b. item_errors (the (object_entries b))) bands"
  define others where "others = filter (\<lambda>kv. fst kv \<noteq> ''initial_periods'') kvs"
  have split: "splitIndexedErrors error ''initial_periods'' = (Some items, Some (JObj others))"
    using assms(1-3) by (simp add: splitIndexedErrors_def apiErrorPayload_def json_get_def object_entries_def items_def others_def)
  have ve: "map_of others ''validation_errors'' = map_of kvs ''validation_errors''"
    unfolding others_def by (induction kvs) auto
  obtain vs where vs: "map_of kvs ''validation_errors'' = Some (JArr vs)" "those (map isCodedError vs) = Some entries"
    using assms(4) by (auto simp: codedErrors_def split: option.splits json.splits)
  define rows where "rows = map (\<lambda>(i, item). row_texts h settings t entries i item) (enumerate 0 items)"
  define rest where "rest = set_key ''validation_errors'' (JArr (remaining items vs)) (JObj others)"
  have result: "splitTariffBandErrors h settings t error = (Some rows, Some rest)"
    using vs by (simp add: splitTariffBandErrors_def split ve json_get_def codedErrors_def rows_def rest_def)
  have "codedErrors (json_get rest ''validation_errors'') = Some (filter (\<lambda>e. \<not> consumed items e) entries)"
    using those_remaining [OF vs(2)] by (simp add: rest_def set_key_def json_get_def codedErrors_def update_conv)
  note notice = notice_has [OF this, of e h settings t]
  have shown: "\<exists>i field texts. about_field i field e \<and> i < length rows \<and> (field, texts) \<in> set (rows ! i)
      \<and> formatCodedError h settings t (e\<lparr>ve_field := None, ve_path := []\<rparr>) \<in> set texts" if c: "consumed items e"
  proof -
    from c obtain i field messages where i: "i < length items" "(field, messages) \<in> set (items ! i)" "about_field i field e"
      by (rule consumedE)
    have "rows ! i = row_texts h settings t entries i (items ! i)" "i < length rows"
      using i(1) by (simp_all add: rows_def nth_enumerate_eq)
    then show ?thesis using row_texts_has [OF i(2,3) assms(5), of h settings t] i(3) by metis
  qed
  have "length rows = length bands" by (simp add: rows_def items_def)
  then show ?thesis using result notice shown assms(5) by (cases "consumed items e") auto
qed

definition refused :: "json list" where
  "refused =
     [JObj [(''code'', JStr ''price_required''), (''field'', JStr ''price_chf_per_kwh''),
        (''path'', JArr [JStr ''initial_periods'', JNum (Fin (of_nat 1)), JStr ''price_chf_per_kwh'']), (''params'', JObj []),
        (''message'', JStr ''A price band needs a price.'')],
      JObj [(''code'', JStr ''overlap''), (''field'', JNull), (''path'', JArr []), (''params'', JObj [(''name'', JStr ''Solar'')]),
        (''message'', JStr ''Overlaps.'')]]"

definition refused_response :: api_error where
  "refused_response = AxiosError ''400'' (Some (JObj
     [(''initial_periods'', JArr [JObj [], JObj [(''price_chf_per_kwh'', JArr [JStr ''A price band needs a price.''])]]),
      (''validation_errors'', JArr refused)]))"

text \<open>A host for the example; it writes no dates.\<close>

definition example_host :: host where
  "example_host = \<lparr>h_dateParse = (\<lambda>_. None), h_monthLong = (\<lambda>_. []), h_off = (\<lambda>_. 0)\<rparr>"

theorem no_coded_error_lost_witness:
  "\<exists>rows rest e. splitTariffBandErrors example_host DEFAULT_APP_SETTINGS (\<lambda>key _. key) refused_response = (Some rows, Some rest)
    \<and> isCodedError (refused ! 0) = Some e
    \<and> ((\<exists>i field texts. about_field i field e \<and> i < length rows \<and> (field, texts) \<in> set (rows ! i)
        \<and> formatCodedError example_host DEFAULT_APP_SETTINGS (\<lambda>key _. key) (e\<lparr>ve_field := None, ve_path := []\<rparr>) \<in> set texts)
     \<or> formatCodedError example_host DEFAULT_APP_SETTINGS (\<lambda>key _. key) e
         \<in> insert [] (set (notice_texts example_host DEFAULT_APP_SETTINGS (\<lambda>key _. key) rest)))"
proof -
  have n: "num_int (Fin 1) = Some 1" by (simp add: num_int_def)
  obtain e where e: "isCodedError (refused ! 0) = Some e"
    by (simp add: refused_def isCodedError_def json_get_def json_string_def path_key_def n)
  have "those (map isCodedError refused) = Some [e, \<lparr>ve_code = ''overlap'', ve_field = None, ve_path = [],
      ve_params = [(''name'', JStr ''Solar'')], ve_message = ''Overlaps.''\<rparr>]"
    using e by (simp add: refused_def isCodedError_def json_get_def json_string_def)
  then have c: "codedErrors (Some (JArr refused)) = Some [e, \<lparr>ve_code = ''overlap'', ve_field = None, ve_path = [],
      ve_params = [(''name'', JStr ''Solar'')], ve_message = ''Overlaps.''\<rparr>]" by (simp add: codedErrors_def)
  have b: "map_of [(''initial_periods'', x), (''validation_errors'', y)] ''initial_periods'' = Some x"
    "map_of [(''initial_periods'', x), (''validation_errors'', y)] ''validation_errors'' = Some y" for x y :: json by simp_all
  have o: "list_all (\<lambda>b. object_entries b \<noteq> None) [JObj [], JObj [(''price_chf_per_kwh'', JArr [JStr ''A price band needs a price.''])]]"
    by (simp add: object_entries_def)
  note law = no_coded_error_lost [OF refused_response_def b(1) o, unfolded b(2), OF c, of e example_host DEFAULT_APP_SETTINGS "\<lambda>key _. key"]
  have "e \<in> set [e, \<lparr>ve_code = ''overlap'', ve_field = None, ve_path = [], ve_params = [(''name'', JStr ''Solar'')],
      ve_message = ''Overlaps.''\<rparr>]" by simp
  from law [OF this] show ?thesis
    apply (elim exE conjE)
    subgoal for rows rest
      by (rule exI [of _ rows], rule exI [of _ rest], rule exI [of _ e]) (intro conjI e)
    done
qed

end
