(* ===== verification/Tariff_Forms.thy ===== *)
theory Tariff_Forms
  imports Tariff_Model Band_Coverage Api_Client
begin

text \<open>
  The tariff and band forms of \<open>frontend/src/features/tariffs\<close>: \<open>useTariffForms.ts\<close> (form values, their
  checks, and the requests they become) and \<open>TariffDraftBands.tsx\<close> (the bands drafted before their
  tariff exists). A check is the list of its issues; a schema of \<open>zod\<close> accepts a value when no check of a
  field and no refinement reports an issue, and returns it with its strings trimmed where the schema says so.

  The theorems: what an accepted form sends is well-formed for its billing mode, drafted bands included;
  an edit that changes nothing sends the tariff back as it is; and the server's verdict on the drafted
  bands stays with the band it is about while bands are added, changed and removed on the screen; leaving the
  energy mode and coming back puts it on the rows by position again.
\<close>

section \<open>Form values\<close>

record TariffPeriodFormValues =
  pf_tariff :: string
  pf_billing_mode :: TariffBillingMode
  pf_period_type :: TariffPeriodType
  pf_label :: string
  pf_price_chf_per_kwh :: string
  pf_percentage :: string
  pf_time_from :: string
  pf_time_to :: string
  pf_weekdays :: string
  pf_months :: string

record TariffFormValues =
  tf_name :: string
  tf_category :: TariffCategory
  tf_billing_mode :: TariffBillingMode
  tf_energy_type :: TariffEnergyType
  tf_fixed_price_chf :: string
  tf_initial_percentage :: string
  tf_initial_periods :: "TariffPeriodFormValues list"
  tf_split_key :: split_key
  tf_valid_from :: string
  tf_valid_to :: string
  tf_notes :: string
  tf_dynamic_source :: string
  tf_minimum_price_chf_per_kwh :: string
  tf_is_new :: bool

section \<open>Checks\<close>

definition isEnergyBased :: "TariffBillingMode \<Rightarrow> bool" where
  "isEnergyBased mode \<longleftrightarrow> mode = mode_energy \<or> mode = percentage_of_energy"

text \<open>
  The refinement of the tariff form. An energy type is never falsy: the check for a missing one adds no issue.
\<close>

definition refineTariff :: "TariffFormValues \<Rightarrow> zod_issue list" where
  "refineTariff values =
     issue_if (tf_minimum_price_chf_per_kwh values \<noteq> [] \<and> js_Number (tf_minimum_price_chf_per_kwh values) = NaN)
       ''minimum_price_chf_per_kwh'' ''Minimum price must be a number.''
     @ (if tf_billing_mode values = percentage_of_energy \<and> tf_is_new values
        then issue_if (tf_initial_percentage values = []) ''initial_percentage'' ''Percentage is required.''
          @ issue_if (tf_initial_percentage values \<noteq> [] \<and> js_Number (tf_initial_percentage values) = NaN)
              ''initial_percentage'' ''Percentage must be a number.''
        else [])
     @ (if \<not> isEnergyBased (tf_billing_mode values)
        then issue_if (tf_fixed_price_chf values = []) ''fixed_price_chf'' ''Fixed price is required.''
          @ issue_if (tf_fixed_price_chf values \<noteq> [] \<and> js_Number (tf_fixed_price_chf values) = NaN)
              ''fixed_price_chf'' ''Fixed price must be a number.''
        else [])"

text \<open>\<open>z.string().trim().min(1)\<close> of a trimmed string.\<close>

definition required :: "string \<Rightarrow> string \<Rightarrow> zod_issue list" where
  "required path s = (if s = [] then [(path, None)] else [])"

definition tariffFormSchema :: "TariffFormValues \<Rightarrow> zod_issue list + TariffFormValues" where
  "tariffFormSchema input =
     (let values = input\<lparr>tf_name := trim (tf_name input), tf_valid_from := trim (tf_valid_from input)\<rparr>;
          issues = required ''name'' (tf_name values) @ required ''valid_from'' (tf_valid_from values) @ refineTariff values
      in if issues = [] then Inr values else Inl issues)"

definition refineBand :: "TariffPeriodFormValues \<Rightarrow> zod_issue list" where
  "refineBand values =
     (if pf_billing_mode values = percentage_of_energy
      then issue_if (trim (pf_percentage values) = []) ''percentage'' ''Percentage is required.''
      else issue_if (trim (pf_price_chf_per_kwh values) = []) ''price_chf_per_kwh'' ''Price is required.'')
     @ issue_if (pf_period_type values \<noteq> flat \<and> (pf_time_from values \<noteq> []) \<noteq> (pf_time_to values \<noteq> []))
         (if pf_time_from values \<noteq> [] then ''time_to'' else ''time_from'') ''Enter both times, or neither.''"

definition tariffPeriodFormSchema :: "TariffPeriodFormValues \<Rightarrow> zod_issue list + TariffPeriodFormValues" where
  "tariffPeriodFormSchema input =
     (let values = input\<lparr>pf_tariff := trim (pf_tariff input)\<rparr>; issues = required ''tariff'' (pf_tariff values) @ refineBand values
      in if issues = [] then Inr values else Inl issues)"

definition tariffBandDraftSchema :: "TariffPeriodFormValues \<Rightarrow> zod_issue list + TariffPeriodFormValues" where
  "tariffBandDraftSchema values = (if refineBand values = [] then Inr values else Inl (refineBand values))"

section \<open>Defaults\<close>

definition defaultTariffFormValues :: "string \<Rightarrow> TariffFormValues" where
  "defaultTariffFormValues today =
     \<lparr>tf_name = [], tf_category = cat_energy, tf_billing_mode = mode_energy, tf_energy_type = et_local, tf_fixed_price_chf = [],
      tf_initial_percentage = [], tf_initial_periods = [], tf_split_key = split_equal, tf_valid_from = today, tf_valid_to = [],
      tf_notes = [], tf_dynamic_source = [], tf_minimum_price_chf_per_kwh = [], tf_is_new = True\<rparr>"

definition defaultTariffPeriodFormValues :: TariffPeriodFormValues where
  "defaultTariffPeriodFormValues =
     \<lparr>pf_tariff = [], pf_billing_mode = mode_energy, pf_period_type = flat, pf_label = [], pf_price_chf_per_kwh = [],
      pf_percentage = [], pf_time_from = [], pf_time_to = [], pf_weekdays = [], pf_months = []\<rparr>"

section \<open>Requests\<close>

record InitialTariffPeriodInput =
  ip_period_type :: TariffPeriodType
  ip_label :: string
  ip_price_chf_per_kwh :: "string option"
  ip_percentage :: "string option"
  ip_time_from :: "string option"
  ip_time_to :: "string option"
  ip_weekdays :: string
  ip_months :: string

record TariffPeriodInput = InitialTariffPeriodInput +
  tpi_tariff :: string

text \<open>\<^const>\<open>None\<close> of an \<open>initial_\<close> field: the request has no such key; inside it, \<^const>\<open>None\<close> is \<open>null\<close>.\<close>

record TariffInput =
  ti_zev :: string
  ti_name :: string
  ti_category :: TariffCategory
  ti_billing_mode :: TariffBillingMode
  ti_energy_type :: "TariffEnergyType option"
  ti_fixed_price_chf :: "string option"
  ti_initial_percentage :: "string option option"
  ti_initial_periods :: "InitialTariffPeriodInput list option"
  ti_split_key :: split_key
  ti_valid_from :: string
  ti_valid_to :: "string option"
  ti_notes :: string
  ti_dynamic_source :: "string option"
  ti_minimum_price_chf_per_kwh :: "string option"

text \<open>\<open>s || null\<close>.\<close>

definition or_null :: "string \<Rightarrow> string option" where
  "or_null s = (if s = [] then None else Some s)"

definition mapBandDraftToInput :: "TariffPeriodFormValues \<Rightarrow> InitialTariffPeriodInput" where
  "mapBandDraftToInput values =
     (let isPercentage = pf_billing_mode values = percentage_of_energy
      in \<lparr>ip_period_type = pf_period_type values, ip_label = (if pf_period_type values = band then pf_label values else []),
          ip_price_chf_per_kwh = (if isPercentage then None else Some (pf_price_chf_per_kwh values)),
          ip_percentage = (if isPercentage then Some (pf_percentage values) else None),
          ip_time_from = or_null (pf_time_from values), ip_time_to = or_null (pf_time_to values),
          ip_weekdays = pf_weekdays values, ip_months = pf_months values\<rparr>)"

definition mapTariffPeriodFormValuesToInput :: "TariffPeriodFormValues \<Rightarrow> TariffPeriodInput" where
  "mapTariffPeriodFormValuesToInput values =
     InitialTariffPeriodInput.extend (mapBandDraftToInput values) (TariffPeriodInput.fields (pf_tariff values))"

definition mapTariffPeriodToFormValues :: "TariffPeriod \<Rightarrow> TariffBillingMode \<Rightarrow> TariffPeriodFormValues" where
  "mapTariffPeriodToFormValues period billingMode =
     \<lparr>pf_tariff = p_tariff period, pf_billing_mode = billingMode, pf_period_type = p_period_type period,
      pf_label = nullish (p_label period) [], pf_price_chf_per_kwh = nullish (p_price_chf_per_kwh period) [],
      pf_percentage = nullish (p_percentage period) [], pf_time_from = or_str (p_time_from period) [],
      pf_time_to = or_str (p_time_to period) [], pf_weekdays = or_str (p_weekdays period) [],
      pf_months = or_str (p_months period) []\<rparr>"

definition mapTariffToFormValues :: "'a Tariff_scheme \<Rightarrow> TariffFormValues" where
  "mapTariffToFormValues tariff =
     \<lparr>tf_name = t_name tariff, tf_category = t_category tariff, tf_billing_mode = t_billing_mode tariff,
      tf_energy_type = nullish (t_energy_type tariff) et_local, tf_fixed_price_chf = or_str (t_fixed_price_chf tariff) [],
      tf_initial_percentage = [], tf_initial_periods = [], tf_split_key = t_split_key tariff,
      tf_valid_from = t_valid_from tariff, tf_valid_to = or_str (t_valid_to tariff) [], tf_notes = or_str (t_notes tariff) [],
      tf_dynamic_source = or_str (t_dynamic_source tariff) [],
      tf_minimum_price_chf_per_kwh = or_str (t_minimum_price_chf_per_kwh tariff) [], tf_is_new = False\<rparr>"

definition isShared :: "TariffBillingMode \<Rightarrow> bool" where
  "isShared mode \<longleftrightarrow> mode = shared_monthly_fee \<or> mode = shared_yearly_fee"

definition mapTariffFormValuesToInput :: "TariffFormValues \<Rightarrow> string \<Rightarrow> TariffInput" where
  "mapTariffFormValuesToInput values zevId =
     (let mode = tf_billing_mode values; energyBased = isEnergyBased mode
      in \<lparr>ti_zev = zevId, ti_name = trim (tf_name values), ti_category = tf_category values, ti_billing_mode = mode,
          ti_energy_type = (if energyBased then Some (tf_energy_type values) else None),
          ti_fixed_price_chf = (if energyBased then None else or_null (tf_fixed_price_chf values)),
          ti_initial_percentage =
            (if tf_is_new values \<and> mode = percentage_of_energy then Some (or_null (tf_initial_percentage values)) else None),
          ti_initial_periods =
            (if tf_is_new values \<and> mode = mode_energy \<and> tf_dynamic_source values = [] \<and> 0 < length (tf_initial_periods values)
             then Some (map mapBandDraftToInput (tf_initial_periods values)) else None),
          ti_split_key = (if isShared mode then tf_split_key values else split_equal),
          ti_valid_from = tf_valid_from values, ti_valid_to = or_null (tf_valid_to values), ti_notes = tf_notes values,
          ti_dynamic_source = (if mode = mode_energy then or_null (tf_dynamic_source values) else None),
          ti_minimum_price_chf_per_kwh =
            (if mode = mode_energy \<and> tf_energy_type values = et_feed_in \<and> tf_dynamic_source values \<noteq> []
             then or_null (tf_minimum_price_chf_per_kwh values) else None)\<rparr>)"

text \<open>A drafted band in the shape the coverage preview reads.\<close>

definition toCoverageBand :: "TariffPeriodFormValues \<Rightarrow> CoverageBand" where
  "toCoverageBand values =
     \<lparr>cb_id = None, cb_period_type = pf_period_type values, cb_label = Some (pf_label values),
      cb_price_chf_per_kwh = or_null (pf_price_chf_per_kwh values), cb_percentage = or_null (pf_percentage values),
      cb_time_from = or_null (pf_time_from values), cb_time_to = or_null (pf_time_to values),
      cb_weekdays = Some (pf_weekdays values), cb_months = Some (pf_months values)\<rparr>"

text \<open>Whether the band in the editor says enough for the coverage preview.\<close>

definition band_complete :: "TariffPeriodFormValues \<Rightarrow> bool" where
  "band_complete values \<longleftrightarrow> pf_period_type values = flat \<or> (pf_time_from values \<noteq> []) = (pf_time_to values \<noteq> [])"

section \<open>The tariff form and the band form\<close>

text \<open>
  A new static energy tariff takes drafted bands, and is not submitted while one is open in the editor:
  \<^const>\<open>None\<close> is the form's own notice.
\<close>

definition takesInitialBands :: "bool \<Rightarrow> TariffFormValues \<Rightarrow> bool" where
  "takesInitialBands isVersion values \<longleftrightarrow>
     \<not> isVersion \<and> tf_billing_mode values = mode_energy \<and> tf_dynamic_source values = []"

definition submit_form :: "bool \<Rightarrow> bool \<Rightarrow> string \<Rightarrow> TariffFormValues \<Rightarrow> TariffInput option" where
  "submit_form isVersion bandEditorOpen selectedZevId values =
     (if takesInitialBands isVersion values \<and> bandEditorOpen then None
      else Some (mapTariffFormValuesToInput values selectedZevId))"

text \<open>The effect that lets the picked source decide the energy type of a new tariff.\<close>

definition follow_source :: "bool \<Rightarrow> DynamicTariffSource list option \<Rightarrow> TariffFormValues \<Rightarrow> TariffFormValues" where
  "follow_source isVersion sourcesData values =
     (case sourcesData of
        None \<Rightarrow> values
      | Some sources \<Rightarrow>
          if isVersion \<or> tf_dynamic_source values = [] then values
          else case find (\<lambda>c. ds_id c = tf_dynamic_source values) sources of
                 None \<Rightarrow> values
               | Some source \<Rightarrow>
                   (case impliedEnergyType (ds_tariff_type source) of
                      None \<Rightarrow> values | Some e \<Rightarrow> values\<lparr>tf_energy_type := e\<rparr>))"

text \<open>The band form of an existing version: its owner, what it starts from, and the bands its coverage is drawn over.\<close>

definition band_owner :: "'a Tariff_scheme list \<Rightarrow> TariffPeriod option \<Rightarrow> string option \<Rightarrow> 'a Tariff_scheme option" where
  "band_owner tariffs initialPeriod defaultTariffId =
     find (\<lambda>tariff. Some (t_id tariff) =
       (case initialPeriod of Some period \<Rightarrow> Some (p_tariff period) | None \<Rightarrow> defaultTariffId)) tariffs"

definition band_defaults :: "'a Tariff_scheme list \<Rightarrow> TariffPeriod option \<Rightarrow> string option \<Rightarrow> TariffPeriodFormValues" where
  "band_defaults tariffs initialPeriod defaultTariffId =
     (let mode = nullish (map_option t_billing_mode (band_owner tariffs initialPeriod defaultTariffId)) mode_energy
      in case initialPeriod of
           Some period \<Rightarrow> mapTariffPeriodToFormValues period mode
         | None \<Rightarrow> defaultTariffPeriodFormValues
             \<lparr>pf_tariff := nullish defaultTariffId (pf_tariff defaultTariffPeriodFormValues), pf_billing_mode := mode\<rparr>)"

definition period_coverage_band :: "TariffPeriod \<Rightarrow> CoverageBand" where
  "period_coverage_band p =
     \<lparr>cb_id = Some (p_id p), cb_period_type = p_period_type p, cb_label = p_label p,
      cb_price_chf_per_kwh = p_price_chf_per_kwh p, cb_percentage = p_percentage p, cb_time_from = p_time_from p,
      cb_time_to = p_time_to p, cb_weekdays = p_weekdays p, cb_months = p_months p\<rparr>"

definition versionBands ::
    "'a Tariff_scheme option \<Rightarrow> TariffPeriod list \<Rightarrow> TariffPeriod option \<Rightarrow> TariffPeriodFormValues \<Rightarrow> CoverageBand list" where
  "versionBands owner periods initialPeriod values =
     map period_coverage_band
       (filter (\<lambda>p. Some (p_tariff p) = map_option t_id owner \<and> Some (p_id p) \<noteq> map_option p_id initialPeriod) periods)
     @ [(toCoverageBand values)\<lparr>cb_id := map_option p_id initialPeriod\<rparr>]"

section \<open>Drafted bands\<close>

datatype band_editing = editing_new | editing_at nat

text \<open>
  \<open>dr_bands\<close>, \<open>dr_server\<close> (what the server said last) and \<open>dr_editorOpen\<close> belong to the form; the bands in
  it are shown while the tariff takes them (\<open>dr_shown\<close>, \<open>takesInitialBands\<close>), with the band open in the editor and the
  messages as state of their own.
\<close>

record draft_state =
  dr_bands :: "TariffPeriodFormValues list"
  dr_editing :: "band_editing option"
  dr_errors :: "ItemFieldErrors list option"
  dr_server :: "ItemFieldErrors list option"
  dr_shown :: bool
  dr_editorOpen :: bool

definition draft_open :: "band_editing option \<Rightarrow> draft_state \<Rightarrow> draft_state" where
  "draft_open e st = st\<lparr>dr_editing := e, dr_editorOpen := (e \<noteq> None)\<rparr>"

definition remove_at :: "nat \<Rightarrow> 'a list \<Rightarrow> 'a list" where
  "remove_at i xs = map snd (filter (\<lambda>(position, _). position \<noteq> i) (enumerate 0 xs))"

definition draft_keep :: "TariffPeriodFormValues \<Rightarrow> draft_state \<Rightarrow> draft_state" where
  "draft_keep values st =
     draft_open None
       (case dr_editing st of
          None \<Rightarrow> st
        | Some editing_new \<Rightarrow> st\<lparr>dr_bands := dr_bands st @ [values]\<rparr>
        | Some (editing_at i) \<Rightarrow>
            st\<lparr>dr_bands := map (\<lambda>(index, b). if index = i then values else b) (enumerate 0 (dr_bands st)),
               dr_errors := map_option (\<lambda>es. map (\<lambda>(index, e). if index = i then [] else e) (enumerate 0 es)) (dr_errors st)\<rparr>)"

definition draft_remove :: "nat \<Rightarrow> draft_state \<Rightarrow> draft_state" where
  "draft_remove i st =
     draft_open None (st\<lparr>dr_bands := remove_at i (dr_bands st), dr_errors := map_option (remove_at i) (dr_errors st)\<rparr>)"

text \<open>A new verdict of the server replaces the one before.\<close>

definition draft_verdict :: "ItemFieldErrors list option \<Rightarrow> draft_state \<Rightarrow> draft_state" where
  "draft_verdict es st = st\<lparr>dr_server := es, dr_errors := (if dr_shown st then es else dr_errors st)\<rparr>"

text \<open>
  Choosing another billing mode or a price source takes the bands away or brings them back. What was state of
  the component starts anew, the messages from what the server said last.
\<close>

definition draft_switch :: "draft_state \<Rightarrow> draft_state" where
  "draft_switch st =
     (if dr_shown st then st\<lparr>dr_shown := False, dr_editing := None, dr_errors := None\<rparr>
      else st\<lparr>dr_shown := True, dr_editing := None, dr_errors := dr_server st\<rparr>)"

text \<open>\<open>submit\<close> stops here with "finish the band first".\<close>

definition bandEditorBlocks :: "draft_state \<Rightarrow> bool" where
  "bandEditorBlocks st \<longleftrightarrow> dr_shown st \<and> dr_editorOpen st"

text \<open>What the row of a band shows: \<open>errors?.[index] ?? {}\<close>.\<close>

definition row_errors :: "draft_state \<Rightarrow> nat \<Rightarrow> ItemFieldErrors" where
  "row_errors st i = nullish (case dr_errors st of None \<Rightarrow> None | Some es \<Rightarrow> nth_opt es i) []"

definition FIELD_LABELS :: "(string \<times> string) list" where
  "FIELD_LABELS =
     [(''period_type'', ''pages.tariffs.form.periodType''), (''label'', ''pages.tariffs.form.bandLabel''),
      (''price_chf_per_kwh'', ''pages.tariffs.form.pricePerKwh''), (''percentage'', ''pages.tariffs.form.percentage''),
      (''time_from'', ''pages.tariffs.form.timeFrom''), (''time_to'', ''pages.tariffs.form.timeTo''),
      (''weekdays'', ''pages.tariffs.form.weekdays''), (''months'', ''pages.tariffs.form.months'')]"

definition row_messages :: "(string \<Rightarrow> string) \<Rightarrow> draft_state \<Rightarrow> nat \<Rightarrow> string list" where
  "row_messages t st i =
     map (\<lambda>(field, messages).
       (case map_of FIELD_LABELS field of None \<Rightarrow> [] | Some key \<Rightarrow> t key @ '': '') @ join '' '' messages) (row_errors st i)"

text \<open>
  What the page offers: opening a row or the editor of a new band, keeping what the editor's schema
  accepts (its mode is that of the band it opened with: no field changes it), closing it, removing a row,
  the verdict on a request, which has at most one entry for each band sent, and switching the mode of the tariff.
\<close>

datatype draft_event = de_add | de_edit nat | de_cancel | de_keep TariffPeriodFormValues | de_remove nat
  | de_verdict "ItemFieldErrors list option" | de_switch

inductive draft_step :: "draft_state \<Rightarrow> draft_event \<Rightarrow> draft_state \<Rightarrow> bool" where
  add: "dr_shown st \<Longrightarrow> dr_editing st = None \<Longrightarrow> draft_step st de_add (draft_open (Some editing_new) st)"
| edit: "dr_shown st \<Longrightarrow> i < length (dr_bands st) \<Longrightarrow> draft_step st (de_edit i) (draft_open (Some (editing_at i)) st)"
| cancel: "dr_shown st \<Longrightarrow> draft_step st de_cancel (draft_open None st)"
| keep: "dr_shown st \<Longrightarrow> dr_editing st \<noteq> None \<Longrightarrow> tariffBandDraftSchema input = Inr values \<Longrightarrow> pf_billing_mode values = mode_energy \<Longrightarrow>
    draft_step st (de_keep values) (draft_keep values st)"
| remove: "dr_shown st \<Longrightarrow> i < length (dr_bands st) \<Longrightarrow> draft_step st (de_remove i) (draft_remove i st)"
| verdict: "(case es of None \<Rightarrow> True | Some xs \<Rightarrow> length xs \<le> length (dr_bands st)) \<Longrightarrow>
    draft_step st (de_verdict es) (draft_verdict es st)"
| switch: "draft_step st de_switch (draft_switch st)"

inductive_cases draft_stepE: "draft_step st e st'"

inductive draft_run :: "draft_state \<Rightarrow> draft_event list \<Rightarrow> draft_state \<Rightarrow> bool" where
  none: "draft_run st [] st"
| more: "draft_run st es st' \<Longrightarrow> draft_step st' e st'' \<Longrightarrow> draft_run st (es @ [e]) st''"

definition draft_start :: draft_state where
  "draft_start = \<lparr>dr_bands = [], dr_editing = None, dr_errors = None, dr_server = None, dr_shown = True, dr_editorOpen = False\<rparr>"

section \<open>The verdict stays with its band\<close>

text \<open>
  The specification keeps each band together with what the server said about it: a new or changed band
  has nothing against it, removing a row takes its messages with it, and hiding the rows changes nothing.
\<close>

type_synonym draft_rows = "(TariffPeriodFormValues \<times> ItemFieldErrors) list \<times> band_editing option"

fun spec_event :: "draft_rows \<Rightarrow> draft_event \<Rightarrow> draft_rows" where
  "spec_event (rows, _) de_add = (rows, Some editing_new)"
| "spec_event (rows, _) (de_edit i) = (rows, Some (editing_at i))"
| "spec_event (rows, _) de_cancel = (rows, None)"
| "spec_event (rows, None) (de_keep values) = (rows, None)"
| "spec_event (rows, Some editing_new) (de_keep values) = (rows @ [(values, [])], None)"
| "spec_event (rows, Some (editing_at i)) (de_keep values) = (rows[i := (values, [])], None)"
| "spec_event (rows, _) (de_remove i) = (take i rows @ drop (Suc i) rows, None)"
| "spec_event (rows, e) (de_verdict es) =
     (map (\<lambda>(i, b, _). (b, nullish (case es of None \<Rightarrow> None | Some xs \<Rightarrow> nth_opt xs i) [])) (enumerate 0 rows), e)"
| "spec_event (rows, _) de_switch = (rows, None)"

definition draft_view :: "draft_state \<Rightarrow> draft_rows" where
  "draft_view st = (map (\<lambda>i. (dr_bands st ! i, row_errors st i)) [0..<length (dr_bands st)], dr_editing st)"

text \<open>Every drafted band was accepted by the editor, for an energy tariff.\<close>

definition kept_ok :: "TariffPeriodFormValues \<Rightarrow> bool" where
  "kept_ok b \<longleftrightarrow> refineBand b = [] \<and> pf_billing_mode b = mode_energy"

definition draft_inv :: "draft_state \<Rightarrow> bool" where
  "draft_inv st \<longleftrightarrow> list_all kept_ok (dr_bands st)
     \<and> (case dr_editing st of Some (editing_at i) \<Rightarrow> i < length (dr_bands st) | _ \<Rightarrow> True)"

text \<open>The messages are those of bands that are there: so after a verdict, and while the bands stay on the screen.\<close>

definition draft_fits :: "draft_state \<Rightarrow> bool" where
  "draft_fits st \<longleftrightarrow> dr_shown st \<and> (case dr_errors st of None \<Rightarrow> True | Some es \<Rightarrow> length es \<le> length (dr_bands st))"

lemma remove_at_eq: "remove_at i xs = take i xs @ drop (Suc i) xs"
proof -
  have "map snd (filter (\<lambda>(position, _). position \<noteq> i + n) (enumerate n xs)) = take i xs @ drop (Suc i) xs" for n
  proof (induction xs arbitrary: n i)
    case (Cons x xs)
    have all: "filter (\<lambda>(position, _). position \<noteq> n) (enumerate (Suc n) xs) = enumerate (Suc n) xs"
      by (rule filter_True) (auto simp: in_set_enumerate_eq)
    show ?case
      using Cons [where i = "i - 1" and n = "Suc n"] all by (cases i) auto
  qed simp
  from this [of 0] show ?thesis by (simp add: remove_at_def)
qed

lemma map_at_eq: "map (\<lambda>(index, x). if index = i then v else x) (enumerate 0 xs) = xs[i := v]"
  by (rule nth_equalityI) (auto simp: nth_enumerate_eq nth_list_update)

lemma length_remove_at: "i < length xs \<Longrightarrow> length (remove_at i xs) = length xs - 1"
  by (simp add: remove_at_eq)

lemmas draft_ops = draft_open_def draft_keep_def draft_remove_def draft_verdict_def draft_switch_def map_at_eq

lemma draft_inv_step: "draft_step st e st' \<Longrightarrow> draft_inv st \<Longrightarrow> draft_inv st'"
proof (induction rule: draft_step.induct)
  case (keep st inp vs)
  then have "kept_ok vs" by (auto simp: kept_ok_def tariffBandDraftSchema_def split: if_splits)
  with keep show ?case
    by (auto simp: draft_inv_def draft_ops list_all_iff dest: set_update_subset_insert [THEN subsetD]
      split: option.splits band_editing.splits)
next
  case (remove st i)
  then show ?case
    by (auto simp: draft_inv_def draft_ops remove_at_eq list_all_iff dest: in_set_takeD in_set_dropD split: option.splits)
qed (auto simp: draft_inv_def draft_ops split: option.splits band_editing.splits)

lemma draft_inv_start: "draft_inv draft_start"
  by (simp add: draft_inv_def draft_start_def)

lemma draft_inv_run: "draft_run st es st' \<Longrightarrow> draft_inv st \<Longrightarrow> draft_inv st'"
  by (induction rule: draft_run.induct) (auto intro: draft_inv_step)

lemma draft_fits_step: "draft_step st e st' \<Longrightarrow> draft_fits st \<Longrightarrow> e \<noteq> de_switch \<Longrightarrow> draft_fits st'"
  by (induction rule: draft_step.induct) (auto simp: draft_fits_def draft_ops remove_at_eq split: option.splits band_editing.splits)

lemma draft_fits_verdict: "draft_step st (de_verdict v) st' \<Longrightarrow> dr_shown st \<Longrightarrow> draft_fits st'"
  by (auto elim!: draft_stepE simp: draft_fits_def draft_ops split: option.splits)

lemma nth_opt_update: "nullish (nth_opt (es[i := []]) j) [] = (if j = i then [] else nullish (nth_opt es j) [])"
  by (auto simp: nth_opt_def)

lemma nth_opt_remove_at: "nth_opt (remove_at i es) j = nth_opt es (if j < i then j else Suc j)"
  by (auto simp: nth_opt_def remove_at_eq nth_append min_def)

lemma nth_remove_at: "i < length xs \<Longrightarrow> j < length xs - 1 \<Longrightarrow> remove_at i xs ! j = xs ! (if j < i then j else Suc j)"
  by (auto simp: remove_at_eq nth_append min_def)

lemma view_verdict:
  assumes "draft_step st (de_verdict es) st'" "dr_shown st"
  shows "draft_view st' = spec_event (draft_view st) (de_verdict es)"
proof -
  have "st' = draft_verdict es st" using assms(1) by (auto elim: draft_stepE)
  with assms(2) show ?thesis
    by (auto simp: draft_view_def draft_ops row_errors_def nth_enumerate_eq intro!: nth_equalityI split: option.splits)
qed

lemma view_step:
  "draft_step st e st' \<Longrightarrow> draft_inv st \<Longrightarrow> draft_fits st \<Longrightarrow> e \<noteq> de_switch \<Longrightarrow> draft_view st' = spec_event (draft_view st) e"
proof (induction rule: draft_step.induct)
  case (keep st inp vs)
  then consider "dr_editing st = Some editing_new" | i where "dr_editing st = Some (editing_at i)" "i < length (dr_bands st)"
    by (auto simp: draft_inv_def split: option.splits band_editing.splits)
  then show ?case
  proof cases
    case 1
    have "row_errors st (length (dr_bands st)) = []"
      using keep.prems by (auto simp: draft_fits_def row_errors_def nth_opt_def split: option.splits)
    then show ?thesis using 1 by (simp add: draft_view_def draft_ops row_errors_def nth_append)
  next
    case (2 i)
    have e: "row_errors (draft_keep vs st) j = (if j = i then [] else row_errors st j)" for j
      using 2 by (auto simp: row_errors_def draft_ops nth_opt_update split: option.splits)
    have b: "dr_bands (draft_keep vs st) = (dr_bands st)[i := vs]" "dr_editing (draft_keep vs st) = None"
      using 2 by (simp_all add: draft_ops)
    have "map (\<lambda>j. ((dr_bands st)[i := vs] ! j, if j = i then [] else row_errors st j)) [0..<length (dr_bands st)] =
        (map (\<lambda>j. (dr_bands st ! j, row_errors st j)) [0..<length (dr_bands st)])[i := (vs, [])]"
      by (rule nth_equalityI) (auto simp: nth_list_update)
    then show ?thesis using 2 unfolding draft_view_def e b by simp
  qed
next
  case (remove st i)
  have e: "row_errors (draft_remove i st) j = row_errors st (if j < i then j else Suc j)" for j
    by (auto simp: row_errors_def draft_ops nth_opt_remove_at split: option.splits)
  have "map (\<lambda>j. (remove_at i (dr_bands st) ! j, row_errors (draft_remove i st) j)) [0..<length (dr_bands st) - 1] =
    take i (fst (draft_view st)) @ drop (Suc i) (fst (draft_view st))"
    using remove unfolding e
    by (intro nth_equalityI) (auto simp: draft_view_def nth_remove_at nth_append min_def)
  then show ?case using remove by (simp add: draft_view_def draft_ops length_remove_at)
next
  case verdict
  then show ?case using view_verdict [OF draft_step.verdict] by (simp add: draft_fits_def)
qed (simp_all add: draft_view_def draft_ops row_errors_def)

lemma view_run:
  assumes "draft_run st0 es st" "draft_inv st0" "draft_fits st0" "de_switch \<notin> set es"
  shows "draft_inv st \<and> draft_fits st \<and> draft_view st = foldl spec_event (draft_view st0) es"
  using assms
proof (induction rule: draft_run.induct)
  case (more st0 es st' e st'')
  then have IH: "draft_inv st'" "draft_fits st'" "draft_view st' = foldl spec_event (draft_view st0) es" "e \<noteq> de_switch" by auto
  then show ?case
    using view_step [OF more(2) IH(1,2,4)] draft_inv_step [OF more(2) IH(1)] draft_fits_step [OF more(2) IH(2,4)] by simp
qed simp

text \<open>
  C18: Bands drafted with a new tariff. From a verdict of the server on, through every sequence of adding, changing,
  removing and keeping bands and of further verdicts, as long as the bands stay on the screen, the page shows what the specification
  shows: the messages of a verdict stay on the rows of the bands they were given for, and a band
  added or changed since has none. Whatever happened before, switches of the billing mode included, does not matter.
\<close>

theorem verdict_stays_with_band:
  assumes "draft_run draft_start before st0" "dr_shown st0" "draft_step st0 (de_verdict v) st1"
    and "draft_run st1 edits st" "de_switch \<notin> set edits"
  shows "draft_view st = foldl spec_event (draft_view st0) (de_verdict v # edits)"
proof -
  have "draft_inv st1" using draft_inv_step [OF assms(3)] draft_inv_run [OF assms(1) draft_inv_start] by blast
  with view_run [OF assms(4) _ draft_fits_verdict [OF assms(3,2)] assms(5)] view_verdict [OF assms(3,2)] show ?thesis by simp
qed

definition priced :: "string \<Rightarrow> TariffPeriodFormValues" where
  "priced p = defaultTariffPeriodFormValues\<lparr>pf_price_chf_per_kwh := p\<rparr>"

lemma keep_priced:
  "dr_shown st \<Longrightarrow> dr_editing st \<noteq> None \<Longrightarrow> trim p \<noteq> [] \<Longrightarrow> draft_step st (de_keep (priced p)) (draft_keep (priced p) st)"
  by (rule draft_step.keep [of _ "priced p"])
     (simp_all add: tariffBandDraftSchema_def refineBand_def issue_if_def priced_def defaultTariffPeriodFormValues_def)

definition bad_price :: ItemFieldErrors where
  "bad_price = [(''price_chf_per_kwh'', [''bad''])]"

definition two_bands :: draft_state where
  "two_bands = draft_keep (priced ''x'') (draft_open (Some editing_new) (draft_keep (priced ''1'') (draft_open (Some editing_new) draft_start)))"

definition second_refused :: draft_state where
  "second_refused = draft_verdict (Some [[], bad_price]) two_bands"

lemma two_bands_run: "\<exists>es. draft_run draft_start es two_bands"
proof -
  let ?s1 = "draft_keep (priced ''1'') (draft_open (Some editing_new) draft_start)"
  note ops = draft_start_def draft_ops
  have k: "trim ''1'' \<noteq> []" "trim ''x'' \<noteq> []" by code_simp+
  have "draft_step draft_start de_add (draft_open (Some editing_new) draft_start)"
    by (rule draft_step.add) (simp_all add: ops)
  moreover have "draft_step (draft_open (Some editing_new) draft_start) (de_keep (priced ''1'')) ?s1"
    by (rule keep_priced) (simp_all add: ops k)
  moreover have "draft_step ?s1 de_add (draft_open (Some editing_new) ?s1)"
    by (rule draft_step.add) (simp_all add: ops)
  moreover have "draft_step (draft_open (Some editing_new) ?s1) (de_keep (priced ''x'')) two_bands"
    unfolding two_bands_def by (rule keep_priced) (simp_all add: ops k)
  ultimately show ?thesis by (meson draft_run.intros)
qed

lemma second_refused_step: "dr_shown two_bands" "draft_step two_bands (de_verdict (Some [[], bad_price])) second_refused"
proof -
  show "dr_shown two_bands" by (simp add: two_bands_def draft_ops draft_start_def)
  show "draft_step two_bands (de_verdict (Some [[], bad_price])) second_refused"
    unfolding second_refused_def by (rule draft_step.verdict) (simp add: two_bands_def draft_ops draft_start_def)
qed

text \<open>Two bands are sent, the second is refused, and then the first is removed: the message moves up with its band.\<close>

theorem verdict_stays_with_band_witness:
  "draft_view (draft_remove 0 second_refused) = ([(priced ''x'', bad_price)], None)"
proof -
  obtain es where before: "draft_run draft_start es two_bands" using two_bands_run by blast
  have "draft_step second_refused (de_remove 0) (draft_remove 0 second_refused)"
    by (rule draft_step.remove) (simp_all add: second_refused_def two_bands_def draft_ops draft_start_def)
  then have edits: "draft_run second_refused [de_remove 0] (draft_remove 0 second_refused)"
    using draft_run.more [OF draft_run.none] by fastforce
  have view: "draft_view two_bands = ([(priced ''1'', []), (priced ''x'', [])], None)"
    by (simp add: draft_view_def two_bands_def draft_ops draft_start_def row_errors_def upt_rec)
  show ?thesis
    using verdict_stays_with_band [OF before second_refused_step edits] by (simp add: view nth_opt_def)
qed

section \<open>Switching the mode\<close>

text \<open>
  Leaving the energy mode and coming back puts the last verdict on the rows again, by the position the bands
  had when they were sent. Here the first band was removed meanwhile: its neighbour, which was refused,
  has lost its message, and a band added now gets it.
\<close>

lemma old_verdict_on_other_band:
  defines "st \<equiv> draft_keep (priced ''2'') (draft_open (Some editing_new) (draft_switch (draft_switch (draft_remove 0 second_refused))))"
  shows "draft_view st = ([(priced ''x'', []), (priced ''2'', bad_price)], None)"
  by (simp add: st_def draft_view_def second_refused_def two_bands_def draft_ops draft_start_def row_errors_def nth_opt_def remove_at_def upt_rec)

text \<open>
  A band left open in the editor is closed by the switch, but the form still counts it as open: back
  in the energy mode nothing is being edited and saving is refused until a band is opened and closed again.
\<close>

lemma closed_editor_blocks:
  defines "st \<equiv> draft_switch (draft_switch (draft_open (Some editing_new) draft_start))"
  shows "dr_editing st = None \<and> bandEditorBlocks st"
  by (simp add: st_def draft_switch_def draft_open_def draft_start_def bandEditorBlocks_def)

lemma refused_second_band:
  obtains st where "draft_run draft_start [de_add, de_keep (priced ''1''), de_add, de_keep (priced ''x''),
    de_verdict (Some [[], [(''price_chf_per_kwh'', [''bad''])]]), de_remove 0] st" "dr_editing st = None"
proof -
  let ?s1 = "draft_keep (priced ''1'') (draft_open (Some editing_new) draft_start)"
  let ?s2 = "draft_keep (priced ''x'') (draft_open (Some editing_new) ?s1)"
  let ?s3 = "draft_verdict (Some [[], [(''price_chf_per_kwh'', [''bad''])]]) ?s2"
  note ops = draft_start_def draft_ops
  have k: "trim ''1'' \<noteq> []" "trim ''x'' \<noteq> []" by code_simp+
  have "draft_run draft_start ([] @ [de_add]) (draft_open (Some editing_new) draft_start)"
    by (rule draft_run.more [OF draft_run.none draft_step.add]) (simp_all add: ops)
  then have "draft_run draft_start (([] @ [de_add]) @ [de_keep (priced ''1'')]) ?s1"
    by (rule draft_run.more) (rule keep_priced; simp add: ops k)
  then have "draft_run draft_start ((([] @ [de_add]) @ [de_keep (priced ''1'')]) @ [de_add]) (draft_open (Some editing_new) ?s1)"
    by (rule draft_run.more) (rule draft_step.add; simp add: ops)
  then have "draft_run draft_start (((([] @ [de_add]) @ [de_keep (priced ''1'')]) @ [de_add]) @ [de_keep (priced ''x'')]) ?s2"
    by (rule draft_run.more) (rule keep_priced; simp add: ops k)
  then have "draft_run draft_start ((((([] @ [de_add]) @ [de_keep (priced ''1'')]) @ [de_add]) @ [de_keep (priced ''x'')])
      @ [de_verdict (Some [[], [(''price_chf_per_kwh'', [''bad''])]])]) ?s3"
    by (rule draft_run.more) (rule draft_step.verdict, simp add: ops)
  then have "draft_run draft_start (((((([] @ [de_add]) @ [de_keep (priced ''1'')]) @ [de_add]) @ [de_keep (priced ''x'')])
      @ [de_verdict (Some [[], [(''price_chf_per_kwh'', [''bad''])]])]) @ [de_remove 0]) (draft_remove 0 ?s3)"
    by (rule draft_run.more) (rule draft_step.remove; simp add: ops)
  then show thesis using that by (simp add: draft_ops)
qed

section \<open>What a form sends\<close>

text \<open>
  A request that is well-formed for its billing mode, as \<open>TariffInput\<close> of \<open>types/api.ts\<close> describes it: a
  number written out, a band with a price and no percentage or the other way round, an energy type exactly for the
  energy-based modes and a fixed price exactly for the others, the create-only fields only where they apply.
\<close>

definition number_text :: "string \<Rightarrow> bool" where
  "number_text s \<longleftrightarrow> s \<noteq> [] \<and> js_Number s \<noteq> NaN"

definition band_request_ok :: "TariffBillingMode \<Rightarrow> 'a InitialTariffPeriodInput_scheme \<Rightarrow> bool" where
  "band_request_ok mode b \<longleftrightarrow>
     (case (ip_price_chf_per_kwh b, ip_percentage b) of
        (Some p, None) \<Rightarrow> mode \<noteq> percentage_of_energy \<and> trim p \<noteq> []
      | (None, Some p) \<Rightarrow> mode = percentage_of_energy \<and> trim p \<noteq> []
      | _ \<Rightarrow> False)
     \<and> (ip_label b \<noteq> [] \<longrightarrow> ip_period_type b = band)
     \<and> (ip_period_type b \<noteq> flat \<longrightarrow> (ip_time_from b = None) = (ip_time_to b = None))"

definition request_ok :: "bool \<Rightarrow> TariffInput \<Rightarrow> bool" where
  "request_ok is_new r \<longleftrightarrow>
     (let mode = ti_billing_mode r
      in ti_name r \<noteq> [] \<and> trim (ti_name r) = ti_name r \<and> ti_valid_from r \<noteq> []
       \<and> (ti_energy_type r \<noteq> None) = isEnergyBased mode
       \<and> (if isEnergyBased mode then ti_fixed_price_chf r = None else \<exists>p. ti_fixed_price_chf r = Some p \<and> number_text p)
       \<and> (case ti_initial_percentage r of
            None \<Rightarrow> \<not> (is_new \<and> mode = percentage_of_energy)
          | Some p \<Rightarrow> is_new \<and> mode = percentage_of_energy \<and> (\<exists>x. p = Some x \<and> number_text x))
       \<and> (case ti_initial_periods r of
            None \<Rightarrow> True
          | Some bs \<Rightarrow> is_new \<and> mode = mode_energy \<and> ti_dynamic_source r = None \<and> bs \<noteq> [] \<and> list_all (band_request_ok mode) bs)
       \<and> (ti_split_key r \<noteq> split_equal \<longrightarrow> isShared mode)
       \<and> (ti_dynamic_source r \<noteq> None \<longrightarrow> mode = mode_energy)
       \<and> (\<forall>p. ti_minimum_price_chf_per_kwh r = Some p \<longrightarrow>
            number_text p \<and> ti_energy_type r = Some et_feed_in \<and> ti_dynamic_source r \<noteq> None))"

lemma required_Nil [simp]: "required path s = [] \<longleftrightarrow> s \<noteq> []"
  by (simp add: required_def)

lemma band_request_ok_map: "refineBand b = [] \<Longrightarrow> band_request_ok (pf_billing_mode b) (mapBandDraftToInput b)"
  by (auto simp: refineBand_def band_request_ok_def mapBandDraftToInput_def or_null_def Let_def split: if_splits)

lemma kept_request_ok: "kept_ok b \<Longrightarrow> band_request_ok mode_energy (mapBandDraftToInput b)"
  using band_request_ok_map [of b] by (simp add: kept_ok_def)

lemma schema_accepts:
  assumes "tariffFormSchema v = Inr w"
  shows "tf_name w \<noteq> []" "trim (tf_name w) = tf_name w" "tf_valid_from w \<noteq> []" "refineTariff w = []"
    "tf_initial_periods w = tf_initial_periods v"
  using assms by (auto simp: tariffFormSchema_def Let_def split: if_splits)

text \<open>
  C17: What the tariff form sends. A form that its schema accepts, with bands drafted in any sequence of the band
  editor's operations, is sent as a request that is well-formed for its billing mode; every drafted band it carries is
  well-formed too. It is held back exactly while a band is open in the editor of a form that takes bands.
\<close>

theorem tariff_request_well_formed:
  assumes "tariffFormSchema v = Inr w" "draft_run draft_start es st" "tf_initial_periods v = dr_bands st"
    "isVersion = (\<not> tf_is_new w)"
  shows "case submit_form isVersion (dr_editing st \<noteq> None) zevId w of
      None \<Rightarrow> takesInitialBands isVersion w \<and> dr_editing st \<noteq> None
    | Some r \<Rightarrow> request_ok (tf_is_new w) r \<and> ti_zev r = zevId"
proof -
  have "list_all kept_ok (tf_initial_periods w)"
    using draft_inv_run [OF assms(2) draft_inv_start] schema_accepts(5) [OF assms(1)] assms(3) by (simp add: draft_inv_def)
  then have bands: "list_all (band_request_ok mode_energy) (map mapBandDraftToInput (tf_initial_periods w))"
    by (simp add: list_all_iff kept_request_ok)
  have "request_ok (tf_is_new w) (mapTariffFormValuesToInput w zevId)"
    using schema_accepts(1-4) [OF assms(1)] bands
    unfolding request_ok_def Let_def
    by (intro conjI) (auto simp: mapTariffFormValuesToInput_def refineTariff_def or_null_def number_text_def isEnergyBased_def
      Let_def split: if_splits)
  moreover have "ti_zev (mapTariffFormValuesToInput w zevId) = zevId" by (simp add: mapTariffFormValuesToInput_def Let_def)
  ultimately show ?thesis by (simp add: submit_form_def)
qed

definition new_energy_form :: "TariffPeriodFormValues list \<Rightarrow> TariffFormValues" where
  "new_energy_form bands = (defaultTariffFormValues ''2026-01-01'')\<lparr>tf_name := '' Solar '', tf_initial_periods := bands\<rparr>"

theorem tariff_request_well_formed_witness:
  "\<exists>st w r. draft_run draft_start [de_add, de_keep (priced ''1''), de_add, de_keep (priced ''x''),
      de_verdict (Some [[], [(''price_chf_per_kwh'', [''bad''])]]), de_remove 0] st
    \<and> tariffFormSchema (new_energy_form (dr_bands st)) = Inr w
    \<and> submit_form False (dr_editing st \<noteq> None) ''z1'' w = Some r \<and> request_ok True r \<and> ti_name r = ''Solar''"
proof -
  obtain st where run: "draft_run draft_start [de_add, de_keep (priced ''1''), de_add, de_keep (priced ''x''),
    de_verdict (Some [[], [(''price_chf_per_kwh'', [''bad''])]]), de_remove 0] st" and ed: "dr_editing st = None"
    by (rule refused_second_band)
  let ?w = "(new_energy_form (dr_bands st))\<lparr>tf_name := ''Solar''\<rparr>"
  have tr: "trim '' Solar '' = ''Solar''" "trim ''2026-01-01'' = ''2026-01-01''" "trim ''Solar'' = ''Solar''" by code_simp+
  have acc: "tariffFormSchema (new_energy_form (dr_bands st)) = Inr ?w"
    by (simp add: tariffFormSchema_def new_energy_form_def defaultTariffFormValues_def refineTariff_def isEnergyBased_def tr)
  have "submit_form False (dr_editing st \<noteq> None) ''z1'' ?w = Some (mapTariffFormValuesToInput ?w ''z1'')"
    by (simp add: submit_form_def ed)
  moreover have "ti_name (mapTariffFormValuesToInput ?w ''z1'') = ''Solar''" by (simp add: mapTariffFormValuesToInput_def Let_def tr)
  moreover have "request_ok True (mapTariffFormValuesToInput ?w ''z1'')"
    using tariff_request_well_formed [OF acc run, of False "''z1''"] calculation(1)
    by (simp add: new_energy_form_def defaultTariffFormValues_def)
  ultimately show ?thesis using run acc by blast
qed

section \<open>Editing without a change\<close>

text \<open>A stored tariff as the API returns it: the fields its billing mode has, no empty strings for missing values.\<close>

definition some_text :: "string option \<Rightarrow> bool" where
  "some_text s \<longleftrightarrow> s \<noteq> Some []"

definition tariff_ok :: "'a Tariff_scheme \<Rightarrow> bool" where
  "tariff_ok t \<longleftrightarrow>
     (let mode = t_billing_mode t
      in t_name t \<noteq> [] \<and> trim (t_name t) = t_name t \<and> t_valid_from t \<noteq> [] \<and> trim (t_valid_from t) = t_valid_from t
       \<and> (t_energy_type t \<noteq> None) = isEnergyBased mode
       \<and> (if isEnergyBased mode then t_fixed_price_chf t = None else \<exists>p. t_fixed_price_chf t = Some p \<and> number_text p)
       \<and> (t_split_key t \<noteq> split_equal \<longrightarrow> isShared mode) \<and> some_text (t_valid_to t) \<and> some_text (t_dynamic_source t)
       \<and> (t_dynamic_source t \<noteq> None \<longrightarrow> mode = mode_energy)
       \<and> (\<forall>p. t_minimum_price_chf_per_kwh t = Some p \<longrightarrow>
            number_text p \<and> t_energy_type t = Some et_feed_in \<and> t_dynamic_source t \<noteq> None))"

text \<open>The tariff's own values, as a request that updates it.\<close>

definition own_request :: "'a Tariff_scheme \<Rightarrow> TariffInput" where
  "own_request t =
     \<lparr>ti_zev = t_zev t, ti_name = t_name t, ti_category = t_category t, ti_billing_mode = t_billing_mode t,
      ti_energy_type = t_energy_type t, ti_fixed_price_chf = t_fixed_price_chf t, ti_initial_percentage = None,
      ti_initial_periods = None, ti_split_key = t_split_key t, ti_valid_from = t_valid_from t, ti_valid_to = t_valid_to t,
      ti_notes = nullish (t_notes t) [], ti_dynamic_source = t_dynamic_source t,
      ti_minimum_price_chf_per_kwh = t_minimum_price_chf_per_kwh t\<rparr>"

lemma or_null_or_str [simp]: "some_text s \<Longrightarrow> or_null (or_str s []) = s"
  by (cases s) (auto simp: some_text_def or_null_def)

lemma number_text_some: "s = None \<or> (\<exists>p. s = Some p \<and> number_text p) \<Longrightarrow> some_text s"
  by (auto simp: some_text_def number_text_def)

text \<open>
  C29: Editing a tariff version and saving it unchanged sends its own values back, whatever its billing mode, and none of
  the create-only fields; and the form accepts them.
\<close>

theorem tariff_edit_round_trip:
  assumes "tariff_ok t"
  shows "tariffFormSchema (mapTariffToFormValues t) = Inr (mapTariffToFormValues t)
    \<and> submit_form True editorOpen (t_zev t) (mapTariffToFormValues t) = Some (own_request t)"
proof -
  let ?v = "mapTariffToFormValues t"
  have "refineTariff ?v = []"
    using assms by (auto simp: tariff_ok_def Let_def refineTariff_def mapTariffToFormValues_def number_text_def or_str_def
      split: option.splits if_splits)
  then have acc: "tariffFormSchema ?v = Inr ?v"
    using assms by (simp add: tariffFormSchema_def tariff_ok_def Let_def mapTariffToFormValues_def)
  have own: "(if isEnergyBased (t_billing_mode t) then Some (nullish (t_energy_type t) et_local) else None) = t_energy_type t"
    "(if isEnergyBased (t_billing_mode t) then None else or_null (or_str (t_fixed_price_chf t) [])) = t_fixed_price_chf t"
    "(if isShared (t_billing_mode t) then t_split_key t else split_equal) = t_split_key t"
    "or_null (or_str (t_valid_to t) []) = t_valid_to t"
    "(if t_billing_mode t = mode_energy then or_null (or_str (t_dynamic_source t) []) else None) = t_dynamic_source t"
    using assms by (auto simp: tariff_ok_def Let_def intro!: or_null_or_str number_text_some)
  have low: "(if t_billing_mode t = mode_energy \<and> nullish (t_energy_type t) et_local = et_feed_in \<and> or_str (t_dynamic_source t) [] \<noteq> []
      then or_null (or_str (t_minimum_price_chf_per_kwh t) []) else None) = t_minimum_price_chf_per_kwh t"
    using assms by (cases "t_minimum_price_chf_per_kwh t")
      (auto simp: tariff_ok_def Let_def or_null_def or_str_def number_text_def some_text_def split: option.splits)
  have remark: "or_str (t_notes t) [] = nullish (t_notes t) []" by (cases "t_notes t") (auto simp: or_str_def)
  have name: "trim (t_name t) = t_name t" using assms by (simp add: tariff_ok_def Let_def)
  have "mapTariffFormValuesToInput ?v (t_zev t) = own_request t"
    unfolding mapTariffFormValuesToInput_def own_request_def mapTariffToFormValues_def Let_def
    by (simp only: TariffFormValues.simps own low remark name simp_thms if_False)
  with acc show ?thesis by (simp add: submit_form_def takesInitialBands_def)
qed

definition feed_in_tariff :: Tariff where
  "feed_in_tariff =
     \<lparr>t_id = ''t'', t_zev = ''z'', t_name = ''Feed-in'', t_category = cat_energy, t_billing_mode = mode_energy,
      t_energy_type = Some et_feed_in, t_fixed_price_chf = None, t_split_key = split_equal, t_valid_from = ''2026-01-01'',
      t_valid_to = None, t_notes = None, t_source_component = None, t_source_series_name = None,
      t_dynamic_source = Some ''s'', t_minimum_price_chf_per_kwh = Some ''1'', t_dynamic_price_summary = None,
      t_percentage_base_summary = None\<rparr>"

theorem tariff_edit_round_trip_witness:
  "tariff_ok feed_in_tariff \<and>
   submit_form True False ''z'' (mapTariffToFormValues feed_in_tariff) = Some (own_request feed_in_tariff)"
proof -
  have tr: "trim ''Feed-in'' = ''Feed-in''" "trim ''2026-01-01'' = ''2026-01-01''" by code_simp+
  have "number_text ''1''" using js_Number_digits [of "''1''"] by (simp add: number_text_def is_digit_def less_eq_char_def digits_val_def digit_val_def)
  then have ok: "tariff_ok feed_in_tariff"
    by (simp add: tariff_ok_def feed_in_tariff_def isEnergyBased_def some_text_def tr)
  show ?thesis using ok tariff_edit_round_trip [OF ok, of False] by (simp add: feed_in_tariff_def)
qed

end
