(* ===== verification/Write_Scope.thy ===== *)
theory Write_Scope
  imports Prelude
begin

text \<open>
  What the editing hooks and pages share. \<open>frontend/src/lib/useWriteScope.ts\<close>: a scope object is a record
  with the number it was created under, so two scopes are the same object when they are equal. The
  interface \<open>edit_session\<close> states what makes it safe that answers come late: the pane only changes
  together with the number of the editing session, so a job of the running session belongs to the pane
  that is open.
\<close>

section \<open>The interface\<close>

locale edit_session =
  fixes step :: "'st \<Rightarrow> 'ev \<Rightarrow> 'st \<Rightarrow> bool"
    and session :: "'st \<Rightarrow> nat"
    and pane :: "'st \<Rightarrow> 'pane"
    and jobs :: "'st \<Rightarrow> 'job set"
    and job_session :: "'job \<Rightarrow> nat"
    and belongs :: "'job \<Rightarrow> 'pane \<Rightarrow> bool"
  assumes session_mono: "step st e st' \<Longrightarrow> session st \<le> session st'"
    and same_session: "step st e st' \<Longrightarrow> session st' = session st \<Longrightarrow> pane st' = pane st"
    and submitted: "step st e st' \<Longrightarrow> j \<in> jobs st' \<Longrightarrow> j \<notin> jobs st \<Longrightarrow>
      job_session j = session st' \<and> belongs j (pane st')"
begin

lemma job_inv_step:
  assumes "step st e st'"
    and "\<And>j. j \<in> jobs st \<Longrightarrow> job_session j \<le> session st \<and> (job_session j = session st \<longrightarrow> belongs j (pane st))"
    and "j \<in> jobs st'"
  shows "job_session j \<le> session st' \<and> (job_session j = session st' \<longrightarrow> belongs j (pane st'))"
proof (cases "j \<in> jobs st")
  case True
  from assms(2) [OF this] session_mono [OF assms(1)] same_session [OF assms(1)] show ?thesis by (metis order_antisym order_trans)
qed (use submitted [OF assms(1,3)] in simp)

lemma own_form:
  assumes "(\<lambda>x y. \<exists>e. step x e y)\<^sup>*\<^sup>* st st'" "jobs st = {}" "j \<in> jobs st'"
  shows "job_session j \<le> session st' \<and> (job_session j = session st' \<longrightarrow> belongs j (pane st'))"
proof -
  have "\<forall>j \<in> jobs st'. job_session j \<le> session st' \<and> (job_session j = session st' \<longrightarrow> belongs j (pane st'))"
    using assms(1)
  proof (induction rule: rtranclp_induct)
    case (step y z)
    then show ?case using job_inv_step by blast
  qed (simp add: assms(2))
  with assms(3) show ?thesis by blast
qed

end

section \<open>Write scopes\<close>

record Scope =
  sc_number :: nat
  sc_selectedZevId :: "string option"
  sc_canWrite :: bool
  sc_accountId :: "int option"
  sc_scopeKey :: "string option"

record scope_state =
  ws_scope :: Scope
  ws_current :: "Scope option"

text \<open>A render: the scope object is kept while nothing it was made of changes; a new one becomes current.\<close>

definition useWriteScope :: "string option \<Rightarrow> bool \<Rightarrow> int option \<Rightarrow> string option \<Rightarrow> Scope \<Rightarrow> Scope" where
  "useWriteScope selectedZevId canWrite accountId scopeKey sc =
     (let new = \<lparr>sc_number = sc_number sc, sc_selectedZevId = selectedZevId, sc_canWrite = canWrite, sc_accountId = accountId,
        sc_scopeKey = scopeKey\<rparr>
      in if new = sc then sc else new\<lparr>sc_number := sc_number sc + 1\<rparr>)"

definition isCurrent :: "'a scope_state_scheme \<Rightarrow> Scope \<Rightarrow> bool" where
  "isCurrent st submittedScope \<longleftrightarrow> ws_current st = Some submittedScope"

text \<open>False: it throws.\<close>

definition assertWritable :: "'a scope_state_scheme \<Rightarrow> Scope \<Rightarrow> bool \<Rightarrow> bool" where
  "assertWritable st submittedScope requireCommunity \<longleftrightarrow>
     \<not> (\<not> isCurrent st submittedScope \<or> \<not> sc_canWrite submittedScope
        \<or> requireCommunity \<and> \<not> truthy (sc_selectedZevId submittedScope))"

section \<open>Requests of a scope\<close>

text \<open>
  A page queues writes with the scope they were submitted under and sends one only while that scope is
  current and may write. \<open>names\<close> is the community a write names, if it names one.
\<close>

locale scoped_writes =
  fixes step :: "'st \<Rightarrow> 'ev \<Rightarrow> 'st \<Rightarrow> bool"
    and current :: "'st \<Rightarrow> Scope option"
    and queued :: "'st \<Rightarrow> 'job set"
    and requests :: "'st \<Rightarrow> ('w \<times> Scope) list"
    and job_write :: "'job \<Rightarrow> 'w"
    and job_scope :: "'job \<Rightarrow> Scope"
    and names :: "'w \<Rightarrow> string option"
  assumes submitted: "step st e st' \<Longrightarrow> j \<in> queued st' \<Longrightarrow> j \<notin> queued st \<Longrightarrow>
      names (job_write j) \<noteq> None \<Longrightarrow> names (job_write j) = sc_selectedZevId (job_scope j)"
    and sent: "step st e st' \<Longrightarrow> requests st' \<noteq> requests st \<Longrightarrow>
      \<exists>j \<in> queued st. requests st' = requests st @ [(job_write j, job_scope j)] \<and> current st = Some (job_scope j)
        \<and> sc_canWrite (job_scope j) \<and> truthy (sc_selectedZevId (job_scope j))"
begin

lemma queued_names:
  assumes "(\<lambda>x y. \<exists>e. step x e y)\<^sup>*\<^sup>* st st'" "queued st = {}" "j \<in> queued st'" "names (job_write j) \<noteq> None"
  shows "names (job_write j) = sc_selectedZevId (job_scope j)"
proof -
  have "\<forall>j \<in> queued st'. names (job_write j) \<noteq> None \<longrightarrow> names (job_write j) = sc_selectedZevId (job_scope j)"
    using assms(1)
  proof (induction rule: rtranclp_induct)
    case (step y z)
    then show ?case using submitted by blast
  qed (simp add: assms(2))
  with assms(3,4) show ?thesis by blast
qed

lemma request_in_scope:
  assumes "(\<lambda>x y. \<exists>e. step x e y)\<^sup>*\<^sup>* st0 st" "queued st0 = {}" "step st e st'" "requests st' \<noteq> requests st"
  shows "\<exists>w scope zev. requests st' = requests st @ [(w, scope)] \<and> current st = Some scope \<and> sc_canWrite scope
    \<and> sc_selectedZevId scope = Some zev \<and> zev \<noteq> [] \<and> (names w \<noteq> None \<longrightarrow> names w = Some zev)"
proof -
  obtain j where j: "j \<in> queued st" "requests st' = requests st @ [(job_write j, job_scope j)]" "current st = Some (job_scope j)"
      "sc_canWrite (job_scope j)" "truthy (sc_selectedZevId (job_scope j))"
    using sent [OF assms(3,4)] by blast
  obtain zev where zev: "sc_selectedZevId (job_scope j) = Some zev" "zev \<noteq> []"
    using j(5) by (cases "sc_selectedZevId (job_scope j)") (simp_all add: truthy_def)
  have "names (job_write j) \<noteq> None \<longrightarrow> names (job_write j) = Some zev"
    using queued_names [OF assms(1,2) j(1)] zev(1) by simp
  then show ?thesis using j(2-4) zev by blast
qed

end

text \<open>A message of the page, \<open>pushToast(message, tone)\<close>.\<close>

record toast =
  to_message :: string
  to_success :: bool

end
