(* ===== verification/Tariff_Editor.thy ===== *)
theory Tariff_Editor
  imports Tariff_Forms Tariff_Errors Write_Scope
begin

text \<open>
  Writing tariffs: the two hooks on write scopes, \<open>features/tariffs/useTariffCrud.ts\<close> and
  \<open>useTariffVersions.ts\<close>, as machines over the events of the page and of the requests. A handler reads the values of the last render; the confirmation of a deletion keeps those it was
  opened with. A mutation is queued, runs its function (which may refuse), and is answered; a successful save then waits for
  the queries to be refetched.

  Both hooks implement the interface \<open>edit_session\<close> of \<open>Write_Scope\<close>.

  The theorems: a save closes and selects only in the editing session, scope and form it was submitted from; and
  a request goes out only for the community, account and capability it was submitted under.
\<close>

section \<open>Tariffs and bands\<close>

datatype crud_write = wr_tariff "string option" TariffInput | wr_period "string option" TariffPeriodInput
  | wr_delete_tariff string | wr_delete_period string

text \<open>What a mutation was called with; a deletion has no session.\<close>

record crud_job =
  jb_write :: crud_write
  jb_scope :: Scope
  jb_session :: "nat option"

record crud_state = scope_state +
  cr_session :: nat
  cr_editingTariffId :: "string option"
  cr_editingPeriodId :: "string option"
  cr_periodTariffId :: "string option"
  cr_tariffFormOpen :: bool
  cr_periodFormOpen :: bool
  cr_saveError :: "string option"
  cr_saveBandErrors :: "ItemFieldErrors list option"
  cr_queued :: "crud_job list"
  cr_sent :: "crud_job list"
  cr_answered :: "(crud_job \<times> Tariff) list"
  cr_requests :: "(crud_write \<times> Scope) list"
  cr_toasts :: "toast list"
  cr_onTariffSaved :: "(Tariff \<times> bool) list"
  cr_onPeriodSaved :: nat

text \<open>The environment: translations, settings and the host's formats.\<close>

record editor_env =
  en_t :: translate
  en_settings :: AppSettings
  en_host :: host

definition pushToast :: "string \<Rightarrow> bool \<Rightarrow> crud_state \<Rightarrow> crud_state" where
  "pushToast message success st = st\<lparr>cr_toasts := cr_toasts st @ [\<lparr>to_message = message, to_success = success\<rparr>]\<rparr>"

definition resolvePeriodTariffId :: "string list \<Rightarrow> string option \<Rightarrow> string option" where
  "resolvePeriodTariffId bandableTariffs tariffId = (case tariffId of Some i \<Rightarrow> Some i | None \<Rightarrow> nth_opt bandableTariffs 0)"

definition startSession :: "crud_state \<Rightarrow> crud_state" where
  "startSession st = st\<lparr>cr_session := cr_session st + 1, cr_saveError := None, cr_saveBandErrors := None\<rparr>"

definition closeTariffForm :: "crud_state \<Rightarrow> crud_state" where
  "closeTariffForm st = (startSession st)\<lparr>cr_tariffFormOpen := False, cr_editingTariffId := None\<rparr>"

definition closePeriodForm :: "crud_state \<Rightarrow> crud_state" where
  "closePeriodForm st = (startSession st)\<lparr>cr_periodFormOpen := False, cr_editingPeriodId := None, cr_periodTariffId := None\<rparr>"

text \<open>A render with new arguments: a new scope closes every form.\<close>

definition crud_render :: "string option \<Rightarrow> bool \<Rightarrow> int option \<Rightarrow> crud_state \<Rightarrow> crud_state" where
  "crud_render zev canWrite account st =
     (let sc = useWriteScope zev canWrite account None (ws_scope st)
      in if sc = ws_scope st then st
         else (startSession (st\<lparr>ws_scope := sc, ws_current := Some sc\<rparr>))
           \<lparr>cr_tariffFormOpen := False, cr_periodFormOpen := False, cr_editingTariffId := None, cr_editingPeriodId := None,
            cr_periodTariffId := None\<rparr>)"

definition crud_unmount :: "crud_state \<Rightarrow> crud_state" where
  "crud_unmount st = st\<lparr>ws_current := None\<rparr>"

text \<open>\<open>id || undefined\<close>.\<close>

definition id_or_undefined :: "string option \<Rightarrow> string option" where
  "id_or_undefined i = (if truthy i then i else None)"

definition submitTariff :: "editor_env \<Rightarrow> TariffInput \<Rightarrow> crud_state \<Rightarrow> crud_state" where
  "submitTariff env payload st =
     (let scope = ws_scope st
      in if \<not> isCurrent st scope then st
         else if \<not> truthy (sc_selectedZevId scope) \<or> \<not> sc_canWrite scope
         then pushToast (en_t env ''pages.tariffs.messages.selectZevBeforeSave'' []) False st
         else st\<lparr>cr_saveError := None, cr_saveBandErrors := None,
                cr_queued := cr_queued st @
                  [\<lparr>jb_write = wr_tariff (id_or_undefined (cr_editingTariffId st)) (payload\<lparr>ti_zev := the (sc_selectedZevId scope)\<rparr>),
                    jb_scope = scope, jb_session = Some (cr_session st)\<rparr>]\<rparr>)"

definition submitPeriod :: "editor_env \<Rightarrow> TariffPeriodInput \<Rightarrow> crud_state \<Rightarrow> crud_state" where
  "submitPeriod env payload st =
     (let scope = ws_scope st
      in if \<not> isCurrent st scope then st
         else if \<not> truthy (sc_selectedZevId scope) \<or> \<not> sc_canWrite scope
         then pushToast (en_t env ''pages.tariffs.messages.periodSaveFailed'' []) False st
         else st\<lparr>cr_saveError := None,
                cr_queued := cr_queued st @
                  [\<lparr>jb_write = wr_period (id_or_undefined (cr_editingPeriodId st)) payload, jb_scope = scope,
                    jb_session = Some (cr_session st)\<rparr>]\<rparr>)"

definition startTariffEdit :: "string \<Rightarrow> crud_state \<Rightarrow> crud_state" where
  "startTariffEdit tariffId st = (startSession st)\<lparr>cr_editingTariffId := Some tariffId, cr_tariffFormOpen := True\<rparr>"

definition startPeriodEdit :: "TariffPeriod \<Rightarrow> crud_state \<Rightarrow> crud_state" where
  "startPeriodEdit period st =
     (startSession st)\<lparr>cr_editingPeriodId := Some (p_id period), cr_periodTariffId := Some (p_tariff period), cr_periodFormOpen := True\<rparr>"

definition openCreateTariff :: "editor_env \<Rightarrow> crud_state \<Rightarrow> crud_state" where
  "openCreateTariff env st =
     (if \<not> truthy (sc_selectedZevId (ws_scope st))
      then pushToast (en_t env ''pages.tariffs.messages.selectZevBeforeCreate'' []) False st
      else (startSession st)\<lparr>cr_editingTariffId := None, cr_tariffFormOpen := True\<rparr>)"

definition openCreatePeriod :: "editor_env \<Rightarrow> string list \<Rightarrow> string option \<Rightarrow> crud_state \<Rightarrow> crud_state" where
  "openCreatePeriod env bandableTariffs tariffId st =
     (let defaultTariffId = resolvePeriodTariffId bandableTariffs tariffId
      in if \<not> truthy defaultTariffId then pushToast (en_t env ''pages.tariffs.messages.createEnergyTariffFirst'' []) False st
         else (startSession st)\<lparr>cr_editingPeriodId := None, cr_periodTariffId := defaultTariffId, cr_periodFormOpen := True\<rparr>)"

text \<open>The confirmed deletion; \<open>scope\<close> is that of the render that opened the dialog.\<close>

definition confirm_delete :: "Scope \<Rightarrow> crud_write \<Rightarrow> crud_state \<Rightarrow> crud_state" where
  "confirm_delete scope w st =
     (if sc_canWrite scope \<and> isCurrent st scope
      then st\<lparr>cr_queued := cr_queued st @ [\<lparr>jb_write = w, jb_scope = scope, jb_session = None\<rparr>]\<rparr> else st)"

section \<open>Requests\<close>

definition same_session_job :: "crud_job \<Rightarrow> crud_state \<Rightarrow> bool" where
  "same_session_job j st \<longleftrightarrow> jb_session j = Some (cr_session st)"

text \<open>\<open>onError\<close> of the four mutations.\<close>

definition crud_error :: "editor_env \<Rightarrow> crud_job \<Rightarrow> api_error \<Rightarrow> crud_state \<Rightarrow> crud_state" where
  "crud_error env j err st =
     (let format = (\<lambda>key. formatTariffError (en_host env) (en_settings env) (en_t env) err (en_t env key []))
      in case jb_write j of
           wr_tariff _ _ \<Rightarrow>
             if isCurrent st (jb_scope j) \<and> same_session_job j st then
               (case splitTariffBandErrors (en_host env) (en_settings env) (en_t env) err of
                  (Some items, rest) \<Rightarrow>
                    st\<lparr>cr_saveBandErrors := Some items,
                       cr_saveError := Some (formatTariffErrorData (en_host env) (en_settings env) (en_t env) (nullish rest JNull)
                         (en_t env ''pages.tariffs.messages.bandsRejected'' []))\<rparr>
                | (None, _) \<Rightarrow> st\<lparr>cr_saveError := Some (format ''pages.tariffs.messages.saveFailed'')\<rparr>)
             else st
         | wr_period _ _ \<Rightarrow>
             if isCurrent st (jb_scope j) \<and> same_session_job j st
             then st\<lparr>cr_saveError := Some (format ''pages.tariffs.messages.periodSaveFailed'')\<rparr> else st
         | wr_delete_tariff _ \<Rightarrow>
             if isCurrent st (jb_scope j) then pushToast (format ''pages.tariffs.messages.deleteFailed'') False st else st
         | wr_delete_period _ \<Rightarrow>
             if isCurrent st (jb_scope j) then pushToast (format ''pages.tariffs.messages.periodDeleteFailed'') False st else st)"

text \<open>The mutation function: the check, then the request.\<close>

definition crud_dispatch :: "editor_env \<Rightarrow> crud_job \<Rightarrow> crud_state \<Rightarrow> crud_state" where
  "crud_dispatch env j st =
     (let st' = st\<lparr>cr_queued := remove1 j (cr_queued st)\<rparr>
      in if assertWritable st (jb_scope j) True
         then st'\<lparr>cr_sent := j # cr_sent st', cr_requests := cr_requests st' @ [(jb_write j, jb_scope j)]\<rparr>
         else crud_error env j OtherError st')"

definition crud_fail :: "editor_env \<Rightarrow> crud_job \<Rightarrow> api_error \<Rightarrow> crud_state \<Rightarrow> crud_state" where
  "crud_fail env j err st = crud_error env j err (st\<lparr>cr_sent := remove1 j (cr_sent st)\<rparr>)"

text \<open>\<open>onSuccess\<close> up to the refetch: a save waits for it, a deletion does not.\<close>

definition crud_answer :: "editor_env \<Rightarrow> crud_job \<Rightarrow> Tariff \<Rightarrow> crud_state \<Rightarrow> crud_state" where
  "crud_answer env j saved st =
     (let st' = st\<lparr>cr_sent := remove1 j (cr_sent st)\<rparr>
      in case jb_write j of
           wr_delete_tariff i \<Rightarrow>
             if \<not> isCurrent st' (jb_scope j) then st'
             else let st'' = pushToast (en_t env ''pages.tariffs.messages.deleted'' []) True st'
                  in if Some i = cr_editingTariffId st'' then closeTariffForm st'' else st''
         | wr_delete_period i \<Rightarrow>
             if \<not> isCurrent st' (jb_scope j) then st'
             else let st'' = pushToast (en_t env ''pages.tariffs.messages.periodDeleted'' []) True st'
                  in if Some i = cr_editingPeriodId st'' then closePeriodForm st'' else st''
         | _ \<Rightarrow> st'\<lparr>cr_answered := (j, saved) # cr_answered st'\<rparr>)"

text \<open>\<open>onSuccess\<close> of a save, after the refetch.\<close>

definition crud_complete :: "editor_env \<Rightarrow> crud_job \<Rightarrow> Tariff \<Rightarrow> crud_state \<Rightarrow> crud_state" where
  "crud_complete env j saved st =
     (let st' = st\<lparr>cr_answered := remove1 (j, saved) (cr_answered st)\<rparr>
      in if \<not> isCurrent st' (jb_scope j) then st'
         else case jb_write j of
           wr_tariff i _ \<Rightarrow>
             let st'' = pushToast (en_t env (if i \<noteq> None then ''pages.tariffs.messages.updated'' else ''pages.tariffs.messages.created'') [])
                   True st'
             in if \<not> same_session_job j st'' then st''
                else (startSession st'')\<lparr>cr_editingTariffId := None, cr_tariffFormOpen := False,
                       cr_onTariffSaved := cr_onTariffSaved st'' @ [(saved, i = None)]\<rparr>
         | wr_period i _ \<Rightarrow>
             let st'' = pushToast (en_t env (if i \<noteq> None then ''pages.tariffs.messages.periodUpdated''
                   else ''pages.tariffs.messages.periodCreated'') []) True st'
             in if \<not> same_session_job j st'' then st''
                else (startSession st'')\<lparr>cr_editingPeriodId := None, cr_periodTariffId := None, cr_periodFormOpen := False,
                       cr_onPeriodSaved := cr_onPeriodSaved st'' + 1\<rparr>
         | _ \<Rightarrow> st')"

section \<open>The machine of the first hook\<close>

datatype crud_event = ce_render "string option" bool "int option" | ce_unmount
  | ce_submitTariff TariffInput | ce_submitPeriod TariffPeriodInput
  | ce_startTariffEdit string | ce_startPeriodEdit TariffPeriod
  | ce_openCreateTariff | ce_closeTariffForm | ce_openCreatePeriod "string list" "string option" | ce_closePeriodForm
  | ce_deleteTariff Scope string | ce_deletePeriod Scope string
  | ce_dispatch crud_job | ce_fail crud_job api_error | ce_answer crud_job Tariff | ce_complete crud_job Tariff

fun crud_do :: "editor_env \<Rightarrow> crud_event \<Rightarrow> crud_state \<Rightarrow> crud_state" where
  "crud_do env (ce_render zev canWrite account) = crud_render zev canWrite account"
| "crud_do env ce_unmount = crud_unmount"
| "crud_do env (ce_submitTariff payload) = submitTariff env payload"
| "crud_do env (ce_submitPeriod payload) = submitPeriod env payload"
| "crud_do env (ce_startTariffEdit i) = startTariffEdit i"
| "crud_do env (ce_startPeriodEdit p) = startPeriodEdit p"
| "crud_do env ce_openCreateTariff = openCreateTariff env"
| "crud_do env ce_closeTariffForm = closeTariffForm"
| "crud_do env (ce_openCreatePeriod bandable i) = openCreatePeriod env bandable i"
| "crud_do env ce_closePeriodForm = closePeriodForm"
| "crud_do env (ce_deleteTariff scope i) = confirm_delete scope (wr_delete_tariff i)"
| "crud_do env (ce_deletePeriod scope i) = confirm_delete scope (wr_delete_period i)"
| "crud_do env (ce_dispatch j) = crud_dispatch env j"
| "crud_do env (ce_fail j err) = crud_fail env j err"
| "crud_do env (ce_answer j saved) = crud_answer env j saved"
| "crud_do env (ce_complete j saved) = crud_complete env j saved"

text \<open>A form is submitted while it is open, and a mutation goes through its stages in order.\<close>

fun crud_can :: "crud_event \<Rightarrow> crud_state \<Rightarrow> bool" where
  "crud_can (ce_render _ _ _) st \<longleftrightarrow> ws_current st \<noteq> None"
| "crud_can (ce_submitTariff _) st \<longleftrightarrow> cr_tariffFormOpen st"
| "crud_can (ce_submitPeriod _) st \<longleftrightarrow> cr_periodFormOpen st"
| "crud_can (ce_dispatch j) st \<longleftrightarrow> j \<in> set (cr_queued st)"
| "crud_can (ce_fail j _) st \<longleftrightarrow> j \<in> set (cr_sent st)"
| "crud_can (ce_answer j _) st \<longleftrightarrow> j \<in> set (cr_sent st)"
| "crud_can (ce_complete j saved) st \<longleftrightarrow> (j, saved) \<in> set (cr_answered st)"
| "crud_can _ st \<longleftrightarrow> True"

definition crud_step :: "editor_env \<Rightarrow> crud_state \<Rightarrow> crud_event \<Rightarrow> crud_state \<Rightarrow> bool" where
  "crud_step env st e st' \<longleftrightarrow> crud_can e st \<and> st' = crud_do env e st"

abbreviation crud_steps :: "editor_env \<Rightarrow> crud_state \<Rightarrow> crud_state \<Rightarrow> bool" where
  "crud_steps env \<equiv> (\<lambda>x y. \<exists>e. crud_step env x e y)\<^sup>*\<^sup>*"

definition crud_start :: "Scope \<Rightarrow> crud_state" where
  "crud_start sc =
     \<lparr>ws_scope = sc, ws_current = Some sc, cr_session = 1, cr_editingTariffId = None, cr_editingPeriodId = None,
      cr_periodTariffId = None, cr_tariffFormOpen = False, cr_periodFormOpen = False, cr_saveError = None, cr_saveBandErrors = None,
      cr_queued = [], cr_sent = [], cr_answered = [], cr_requests = [], cr_toasts = [], cr_onTariffSaved = [], cr_onPeriodSaved = 0\<rparr>"

text \<open>What the pane shows of the two forms.\<close>

record crud_pane =
  pn_tariffForm :: "string option option"
  pn_periodForm :: "(string option \<times> string option) option"
  pn_ids :: "string option \<times> string option \<times> string option"

definition crud_pane_of :: "crud_state \<Rightarrow> crud_pane" where
  "crud_pane_of st =
     \<lparr>pn_tariffForm = (if cr_tariffFormOpen st then Some (cr_editingTariffId st) else None),
      pn_periodForm = (if cr_periodFormOpen st then Some (cr_editingPeriodId st, cr_periodTariffId st) else None),
      pn_ids = (cr_editingTariffId st, cr_editingPeriodId st, cr_periodTariffId st)\<rparr>"

text \<open>The saves under way.\<close>

definition is_save :: "crud_job \<Rightarrow> bool" where
  "is_save j \<longleftrightarrow> jb_session j \<noteq> None"

definition crud_jobs :: "crud_state \<Rightarrow> crud_job set" where
  "crud_jobs st = {j. is_save j \<and> j \<in> set (cr_queued st) \<union> set (cr_sent st) \<union> fst ` set (cr_answered st)}"

definition crud_belongs :: "crud_job \<Rightarrow> crud_pane \<Rightarrow> bool" where
  "crud_belongs j pn \<longleftrightarrow>
     (case jb_write j of
        wr_tariff i _ \<Rightarrow> map_option id_or_undefined (pn_tariffForm pn) = Some i
      | wr_period i _ \<Rightarrow> map_option (\<lambda>p. id_or_undefined (fst p)) (pn_periodForm pn) = Some i
      | _ \<Rightarrow> False)"

lemmas crud_ops = crud_render_def crud_unmount_def submitTariff_def submitPeriod_def startTariffEdit_def startPeriodEdit_def
  openCreateTariff_def closeTariffForm_def openCreatePeriod_def closePeriodForm_def confirm_delete_def crud_dispatch_def
  crud_fail_def crud_answer_def crud_complete_def crud_error_def pushToast_def startSession_def

text \<open>The messages of a failure change nothing else.\<close>

definition only_messages :: "crud_state \<Rightarrow> crud_state \<Rightarrow> bool" where
  "only_messages r st \<longleftrightarrow> r = st\<lparr>cr_saveError := cr_saveError r, cr_saveBandErrors := cr_saveBandErrors r, cr_toasts := cr_toasts r\<rparr>"

lemma only_messages_basic:
  "only_messages st st" "only_messages (st\<lparr>cr_saveError := a\<rparr>) st" "only_messages (pushToast m s st) st"
  "only_messages (st\<lparr>cr_saveBandErrors := b, cr_saveError := a\<rparr>) st"
  by (simp_all add: only_messages_def pushToast_def)

lemma crud_error_messages: "only_messages (crud_error env j err st) st"
  unfolding crud_error_def Let_def
  by (cases "jb_write j"; cases "fst (splitTariffBandErrors (en_host env) (en_settings env) (en_t env) err)")
     (simp_all add: only_messages_basic split: prod.split option.split)

lemma only_messagesD:
  assumes "only_messages r st"
  shows "cr_session r = cr_session st" "crud_pane_of r = crud_pane_of st" "cr_queued r = cr_queued st" "cr_sent r = cr_sent st"
    "cr_answered r = cr_answered st" "cr_requests r = cr_requests st" "ws_current r = ws_current st"
    "cr_onTariffSaved r = cr_onTariffSaved st" "ws_scope r = ws_scope st"
  by (subst assms [unfolded only_messages_def], simp add: crud_pane_of_def)+

lemmas crud_error_frame [simp] = crud_error_messages [THEN only_messagesD(1)] crud_error_messages [THEN only_messagesD(2)]
  crud_error_messages [THEN only_messagesD(3)] crud_error_messages [THEN only_messagesD(4)]
  crud_error_messages [THEN only_messagesD(5)] crud_error_messages [THEN only_messagesD(6)]
  crud_error_messages [THEN only_messagesD(7)] crud_error_messages [THEN only_messagesD(8)]
  crud_error_messages [THEN only_messagesD(9)]

lemma crud_session_step:
  assumes "crud_step env st e st'"
  shows "cr_session st' = cr_session st + 1 \<or> cr_session st' = cr_session st \<and> crud_pane_of st' = crud_pane_of st"
proof (cases e)
  case (ce_dispatch j)
  then show ?thesis using assms by (simp add: crud_step_def crud_dispatch_def Let_def) (simp add: crud_pane_of_def)
next
  case (ce_fail j err)
  then show ?thesis using assms by (simp add: crud_step_def crud_fail_def) (simp add: crud_pane_of_def)
next
  case (ce_answer j saved)
  then show ?thesis using assms
    by (cases "jb_write j") (simp_all add: crud_step_def crud_answer_def Let_def pushToast_def closeTariffForm_def closePeriodForm_def
      startSession_def crud_pane_of_def)
next
  case (ce_complete j saved)
  then show ?thesis using assms
    by (cases "jb_write j") (simp_all add: crud_step_def crud_complete_def Let_def pushToast_def startSession_def crud_pane_of_def)
qed (use assms in \<open>simp_all add: crud_step_def crud_ops crud_pane_of_def Let_def\<close>)

lemma crud_submitted:
  assumes "crud_step env st e st'" "j \<in> crud_jobs st'" "j \<notin> crud_jobs st"
  shows "jb_session j = Some (cr_session st') \<and> crud_belongs j (crud_pane_of st')"
proof (cases e)
  case (ce_submitTariff p)
  then show ?thesis
    using assms by (auto simp: crud_step_def submitTariff_def pushToast_def crud_jobs_def crud_belongs_def crud_pane_of_def Let_def split: if_splits)
next
  case (ce_submitPeriod p)
  then show ?thesis
    using assms by (auto simp: crud_step_def submitPeriod_def pushToast_def crud_jobs_def crud_belongs_def crud_pane_of_def Let_def split: if_splits)
next
  case (ce_dispatch j')
  then have "crud_jobs st' \<subseteq> crud_jobs st"
    using assms(1) by (auto simp: crud_step_def crud_dispatch_def crud_jobs_def Let_def dest: notin_set_remove1 in_set_remove1 [THEN iffD1]
      set_remove1_subset [THEN subsetD] split: if_splits)
  then show ?thesis using assms(2,3) by blast
next
  case (ce_fail j' err)
  then have "crud_jobs st' \<subseteq> crud_jobs st"
    using assms(1) by (auto simp: crud_step_def crud_fail_def crud_jobs_def dest: set_remove1_subset [THEN subsetD])
  then show ?thesis using assms(2,3) by blast
next
  case (ce_answer j' saved)
  then have "crud_jobs st' \<subseteq> crud_jobs st"
    using assms(1) by (cases "jb_write j'") (auto simp: crud_step_def crud_answer_def crud_jobs_def Let_def pushToast_def closeTariffForm_def
      closePeriodForm_def startSession_def dest: set_remove1_subset [THEN subsetD] split: if_splits)
  then show ?thesis using assms(2,3) by blast
next
  case (ce_complete j' saved)
  then have "set (cr_answered st') \<subseteq> set (cr_answered st)" "cr_queued st' = cr_queued st" "cr_sent st' = cr_sent st"
    using assms(1) by (cases "jb_write j'"; auto simp: crud_step_def crud_complete_def Let_def pushToast_def startSession_def
      dest: set_remove1_subset [THEN subsetD] split: if_splits)+
  then have "crud_jobs st' \<subseteq> crud_jobs st" by (auto simp: crud_jobs_def)
  then show ?thesis using assms(2,3) by blast
qed (use assms in \<open>auto simp: crud_step_def crud_ops crud_jobs_def is_save_def Let_def split: if_splits\<close>)

interpretation crud: edit_session "crud_step env" cr_session crud_pane_of crud_jobs "\<lambda>j. the (jb_session j)" crud_belongs
proof
  fix st e st' j
  assume s: "crud_step env st e st'"
  show "cr_session st \<le> cr_session st'" using crud_session_step [OF s] by auto
  show "cr_session st' = cr_session st \<Longrightarrow> crud_pane_of st' = crud_pane_of st" using crud_session_step [OF s] by auto
  show "j \<in> crud_jobs st' \<Longrightarrow> j \<notin> crud_jobs st \<Longrightarrow> the (jb_session j) = cr_session st' \<and> crud_belongs j (crud_pane_of st')"
    using crud_submitted [OF s] by auto
qed

section \<open>Versions of a tariff\<close>

datatype version_kind = vk_new_version | vk_duplicate | vk_rename

record VersionDialog =
  vd_kind :: version_kind
  vd_series :: TariffSeries
  vd_source :: TariffVersion

record TariffVersionInput =
  tvi_valid_from :: string
  tvi_fixed_price_chf :: "string option option"
  tvi_minimum_price_chf_per_kwh :: "string option option"
  tvi_periods :: "InitialTariffPeriodInput list option"

datatype version_write = vw_new_version string TariffVersionInput | vw_duplicate string TariffVersionInput string | vw_rename string string

fun write_kind :: "version_write \<Rightarrow> version_kind" where
  "write_kind (vw_new_version _ _) = vk_new_version"
| "write_kind (vw_duplicate _ _ _) = vk_duplicate"
| "write_kind (vw_rename _ _) = vk_rename"

record version_job =
  vj_write :: version_write
  vj_scope :: Scope
  vj_session :: nat

record version_state = scope_state +
  vs_session :: nat
  vs_dialog :: "VersionDialog option"
  vs_saveError :: "string option"
  vs_queued :: "version_job list"
  vs_sent :: "version_job list"
  vs_answered :: "(version_job \<times> Tariff) list"
  vs_requests :: "(version_write \<times> Scope) list"
  vs_toasts :: "toast list"
  vs_onSaved :: "(Tariff \<times> version_kind) list"

definition vs_startSession :: "version_state \<Rightarrow> version_state" where
  "vs_startSession st = st\<lparr>vs_session := vs_session st + 1, vs_saveError := None\<rparr>"

definition vs_render :: "string option \<Rightarrow> bool \<Rightarrow> int option \<Rightarrow> version_state \<Rightarrow> version_state" where
  "vs_render zev canWrite account st =
     (let sc = useWriteScope zev canWrite account None (ws_scope st)
      in if sc = ws_scope st then st else (vs_startSession (st\<lparr>ws_scope := sc, ws_current := Some sc\<rparr>))\<lparr>vs_dialog := None\<rparr>)"

definition vs_unmount :: "version_state \<Rightarrow> version_state" where
  "vs_unmount st = st\<lparr>ws_current := None\<rparr>"

definition vs_open :: "VersionDialog \<Rightarrow> version_state \<Rightarrow> version_state" where
  "vs_open d st = (vs_startSession st)\<lparr>vs_dialog := Some d\<rparr>"

definition closeDialog :: "version_state \<Rightarrow> version_state" where
  "closeDialog st = (vs_startSession st)\<lparr>vs_dialog := None\<rparr>"

text \<open>\<open>submitNewVersion\<close>, \<open>submitDuplicate\<close> and \<open>submitRename\<close>.\<close>

definition vs_submit :: "version_write \<Rightarrow> version_state \<Rightarrow> version_state" where
  "vs_submit w st =
     (let scope = ws_scope st
      in if sc_canWrite scope \<and> truthy (sc_selectedZevId scope) \<and> isCurrent st scope
         then st\<lparr>vs_saveError := None, vs_queued := vs_queued st @ [\<lparr>vj_write = w, vj_scope = scope, vj_session = vs_session st\<rparr>]\<rparr>
         else st)"

fun failure_key :: "version_kind \<Rightarrow> string" where
  "failure_key vk_new_version = ''pages.tariffs.messages.versionFailed''"
| "failure_key vk_duplicate = ''pages.tariffs.messages.duplicateFailed''"
| "failure_key vk_rename = ''pages.tariffs.messages.renameFailed''"

fun success_key :: "version_kind \<Rightarrow> string" where
  "success_key vk_new_version = ''pages.tariffs.messages.versionCreated''"
| "success_key vk_duplicate = ''pages.tariffs.messages.duplicated''"
| "success_key vk_rename = ''pages.tariffs.messages.renamed''"

definition vs_failed :: "editor_env \<Rightarrow> version_job \<Rightarrow> api_error \<Rightarrow> version_state \<Rightarrow> version_state" where
  "vs_failed env j err st =
     (if isCurrent st (vj_scope j) \<and> vj_session j = vs_session st
      then st\<lparr>vs_saveError := Some (formatTariffError (en_host env) (en_settings env) (en_t env) err
             (en_t env (failure_key (write_kind (vj_write j))) []))\<rparr>
      else st)"

definition vs_dispatch :: "editor_env \<Rightarrow> version_job \<Rightarrow> version_state \<Rightarrow> version_state" where
  "vs_dispatch env j st =
     (let st' = st\<lparr>vs_queued := remove1 j (vs_queued st)\<rparr>
      in if assertWritable st (vj_scope j) True
         then st'\<lparr>vs_sent := j # vs_sent st', vs_requests := vs_requests st' @ [(vj_write j, vj_scope j)]\<rparr>
         else vs_failed env j OtherError st')"

definition vs_fail :: "editor_env \<Rightarrow> version_job \<Rightarrow> api_error \<Rightarrow> version_state \<Rightarrow> version_state" where
  "vs_fail env j err st = vs_failed env j err (st\<lparr>vs_sent := remove1 j (vs_sent st)\<rparr>)"

definition vs_answer :: "version_job \<Rightarrow> Tariff \<Rightarrow> version_state \<Rightarrow> version_state" where
  "vs_answer j saved st = st\<lparr>vs_sent := remove1 j (vs_sent st), vs_answered := (j, saved) # vs_answered st\<rparr>"

text \<open>\<open>complete\<close>, after the refetch.\<close>

definition vs_complete :: "editor_env \<Rightarrow> version_job \<Rightarrow> Tariff \<Rightarrow> version_state \<Rightarrow> version_state" where
  "vs_complete env j saved st =
     (let st' = st\<lparr>vs_answered := remove1 (j, saved) (vs_answered st)\<rparr>
      in if \<not> isCurrent st' (vj_scope j) then st'
         else let st'' = st'\<lparr>vs_toasts := vs_toasts st' @
                 [\<lparr>to_message = en_t env (success_key (write_kind (vj_write j))) [], to_success = True\<rparr>]\<rparr>
              in if vj_session j \<noteq> vs_session st'' then st''
                 else (vs_startSession st'')\<lparr>vs_dialog := None, vs_onSaved := vs_onSaved st'' @ [(saved, write_kind (vj_write j))]\<rparr>)"

datatype version_event = ve_render "string option" bool "int option" | ve_unmount | ve_open VersionDialog | ve_close
  | ve_submit version_write | ve_dispatch version_job | ve_fail version_job api_error | ve_answer version_job Tariff
  | ve_complete version_job Tariff

fun vs_do :: "editor_env \<Rightarrow> version_event \<Rightarrow> version_state \<Rightarrow> version_state" where
  "vs_do env (ve_render zev canWrite account) = vs_render zev canWrite account"
| "vs_do env ve_unmount = vs_unmount"
| "vs_do env (ve_open d) = vs_open d"
| "vs_do env ve_close = closeDialog"
| "vs_do env (ve_submit w) = vs_submit w"
| "vs_do env (ve_dispatch j) = vs_dispatch env j"
| "vs_do env (ve_fail j err) = vs_fail env j err"
| "vs_do env (ve_answer j saved) = vs_answer j saved"
| "vs_do env (ve_complete j saved) = vs_complete env j saved"

text \<open>The open form submits its own kind of task.\<close>

fun vs_can :: "version_event \<Rightarrow> version_state \<Rightarrow> bool" where
  "vs_can (ve_render _ _ _) st \<longleftrightarrow> ws_current st \<noteq> None"
| "vs_can (ve_submit w) st \<longleftrightarrow> map_option vd_kind (vs_dialog st) = Some (write_kind w)"
| "vs_can (ve_dispatch j) st \<longleftrightarrow> j \<in> set (vs_queued st)"
| "vs_can (ve_fail j _) st \<longleftrightarrow> j \<in> set (vs_sent st)"
| "vs_can (ve_answer j _) st \<longleftrightarrow> j \<in> set (vs_sent st)"
| "vs_can (ve_complete j saved) st \<longleftrightarrow> (j, saved) \<in> set (vs_answered st)"
| "vs_can _ st \<longleftrightarrow> True"

definition vs_step :: "editor_env \<Rightarrow> version_state \<Rightarrow> version_event \<Rightarrow> version_state \<Rightarrow> bool" where
  "vs_step env st e st' \<longleftrightarrow> vs_can e st \<and> st' = vs_do env e st"

abbreviation vs_steps :: "editor_env \<Rightarrow> version_state \<Rightarrow> version_state \<Rightarrow> bool" where
  "vs_steps env \<equiv> (\<lambda>x y. \<exists>e. vs_step env x e y)\<^sup>*\<^sup>*"

definition vs_start :: "Scope \<Rightarrow> version_state" where
  "vs_start sc = \<lparr>ws_scope = sc, ws_current = Some sc, vs_session = 1, vs_dialog = None, vs_saveError = None, vs_queued = [],
     vs_sent = [], vs_answered = [], vs_requests = [], vs_toasts = [], vs_onSaved = []\<rparr>"

definition vs_jobs :: "version_state \<Rightarrow> version_job set" where
  "vs_jobs st = set (vs_queued st) \<union> set (vs_sent st) \<union> fst ` set (vs_answered st)"

definition vs_belongs :: "version_job \<Rightarrow> VersionDialog option \<Rightarrow> bool" where
  "vs_belongs j dialog \<longleftrightarrow> map_option vd_kind dialog = Some (write_kind (vj_write j))"

lemmas vs_ops = vs_render_def vs_unmount_def vs_open_def closeDialog_def vs_submit_def vs_dispatch_def vs_fail_def vs_failed_def
  vs_answer_def vs_complete_def vs_startSession_def

lemma vs_session_step:
  "vs_step env st e st' \<Longrightarrow> vs_session st' = vs_session st + 1 \<or> vs_session st' = vs_session st \<and> vs_dialog st' = vs_dialog st"
  by (cases e) (simp_all add: vs_step_def vs_ops Let_def)

lemma vs_submitted:
  "vs_step env st e st' \<Longrightarrow> j \<in> vs_jobs st' \<Longrightarrow> j \<notin> vs_jobs st \<Longrightarrow> vj_session j = vs_session st' \<and> vs_belongs j (vs_dialog st')"
  by (cases e) (auto simp: vs_step_def vs_ops vs_jobs_def vs_belongs_def Let_def dest: set_remove1_subset [THEN subsetD] split: if_splits)

interpretation versions: edit_session "vs_step env" vs_session vs_dialog vs_jobs vj_session vs_belongs
proof
  fix st e st' j
  assume s: "vs_step env st e st'"
  show "vs_session st \<le> vs_session st'" using vs_session_step [OF s] by auto
  show "vs_session st' = vs_session st \<Longrightarrow> vs_dialog st' = vs_dialog st" using vs_session_step [OF s] by auto
  show "j \<in> vs_jobs st' \<Longrightarrow> j \<notin> vs_jobs st \<Longrightarrow> vj_session j = vs_session st' \<and> vs_belongs j (vs_dialog st')"
    by (rule vs_submitted [OF s])
qed

section \<open>Runs\<close>

text \<open>Who is entitled to close: the job's scope is current and its session is the one now running.\<close>

definition entitled :: "crud_job \<Rightarrow> crud_state \<Rightarrow> bool" where
  "entitled j st \<longleftrightarrow> isCurrent st (jb_scope j) \<and> same_session_job j st"

fun crud_run :: "editor_env \<Rightarrow> crud_event list \<Rightarrow> crud_state \<Rightarrow> crud_state option" where
  "crud_run env [] st = Some st"
| "crud_run env (e # es) st = (if crud_can e st then crud_run env es (crud_do env e st) else None)"

lemma crud_run_steps: "crud_run env es st = Some st' \<Longrightarrow> crud_steps env st st'"
proof (induction es arbitrary: st)
  case (Cons e es)
  then have "crud_step env st e (crud_do env e st)" by (simp add: crud_step_def split: if_splits)
  moreover have "crud_steps env (crud_do env e st) st'" using Cons by (simp split: if_splits)
  ultimately show ?case
    using converse_rtranclp_into_rtranclp [of "\<lambda>x y. \<exists>e. crud_step env x e y" st "crud_do env e st" st'] by blast
qed simp

fun vs_run :: "editor_env \<Rightarrow> version_event list \<Rightarrow> version_state \<Rightarrow> version_state option" where
  "vs_run env [] st = Some st"
| "vs_run env (e # es) st = (if vs_can e st then vs_run env es (vs_do env e st) else None)"

lemma vs_run_steps: "vs_run env es st = Some st' \<Longrightarrow> vs_steps env st st'"
proof (induction es arbitrary: st)
  case (Cons e es)
  then have "vs_step env st e (vs_do env e st)" by (simp add: vs_step_def split: if_splits)
  moreover have "vs_steps env (vs_do env e st) st'" using Cons by (simp split: if_splits)
  ultimately show ?case
    using converse_rtranclp_into_rtranclp [of "\<lambda>x y. \<exists>e. vs_step env x e y" st "vs_do env e st" st'] by blast
qed simp

text \<open>Values for the examples: an editor in community \<open>z\<close>, the save of a new tariff and the answer to it.\<close>

definition plain_env :: editor_env where
  "plain_env = \<lparr>en_t = (\<lambda>key _. key), en_settings = DEFAULT_APP_SETTINGS, en_host = example_host\<rparr>"

definition scope_z :: Scope where
  "scope_z = \<lparr>sc_number = 0, sc_selectedZevId = Some ''z'', sc_canWrite = True, sc_accountId = Some 1, sc_scopeKey = None\<rparr>"

definition save_job :: crud_job where
  "save_job = \<lparr>jb_write = wr_tariff None (own_request feed_in_tariff), jb_scope = scope_z, jb_session = Some 2\<rparr>"

definition new_tariff_events :: "crud_event list" where
  "new_tariff_events = [ce_openCreateTariff, ce_submitTariff (own_request feed_in_tariff), ce_dispatch save_job, ce_answer save_job feed_in_tariff]"

lemma new_tariff_run:
  obtains st where "crud_run plain_env new_tariff_events (crud_start scope_z) = Some st"
    "(save_job, feed_in_tariff) \<in> set (cr_answered st)" "entitled save_job st"
  by (simp add: new_tariff_events_def crud_ops crud_start_def scope_z_def save_job_def feed_in_tariff_def own_request_def isCurrent_def
    assertWritable_def id_or_undefined_def entitled_def same_session_job_def Let_def)

section \<open>Late answers\<close>

text \<open>
  C4: The answer to a tariff save, whenever it comes. If the community, account and capability are
  still those of the save and no other editing session was started, the open form is the one that was saved: it closes, and
  the saved tariff is selected. Otherwise nothing of the pane changes: no form closes, nothing is
  selected, no message of the open form is lost and no session starts.
\<close>

theorem save_closes_own_form:
  assumes "crud_steps env (crud_start sc) st" "(j, saved) \<in> set (cr_answered st)" "jb_write j = wr_tariff i payload"
    "st' = crud_complete env j saved st"
  shows "if entitled j st
    then cr_tariffFormOpen st \<and> id_or_undefined (cr_editingTariffId st) = i
      \<and> \<not> cr_tariffFormOpen st' \<and> cr_editingTariffId st' = None \<and> cr_onTariffSaved st' = cr_onTariffSaved st @ [(saved, i = None)]
    else crud_pane_of st' = crud_pane_of st \<and> cr_session st' = cr_session st \<and> cr_saveError st' = cr_saveError st
      \<and> cr_saveBandErrors st' = cr_saveBandErrors st \<and> cr_onTariffSaved st' = cr_onTariffSaved st"
proof (cases "entitled j st")
  case True
  then have "jb_session j = Some (cr_session st)" by (simp add: entitled_def same_session_job_def)
  then have "j \<in> crud_jobs st" using assms(2) by (force simp: crud_jobs_def is_save_def)
  moreover have "crud_jobs (crud_start sc) = {}" by (simp add: crud_jobs_def crud_start_def)
  ultimately have "crud_belongs j (crud_pane_of st)"
    using crud.own_form [OF assms(1)] \<open>jb_session j = Some (cr_session st)\<close> by simp
  then show ?thesis
    using True assms(3)
    by (auto simp: assms(4) crud_complete_def entitled_def isCurrent_def same_session_job_def pushToast_def startSession_def crud_belongs_def
      crud_pane_of_def split: if_splits)
next
  case False
  then show ?thesis
    by (simp add: assms(3,4) crud_complete_def entitled_def isCurrent_def same_session_job_def pushToast_def Let_def crud_pane_of_def)
qed

theorem save_closes_own_form_witness:
  "\<exists>st. crud_steps plain_env (crud_start scope_z) st \<and> (save_job, feed_in_tariff) \<in> set (cr_answered st) \<and> entitled save_job st
     \<and> cr_tariffFormOpen st \<and> \<not> cr_tariffFormOpen (crud_complete plain_env save_job feed_in_tariff st)
     \<and> cr_onTariffSaved (crud_complete plain_env save_job feed_in_tariff st) = cr_onTariffSaved st @ [(feed_in_tariff, True)]"
proof -
  obtain st where st: "crud_run plain_env new_tariff_events (crud_start scope_z) = Some st"
    "(save_job, feed_in_tariff) \<in> set (cr_answered st)" "entitled save_job st" by (rule new_tariff_run)
  have w: "jb_write save_job = wr_tariff None (own_request feed_in_tariff)" by (simp add: save_job_def)
  note law = save_closes_own_form [OF crud_run_steps [OF st(1)] st(2) w refl]
  show ?thesis using law crud_run_steps [OF st(1)] st(2,3) by auto
qed

text \<open>
  The answer to a new version, a duplicate or a rename, whenever it comes: it closes the dialog and selects
  what it produced only while its scope is current and its session runs, and then the open dialog is of its
  kind; otherwise the dialog, its error and the selection stay.
\<close>

theorem version_task_closes_own_dialog:
  assumes "vs_steps env (vs_start sc) st" "(j, saved) \<in> set (vs_answered st)" "st' = vs_complete env j saved st"
  shows "if isCurrent st (vj_scope j) \<and> vj_session j = vs_session st
    then map_option vd_kind (vs_dialog st) = Some (write_kind (vj_write j)) \<and> vs_dialog st' = None
      \<and> vs_onSaved st' = vs_onSaved st @ [(saved, write_kind (vj_write j))]
    else vs_dialog st' = vs_dialog st \<and> vs_session st' = vs_session st \<and> vs_saveError st' = vs_saveError st
      \<and> vs_onSaved st' = vs_onSaved st"
proof (cases "isCurrent st (vj_scope j) \<and> vj_session j = vs_session st")
  case True
  have "j \<in> vs_jobs st" "vs_jobs (vs_start sc) = {}" using assms(2) by (force simp: vs_jobs_def vs_start_def)+
  then have "vs_belongs j (vs_dialog st)" using versions.own_form [OF assms(1)] True by simp
  then show ?thesis
    using True by (simp add: assms(3) vs_complete_def isCurrent_def vs_startSession_def vs_belongs_def Let_def)
qed (auto simp: assms(3) vs_complete_def isCurrent_def Let_def)

definition rename_dialog :: VersionDialog where
  "rename_dialog = \<lparr>vd_kind = vk_rename,
     vd_series = \<lparr>ts_zev = ''z'', ts_name = ''Feed-in'', ts_category = cat_energy, ts_billing_mode = mode_energy,
       ts_energy_type = Some et_feed_in, ts_version_count = 0, ts_active_version_id = None, ts_gaps = [], ts_versions = []\<rparr>,
     vd_source = Tariff.extend feed_in_tariff (TariffVersion.fields [])\<rparr>"

definition rename_job :: version_job where
  "rename_job = \<lparr>vj_write = vw_rename ''t'' ''Solar'', vj_scope = scope_z, vj_session = 2\<rparr>"

theorem version_task_closes_own_dialog_witness:
  "\<exists>st. vs_steps plain_env (vs_start scope_z) st \<and> (rename_job, feed_in_tariff) \<in> set (vs_answered st)
     \<and> map_option vd_kind (vs_dialog st) = Some vk_rename
     \<and> vs_dialog (vs_complete plain_env rename_job feed_in_tariff st) = None"
proof -
  obtain st where st: "vs_run plain_env [ve_open rename_dialog, ve_submit (vw_rename ''t'' ''Solar''), ve_dispatch rename_job,
      ve_answer rename_job feed_in_tariff] (vs_start scope_z) = Some st"
    "(rename_job, feed_in_tariff) \<in> set (vs_answered st)" "isCurrent st (vj_scope rename_job) \<and> vj_session rename_job = vs_session st"
    by (simp add: vs_ops vs_start_def scope_z_def rename_dialog_def rename_job_def isCurrent_def assertWritable_def Let_def)
  note law = version_task_closes_own_dialog [OF vs_run_steps [OF st(1)] st(2) refl]
  show ?thesis using law vs_run_steps [OF st(1)] st(2,3) by (auto simp: rename_job_def)
qed

section \<open>Requests stay in their scope\<close>

text \<open>The community a write names: that of a saved tariff.\<close>

fun crud_names :: "crud_write \<Rightarrow> string option" where
  "crud_names (wr_tariff _ p) = Some (ti_zev p)"
| "crud_names _ = None"

lemma crud_queued_names:
  assumes "crud_step env st e st'" "j \<in> set (cr_queued st')" "j \<notin> set (cr_queued st)" "crud_names (jb_write j) \<noteq> None"
  shows "crud_names (jb_write j) = sc_selectedZevId (jb_scope j)"
proof (cases e)
  case (ce_dispatch i)
  then have "set (cr_queued st') \<subseteq> set (cr_queued st)"
    using assms(1) set_remove1_subset [of i "cr_queued st"] by (auto simp: crud_step_def crud_dispatch_def Let_def)
  with assms(2,3) show ?thesis by blast
next
  case (ce_fail i err)
  then show ?thesis using assms by (simp add: crud_step_def crud_fail_def)
next
  case (ce_answer i saved)
  then show ?thesis using assms
    by (cases "jb_write i") (simp_all add: crud_step_def crud_answer_def Let_def pushToast_def closeTariffForm_def closePeriodForm_def
      startSession_def split: if_splits)
next
  case (ce_complete i saved)
  then show ?thesis using assms
    by (cases "jb_write i") (simp_all add: crud_step_def crud_complete_def Let_def pushToast_def startSession_def split: if_splits)
qed (use assms in \<open>auto simp: crud_step_def crud_ops truthy_iff Let_def split: if_splits\<close>)

lemma request_only_by_dispatch:
  assumes "crud_step env st e st'" "cr_requests st' \<noteq> cr_requests st"
  obtains j where "e = ce_dispatch j" "assertWritable st (jb_scope j) True" "j \<in> set (cr_queued st)"
    "cr_requests st' = cr_requests st @ [(jb_write j, jb_scope j)]"
proof (cases e)
  case (ce_dispatch j)
  then show ?thesis using assms that [of j] by (auto simp: crud_step_def crud_dispatch_def Let_def split: if_splits)
next
  case (ce_fail j err)
  then show ?thesis using assms by (simp add: crud_step_def crud_fail_def)
next
  case (ce_answer j saved)
  then show ?thesis using assms
    by (cases "jb_write j") (simp_all add: crud_step_def crud_answer_def Let_def pushToast_def closeTariffForm_def closePeriodForm_def
      startSession_def split: if_splits)
next
  case (ce_complete j saved)
  then show ?thesis using assms
    by (cases "jb_write j") (simp_all add: crud_step_def crud_complete_def Let_def pushToast_def startSession_def split: if_splits)
qed (use assms in \<open>auto simp: crud_step_def crud_ops Let_def split: if_splits\<close>)

interpretation crud_writes: scoped_writes "crud_step env" ws_current "\<lambda>st. set (cr_queued st)" cr_requests jb_write jb_scope crud_names
  for env
proof
  fix st e st' and j :: crud_job
  assume "crud_step env st e st'" "j \<in> set (cr_queued st')" "j \<notin> set (cr_queued st)" "crud_names (jb_write j) \<noteq> None"
  then show "crud_names (jb_write j) = sc_selectedZevId (jb_scope j)" by (rule crud_queued_names)
next
  fix st e st'
  assume "crud_step env st e st'" "cr_requests st' \<noteq> cr_requests st"
  then obtain j where "assertWritable st (jb_scope j) True" "j \<in> set (cr_queued st)"
      "cr_requests st' = cr_requests st @ [(jb_write j, jb_scope j)]" by (rule request_only_by_dispatch)
  then show "\<exists>j \<in> set (cr_queued st). cr_requests st' = cr_requests st @ [(jb_write j, jb_scope j)] \<and> ws_current st = Some (jb_scope j)
      \<and> sc_canWrite (jb_scope j) \<and> truthy (sc_selectedZevId (jb_scope j))"
    by (auto simp: assertWritable_def isCurrent_def)
qed

text \<open>
  C16: Every request of the tariff editor goes out in the scope it was submitted under: that scope is still the
  current one, its account may write, it has a community, and a tariff that is created or changed names that community.
\<close>

theorem tariff_requests_in_scope:
  assumes "crud_steps env (crud_start sc) st" "crud_step env st e st'" "cr_requests st' \<noteq> cr_requests st"
  shows "\<exists>w scope zev. cr_requests st' = cr_requests st @ [(w, scope)] \<and> ws_current st = Some scope \<and> sc_canWrite scope
    \<and> sc_selectedZevId scope = Some zev \<and> zev \<noteq> [] \<and> (\<forall>i p. w = wr_tariff i p \<longrightarrow> ti_zev p = zev)"
proof -
  obtain w scope zev where "cr_requests st' = cr_requests st @ [(w, scope)]" "ws_current st = Some scope" "sc_canWrite scope"
      "sc_selectedZevId scope = Some zev" "zev \<noteq> []" "crud_names w \<noteq> None \<longrightarrow> crud_names w = Some zev"
    using crud_writes.request_in_scope [OF assms(1) _ assms(2,3)] by (auto simp: crud_start_def)
  then show ?thesis by (intro exI [of _ w] exI [of _ scope] exI [of _ zev]) auto
qed

theorem tariff_requests_in_scope_witness:
  "\<exists>st w scope. crud_steps plain_env (crud_start scope_z) st
     \<and> cr_requests (crud_do plain_env (ce_dispatch save_job) st) = cr_requests st @ [(w, scope)] \<and> ws_current st = Some scope"
proof -
  obtain st where st: "crud_run plain_env [ce_openCreateTariff, ce_submitTariff (own_request feed_in_tariff)] (crud_start scope_z) = Some st"
    "crud_can (ce_dispatch save_job) st" "cr_requests (crud_do plain_env (ce_dispatch save_job) st) \<noteq> cr_requests st"
    by (simp add: crud_ops crud_start_def scope_z_def save_job_def feed_in_tariff_def own_request_def isCurrent_def
      assertWritable_def id_or_undefined_def Let_def)
  have step: "crud_step plain_env st (ce_dispatch save_job) (crud_do plain_env (ce_dispatch save_job) st)"
    using st(2) by (simp add: crud_step_def)
  show ?thesis using tariff_requests_in_scope [OF crud_run_steps [OF st(1)] step st(3)] crud_run_steps [OF st(1)] by blast
qed

end
