(* ===== verification/Rate_Lines.thy ===== *)
theory Rate_Lines
  imports Price_History Tariff_Errors
begin

text \<open>
  How a tariff version reads: the rate lines of the overview and the rate card, what the next version
  changes, the price differences between two versions band by band, and the summaries and tooltips of
  the tariff list (\<open>features/tariffs/rateLines.ts\<close>, \<open>priceDelta.ts\<close>, \<open>useTariffDisplay.ts\<close>). The
  translation and the date format are arguments, the options of a translation a list of named JSON values.
\<close>

section \<open>Bands\<close>

record RateLine =
  rl_applies :: string
  rl_price :: string
  rl_unit :: string

text \<open>\<open>kwhPrice.format\<close>: three to five decimals in the English format.\<close>

definition kwhPrice :: "jsnum \<Rightarrow> string" where
  "kwhPrice value = formatNumber ''-'' 5 (Some 3) value"

fun period_type_text :: "TariffPeriodType \<Rightarrow> string" where
  "period_type_text flat = ''flat''"
| "period_type_text high = ''high''"
| "period_type_text low = ''low''"
| "period_type_text band = ''band''"

text \<open>\<open>[...].filter(Boolean).join(sep)\<close> on texts that may be missing.\<close>

definition join_present :: "string \<Rightarrow> string list \<Rightarrow> string" where
  "join_present sep parts = join sep (filter (\<lambda>s. s \<noteq> []) parts)"

definition formatBandApplies :: "TariffPeriod \<Rightarrow> translate \<Rightarrow> string list \<Rightarrow> string list \<Rightarrow> string" where
  "formatBandApplies period t dayNames monthNames =
     (let window = bandWindow (band_like period);
          catchAll = (p_period_type period \<noteq> flat \<and> \<not> truthy window);
          allOtherHours = t ''pages.tariffs.rateCard.allOtherHours'' [];
          unnamedCatchAll = (catchAll \<and> p_period_type period = band \<and> \<not> truthy (p_label period));
          typ = period_type_text (p_period_type period);
          name = (if unnamedCatchAll then allOtherHours
                  else bandName (band_like period) (t (''pages.tariffs.periodTypes.'' @ typ) [(''defaultValue'', JStr typ)]));
          when = join_present '', ''
            [formatWeekdays (p_weekdays period) dayNames,
             (if Some name = window then [] else nullish window []),
             formatSeason (p_months period) monthNames,
             (if catchAll \<and> \<not> unnamedCatchAll then allOtherHours else [])]
      in if p_period_type period = flat \<and> when = [] then t ''pages.tariffs.rateCard.allHours'' []
         else trim (name @ '' '' @ when))"

definition formatBandSchedule :: "TariffPeriod \<Rightarrow> translate \<Rightarrow> string list \<Rightarrow> string list \<Rightarrow> string" where
  "formatBandSchedule period t dayNames monthNames =
     (let hours = (if p_period_type period = flat then t ''pages.tariffs.allDay'' []
                   else nullish (bandWindow (band_like period)) (t ''pages.tariffs.rateCard.allOtherHours'' []))
      in join_present middle_dot
           [hours,
            or_str (Some (formatWeekdays (p_weekdays period) dayNames)) (t ''pages.tariffs.allWeekdays'' []),
            formatSeason (p_months period) monthNames])"

section \<open>Rate lines\<close>

fun billing_mode_text :: "TariffBillingMode \<Rightarrow> string" where
  "billing_mode_text mode_energy = ''energy''"
| "billing_mode_text percentage_of_energy = ''percentage_of_energy''"
| "billing_mode_text monthly_fee = ''monthly_fee''"
| "billing_mode_text yearly_fee = ''yearly_fee''"
| "billing_mode_text per_metering_point_monthly_fee = ''per_metering_point_monthly_fee''"
| "billing_mode_text per_metering_point_yearly_fee = ''per_metering_point_yearly_fee''"
| "billing_mode_text shared_monthly_fee = ''shared_monthly_fee''"
| "billing_mode_text shared_yearly_fee = ''shared_yearly_fee''"

text \<open>\<open>series.billing_mode === 'energy' || series.billing_mode === 'percentage_of_energy'\<close>.\<close>

definition banded :: "TariffSeries \<Rightarrow> bool" where
  "banded series \<longleftrightarrow> ts_billing_mode series = mode_energy \<or> ts_billing_mode series = percentage_of_energy"

definition approx_sign :: string where
  "approx_sign = [CHR 0xE2, CHR 0x89, CHR 0x88]"

text \<open>The one line of a version priced by a dynamic source.\<close>

definition dynamic_line :: "TariffVersion \<Rightarrow> translate \<Rightarrow> (string \<Rightarrow> string) \<Rightarrow> string \<Rightarrow> RateLine" where
  "dynamic_line version t formatDate perKwh =
     (case t_dynamic_price_summary version of
        Some summary \<Rightarrow>
          if truthy (dps_average_chf_per_kwh summary)
          then \<lparr>rl_applies = t (if dps_status summary = partial then ''pages.tariffs.rateCard.dynamicPartial''
                                else ''pages.tariffs.rateCard.dynamicAverage'')
                  [(''from'', JStr (if truthy (dps_reference_from summary) then formatDate (nullish (dps_reference_from summary) []) else [])),
                   (''to'', JStr (if truthy (dps_reference_to summary) then formatDate (nullish (dps_reference_to summary) []) else []))],
                rl_price = to_fixed 3 (js_Number (nullish (dps_average_chf_per_kwh summary) [])),
                rl_unit = perKwh\<rparr>
          else \<lparr>rl_applies = t ''pages.tariffs.dynamicPriced'' [], rl_price = em_dash, rl_unit = perKwh\<rparr>
      | None \<Rightarrow> \<lparr>rl_applies = t ''pages.tariffs.dynamicPriced'' [], rl_price = em_dash, rl_unit = perKwh\<rparr>)"

text \<open>\<open>version.percentage_base_summary?.price_chf_per_kwh\<close>.\<close>

definition base_price :: "TariffVersion \<Rightarrow> string option" where
  "base_price version = Option.bind (t_percentage_base_summary version) pbs_price_chf_per_kwh"

definition base_status :: "TariffVersion \<Rightarrow> summary_status option" where
  "base_status version = Option.bind (t_percentage_base_summary version) pbs_dynamic_status"

definition energy_line :: "TariffPeriod \<Rightarrow> string \<Rightarrow> string \<Rightarrow> RateLine" where
  "energy_line period applies perKwh =
     \<lparr>rl_applies = applies,
      rl_price = (if truthy (p_price_chf_per_kwh period) then kwhPrice (js_Number (nullish (p_price_chf_per_kwh period) [])) else em_dash),
      rl_unit = perKwh\<rparr>"

definition percentage_line :: "TariffVersion \<Rightarrow> TariffPeriod \<Rightarrow> translate \<Rightarrow> string \<Rightarrow> string \<Rightarrow> RateLine" where
  "percentage_line version period t applies perKwh =
     (let base = base_price version; percentage = js_Number_or0 (p_percentage period);
          share = (case base of
              Some b \<Rightarrow> t ''pages.tariffs.rateCard.percentOfBase'' [(''percentage'', JNum percentage), (''base'', JStr (to_fixed 3 (js_Number b)))]
            | None \<Rightarrow> t ''pages.tariffs.rateCard.percentOf'' [(''percentage'', JNum percentage)])
      in \<lparr>rl_applies = join_present middle_dot
            [applies, share, (if base_status version = Some partial then t ''pages.tariffs.rateCard.incompleteBaseAverage'' [] else [])],
          rl_price = (case base of
              Some b \<Rightarrow> approx_sign @ '' '' @ to_fixed 3 (js_div (js_mul (js_Number b) percentage) (Fin 100))
            | None \<Rightarrow> em_dash),
          rl_unit = perKwh\<rparr>)"

text \<open>\<open>Number(version.fixed_price_chf || 0)\<close>.\<close>

definition fixed_price :: "TariffVersion \<Rightarrow> jsnum" where
  "fixed_price version =
     (if truthy (t_fixed_price_chf version) then js_Number (nullish (t_fixed_price_chf version) []) else Fin 0)"

definition fee_line :: "TariffSeries \<Rightarrow> TariffVersion \<Rightarrow> translate \<Rightarrow> RateLine" where
  "fee_line series version t =
     (let mode = billing_mode_text (ts_billing_mode series);
          yearly = ends_with ''yearly_fee'' mode;
          basis = (if starts_with ''per_metering_point'' mode then ''perMeteringPoint''
                   else if starts_with ''shared'' mode then ''shared'' else ''perParticipant'')
      in \<lparr>rl_applies = t (''pages.tariffs.rateCard.'' @ basis) [],
          rl_price = to_fixed 2 (fixed_price version),
          rl_unit = t (if yearly then ''pages.tariffs.rateCard.perYear'' else ''pages.tariffs.rateCard.perMonth'') []\<rparr>)"

definition buildRateLines ::
  "TariffSeries \<Rightarrow> TariffVersion \<Rightarrow> translate \<Rightarrow> string list \<Rightarrow> string list \<Rightarrow> (string \<Rightarrow> string) \<Rightarrow> RateLine list" where
  "buildRateLines series version t dayNames monthNames formatDate =
     (let perKwh = t ''pages.tariffs.rateCard.perKwh'' []
      in if truthy (t_dynamic_source version) then [dynamic_line version t formatDate perKwh]
         else if banded series
         then if length (tv_periods version) = 0
              then [\<lparr>rl_applies = t ''pages.tariffs.noPeriods'' [], rl_price = [], rl_unit = []\<rparr>]
              else map (\<lambda>period. let applies = formatBandApplies period t dayNames monthNames
                    in if ts_billing_mode series = mode_energy then energy_line period applies perKwh
                       else percentage_line version period t applies perKwh) (tv_periods version)
         else [fee_line series version t])"

section \<open>What the next version changes\<close>

datatype NextChange = nc_prices string string | nc_schedule | nc_version

definition hasPrice :: "RateLine \<Rightarrow> bool" where
  "hasPrice line \<longleftrightarrow> rl_price line \<noteq> [] \<and> rl_price line \<noteq> em_dash"

definition comparable :: "RateLine list \<Rightarrow> RateLine list \<Rightarrow> bool" where
  "comparable current planned \<longleftrightarrow> length current = length planned \<and>
     list_all (\<lambda>(index, line). rl_applies line = rl_applies (planned ! index) \<and> rl_unit line = rl_unit (planned ! index))
       (enumerate 0 current)"

definition nextChange :: "RateLine list \<Rightarrow> RateLine list \<Rightarrow> NextChange" where
  "nextChange current planned =
     (if \<not> list_ex hasPrice planned then nc_version
      else if \<not> comparable current planned then nc_schedule
      else nc_prices (join '' / '' (map (\<lambda>line. or_str (Some (rl_price line)) em_dash) planned)) (rl_unit (planned ! 0)))"

section \<open>Price differences\<close>

datatype delta_unit = unit_price | unit_chf | unit_points

record PriceDelta =
  pd_diff :: jsnum
  pd_percent :: "jsnum option"
  pd_unit :: delta_unit

record VersionDeltas =
  vd_version :: "PriceDelta option"
  vd_bands :: "(string \<times> PriceDelta) list"

definition round_to :: "nat \<Rightarrow> jsnum \<Rightarrow> jsnum" where
  "round_to digits value = js_Number (to_fixed digits value)"

definition delta :: "jsnum \<Rightarrow> jsnum \<Rightarrow> delta_unit \<Rightarrow> PriceDelta option" where
  "delta from to unit =
     (let diff = round_to (if unit = unit_chf then 2 else 5) (js_sub to from)
      in if js_eq diff (Fin 0) then None
         else Some \<lparr>pd_diff = diff,
           pd_percent = (if unit = unit_points \<or> js_eq from (Fin 0) then None
             else Some (round_to 1 (js_mul (js_div diff from) (Fin 100)))),
           pd_unit = unit\<rparr>)"

definition bandKey :: "TariffPeriod \<Rightarrow> string" where
  "bandKey period = join ''|''
     [period_type_text (p_period_type period), nullish (p_label period) [], nullish (p_time_from period) [],
      nullish (p_time_to period) [], nullish (p_weekdays period) [], nullish (p_months period) []]"

text \<open>The price a band is compared by.\<close>

definition compared_price :: "TariffSeries \<Rightarrow> TariffPeriod \<Rightarrow> string option" where
  "compared_price series period =
     (if ts_billing_mode series = percentage_of_energy then p_percentage period else p_price_chf_per_kwh period)"

definition compared_unit :: "TariffSeries \<Rightarrow> delta_unit" where
  "compared_unit series = (if ts_billing_mode series = percentage_of_energy then unit_points else unit_price)"

definition bands_by_key :: "TariffVersion \<Rightarrow> (string \<times> TariffPeriod) list" where
  "bands_by_key version = foldl (\<lambda>m p. AList.update (bandKey p) p m) [] (tv_periods version)"

definition add_band_delta ::
  "TariffSeries \<Rightarrow> (string \<times> TariffPeriod) list \<Rightarrow> (string \<times> PriceDelta) list \<Rightarrow> TariffPeriod \<Rightarrow> (string \<times> PriceDelta) list" where
  "add_band_delta series before bands period =
     (case (Option.bind (map_of before (bandKey period)) (compared_price series), compared_price series period) of
        (Some a, Some b) \<Rightarrow>
          (case delta (js_Number a) (js_Number b) (compared_unit series) of
             Some change \<Rightarrow> AList.update (p_id period) change bands
           | None \<Rightarrow> bands)
      | _ \<Rightarrow> bands)"

definition versionDeltas :: "TariffSeries \<Rightarrow> TariffVersion \<Rightarrow> TariffVersion \<Rightarrow> VersionDeltas" where
  "versionDeltas series from to =
     (if truthy (t_dynamic_source from) \<or> truthy (t_dynamic_source to) then \<lparr>vd_version = None, vd_bands = []\<rparr>
      else if banded series
      then \<lparr>vd_version = None, vd_bands = foldl (add_band_delta series (bands_by_key from)) [] (tv_periods to)\<rparr>
      else \<lparr>vd_version = delta (fixed_price from) (fixed_price to) unit_chf, vd_bands = []\<rparr>)"

definition formatDelta :: "PriceDelta \<Rightarrow> (jsnum \<Rightarrow> string) \<Rightarrow> bool \<Rightarrow> string" where
  "formatDelta value points short =
     (let sign = (if js_less (Fin 0) (pd_diff value) then ''+'' else minus_sign);
          siz = js_abs (pd_diff value);
          percent = map_option (\<lambda>p. sign @ num_str (js_abs p) @ '' %'') (pd_percent value);
          amount = (case pd_unit value of
              unit_points \<Rightarrow> points siz | unit_chf \<Rightarrow> to_fixed 2 siz | unit_price \<Rightarrow> kwhPrice siz)
      in case percent of
           Some p \<Rightarrow> if short then p else sign @ amount @ '' ('' @ p @ '')''
         | None \<Rightarrow> sign @ amount)"

definition plus_minus_zero :: string where
  "plus_minus_zero = [CHR 0xC2, CHR 0xB1] @ ''0''"

definition delta_parts :: "TariffSeries \<Rightarrow> TariffVersion \<Rightarrow> TariffVersion \<Rightarrow> PriceDelta option list" where
  "delta_parts series from to =
     (let deltas = versionDeltas series from to
      in if banded series then map (\<lambda>period. map_of (vd_bands deltas) (p_id period)) (tv_periods to)
         else [vd_version deltas])"

definition deltaSummary :: "TariffSeries \<Rightarrow> TariffVersion \<Rightarrow> TariffVersion \<Rightarrow> (jsnum \<Rightarrow> string) \<Rightarrow> string option" where
  "deltaSummary series from to points =
     (let parts = delta_parts series from to
      in if list_all (\<lambda>part. part = None) parts then None
         else Some (join '' / '' (map (\<lambda>part. case part of Some d \<Rightarrow> formatDelta d points True | None \<Rightarrow> plus_minus_zero) parts)))"

section \<open>The tariff list\<close>

definition percentageValues :: "TariffVersion \<Rightarrow> jsnum list" where
  "percentageValues version = map js_Number (List.map_filter p_percentage (tv_periods version))"

text \<open>\<open>Math.min(...values)\<close> and \<open>Math.max(...values)\<close>.\<close>

definition least_of :: "jsnum list \<Rightarrow> jsnum" where
  "least_of values = foldl js_min (Infty True) values"

definition greatest_of :: "jsnum list \<Rightarrow> jsnum" where
  "greatest_of values = foldl js_max (Infty False) values"

definition percentageRangeLabel :: "jsnum list \<Rightarrow> string option" where
  "percentageRangeLabel values =
     (if length values = 0 then None
      else let mn = least_of values; mx = greatest_of values
           in Some (if js_eq mn mx then num_str mn @ ''%'' else num_str mn @ en_dash @ num_str mx @ ''%''))"

text \<open>Beside what the picker reads, a source has a label and the outcome of its last fetch.\<close>

datatype fetch_status = fetch_pending | fetch_ok | fetch_failed

record ListedSource = DynamicTariffSource +
  ds_label :: string
  ds_last_fetch_status :: fetch_status
  ds_last_fetch_error :: string

definition sourceById :: "ListedSource list option \<Rightarrow> (string \<times> ListedSource) list" where
  "sourceById fetched = foldl (\<lambda>m source. AList.update (ds_id source) source m) [] (nullish fetched [])"

record validity_badge =
  vb_label :: string
  vb_tooltip :: string

definition validityBadge :: "host \<Rightarrow> AppSettings \<Rightarrow> string \<Rightarrow> translate \<Rightarrow> TariffVersion \<Rightarrow> validity_badge" where
  "validityBadge h settings today t version =
     (let state = validityState version today;
          validFrom = formatShortDate h (Some (t_valid_from version)) settings;
          validTo = (if truthy (t_valid_to version) then Some (formatShortDate h (t_valid_to version) settings) else None);
          date = (\<lambda>d. case d of Some s \<Rightarrow> JStr s | None \<Rightarrow> JNull);
          label = (if state = scheduled then t ''pages.tariffs.validity.starts'' [(''date'', JStr validFrom)]
                   else if state = expired then t ''pages.tariffs.validity.ended'' [(''date'', date validTo)]
                   else if truthy validTo then t ''pages.tariffs.validity.until'' [(''date'', date validTo)]
                   else t ''pages.tariffs.validity.since'' [(''date'', JStr validFrom)])
      in \<lparr>vb_label = label, vb_tooltip = validFrom @ '' - '' @ nullish validTo (t ''pages.tariffs.openEnded'' [])\<rparr>)"

definition dynamicAverageLabel :: "translate \<Rightarrow> TariffVersion \<Rightarrow> string" where
  "dynamicAverageLabel t version =
     (case t_dynamic_price_summary version of
        Some summary \<Rightarrow>
          if truthy (dps_average_chf_per_kwh summary)
          then t (if dps_status summary = partial then ''pages.tariffs.dynamicAveragePartial'' else ''pages.tariffs.dynamicAverage'')
            [(''price'', JStr (to_fixed 3 (js_Number (nullish (dps_average_chf_per_kwh summary) []))))]
          else t ''pages.tariffs.dynamicPriceUnavailable'' []
      | None \<Rightarrow> t ''pages.tariffs.dynamicPriceUnavailable'' [])"

text \<open>The prices of the bands of an energy version, in their order.\<close>

definition band_prices :: "TariffVersion \<Rightarrow> string list" where
  "band_prices version =
     map (\<lambda>period. if truthy (p_price_chf_per_kwh period) then kwhPrice (js_Number (nullish (p_price_chf_per_kwh period) [])) else em_dash)
       (tv_periods version)"

definition priceSummary :: "ListedSource list option \<Rightarrow> translate \<Rightarrow> TariffSeries \<Rightarrow> TariffVersion \<Rightarrow> string" where
  "priceSummary fetched t series version =
     (if truthy (t_dynamic_source version)
      then let sourceLabel = (case map_of (sourceById fetched) (nullish (t_dynamic_source version) []) of
                 Some source \<Rightarrow> t ''pages.tariffs.dynamicPricedFrom'' [(''label'', JStr (ds_label source))]
               | None \<Rightarrow> t ''pages.tariffs.dynamicPriced'' []);
               minimumSuffix = (if truthy (t_minimum_price_chf_per_kwh version)
                 then middle_dot @ t ''pages.tariffs.dynamicMinimum''
                   [(''price'', JStr (to_fixed 3 (js_Number (nullish (t_minimum_price_chf_per_kwh version) []))))]
                 else [])
           in sourceLabel @ middle_dot @ dynamicAverageLabel t version @ minimumSuffix
      else if ts_billing_mode series = mode_energy
      then if length (band_prices version) \<noteq> 0 then ''CHF '' @ join '' / '' (band_prices version) @ ''/kWh''
           else t ''pages.tariffs.noPeriods'' []
      else if ts_billing_mode series = percentage_of_energy
      then nullish (percentageRangeLabel (percentageValues version)) (t ''pages.tariffs.noPeriods'' [])
      else ''CHF '' @ or_str (t_fixed_price_chf version) ''0.00'')"

text \<open>\<open>basePrice * share / 100\<close>, to three decimals.\<close>

definition effective_price :: "jsnum \<Rightarrow> jsnum \<Rightarrow> string" where
  "effective_price basePrice share = to_fixed 3 (js_div (js_mul basePrice share) (Fin 100))"

definition approx_tooltip :: "translate \<Rightarrow> jsnum \<Rightarrow> jsnum list \<Rightarrow> string" where
  "approx_tooltip t basePrice values =
     (let mn = least_of values; mx = greatest_of values
      in if js_eq mn mx
         then t ''pages.tariffs.approxPriceTooltip''
           [(''percentage'', JStr (num_str mn)), (''basePrice'', JStr (to_fixed 3 basePrice)),
            (''effectivePrice'', JStr (effective_price basePrice mn))]
         else t ''pages.tariffs.approxPriceTooltipRange''
           [(''min'', JStr (num_str mn)), (''max'', JStr (num_str mx)), (''basePrice'', JStr (to_fixed 3 basePrice)),
            (''effectiveMin'', JStr (effective_price basePrice mn)), (''effectiveMax'', JStr (effective_price basePrice mx))])"

definition pricingTooltipFor :: "translate \<Rightarrow> TariffSeries \<Rightarrow> TariffVersion \<Rightarrow> ListedSource option \<Rightarrow> string option" where
  "pricingTooltipFor t series version source =
     (let status = map_option dps_status (t_dynamic_price_summary version); values = percentageValues version
      in if truthy (t_dynamic_source version)
         then Some (if map_option ds_last_fetch_status source = Some fetch_failed
             then t ''pages.tariffs.dynamicFetchFailedTooltip'' [(''error'', JStr (ds_last_fetch_error (the source)))]
             else if status = Some partial then t ''pages.tariffs.dynamicAveragePartialTooltip'' []
             else if status = Some complete then t ''pages.tariffs.dynamicAverageTooltip'' []
             else t ''pages.tariffs.dynamicPriceUnavailableTooltip'' [])
         else if ts_billing_mode series \<noteq> percentage_of_energy then None
         else if length values = 0 then None
         else if base_status version = Some unavailable then Some (t ''pages.tariffs.dynamicBaseUnavailableTooltip'' [])
         else map_option (\<lambda>base. let explanation = approx_tooltip t (js_Number base) values
             in if base_status version = Some partial then explanation @ '' '' @ t ''pages.tariffs.dynamicAveragePartialTooltip'' []
                else if base_status version = Some complete then explanation @ '' '' @ t ''pages.tariffs.dynamicAverageTooltip'' []
                else explanation) (base_price version))"

text \<open>The hook's own \<open>rateLines\<close>: names in the viewer's language, dates in the viewer's format.\<close>

definition rateLines :: "host \<Rightarrow> AppSettings \<Rightarrow> translate \<Rightarrow> TariffSeries \<Rightarrow> TariffVersion \<Rightarrow> RateLine list" where
  "rateLines h settings t series version =
     (let dayNames = map (\<lambda>key. t (''pages.tariffs.weekdaysShort.'' @ key) []) WEEKDAY_KEYS;
          monthNames = map (\<lambda>key. t (''pages.tariffs.monthsShort.'' @ key) []) MONTH_KEYS
      in buildRateLines series version t dayNames monthNames (\<lambda>day. formatShortDate h (Some day) settings))"

definition seriesKeyOf :: "TariffSeries \<Rightarrow> string" where
  "seriesKeyOf series = ts_zev series @ '':'' @ ts_name series"

section \<open>Which bands are the same band\<close>

text \<open>The same hours, days and months under the same name; a missing text counts as an empty one.\<close>

definition same_band :: "TariffPeriod \<Rightarrow> TariffPeriod \<Rightarrow> bool" where
  "same_band p q \<longleftrightarrow> p_period_type p = p_period_type q \<and> nullish (p_label p) [] = nullish (p_label q) []
     \<and> nullish (p_time_from p) [] = nullish (p_time_from q) [] \<and> nullish (p_time_to p) [] = nullish (p_time_to q) []
     \<and> nullish (p_weekdays p) [] = nullish (p_weekdays q) [] \<and> nullish (p_months p) [] = nullish (p_months q) []"

text \<open>Times, weekdays and months as the backend writes them never have a bar; a label may.\<close>

definition bar_free :: "TariffPeriod \<Rightarrow> bool" where
  "bar_free p \<longleftrightarrow> CHR ''|'' \<notin> set (nullish (p_time_from p) []) \<and> CHR ''|'' \<notin> set (nullish (p_time_to p) [])
     \<and> CHR ''|'' \<notin> set (nullish (p_weekdays p) []) \<and> CHR ''|'' \<notin> set (nullish (p_months p) [])"

lemma first_field: "c \<notin> set x \<Longrightarrow> c \<notin> set x' \<Longrightarrow> x @ c # y = x' @ c # y' \<longleftrightarrow> x = x' \<and> y = y'"
proof (induction x arbitrary: x')
  case Nil
  then show ?case by (cases x') auto
next
  case (Cons a x)
  then show ?case by (cases x') auto
qed

lemma last_field: "c \<notin> set y \<Longrightarrow> c \<notin> set y' \<Longrightarrow> x @ c # y = x' @ c # y' \<longleftrightarrow> x = x' \<and> y = y'"
  using first_field [of c "rev y" "rev y'" "rev x" "rev x'"] by (metis append.assoc append_Cons append_Nil rev.simps(2) rev_append rev_rev_ident set_rev)

lemma period_type_text_inj: "period_type_text a = period_type_text b \<longleftrightarrow> a = b"
  by (cases a; cases b) simp_all

lemma period_type_text_plain: "CHR ''|'' \<notin> set (period_type_text a)"
  by (cases a) simp_all

lemma bandKey_eq_iff:
  assumes "bar_free p" "bar_free q"
  shows "bandKey p = bandKey q \<longleftrightarrow> same_band p q"
proof -
  have key: "bandKey r = ((((period_type_text (p_period_type r) @ CHR ''|'' # nullish (p_label r) []) @ CHR ''|'' # nullish (p_time_from r) [])
      @ CHR ''|'' # nullish (p_time_to r) []) @ CHR ''|'' # nullish (p_weekdays r) []) @ CHR ''|'' # nullish (p_months r) []" for r
    by (simp add: bandKey_def)
  have f: "CHR ''|'' \<notin> set (nullish (p_time_from r) [])" "CHR ''|'' \<notin> set (nullish (p_time_to r) [])"
      "CHR ''|'' \<notin> set (nullish (p_weekdays r) [])" "CHR ''|'' \<notin> set (nullish (p_months r) [])" if "bar_free r" for r
    using that by (simp_all add: bar_free_def)
  show ?thesis
    unfolding key same_band_def last_field [OF f(4) [OF assms(1)] f(4) [OF assms(2)]] last_field [OF f(3) [OF assms(1)] f(3) [OF assms(2)]]
      last_field [OF f(2) [OF assms(1)] f(2) [OF assms(2)]] last_field [OF f(1) [OF assms(1)] f(1) [OF assms(2)]]
      first_field [OF period_type_text_plain period_type_text_plain] period_type_text_inj
    by blast
qed

section \<open>What changes between two versions\<close>

text \<open>The specification: a band moves by the difference to the band of the old version that is the same band.\<close>

definition price_move :: "TariffSeries \<Rightarrow> TariffPeriod option \<Rightarrow> TariffPeriod \<Rightarrow> PriceDelta option" where
  "price_move series old p =
     (case (Option.bind old (compared_price series), compared_price series p) of
        (Some a, Some b) \<Rightarrow> delta (js_Number a) (js_Number b) (compared_unit series)
      | _ \<Rightarrow> None)"

definition band_change :: "TariffSeries \<Rightarrow> TariffVersion \<Rightarrow> TariffPeriod \<Rightarrow> PriceDelta option" where
  "band_change series from p = price_move series (find_last (same_band p) (tv_periods from)) p"

lemma add_band_delta_eq:
  "add_band_delta series before bands p =
     (case price_move series (map_of before (bandKey p)) p of Some c \<Rightarrow> AList.update (p_id p) c bands | None \<Rightarrow> bands)"
  by (simp add: add_band_delta_def price_move_def split: option.splits)

lemma map_of_bands_by_key: "map_of (bands_by_key v) k = find_last (\<lambda>p. bandKey p = k) (tv_periods v)"
proof -
  have "map_of (foldl (\<lambda>m p. AList.update (bandKey p) p m) [] ps) k = find_last (\<lambda>p. bandKey p = k) ps" for ps
    by (induction ps rule: rev_induct) (auto simp: find_last_def update_conv')
  then show ?thesis by (simp add: bands_by_key_def)
qed

lemma foldl_band_deltas:
  "distinct (map p_id ps) \<Longrightarrow>
     map_of (foldl (add_band_delta series before) m ps) i =
       (case Option.bind (find (\<lambda>p. p_id p = i) ps) (\<lambda>p. price_move series (map_of before (bandKey p)) p) of
          Some c \<Rightarrow> Some c | None \<Rightarrow> map_of m i)"
proof (induction ps arbitrary: m)
  case (Cons p ps)
  then have "find (\<lambda>q. p_id q = p_id p) ps = None" by (simp add: find_None_iff) (metis image_eqI)
  then show ?case
    using Cons by (cases "p_id p = i") (auto simp: add_band_delta_eq update_conv' split: option.splits)
qed simp

lemma add_band_delta_keys: "fst ` set (add_band_delta series before m p) \<subseteq> insert (p_id p) (fst ` set m)"
proof (cases "price_move series (map_of before (bandKey p)) p")
  case (Some c)
  have "fst ` set (AList.update (p_id p) c m) = insert (p_id p) (fst ` set m)"
    by (induction m) auto
  then show ?thesis using Some by (simp add: add_band_delta_eq)
qed (simp add: add_band_delta_eq subset_insertI)

lemma foldl_band_deltas_keys: "fst ` set (foldl (add_band_delta series before) m ps) \<subseteq> fst ` set m \<union> p_id ` set ps"
proof (induction ps arbitrary: m)
  case (Cons p ps)
  have "fst ` set (foldl (add_band_delta series before) m (p # ps))
      \<subseteq> fst ` set (add_band_delta series before m p) \<union> p_id ` set ps"
    using Cons.IH by simp
  also have "\<dots> \<subseteq> insert (p_id p) (fst ` set m) \<union> p_id ` set ps"
    by (rule Un_mono [OF add_band_delta_keys order_refl])
  finally show ?case by simp
qed simp

lemma find_distinct_id: "distinct (map p_id ps) \<Longrightarrow> p \<in> set ps \<Longrightarrow> find (\<lambda>q. p_id q = p_id p) ps = Some p"
  by (induction ps) (auto simp: rev_image_eqI)

text \<open>
  C11: between two versions that are not priced dynamically, the differences shown, band by band in the
  order of the new version, are exactly those to the band of the old version with the same hours, days,
  months and name, in francs or percentage points; a band that is new or has no price shows none, and
  nothing is stored for a band the new version does not have.
\<close>

theorem version_deltas_exact:
  assumes "\<not> truthy (t_dynamic_source from)" "\<not> truthy (t_dynamic_source to)" "banded series"
    and "list_all bar_free (tv_periods from @ tv_periods to)" "distinct (map p_id (tv_periods to))"
  shows "delta_parts series from to = map (band_change series from) (tv_periods to)
    \<and> fst ` set (vd_bands (versionDeltas series from to)) \<subseteq> p_id ` set (tv_periods to)"
proof -
  have bands: "vd_bands (versionDeltas series from to) = foldl (add_band_delta series (bands_by_key from)) [] (tv_periods to)"
    using assms(1-3) by (simp add: versionDeltas_def)
  have "map_of (vd_bands (versionDeltas series from to)) (p_id p) = band_change series from p" if p: "p \<in> set (tv_periods to)" for p
  proof -
    have "find_last (\<lambda>q. bandKey q = bandKey p) (tv_periods from) = find_last (same_band p) (tv_periods from)"
      unfolding find_last_def
      using assms(4) p by (intro find_cong) (auto simp: list_all_iff bandKey_eq_iff same_band_def)
    then show ?thesis
      unfolding bands foldl_band_deltas [OF assms(5)] find_distinct_id [OF assms(5) p]
      by (simp add: band_change_def map_of_bands_by_key split: option.split)
  qed
  then show ?thesis
    using assms(3) bands foldl_band_deltas_keys [of series "bands_by_key from" "[]" "tv_periods to"]
    by (simp add: delta_parts_def Let_def)
qed

definition day_night :: "string \<Rightarrow> string \<Rightarrow> string \<Rightarrow> TariffVersion" where
  "day_night i day night =
     (let period = \<lambda>i typ f u price. \<lparr>p_id = i, p_tariff = ''t'', p_period_type = typ, p_label = None, p_price_chf_per_kwh = Some price,
            p_percentage = Some price, p_time_from = f, p_time_to = u, p_weekdays = Some ''0,1,2,3,4'', p_months = None\<rparr>
      in \<lparr>t_id = i, t_zev = ''z'', t_name = ''n'', t_category = cat_energy, t_billing_mode = mode_energy,
          t_energy_type = None, t_fixed_price_chf = None, t_split_key = split_equal, t_valid_from = ''2026-01-01'',
          t_valid_to = None, t_notes = None, t_source_component = None, t_source_series_name = None,
          t_dynamic_source = None, t_minimum_price_chf_per_kwh = None, t_dynamic_price_summary = None,
          t_percentage_base_summary = None,
          tv_periods = [period (i @ ''-d'') high (Some ''07:00:00'') (Some ''21:00:00'') day, period (i @ ''-n'') low None None night]\<rparr>)"

definition priced_series :: "TariffBillingMode \<Rightarrow> TariffSeries" where
  "priced_series mode =
     \<lparr>ts_zev = ''z'', ts_name = ''n'', ts_category = cat_energy, ts_billing_mode = mode, ts_energy_type = None,
      ts_version_count = 2, ts_active_version_id = None, ts_gaps = [], ts_versions = []\<rparr>"

theorem version_deltas_exact_witness:
  "map (map_option pd_diff) (delta_parts (priced_series percentage_of_energy) (day_night ''a'' ''60'' ''40'') (day_night ''b'' ''70'' ''40''))
     = [Some (Fin 10), None]"
proof -
  have h: "\<not> truthy (t_dynamic_source (day_night ''a'' ''60'' ''40''))" "\<not> truthy (t_dynamic_source (day_night ''b'' ''70'' ''40''))"
      "banded (priced_series percentage_of_energy)"
      "list_all bar_free (tv_periods (day_night ''a'' ''60'' ''40'') @ tv_periods (day_night ''b'' ''70'' ''40''))"
      "distinct (map p_id (tv_periods (day_night ''b'' ''70'' ''40'')))"
    by code_simp+
  have "map (map_option pd_diff \<circ> band_change (priced_series percentage_of_energy) (day_night ''a'' ''60'' ''40''))
      (tv_periods (day_night ''b'' ''70'' ''40'')) = [Some (Fin 10), None]"
    by code_simp
  then show ?thesis using version_deltas_exact [OF h] by simp
qed

section \<open>Announcing the next version\<close>

lemma truthy_nullish: "truthy s \<longleftrightarrow> nullish s [] \<noteq> []"
  by (cases s) (simp_all add: truthy_def)

lemma or_str_nullish: "or_str s b = (if nullish s [] = [] then b else nullish s [])"
  by (cases s) (simp_all add: or_str_def)

lemma parseMonths_nullish: "parseMonths s = parseMonths (Some (nullish s []))"
  by (cases s) (simp_all add: parseMonths_def)

lemma same_band_applies:
  assumes "same_band p q"
  shows "formatBandApplies p t dayNames monthNames = formatBandApplies q t dayNames monthNames"
proof -
  note s = assms [unfolded same_band_def]
  have "bandWindow (band_like p) = bandWindow (band_like q)"
    using s by (simp add: bandWindow_def band_like_def truthy_nullish)
  moreover from this have "bandName (band_like p) n = bandName (band_like q) n" for n
    using s by (simp add: bandName_def or_str_nullish) (simp add: band_like_def)
  moreover have "formatWeekdays (p_weekdays p) dayNames = formatWeekdays (p_weekdays q) dayNames"
    using s by (simp add: formatWeekdays_def weekday_numbers_def)
  moreover have "formatSeason (p_months p) monthNames = formatSeason (p_months q) monthNames"
    using s by (simp add: formatSeason_def parseMonths_nullish [of "p_months p"] parseMonths_nullish [of "p_months q"])
  ultimately show ?thesis
    using s by (simp only: formatBandApplies_def Let_def truthy_nullish)
qed

lemma comparable_iff:
  "comparable current planned \<longleftrightarrow>
     list_all2 (\<lambda>c p. rl_applies c = rl_applies p \<and> rl_unit c = rl_unit p) current planned"
  by (auto simp: comparable_def list_all2_conv_all_nth list_all_length nth_enumerate_eq)

lemma kwhPrice_shown: "kwhPrice x \<noteq> [] \<and> kwhPrice x \<noteq> em_dash"
proof (cases x)
  case (Fin q)
  have first: "\<exists>c cs. decimal_text 3 5 r = c # cs \<and> is_digit c" for r
  proof -
    define n where "n = nat \<lfloor>r * 10 ^ 5 + 1 / 2\<rfloor> div 10 ^ 5"
    obtain c cs where c: "nat_str n = c # cs" using nat_str_not_Nil by (metis list.exhaust)
    then have "is_digit c" using nat_str_digits [of c n] by simp
    then show ?thesis using c by (simp only: decimal_text_def Let_def n_def [symmetric]) simp
  qed
  obtain c cs c' cs' where "decimal_text 3 5 q = c # cs" "is_digit c" "decimal_text 3 5 (- q) = c' # cs'"
    using first by metis
  then show ?thesis using Fin by (auto simp: kwhPrice_def formatNumber_def em_dash_def is_digit_def less_eq_char_def)
qed (auto simp: kwhPrice_def formatNumber_def em_dash_def infinity_sign_def)

text \<open>
  C21: when the next version of an energy tariff has the same bands in the same order, the overview
  announces its new prices, one per band and in their order; it never claims that the schedule changes,
  and only a version without a price is announced by its date alone.
\<close>

theorem price_change_announced:
  assumes "ts_billing_mode series = mode_energy"
    and "\<not> truthy (t_dynamic_source cur)" "\<not> truthy (t_dynamic_source new)"
    and "list_all2 same_band (tv_periods cur) (tv_periods new)"
  shows "nextChange (rateLines h settings t series cur) (rateLines h settings t series new) =
    (if list_ex (\<lambda>p. truthy (p_price_chf_per_kwh p)) (tv_periods new)
     then nc_prices (join '' / '' (band_prices new)) (t ''pages.tariffs.rateCard.perKwh'' []) else nc_version)"
proof -
  define line where "line p = energy_line p
      (formatBandApplies p t (map (\<lambda>key. t (''pages.tariffs.weekdaysShort.'' @ key) []) WEEKDAY_KEYS)
        (map (\<lambda>key. t (''pages.tariffs.monthsShort.'' @ key) []) MONTH_KEYS))
      (t ''pages.tariffs.rateCard.perKwh'' [])" for p
  have lines: "rateLines h settings t series v =
      (if tv_periods v = [] then [\<lparr>rl_applies = t ''pages.tariffs.noPeriods'' [], rl_price = [], rl_unit = []\<rparr>]
       else map line (tv_periods v))" if "\<not> truthy (t_dynamic_source v)" for v
    using that assms(1) by (simp add: rateLines_def buildRateLines_def Let_def banded_def line_def [abs_def])
  have price: "hasPrice (line p) \<longleftrightarrow> truthy (p_price_chf_per_kwh p)" for p
    using kwhPrice_shown by (simp add: hasPrice_def line_def energy_line_def)
  show ?thesis
  proof (cases "list_ex (\<lambda>p. truthy (p_price_chf_per_kwh p)) (tv_periods new)")
    case True
    then have ne: "tv_periods new \<noteq> []" "tv_periods cur \<noteq> []" using assms(4) by auto
    have "comparable (map line (tv_periods cur)) (map line (tv_periods new))"
      unfolding comparable_iff list_all2_map1 list_all2_map2
      using assms(4) by (rule list_all2_mono) (simp add: line_def energy_line_def same_band_applies)
    moreover have "list_ex hasPrice (map line (tv_periods new))" using True price by (simp add: list_ex_iff)
    moreover have "map (\<lambda>l. or_str (Some (rl_price l)) em_dash) (map line (tv_periods new)) = band_prices new"
      using kwhPrice_shown by (simp add: band_prices_def line_def energy_line_def or_str_def em_dash_def)
    moreover have "rl_unit (map line (tv_periods new) ! 0) = t ''pages.tariffs.rateCard.perKwh'' []"
      using ne(1) by (simp add: line_def energy_line_def)
    ultimately show ?thesis using True ne lines [OF assms(2)] lines [OF assms(3)] by (simp add: nextChange_def)
  next
    case False
    then have "\<not> list_ex hasPrice (rateLines h settings t series new)"
      using price lines [OF assms(3)] by (auto simp: list_ex_iff hasPrice_def)
    then show ?thesis using False by (simp add: nextChange_def)
  qed
qed

theorem price_change_announced_witness:
  "\<exists>u. nextChange (rateLines example_host DEFAULT_APP_SETTINGS (\<lambda>key _. key) (priced_series mode_energy) (day_night ''a'' ''0.3'' ''0.2''))
      (rateLines example_host DEFAULT_APP_SETTINGS (\<lambda>key _. key) (priced_series mode_energy) (day_night ''b'' ''0.32'' ''0.2''))
    = nc_prices ''0.320 / 0.200'' u"
proof -
  have h: "ts_billing_mode (priced_series mode_energy) = mode_energy"
      "\<not> truthy (t_dynamic_source (day_night ''a'' ''0.3'' ''0.2''))" "\<not> truthy (t_dynamic_source (day_night ''b'' ''0.32'' ''0.2''))"
      "list_all2 same_band (tv_periods (day_night ''a'' ''0.3'' ''0.2'')) (tv_periods (day_night ''b'' ''0.32'' ''0.2''))"
    by code_simp+
  have p: "list_ex (\<lambda>p. truthy (p_price_chf_per_kwh p)) (tv_periods (day_night ''b'' ''0.32'' ''0.2''))" by code_simp
  have b: "join '' / '' (band_prices (day_night ''b'' ''0.32'' ''0.2'')) = ''0.320 / 0.200''" by code_simp
  show ?thesis using price_change_announced [OF h] p b by simp
qed

text \<open>
  The line of a percentage tariff names the share itself, so a new percentage makes its lines differ: the
  overview then claims that the schedule changes although every band is the same, and the change in
  percentage points, which \<^const>\<open>deltaSummary\<close> has, is not asked for.
\<close>

lemma join_present_share: "share \<noteq> [] \<Longrightarrow> join_present sep [applies, share, []] = (if applies = [] then share else applies @ sep @ share)"
  by (simp add: join_present_def)

lemma percentage_change_reads_as_schedule:
  fixes t :: translate and b :: string and share :: "TariffPeriod \<Rightarrow> string"
  defines "share \<equiv> \<lambda>p. t ''pages.tariffs.rateCard.percentOfBase''
      [(''percentage'', JNum (js_Number_or0 (p_percentage p))), (''base'', JStr (to_fixed 3 (js_Number b)))]"
  assumes mode: "ts_billing_mode series = percentage_of_energy"
    and dyn: "\<not> truthy (t_dynamic_source cur)" "\<not> truthy (t_dynamic_source new)"
    and base: "base_price cur = Some b" "base_price new = Some b" "base_status cur = None" "base_status new = None"
    and bands: "tv_periods cur = [p]" "tv_periods new = [q]" "same_band p q"
    and shares: "share p \<noteq> share q" "share p \<noteq> []" "share q \<noteq> []"
  shows "nextChange (rateLines h settings t series cur) (rateLines h settings t series new) = nc_schedule"
proof -
  obtain ap aq where lines: "rateLines h settings t series cur = [percentage_line cur p t ap (t ''pages.tariffs.rateCard.perKwh'' [])]"
      "rateLines h settings t series new = [percentage_line new q t aq (t ''pages.tariffs.rateCard.perKwh'' [])]" "ap = aq"
    using mode dyn bands same_band_applies [OF bands(3)]
    by (simp add: rateLines_def buildRateLines_def Let_def banded_def)
  have "rl_applies (percentage_line cur p t ap u) = join_present middle_dot [ap, share p, []]"
      "rl_applies (percentage_line new q t aq u) = join_present middle_dot [aq, share q, []]" for u
    using base by (simp_all add: percentage_line_def Let_def share_def)
  moreover have "hasPrice (percentage_line new q t aq u)" for u
    using base by (simp add: hasPrice_def percentage_line_def Let_def approx_sign_def em_dash_def)
  ultimately show ?thesis
    using lines shares by (simp add: nextChange_def comparable_def join_present_share)
qed

end
