(* ===== verification/Draft_Guard.thy ===== *)
theory Draft_Guard
  imports Prelude
begin

text \<open>
  Asking before unsaved input is dropped: \<open>components/useUnsavedInput.ts\<close> (has the user changed
  anything), \<open>components/useDraftGuard.ts\<close> (the question, the bypass for the page's own navigations and the
  router block) and the dialog that holds them, \<open>components/FormModal.tsx\<close>, as one machine.

  The callbacks of a page are lists of effects: calls, navigations that the router makes at once, and
  \<open>navigate(-1)\<close>, which only queues a traversal: the router hears of it in a later event, as of the user's
  own Back. Of the router the model has what its documentation says of a blocker: it is unblocked, blocked with the
  navigation it holds, or proceeding; a further navigation replaces the one it holds; \<open>proceed\<close> and \<open>reset\<close> belong
  to the navigation that was held when the blocker was read; a navigation that completes unblocks. A
  microtask runs before the next event, so the events of the user and of the browser happen when none is waiting.
  React runs the effect that asks some time after the render, so it is an event of its own.

  The theorem is about what the user does with an open form: close it in any way, follow a link, go Back or
  Forward, answer the question. The parent can take the form away by clearing \<open>isOpen\<close>, after a
  save or when the community changes; that is an event of the machine too, and it never asks.
\<close>

section \<open>Unsaved input\<close>

datatype control = ctl_input string bool "(string \<times> nat) list" string | ctl_select string | ctl_textarea string

datatype control_value = cv_null | cv_bool bool | cv_files "string list" | cv_text string

definition INERT_INPUT_TYPES :: "string list" where
  "INERT_INPUT_TYPES = [''button'', ''submit'', ''reset'', ''image'']"

fun value_of_control :: "control \<Rightarrow> control_value" where
  "value_of_control (ctl_input typ checked files text) =
     (if typ \<in> set INERT_INPUT_TYPES then cv_null
      else if typ = ''checkbox'' \<or> typ = ''radio'' then cv_bool checked
      else if typ = ''file'' then cv_files (map (\<lambda>(name, bytes). name @ '':'' @ nat_str bytes) files)
      else cv_text text)"
| "value_of_control (ctl_select text) = cv_text text"
| "value_of_control (ctl_textarea text) = cv_text text"

text \<open>The JSON text of such values determines them, so the model compares the values.\<close>

definition snapshotControls :: "control list \<Rightarrow> control_value list" where
  "snapshotControls controls = map value_of_control controls"

record unsaved_input =
  ui_node :: "control list option"
  ui_baseline :: "control_value list option"

text \<open>The listener of the first press or keystroke: \<open>baseline.current ??= snapshotControls(node)\<close>.\<close>

definition capture :: "'a unsaved_input_scheme \<Rightarrow> 'a unsaved_input_scheme" where
  "capture st = (case ui_node st of None \<Rightarrow> st
     | Some controls \<Rightarrow> st\<lparr>ui_baseline := Some (nullish (ui_baseline st) (snapshotControls controls))\<rparr>)"

definition readsDirty :: "'a unsaved_input_scheme \<Rightarrow> bool" where
  "readsDirty st = (case (ui_node st, ui_baseline st) of
     (Some controls, Some base) \<Rightarrow> snapshotControls controls \<noteq> base | _ \<Rightarrow> False)"

section \<open>The guard\<close>

datatype effect = eff_call nat | eff_navigate string | eff_back

text \<open>A navigation the router holds: to a place of the app, or a step in the history.\<close>

datatype held = held_push string | held_pop

datatype blocker = unblocked | blocked held | proceeding

datatype on_discard = run_action "effect list" | proceed_blocked held

datatype on_stay = stay_only | reset_blocked

record question =
  qs_message :: string
  qs_onDiscard :: on_discard
  qs_onStay :: on_stay

text \<open>
  \<open>gd_seen\<close> is the \<open>blocker.state\<close> the effect last ran with, \<open>gd_traversals\<close> the traversals
  under way, \<open>gd_log\<close> the calls made and the navigations that have gone through.
\<close>

record guard_state = unsaved_input +
  gd_open :: bool
  gd_dirtyProp :: "bool option"
  gd_saving :: bool
  gd_bypass :: bool
  gd_microtasks :: nat
  gd_discard :: "question option"
  gd_blocker :: blocker
  gd_seen :: bool
  gd_traversals :: nat
  gd_log :: "effect list"

text \<open>\<open>isActive\<close>, with the dirty check of \<open>FormModal\<close>: the prop when given, else what the controls say.\<close>

definition isActive :: "guard_state \<Rightarrow> bool" where
  "isActive st \<longleftrightarrow> nullish (gd_dirtyProp st) (readsDirty st) \<or> gd_saving st"

definition ask :: "on_discard \<Rightarrow> on_stay \<Rightarrow> guard_state \<Rightarrow> guard_state" where
  "ask onDiscard onStay st =
     st\<lparr>gd_discard := Some \<lparr>qs_message = (if gd_saving st then ''common.unsavedChanges.messageSaving'' else ''common.unsavedChanges.message''),
          qs_onDiscard = onDiscard, qs_onStay = onStay\<rparr>\<rparr>"

text \<open>\<open>useBlocker\<close>: mounted with the dialog; a blocker that proceeds lets the navigation through.\<close>

definition should_block :: "guard_state \<Rightarrow> bool" where
  "should_block st \<longleftrightarrow> gd_open st \<and> gd_blocker st \<noteq> proceeding \<and> isActive st \<and> \<not> gd_bypass st"

definition go_through :: "effect \<Rightarrow> guard_state \<Rightarrow> guard_state" where
  "go_through e st = st\<lparr>gd_log := gd_log st @ [e], gd_blocker := unblocked\<rparr>"

text \<open>A navigation, or a traversal that has arrived, reaches the router: it is held, or it happens.\<close>

definition navigate :: "string \<Rightarrow> guard_state \<Rightarrow> guard_state" where
  "navigate target st =
     (if should_block st then st\<lparr>gd_blocker := blocked (held_push target)\<rparr> else go_through (eff_navigate target) st)"

definition traverse :: "guard_state \<Rightarrow> guard_state" where
  "traverse st = (if should_block st then st\<lparr>gd_blocker := blocked held_pop\<rparr> else go_through eff_back st)"

text \<open>The effect of the router half: it runs when \<open>blocker.state\<close> has changed, and asks when that is blocked.\<close>

definition is_blocked :: "guard_state \<Rightarrow> bool" where
  "is_blocked st \<longleftrightarrow> (case gd_blocker st of blocked _ \<Rightarrow> True | _ \<Rightarrow> False)"

definition useRouterDraftBlock :: "guard_state \<Rightarrow> guard_state" where
  "useRouterDraftBlock st =
     (case gd_blocker st of
        blocked h \<Rightarrow> if gd_seen st then st else ask (proceed_blocked h) reset_blocked (st\<lparr>gd_seen := True\<rparr>)
      | _ \<Rightarrow> st\<lparr>gd_seen := False\<rparr>)"

fun perform :: "effect \<Rightarrow> guard_state \<Rightarrow> guard_state" where
  "perform (eff_call n) st = st\<lparr>gd_log := gd_log st @ [eff_call n]\<rparr>"
| "perform (eff_navigate target) st = navigate target st"
| "perform eff_back st = st\<lparr>gd_traversals := gd_traversals st + 1\<rparr>"

text \<open>\<open>blocker.proceed()\<close> of the navigation that was held: a step in the history only starts here.\<close>

definition proceed :: "held \<Rightarrow> guard_state \<Rightarrow> guard_state" where
  "proceed h st =
     (if is_blocked st
      then (case h of held_push target \<Rightarrow> go_through (eff_navigate target) st
         | held_pop \<Rightarrow> st\<lparr>gd_blocker := proceeding, gd_traversals := gd_traversals st + 1\<rparr>)
      else st)"

fun change :: "on_discard \<Rightarrow> guard_state \<Rightarrow> guard_state" where
  "change (run_action effects) st = foldl (\<lambda>st e. perform e st) st effects"
| "change (proceed_blocked h) st = proceed h st"

definition allowNavigation :: "on_discard \<Rightarrow> guard_state \<Rightarrow> guard_state" where
  "allowNavigation c st = (let st' = change c (st\<lparr>gd_bypass := True\<rparr>) in st'\<lparr>gd_microtasks := gd_microtasks st' + 1\<rparr>)"

definition microtask :: "guard_state \<Rightarrow> guard_state" where
  "microtask st = st\<lparr>gd_bypass := False, gd_microtasks := gd_microtasks st - 1\<rparr>"

definition run :: "effect list \<Rightarrow> guard_state \<Rightarrow> guard_state" where
  "run action st = (if isActive st then ask (run_action action) stay_only st else allowNavigation (run_action action) st)"

text \<open>\<open>beforeunload\<close>: the browser shows its own prompt.\<close>

definition onBeforeUnload :: "guard_state \<Rightarrow> bool" where
  "onBeforeUnload st \<longleftrightarrow> isActive st"

section \<open>The dialog\<close>

definition confirm_discard :: "guard_state \<Rightarrow> guard_state" where
  "confirm_discard st = (case gd_discard st of None \<Rightarrow> st
     | Some q \<Rightarrow> allowNavigation (qs_onDiscard q) (st\<lparr>gd_discard := None\<rparr>))"

definition cancel_discard :: "guard_state \<Rightarrow> guard_state" where
  "cancel_discard st = (case gd_discard st of None \<Rightarrow> st
     | Some q \<Rightarrow> (case qs_onStay q of stay_only \<Rightarrow> st\<lparr>gd_discard := None\<rparr>
         | reset_blocked \<Rightarrow> st\<lparr>gd_discard := None, gd_blocker := unblocked\<rparr>))"

text \<open>
  \<open>FormModal\<close>: the parent sets \<open>isOpen\<close>. Clearing it unmounts the form with its state, its blocker and
  its question; setting it mounts a new one.
\<close>

definition unmounted :: "guard_state \<Rightarrow> guard_state" where
  "unmounted st = st\<lparr>ui_node := None, ui_baseline := None, gd_open := False, gd_dirtyProp := None, gd_saving := False, gd_bypass := False,
     gd_microtasks := 0, gd_discard := None, gd_blocker := unblocked, gd_seen := False\<rparr>"

definition mounted :: "control list \<Rightarrow> bool option \<Rightarrow> guard_state \<Rightarrow> guard_state" where
  "mounted controls dirty st = (unmounted st)\<lparr>ui_node := Some controls, gd_open := True, gd_dirtyProp := dirty\<rparr>"

datatype event = ev_close "effect list" | ev_navigate string | ev_back | ev_popstate | ev_confirm | ev_cancel
  | ev_input "control list" | ev_prefill "control list option" | ev_props "bool option" bool | ev_effect | ev_microtask
  | ev_parent_close | ev_parent_open "control list" "bool option"

inductive guard_step :: "guard_state \<Rightarrow> event \<Rightarrow> guard_state \<Rightarrow> bool" where
  close: "gd_open st \<Longrightarrow> gd_microtasks st = 0 \<Longrightarrow> guard_step st (ev_close onClose) (run onClose st)"
| leave: "gd_microtasks st = 0 \<Longrightarrow> guard_step st (ev_navigate target) (navigate target st)"
| go_back: "gd_microtasks st = 0 \<Longrightarrow> guard_step st ev_back (traverse st)"
| popstate: "gd_microtasks st = 0 \<Longrightarrow> 0 < gd_traversals st \<Longrightarrow>
    guard_step st ev_popstate (traverse (st\<lparr>gd_traversals := gd_traversals st - 1\<rparr>))"
| agree: "gd_microtasks st = 0 \<Longrightarrow> guard_step st ev_confirm (confirm_discard st)"
| stay: "gd_microtasks st = 0 \<Longrightarrow> guard_step st ev_cancel (cancel_discard st)"
| input: "gd_microtasks st = 0 \<Longrightarrow> ui_node st \<noteq> None \<Longrightarrow>
    guard_step st (ev_input controls) ((capture st)\<lparr>ui_node := Some controls\<rparr>)"
| prefill: "gd_open st \<Longrightarrow> guard_step st (ev_prefill node) (st\<lparr>ui_node := node\<rparr>)"
| props: "gd_open st \<Longrightarrow> guard_step st (ev_props dirty saving) (st\<lparr>gd_dirtyProp := dirty, gd_saving := saving\<rparr>)"
| effect: "gd_open st \<Longrightarrow> guard_step st ev_effect (useRouterDraftBlock st)"
| microtask: "0 < gd_microtasks st \<Longrightarrow> guard_step st ev_microtask (microtask st)"
| parent_close: "guard_step st ev_parent_close (unmounted st)"
| parent_open: "\<not> gd_open st \<Longrightarrow> guard_step st (ev_parent_open controls dirty) (mounted controls dirty st)"

inductive_cases guard_stepE: "guard_step st e st'"

definition guard_start :: guard_state where
  "guard_start = \<lparr>ui_node = None, ui_baseline = None, gd_open = False, gd_dirtyProp = None, gd_saving = False, gd_bypass = False,
     gd_microtasks = 0, gd_discard = None, gd_blocker = unblocked, gd_seen = False, gd_traversals = 0, gd_log = []\<rparr>"

inductive guarded :: "guard_state \<Rightarrow> bool" where
  started: "guarded guard_start"
| stepped: "guarded st \<Longrightarrow> guard_step st e st' \<Longrightarrow> guarded st'"

section \<open>The bypass is closed before the user acts\<close>

text \<open>What agreeing to a question does at once, in the order it does it, and the traversals it starts.\<close>

fun agreed_effects :: "on_discard \<Rightarrow> guard_state \<Rightarrow> effect list" where
  "agreed_effects (run_action effects) st = filter (\<lambda>e. e \<noteq> eff_back) effects"
| "agreed_effects (proceed_blocked h) st = (case h of held_push target \<Rightarrow> if is_blocked st then [eff_navigate target] else [] | held_pop \<Rightarrow> [])"

text \<open>Whether there is unsaved input depends on the controls, the prop and the save only.\<close>

lemma isActive_same [simp]:
  "isActive (st\<lparr>gd_bypass := b\<rparr>) = isActive st" "isActive (st\<lparr>gd_microtasks := n\<rparr>) = isActive st"
  "isActive (st\<lparr>gd_discard := q\<rparr>) = isActive st" "isActive (st\<lparr>gd_traversals := n\<rparr>) = isActive st"
  "isActive (st\<lparr>gd_blocker := k\<rparr>) = isActive st" "isActive (st\<lparr>gd_log := l\<rparr>) = isActive st" "isActive (st\<lparr>gd_seen := s\<rparr>) = isActive st"
  by (simp_all add: isActive_def readsDirty_def)

lemma perform_bypass:
  "gd_bypass st \<Longrightarrow> gd_bypass (perform e st) \<and> gd_open (perform e st) = gd_open st \<and> gd_microtasks (perform e st) = gd_microtasks st
     \<and> isActive (perform e st) = isActive st \<and> gd_discard (perform e st) = gd_discard st
     \<and> gd_log (perform e st) = gd_log st @ (if e = eff_back then [] else [e]) \<and> (gd_blocker (perform e st) = proceeding \<longrightarrow> gd_blocker st = proceeding)"
  by (cases e) (simp_all add: navigate_def should_block_def go_through_def)

lemma perform_all_bypass:
  assumes "gd_bypass st" and st': "st' = foldl (\<lambda>st e. perform e st) st effects"
  shows "gd_bypass st' \<and> gd_open st' = gd_open st \<and> gd_microtasks st' = gd_microtasks st \<and> isActive st' = isActive st
    \<and> gd_discard st' = gd_discard st \<and> gd_log st' = gd_log st @ filter (\<lambda>e. e \<noteq> eff_back) effects
    \<and> (gd_blocker st' = proceeding \<longrightarrow> gd_blocker st = proceeding)"
  unfolding st' using assms(1)
proof (induction effects arbitrary: st)
  case (Cons e effects)
  show ?case using perform_bypass [OF Cons.prems, of e] Cons.IH [of "perform e st"] by auto
qed simp

lemma change_bypass:
  assumes "gd_bypass st"
  shows "gd_open (change c st) = gd_open st \<and> gd_microtasks (change c st) = gd_microtasks st \<and> isActive (change c st) = isActive st
    \<and> gd_discard (change c st) = gd_discard st \<and> gd_log (change c st) = gd_log st @ agreed_effects c st
    \<and> (gd_blocker (change c st) = proceeding \<longrightarrow> gd_blocker st = proceeding \<or> c = proceed_blocked held_pop)"
proof (cases c)
  case (run_action effects)
  then show ?thesis using perform_all_bypass [OF assms refl, of effects] by simp
next
  case (proceed_blocked h)
  then show ?thesis by (cases h) (auto simp: proceed_def go_through_def)
qed

lemma agreed_effects_same [simp]:
  "agreed_effects c (st\<lparr>gd_bypass := b\<rparr>) = agreed_effects c st" "agreed_effects c (st\<lparr>gd_discard := q\<rparr>) = agreed_effects c st"
  by (cases c; simp add: is_blocked_def split: held.split)+

lemma allowNavigation_fields:
  "gd_log (allowNavigation c st) = gd_log st @ agreed_effects c st"
  "gd_microtasks (allowNavigation c st) = gd_microtasks st + 1"
  "gd_open (allowNavigation c st) = gd_open st"
  "isActive (allowNavigation c st) = isActive st"
  "gd_discard (allowNavigation c st) = gd_discard st"
  using change_bypass [of "st\<lparr>gd_bypass := True\<rparr>" c] by (simp_all add: allowNavigation_def Let_def)

text \<open>A step in the history proceeds only when it was the navigation asked about.\<close>

lemma proceeding_agreed:
  "gd_blocker (allowNavigation c st) = proceeding \<Longrightarrow> gd_blocker st \<noteq> proceeding \<Longrightarrow> c = proceed_blocked held_pop"
  using change_bypass [of "st\<lparr>gd_bypass := True\<rparr>" c] by (simp add: allowNavigation_def Let_def)

lemmas guard_ops = run_def ask_def navigate_def traverse_def go_through_def confirm_discard_def cancel_discard_def capture_def microtask_def
  useRouterDraftBlock_def unmounted_def mounted_def

lemma guarded_bypass: "guarded st \<Longrightarrow> gd_bypass st \<Longrightarrow> 0 < gd_microtasks st"
proof (induction rule: guarded.induct)
  case (stepped st e st')
  show ?case
    using stepped(2) stepped.prems stepped.IH
    by (cases rule: guard_step.cases)
      (auto simp: guard_ops allowNavigation_fields split: option.splits on_stay.splits blocker.splits if_splits)
qed (simp add: guard_start_def)

section \<open>What the user does is asked about\<close>

text \<open>
  What goes through at an event while the form has unsaved input: what a question on the screen was
  asked about, when the user agrees to it, and any navigation while the one agreed to is under way.
\<close>

definition goes_through :: "event \<Rightarrow> guard_state \<Rightarrow> effect list" where
  "goes_through e st =
     (case e of
        ev_confirm \<Rightarrow> (case gd_discard st of Some q \<Rightarrow> agreed_effects (qs_onDiscard q) st | None \<Rightarrow> [])
      | ev_navigate target \<Rightarrow> if gd_blocker st = proceeding then [eff_navigate target] else []
      | ev_back \<Rightarrow> if gd_blocker st = proceeding then [eff_back] else []
      | ev_popstate \<Rightarrow> if gd_blocker st = proceeding then [eff_back] else []
      | _ \<Rightarrow> [])"

text \<open>
  C6: while an open form has unsaved input or its save is running, closing it, following a link, going Back or
  Forward, typing and staying run none of the page's actions and complete no navigation; agreeing to the question on the screen does
  exactly what that question was asked about. The exception is a step in the history that was agreed to and is under way: until it
  has arrived, the router lets every navigation through, and it gets into that state only when the user agrees to that
  step. The form goes away unasked only when its parent clears \<open>isOpen\<close>.
  In particular the bypass opened for an agreed action never lets a later navigation through.
\<close>

theorem draft_dropped_only_when_agreed:
  assumes "guarded st" "gd_open st" "isActive st" "guard_step st e st'"
  shows "gd_log st' = gd_log st @ goes_through e st
    \<and> (gd_blocker st' = proceeding \<and> gd_blocker st \<noteq> proceeding \<longrightarrow>
        e = ev_confirm \<and> (\<exists>q. gd_discard st = Some q \<and> qs_onDiscard q = proceed_blocked held_pop))
    \<and> (e = ev_cancel \<longrightarrow> gd_discard st' = None \<and> isActive st')
    \<and> (e \<noteq> ev_parent_close \<longrightarrow> gd_open st')"
  using assms(4)
proof (cases rule: guard_step.cases)
  case (leave target)
  then show ?thesis using guarded_bypass [OF assms(1)] assms(2,3) by (auto simp: guard_ops should_block_def goes_through_def)
next
  case go_back
  then show ?thesis using guarded_bypass [OF assms(1)] assms(2,3) by (auto simp: guard_ops should_block_def goes_through_def)
next
  case popstate
  with popstate show ?thesis using guarded_bypass [OF assms(1)] assms(2,3) by (auto simp: guard_ops should_block_def goes_through_def)
next
  case agree
  then show ?thesis
    using assms(2) proceeding_agreed
    by (auto simp: confirm_discard_def allowNavigation_fields goes_through_def split: option.split)
next
  case stay
  then show ?thesis
    using assms(2,3) by (auto simp: cancel_discard_def isActive_def readsDirty_def goes_through_def split: option.split on_stay.split)
qed (use assms(2,3) in \<open>auto simp: guard_ops goes_through_def split: option.split blocker.split\<close>)

text \<open>A question comes up for one of two acts: closing the form, or the navigation the router holds.\<close>

lemma question_for_the_act:
  assumes "guard_step st e st'" "gd_discard st' = Some q" "gd_discard st \<noteq> Some q"
  shows "(\<exists>onClose. e = ev_close onClose \<and> isActive st \<and> qs_onDiscard q = run_action onClose \<and> qs_onStay q = stay_only)
    \<or> (\<exists>h. e = ev_effect \<and> gd_blocker st = blocked h \<and> qs_onDiscard q = proceed_blocked h \<and> qs_onStay q = reset_blocked)"
  using assms
  by (cases rule: guard_step.cases)
    (auto simp: guard_ops allowNavigation_fields split: option.splits on_stay.splits blocker.splits if_splits)

text \<open>The user opens a form, types, presses Back, agrees: only then does the router step back.\<close>

definition form_opened :: guard_state where
  "form_opened = mounted [ctl_input ''text'' False [] ''''] None guard_start"

definition form_typed :: guard_state where
  "form_typed = (capture form_opened)\<lparr>ui_node := Some [ctl_input ''text'' False [] ''Anna'']\<rparr>"

definition form_held :: guard_state where
  "form_held = traverse form_typed"

definition form_asked :: guard_state where
  "form_asked = useRouterDraftBlock form_held"

lemma form_run:
  "guarded form_typed" "guard_step form_typed ev_back form_held"
  "guarded form_asked" "guard_step form_asked ev_confirm (confirm_discard form_asked)"
proof -
  have "guarded form_opened"
    unfolding form_opened_def by (rule stepped [OF started guard_step.parent_open]) (simp add: guard_start_def)
  moreover have "guard_step form_opened (ev_input [ctl_input ''text'' False [] ''Anna'']) form_typed"
    unfolding form_typed_def by (rule guard_step.input) code_simp+
  ultimately show typed: "guarded form_typed" by (rule stepped)
  show held: "guard_step form_typed ev_back form_held"
    unfolding form_held_def by (rule guard_step.go_back) code_simp
  have "guard_step form_held ev_effect form_asked"
    unfolding form_asked_def by (rule guard_step.effect) code_simp
  then show "guarded form_asked" by (rule stepped [OF stepped [OF typed held]])
  show "guard_step form_asked ev_confirm (confirm_discard form_asked)" by (rule guard_step.agree) code_simp
qed

theorem draft_dropped_only_when_agreed_witness:
  "gd_log form_held = [] \<and> gd_blocker form_held = blocked held_pop
     \<and> gd_log (confirm_discard form_asked) = [] \<and> gd_blocker (confirm_discard form_asked) = proceeding
     \<and> (\<exists>q. gd_discard form_asked = Some q \<and> qs_onDiscard q = proceed_blocked held_pop)"
proof -
  have a: "gd_open form_typed" "isActive form_typed" "gd_open form_asked" "isActive form_asked" by code_simp+
  have b: "gd_log form_typed = []" "gd_log form_asked = []"
    "goes_through ev_back form_typed = []" "goes_through ev_confirm form_asked = []" by code_simp+
  have c: "gd_blocker form_held = blocked held_pop" "gd_blocker form_asked = blocked held_pop"
    "gd_blocker (confirm_discard form_asked) = proceeding" by code_simp+
  show ?thesis
    using draft_dropped_only_when_agreed [OF form_run(1) a(1,2) form_run(2)]
      draft_dropped_only_when_agreed [OF form_run(3) a(3,4) form_run(4)] b c by simp
qed

section \<open>What is not asked about\<close>

text \<open>The parent's own closing: unsaved input and a question on the screen are gone, nothing else happens.\<close>

lemma parent_close_unasked:
  assumes "guard_step st ev_parent_close st'"
  shows "\<not> gd_open st' \<and> \<not> isActive st' \<and> gd_discard st' = None \<and> gd_log st' = gd_log st"
  using assms by (auto elim!: guard_stepE simp: unmounted_def isActive_def readsDirty_def)

text \<open>A second navigation while one is held replaces it without a new question; the question still leads to the first.\<close>

lemma second_navigation_unasked:
  assumes "gd_blocker st = blocked h" "gd_seen st" "gd_discard st = Some q" "should_block st"
    and "guard_step st (ev_navigate target) st1" "guard_step st1 ev_effect st2"
  shows "gd_blocker st2 = blocked (held_push target) \<and> gd_discard st2 = Some q"
  using assms by (auto elim!: guard_stepE simp: guard_ops)

text \<open>
  An agreed action that goes back with \<open>navigate(-1)\<close> is held again when its traversal arrives, for
  the bypass is closed by then.
\<close>

lemma agreed_back_held_again:
  assumes "gd_open st" "isActive st" "gd_discard st = Some q" "qs_onDiscard q = run_action [eff_back]"
    "gd_blocker st = unblocked" "gd_traversals st = 0"
    and "guard_step st ev_confirm st1" "guard_step st1 ev_microtask st2" "guard_step st2 ev_popstate st3"
  shows "gd_blocker st3 = blocked held_pop \<and> gd_log st3 = gd_log st"
  using assms
  by (auto elim!: guard_stepE simp: guard_ops allowNavigation_def should_block_def isActive_def readsDirty_def Let_def)

section \<open>A form is clean until the user touches it\<close>

text \<open>Whatever is filled in before the first touch counts as given; afterwards the form is dirty exactly while it differs from that.\<close>

lemma untouched_clean: "\<not> isActive ((mounted controls None st)\<lparr>ui_node := node\<rparr>)"
  by (simp add: mounted_def unmounted_def isActive_def readsDirty_def split: option.split)

lemma dirty_since_first_touch:
  "ui_node st = Some given \<Longrightarrow> ui_baseline st = None \<Longrightarrow>
     readsDirty ((capture ((capture st)\<lparr>ui_node := Some earlier\<rparr>))\<lparr>ui_node := Some later\<rparr>)
       \<longleftrightarrow> snapshotControls later \<noteq> snapshotControls given"
  by (simp add: capture_def readsDirty_def)

end
