(* ===== verification/Participants.thy ===== *)
theory Participants
  imports Tariff_Errors Write_Scope
begin

text \<open>
  The participants of a community: the form (\<open>features/participants/useParticipantForm.ts\<close>,
  \<open>ParticipantFormModal.tsx\<close>), what a participant lacks (\<open>participantIssues.ts\<close>), the cards of the list with their
  order and filters, and the page as a machine over its events and late answers
  (\<open>pages/ParticipantsPage.tsx\<close>, \<open>useParticipantAccountLinking.tsx\<close>). The check of an e-mail address is the schema library's and an argument,
  as are collation and lower case; the interface \<open>scoped_writes\<close> carries the requests.
\<close>

section \<open>Data\<close>

datatype PartyKind = person | organisation

record ParticipantFormValues =
  pav_party :: string
  pav_kind :: PartyKind
  pav_organisation_name :: string
  pav_name_addition :: string
  pav_title :: string
  pav_first_name :: string
  pav_last_name :: string
  pav_email :: string
  pav_phone :: string
  pav_address_line1 :: string
  pav_address_line2 :: string
  pav_postal_code :: string
  pav_city :: string
  pav_notes :: string
  pav_valid_from :: string
  pav_valid_to :: string
  pav_allocation_weight :: string

text \<open>A field that is not sent is \<^const>\<open>None\<close>; \<open>valid_to\<close> is sent as a date or as null.\<close>

record ParticipantInput =
  pin_zev :: string
  pin_party :: "string option"
  pin_kind :: "PartyKind option"
  pin_organisation_name :: "string option"
  pin_name_addition :: "string option"
  pin_title :: "string option"
  pin_first_name :: "string option"
  pin_last_name :: "string option"
  pin_email :: "string option"
  pin_phone :: "string option"
  pin_address_line1 :: "string option"
  pin_address_line2 :: "string option"
  pin_postal_code :: "string option"
  pin_city :: "string option"
  pin_notes :: "string option"
  pin_valid_from :: string
  pin_valid_to :: "string option"
  pin_allocation_weight :: "string option"

record role_window =
  rw_role :: string
  rw_valid_from :: string

record Participant =
  par_id :: string
  par_zev :: string
  par_kind :: "PartyKind option"
  par_organisation_name :: "string option"
  par_name_addition :: "string option"
  par_title :: "string option"
  par_first_name :: string
  par_last_name :: string
  par_email :: string
  par_phone :: "string option"
  par_address_line1 :: "string option"
  par_address_line2 :: "string option"
  par_postal_code :: "string option"
  par_city :: "string option"
  par_notes :: "string option"
  par_valid_from :: string
  par_valid_to :: "string option"
  par_has_metering_point_assignment :: bool
  par_roles :: "role_window list option"
  par_allocation_weight :: string

record Party =
  pty_id :: string
  pty_kind :: PartyKind
  pty_title :: string
  pty_first_name :: string
  pty_last_name :: string
  pty_organisation_name :: string
  pty_name_addition :: string
  pty_email :: string
  pty_phone :: string
  pty_address_line1 :: string
  pty_address_line2 :: string
  pty_postal_code :: string
  pty_city :: string

section \<open>The form\<close>

text \<open>The refinement: a new person needs both names, a new organisation its name; a weight is positive.\<close>

definition refineParticipant :: "ParticipantFormValues \<Rightarrow> zod_issue list" where
  "refineParticipant values =
     (if pav_party values = [] \<and> pav_kind values = person
      then issue_if (trim (pav_first_name values) = []) ''first_name'' ''pages.participants.validation.nameRequired''
        @ issue_if (trim (pav_last_name values) = []) ''last_name'' ''pages.participants.validation.nameRequired'' else [])
     @ issue_if (pav_party values = [] \<and> pav_kind values = organisation \<and> trim (pav_organisation_name values) = [])
         ''organisation_name'' ''pages.participants.validation.organisationNameRequired''
     @ issue_if (pav_allocation_weight values \<noteq> [] \<and> \<not> js_less (Fin 0) (js_Number (pav_allocation_weight values)))
         ''allocation_weight'' ''pages.participants.validation.allocationWeightPositive''"

text \<open>\<open>trim()\<close> in a schema changes the value that is checked and handed on.\<close>

definition trimmed :: "ParticipantFormValues \<Rightarrow> ParticipantFormValues" where
  "trimmed values = values\<lparr>pav_email := trim (pav_email values), pav_valid_from := trim (pav_valid_from values)\<rparr>"

definition participantFormSchema :: "(string \<Rightarrow> bool) \<Rightarrow> ParticipantFormValues \<Rightarrow> zod_issue list" where
  "participantFormSchema isEmail values =
     (let v = trimmed values
      in (if \<not> isEmail (pav_email v) then [(''email'', None)] else [])
         @ (if pav_valid_from v = [] then [(''valid_from'', None)] else [])
         @ refineParticipant v)"

definition defaultParticipantFormValues :: "string \<Rightarrow> ParticipantFormValues" where
  "defaultParticipantFormValues today =
     \<lparr>pav_party = [], pav_kind = person, pav_organisation_name = [], pav_name_addition = [], pav_title = [], pav_first_name = [],
      pav_last_name = [], pav_email = [], pav_phone = [], pav_address_line1 = [], pav_address_line2 = [], pav_postal_code = [],
      pav_city = [], pav_notes = [], pav_valid_from = today, pav_valid_to = [], pav_allocation_weight = []\<rparr>"

definition mapParticipantToFormValues :: "Participant \<Rightarrow> ParticipantFormValues" where
  "mapParticipantToFormValues p =
     \<lparr>pav_party = [], pav_kind = nullish (par_kind p) person, pav_organisation_name = or_str (par_organisation_name p) [],
      pav_name_addition = or_str (par_name_addition p) [], pav_title = or_str (par_title p) [], pav_first_name = par_first_name p,
      pav_last_name = par_last_name p, pav_email = or_str (Some (par_email p)) [], pav_phone = or_str (par_phone p) [],
      pav_address_line1 = or_str (par_address_line1 p) [], pav_address_line2 = or_str (par_address_line2 p) [],
      pav_postal_code = or_str (par_postal_code p) [], pav_city = or_str (par_city p) [], pav_notes = or_str (par_notes p) [],
      pav_valid_from = par_valid_from p, pav_valid_to = or_str (par_valid_to p) [],
      pav_allocation_weight = or_str (Some (par_allocation_weight p)) []\<rparr>"

text \<open>\<open>s || null\<close> and \<open>s || undefined\<close>.\<close>

definition unless_empty :: "string \<Rightarrow> string option" where
  "unless_empty s = (if s = [] then None else Some s)"

definition mapParticipantFormValuesToInput :: "ParticipantFormValues \<Rightarrow> string \<Rightarrow> ParticipantInput" where
  "mapParticipantFormValuesToInput values zevId =
     (let input = \<lparr>pin_zev = zevId, pin_party = None, pin_kind = Some (pav_kind values),
            pin_organisation_name = Some (if pav_kind values = organisation then trim (pav_organisation_name values) else []),
            pin_name_addition = Some (trim (pav_name_addition values)), pin_title = Some (pav_title values),
            pin_first_name = Some (trim (pav_first_name values)), pin_last_name = Some (trim (pav_last_name values)),
            pin_email = Some (trim (pav_email values)), pin_phone = Some (pav_phone values),
            pin_address_line1 = Some (pav_address_line1 values), pin_address_line2 = Some (pav_address_line2 values),
            pin_postal_code = Some (pav_postal_code values), pin_city = Some (pav_city values), pin_notes = Some (pav_notes values),
            pin_valid_from = pav_valid_from values, pin_valid_to = unless_empty (pav_valid_to values),
            pin_allocation_weight = unless_empty (pav_allocation_weight values)\<rparr>
      in if pav_party values = [] then input
         else input\<lparr>pin_party := Some (pav_party values), pin_kind := None, pin_title := None, pin_first_name := None, pin_last_name := None,
           pin_organisation_name := None, pin_name_addition := None, pin_email := None, pin_phone := None, pin_address_line1 := None,
           pin_address_line2 := None, pin_postal_code := None, pin_city := None\<rparr>)"

text \<open>Choosing "same person as": the fields show the party's values.\<close>

definition pickParty :: "Party list option \<Rightarrow> string \<Rightarrow> ParticipantFormValues \<Rightarrow> ParticipantFormValues" where
  "pickParty parties i values =
     (let chosen = values\<lparr>pav_party := i\<rparr>
      in case find (\<lambda>c. pty_id c = i) (nullish parties []) of
           None \<Rightarrow> chosen
         | Some p \<Rightarrow> chosen\<lparr>pav_kind := pty_kind p, pav_title := pty_title p, pav_first_name := pty_first_name p,
             pav_last_name := pty_last_name p, pav_organisation_name := pty_organisation_name p, pav_name_addition := pty_name_addition p,
             pav_email := pty_email p, pav_phone := pty_phone p, pav_address_line1 := pty_address_line1 p,
             pav_address_line2 := pty_address_line2 p, pav_postal_code := pty_postal_code p, pav_city := pty_city p\<rparr>)"

text \<open>The address of a building, as its four lines.\<close>

definition copyBuildingAddress :: "string \<times> string \<times> string \<times> string \<Rightarrow> ParticipantFormValues \<Rightarrow> ParticipantFormValues" where
  "copyBuildingAddress building values =
     (case building of (line1, line2, postal, city) \<Rightarrow>
        values\<lparr>pav_address_line1 := line1, pav_address_line2 := line2, pav_postal_code := postal, pav_city := city\<rparr>)"

text \<open>Submitting: the form hands on what the schema accepted.\<close>

definition submit_participant :: "(string \<Rightarrow> bool) \<Rightarrow> string \<Rightarrow> ParticipantFormValues \<Rightarrow> ParticipantInput option" where
  "submit_participant isEmail selectedZevId values =
     (if participantFormSchema isEmail values = [] then Some (mapParticipantFormValuesToInput (trimmed values) selectedZevId) else None)"

datatype ParticipantIssue = noEmail | noAddress | noMeteringPoint

definition participantIssues :: "Participant \<Rightarrow> ParticipantIssue list" where
  "participantIssues p =
     (if par_email p = [] then [noEmail] else [])
     @ (if \<not> (truthy (par_address_line1 p) \<and> truthy (par_postal_code p) \<and> truthy (par_city p)) then [noAddress] else [])
     @ (if \<not> par_has_metering_point_assignment p then [noMeteringPoint] else [])"

text \<open>
  C12: a participant form that is accepted sends a complete request: a new person has both names, a new
  organisation its name, always with an accepted e-mail address, a first day and, if given, a positive weight; and a
  further participation of an existing party sends none of that party's fields.
\<close>

theorem participant_request_complete:
  assumes "submit_participant isEmail zev values = Some i"
  shows "pin_zev i = zev \<and> pin_valid_from i \<noteq> []
    \<and> (\<forall>w. pin_allocation_weight i = Some w \<longrightarrow> js_less (Fin 0) (js_Number w))
    \<and> (case pin_party i of
         Some party \<Rightarrow> party = pav_party values \<and> party \<noteq> [] \<and> pin_kind i = None \<and> pin_title i = None \<and> pin_first_name i = None \<and> pin_last_name i = None
           \<and> pin_organisation_name i = None \<and> pin_name_addition i = None \<and> pin_email i = None \<and> pin_phone i = None
           \<and> pin_address_line1 i = None \<and> pin_address_line2 i = None \<and> pin_postal_code i = None \<and> pin_city i = None
       | None \<Rightarrow> (\<exists>email. pin_email i = Some email \<and> isEmail email)
           \<and> (pin_kind i = Some person \<longrightarrow> truthy (pin_first_name i) \<and> truthy (pin_last_name i) \<and> pin_organisation_name i = Some [])
           \<and> (pin_kind i = Some organisation \<longrightarrow> truthy (pin_organisation_name i)))"
proof -
  have ok: "participantFormSchema isEmail values = []" and i: "i = mapParticipantFormValuesToInput (trimmed values) zev"
    using assms by (auto simp: submit_participant_def split: if_splits)
  have v: "isEmail (trim (pav_email values))" "trim (pav_valid_from values) \<noteq> []" "refineParticipant (trimmed values) = []"
    using ok by (auto simp: participantFormSchema_def Let_def trimmed_def split: if_splits)
  show ?thesis
    using v unfolding i refineParticipant_def
    by (cases "pav_party values = []"; cases "pav_kind values")
      (auto simp: mapParticipantFormValuesToInput_def trimmed_def unless_empty_def truthy_def)
qed

definition new_person :: ParticipantFormValues where
  "new_person = (defaultParticipantFormValues ''2026-01-01'')\<lparr>pav_first_name := '' Anna'', pav_last_name := ''Muster'',
     pav_email := ''anna@example.ch '', pav_allocation_weight := ''2''\<rparr>"

theorem participant_request_complete_witness:
  "\<exists>i. submit_participant (\<lambda>s. CHR ''@'' \<in> set s) ''z'' new_person = Some i \<and> truthy (pin_first_name i) \<and> truthy (pin_last_name i)"
proof -
  have s: "submit_participant (\<lambda>s. CHR ''@'' \<in> set s) ''z'' new_person
      = Some (mapParticipantFormValuesToInput (trimmed new_person) ''z'')" by code_simp
  have i: "pin_party (mapParticipantFormValuesToInput (trimmed new_person) ''z'') = None"
      "pin_kind (mapParticipantFormValuesToInput (trimmed new_person) ''z'') = Some person" by code_simp+
  show ?thesis using participant_request_complete [OF s] i s by simp
qed

text \<open>
  Editing a participant as the backend stores it (names trimmed, an organisation's name only with an
  organisation) and saving without a change sends every value back as it was.
\<close>

definition stored_clean :: "Participant \<Rightarrow> bool" where
  "stored_clean p \<longleftrightarrow> list_all (\<lambda>s. trim s = s) [nullish (par_organisation_name p) [], nullish (par_name_addition p) [], par_first_name p,
      par_last_name p, par_email p, par_valid_from p]
     \<and> (nullish (par_kind p) person = person \<longrightarrow> nullish (par_organisation_name p) [] = []) \<and> par_valid_to p \<noteq> Some []"

theorem participant_edit_round_trip:
  assumes "stored_clean p" "submit_participant isEmail zev (mapParticipantToFormValues p) = Some i"
  shows "i = \<lparr>pin_zev = zev, pin_party = None, pin_kind = Some (nullish (par_kind p) person),
    pin_organisation_name = Some (nullish (par_organisation_name p) []), pin_name_addition = Some (nullish (par_name_addition p) []),
    pin_title = Some (nullish (par_title p) []), pin_first_name = Some (par_first_name p), pin_last_name = Some (par_last_name p),
    pin_email = Some (par_email p), pin_phone = Some (nullish (par_phone p) []),
    pin_address_line1 = Some (nullish (par_address_line1 p) []), pin_address_line2 = Some (nullish (par_address_line2 p) []),
    pin_postal_code = Some (nullish (par_postal_code p) []), pin_city = Some (nullish (par_city p) []),
    pin_notes = Some (nullish (par_notes p) []), pin_valid_from = par_valid_from p, pin_valid_to = par_valid_to p,
    pin_allocation_weight = unless_empty (par_allocation_weight p)\<rparr>"
proof -
  have o: "or_str s [] = nullish s []" for s by (cases s) (simp_all add: or_str_def)
  have i: "i = mapParticipantFormValuesToInput (trimmed (mapParticipantToFormValues p)) zev"
    using assms(2) by (auto simp: submit_participant_def split: if_splits)
  have "unless_empty (nullish (par_valid_to p) []) = par_valid_to p"
    using assms(1) by (cases "par_valid_to p") (simp_all add: unless_empty_def stored_clean_def)
  moreover have "nullish (par_kind p) person = person \<or> nullish (par_kind p) person = organisation"
    by (cases "nullish (par_kind p) person") simp_all
  ultimately show ?thesis
    using assms(1) unfolding i
    by (auto simp: mapParticipantFormValuesToInput_def trimmed_def mapParticipantToFormValues_def stored_clean_def o)
qed

text \<open>
  The schema asks for an e-mail address even when only the participation is sent and the party's fields are
  hidden: a further participation of a party without an address is refused.
\<close>

lemma party_without_email_refused:
  assumes "\<not> isEmail []" "find (\<lambda>c. pty_id c = i) parties = Some p" "trim (pty_email p) = []"
  shows "submit_participant isEmail zev (pickParty (Some parties) i values) = None"
  using assms by (simp add: submit_participant_def participantFormSchema_def pickParty_def trimmed_def Let_def)

section \<open>The list\<close>

datatype ParticipantValidityState = is_current | is_upcoming | is_ended

definition getParticipantValidityState :: "Participant \<Rightarrow> string \<Rightarrow> ParticipantValidityState" where
  "getParticipantValidityState p todayIso =
     (if par_valid_from p > todayIso then is_upcoming
      else if truthy (par_valid_to p) \<and> nullish (par_valid_to p) [] < todayIso then is_ended else is_current)"

definition TITLE_KEYS :: "string list" where
  "TITLE_KEYS = [''mr'', ''mrs'', ''ms'', ''dr'', ''prof'']"

definition getTitleLabelMap :: "translate \<Rightarrow> (string \<times> string) list" where
  "getTitleLabelMap t = map (\<lambda>k. (k, t (''pages.zevs.titles.'' @ k) [])) TITLE_KEYS"

definition formatParticipantName :: "Participant \<Rightarrow> string \<Rightarrow> string" where
  "formatParticipantName p titleLabel =
     (if par_kind p = Some organisation \<and> truthy (par_organisation_name p) then nullish (par_organisation_name p) []
      else join '' '' (filter (\<lambda>s. s \<noteq> []) [titleLabel, par_first_name p, par_last_name p]))"

definition formatParticipantNameWithTitle :: "translate \<Rightarrow> Participant \<Rightarrow> string" where
  "formatParticipantNameWithTitle t p =
     formatParticipantName p (if truthy (par_title p) then nullish (map_of (getTitleLabelMap t) (nullish (par_title p) [])) [] else [])"

definition formatParticipantAddress :: "Participant \<Rightarrow> string" where
  "formatParticipantAddress p =
     (let present = filter (\<lambda>s. s \<noteq> [])
      in join '', '' (present [nullish (par_address_line1 p) [], nullish (par_address_line2 p) [],
           join '' '' (present [nullish (par_postal_code p) [], nullish (par_city p) []])]))"

record ParticipantCard =
  pc_participant :: Participant
  pc_issues :: "ParticipantIssue list"
  pc_roles :: "string list"
  pc_validityState :: ParticipantValidityState
  pc_displayName :: string
  pc_address :: string

definition card_of :: "translate \<Rightarrow> string \<Rightarrow> Participant \<Rightarrow> ParticipantCard" where
  "card_of t todayIso p =
     \<lparr>pc_participant = p, pc_issues = participantIssues p,
      pc_roles = uniq (map rw_role (filter (\<lambda>r. rw_valid_from r \<le> todayIso) (nullish (par_roles p) []))),
      pc_validityState = getParticipantValidityState p todayIso,
      pc_displayName = formatParticipantNameWithTitle t p, pc_address = formatParticipantAddress p\<rparr>"

definition is_issuer :: "ParticipantCard \<Rightarrow> bool" where
  "is_issuer c \<longleftrightarrow> ''issuer'' \<in> set (pc_roles c)"

definition card_le :: "(string \<Rightarrow> string \<Rightarrow> int) \<Rightarrow> ParticipantCard \<Rightarrow> ParticipantCard \<Rightarrow> bool" where
  "card_le localeCompare left right \<longleftrightarrow>
     (if is_issuer left \<noteq> is_issuer right then is_issuer left else localeCompare (pc_displayName left) (pc_displayName right) \<le> 0)"

definition participantCards ::
  "(string \<Rightarrow> string \<Rightarrow> int) \<Rightarrow> translate \<Rightarrow> string \<Rightarrow> bool \<Rightarrow> string option \<Rightarrow> Participant list option \<Rightarrow> ParticipantCard list" where
  "participantCards localeCompare t todayIso isManagedScope selectedZevId fetched =
     sort_by (card_le localeCompare) (map (card_of t todayIso)
       (filter (\<lambda>p. \<not> isManagedScope \<or> Some (par_zev p) = selectedZevId) (nullish fetched [])))"

datatype ParticipantReadinessFilter = show_active | show_attention | show_noMetering | show_ended

definition activeCards :: "ParticipantCard list \<Rightarrow> ParticipantCard list" where
  "activeCards cards = filter (\<lambda>c. pc_validityState c \<noteq> is_ended) cards"

definition endedCards :: "ParticipantCard list \<Rightarrow> ParticipantCard list" where
  "endedCards cards = filter (\<lambda>c. pc_validityState c = is_ended) cards"

definition matches_readiness :: "ParticipantReadinessFilter \<Rightarrow> ParticipantCard \<Rightarrow> bool" where
  "matches_readiness f c \<longleftrightarrow> f = show_active \<or> f = show_ended
     \<or> f = show_attention \<and> 0 < length (pc_issues c)
     \<or> f = show_noMetering \<and> \<not> par_has_metering_point_assignment (pc_participant c)"

text \<open>\<open>haystack.includes(needle)\<close>.\<close>

fun text_includes :: "string \<Rightarrow> string \<Rightarrow> bool" where
  "text_includes needle [] \<longleftrightarrow> needle = []"
| "text_includes needle (c # cs) \<longleftrightarrow> starts_with needle (c # cs) \<or> text_includes needle cs"

definition matches_search :: "(string \<Rightarrow> string) \<Rightarrow> string \<Rightarrow> ParticipantCard \<Rightarrow> bool" where
  "matches_search lower searchTerm c =
     (let normalizedSearch = lower (trim searchTerm)
      in normalizedSearch = [] \<or> text_includes normalizedSearch (lower (pc_displayName c))
         \<or> text_includes normalizedSearch (lower (par_email (pc_participant c))) \<or> text_includes normalizedSearch (lower (pc_address c)))"

definition filteredParticipants ::
  "(string \<Rightarrow> string) \<Rightarrow> string \<Rightarrow> ParticipantReadinessFilter \<Rightarrow> ParticipantCard list \<Rightarrow> ParticipantCard list" where
  "filteredParticipants lower searchTerm f cards =
     filter (\<lambda>c. matches_readiness f c \<and> matches_search lower searchTerm c) (if f = show_ended then endedCards cards else activeCards cards)"

definition warningCount :: "ParticipantCard list \<Rightarrow> nat" where
  "warningCount cards = length (filter (\<lambda>c. 0 < length (pc_issues c)) (activeCards cards))"

definition noMeteringCount :: "ParticipantCard list \<Rightarrow> nat" where
  "noMeteringCount cards = length (filter (\<lambda>c. \<not> par_has_metering_point_assignment (pc_participant c)) (activeCards cards))"

text \<open>The counters on the filters are the sizes of the views they open, and the issuer heads the list whatever the collation.\<close>

lemma counts_are_views:
  "lower [] = [] \<Longrightarrow> warningCount cards = length (filteredParticipants lower [] show_attention cards)"
  "lower [] = [] \<Longrightarrow> noMeteringCount cards = length (filteredParticipants lower [] show_noMetering cards)"
  by (simp_all add: warningCount_def noMeteringCount_def filteredParticipants_def matches_readiness_def matches_search_def)

lemma insert_card_issuers_first:
  "list_all is_issuer fs \<Longrightarrow> list_all (\<lambda>c. \<not> is_issuer c) gs \<Longrightarrow>
     \<exists>fs' gs'. insert_by (card_le lc) c (fs @ gs) = fs' @ gs' \<and> list_all is_issuer fs' \<and> list_all (\<lambda>c. \<not> is_issuer c) gs'"
proof (induction "fs")
  case Nil
  show ?case
  proof (cases "is_issuer c")
    case True
    then have "insert_by (card_le lc) c gs = [c] @ gs" using Nil by (cases gs) (simp_all add: card_le_def)
    then show ?thesis using True Nil by (metis append_Nil list.pred_inject)
  next
    case False
    have "set (insert_by (card_le lc) c gs) = insert c (set gs)" by (induction gs) auto
    then show ?thesis using False Nil by (metis append_Nil insertE list.pred_inject(1) list_all_iff)
  qed
next
  case (Cons i fs)
  then obtain fs' gs' where ih: "insert_by (card_le lc) c (fs @ gs) = fs' @ gs'" "list_all is_issuer fs'" "list_all (\<lambda>c. \<not> is_issuer c) gs'"
    by auto
  show ?case
  proof (cases "card_le lc c i")
    case True
    then have "is_issuer c" using Cons by (auto simp: card_le_def split: if_splits)
    then show ?thesis using True Cons by (intro exI [of _ "c # i # fs"] exI [of _ gs]) simp
  next
    case False
    then show ?thesis using ih Cons by (intro exI [of _ "i # fs'"] exI [of _ gs']) simp
  qed
qed

lemma issuers_first:
  "\<exists>fs gs. participantCards lc t today managed zev fetched = fs @ gs \<and> list_all is_issuer fs \<and> list_all (\<lambda>c. \<not> is_issuer c) gs"
proof -
  have "\<exists>fs gs. sort_by (card_le lc) cs = fs @ gs \<and> list_all is_issuer fs \<and> list_all (\<lambda>c. \<not> is_issuer c) gs" for cs
  proof (induction cs)
    case Nil
    then show ?case by (intro exI [of _ "[]"]) simp
  next
    case (Cons c cs)
    then show ?case using insert_card_issuers_first by fastforce
  qed
  then show ?thesis unfolding participantCards_def .
qed

section \<open>The page\<close>

text \<open>
  The writes of the page: the six mutations that take the scope they are submitted in, and four requests that
  take none: linking and unlinking an account (\<open>useParticipantAccountLinking.tsx\<close>), handing a contract to
  the inbox, and issuing one, which is what downloading does for an account that may write.
\<close>

datatype people_write = pw_create ParticipantInput | pw_update string ParticipantInput | pw_delete string
  | pw_sendLink string | pw_copyLink string | pw_revokeLink string
  | pw_linkAccount string int | pw_unlinkAccount string | pw_deliverContract string | pw_issueContract string

fun takes_scope :: "people_write \<Rightarrow> bool" where
  "takes_scope (pw_linkAccount _ _) \<longleftrightarrow> False"
| "takes_scope (pw_unlinkAccount _) \<longleftrightarrow> False"
| "takes_scope (pw_deliverContract _) \<longleftrightarrow> False"
| "takes_scope (pw_issueContract _) \<longleftrightarrow> False"
| "takes_scope _ \<longleftrightarrow> True"

text \<open>What the answers of the requests carry: an onboarding link with its end, the number of contracts delivered.\<close>

record people_reply =
  re_url :: string
  re_expires :: "string option"
  re_delivered :: nat

record people_job =
  pj_write :: people_write
  pj_scope :: Scope

record ParticipantOnboardingNoticeData =
  on_participantName :: string
  on_onboardingUrl :: string
  on_onboardingExpiresAt :: "string option"
  on_message :: string

record people_state = scope_state +
  pp_data :: "Participant list option"
  pp_editingId :: "string option"
  pp_showModal :: bool
  pp_focusValidTo :: bool
  pp_notice :: "ParticipantOnboardingNoticeData option"
  pp_searchTerm :: string
  pp_readinessFilter :: ParticipantReadinessFilter
  pp_highlightedId :: "string option"
  pp_queued :: "people_job list"
  pp_sent :: "people_job list"
  pp_requests :: "(people_write \<times> Scope) list"
  pp_toasts :: "toast list"
  pp_linkTarget :: "(string \<times> string) option"
  pp_linkError :: "string option"

definition toast_in :: "string \<Rightarrow> bool \<Rightarrow> people_state \<Rightarrow> people_state" where
  "toast_in message success st = st\<lparr>pp_toasts := pp_toasts st @ [\<lparr>to_message = message, to_success = success\<rparr>]\<rparr>"

text \<open>A new scope closes the dialog and the notice.\<close>

definition people_render :: "string option \<Rightarrow> bool \<Rightarrow> int option \<Rightarrow> people_state \<Rightarrow> people_state" where
  "people_render zev canWrite account st =
     (let sc = useWriteScope zev canWrite account None (ws_scope st)
      in if sc = ws_scope st then st
         else st\<lparr>ws_scope := sc, ws_current := Some sc, pp_showModal := False, pp_editingId := None, pp_focusValidTo := False,
                pp_notice := None\<rparr>)"

definition startEdit :: "string \<Rightarrow> people_state \<Rightarrow> people_state" where
  "startEdit i st = st\<lparr>pp_editingId := Some i, pp_focusValidTo := False, pp_showModal := True\<rparr>"

definition openCreateModal :: "translate \<Rightarrow> people_state \<Rightarrow> people_state" where
  "openCreateModal t st =
     (if \<not> truthy (sc_selectedZevId (ws_scope st)) then toast_in (t ''pages.participants.messages.selectZev'' []) False st
      else st\<lparr>pp_editingId := None, pp_focusValidTo := False, pp_showModal := True\<rparr>)"

definition closeModal :: "people_state \<Rightarrow> people_state" where
  "closeModal st = st\<lparr>pp_showModal := False, pp_editingId := None, pp_focusValidTo := False\<rparr>"

text \<open>The link \<open>?focus=...&field=valid_to\<close> of the attention list, once the data is there.\<close>

definition follow_link :: "string \<Rightarrow> bool \<Rightarrow> string \<Rightarrow> bool \<Rightarrow> people_state \<Rightarrow> people_state" where
  "follow_link focusId fieldValidTo todayIso isManagedScope st =
     (case find (\<lambda>p. par_id p = focusId \<and> (\<not> isManagedScope \<or> Some (par_zev p) = sc_selectedZevId (ws_scope st))) (nullish (pp_data st) []) of
        None \<Rightarrow> st
      | Some target \<Rightarrow>
          let st' = st\<lparr>pp_searchTerm := [], pp_highlightedId := Some focusId,
            pp_readinessFilter := (if getParticipantValidityState target todayIso = is_ended then show_ended else show_active)\<rparr>
          in if fieldValidTo \<and> sc_canWrite (ws_scope st)
             then st'\<lparr>pp_editingId := Some (par_id target), pp_focusValidTo := True, pp_showModal := True\<rparr> else st')"

definition enqueue :: "people_write \<Rightarrow> Scope \<Rightarrow> people_state \<Rightarrow> people_state" where
  "enqueue w scope st = st\<lparr>pp_queued := pp_queued st @ [\<lparr>pj_write = w, pj_scope = scope\<rparr>]\<rparr>"

definition submit_people :: "translate \<Rightarrow> ParticipantInput \<Rightarrow> people_state \<Rightarrow> people_state" where
  "submit_people t payload st =
     (let scope = ws_scope st; own = payload\<lparr>pin_zev := nullish (sc_selectedZevId scope) []\<rparr>
      in if \<not> isCurrent st scope then st
         else if \<not> truthy (sc_selectedZevId scope) \<or> \<not> sc_canWrite scope
         then toast_in (t ''pages.participants.messages.selectZev'' []) False st
         else if truthy (pp_editingId st) then enqueue (pw_update (nullish (pp_editingId st) []) own) scope st
         else enqueue (pw_create own) scope st)"

text \<open>\<open>scope\<close> is that of the render that opened the confirmation.\<close>

definition confirmDeleteParticipant :: "Scope \<Rightarrow> string \<Rightarrow> people_state \<Rightarrow> people_state" where
  "confirmDeleteParticipant scope i st = (if sc_canWrite scope \<and> isCurrent st scope then enqueue (pw_delete i) scope st else st)"

definition participantDisplayName :: "translate \<Rightarrow> people_state \<Rightarrow> string \<Rightarrow> string" where
  "participantDisplayName t st i =
     (case find (\<lambda>p. par_id p = i) (nullish (pp_data st) []) of
        Some p \<Rightarrow> par_first_name p @ '' '' @ par_last_name p | None \<Rightarrow> t ''pages.participants.fallbackName'' [])"

definition onboardingLinkError :: "translate \<Rightarrow> api_error \<Rightarrow> string" where
  "onboardingLinkError t err =
     (let code = Option.bind (apiErrorPayload err) (\<lambda>v. json_get v ''code'')
      in if code = Some (JStr ''login_setup_required'') then t ''pages.participants.messages.loginSetupRequired'' []
         else if code = Some (JStr ''own_login_required'') then t ''pages.participants.messages.ownLoginRequired'' []
         else formatApiError err (t ''pages.participants.messages.onboardingLinkFailed'' []))"

section \<open>Linking accounts and contracts\<close>

text \<open>\<open>useParticipantAccountLinking\<close>: the dialog of the link lives in the hook, and nothing of the page closes it.\<close>

definition openLink :: "string \<Rightarrow> string \<Rightarrow> people_state \<Rightarrow> people_state" where
  "openLink i name st = st\<lparr>pp_linkError := None, pp_linkTarget := Some (i, name)\<rparr>"

definition account_pending :: "people_state \<Rightarrow> bool" where
  "account_pending st \<longleftrightarrow> list_ex (\<lambda>j. case pj_write j of pw_linkAccount _ _ \<Rightarrow> True | pw_unlinkAccount _ \<Rightarrow> True | _ \<Rightarrow> False) (pp_queued st @ pp_sent st)"

definition submitLink :: "int \<Rightarrow> people_state \<Rightarrow> people_state" where
  "submitLink userId st =
     (case pp_linkTarget st of None \<Rightarrow> st | Some (i, name) \<Rightarrow> enqueue (pw_linkAccount i userId) (ws_scope st) st)"

text \<open>A call of the API outside a mutation goes out at once.\<close>

definition send_now :: "people_write \<Rightarrow> people_state \<Rightarrow> people_state" where
  "send_now w st =
     st\<lparr>pp_sent := \<lparr>pj_write = w, pj_scope = ws_scope st\<rparr> # pp_sent st, pp_requests := pp_requests st @ [(w, ws_scope st)]\<rparr>"

definition deliverContractToInbox :: "string \<Rightarrow> people_state \<Rightarrow> people_state" where
  "deliverContractToInbox i st = send_now (pw_deliverContract i) st"

text \<open>An account that may only read downloads the contract that was issued, which writes nothing.\<close>

definition downloadContract :: "string \<Rightarrow> people_state \<Rightarrow> people_state" where
  "downloadContract i st = (if sc_canWrite (ws_scope st) then send_now (pw_issueContract i) st else st)"

section \<open>Answers\<close>

text \<open>\<open>onError\<close> of the mutations and \<open>catch\<close> of the calls; a failed deletion says nothing.\<close>

definition people_error :: "translate \<Rightarrow> people_job \<Rightarrow> int option \<Rightarrow> api_error \<Rightarrow> people_state \<Rightarrow> people_state" where
  "people_error t j status err st =
     (if takes_scope (pj_write j) \<and> \<not> isCurrent st (pj_scope j) then st
      else case pj_write j of
        pw_create _ \<Rightarrow> toast_in (formatApiError err (t ''pages.participants.messages.createFailed'' [])) False st
      | pw_update _ _ \<Rightarrow> toast_in (formatApiError err (t ''pages.participants.messages.updateFailed'' [])) False st
      | pw_delete _ \<Rightarrow> st
      | pw_sendLink _ \<Rightarrow> toast_in (onboardingLinkError t err) False st
      | pw_copyLink _ \<Rightarrow> toast_in (onboardingLinkError t err) False st
      | pw_revokeLink _ \<Rightarrow> toast_in (formatApiError err (t ''pages.participants.messages.onboardingLinkFailed'' [])) False st
      | pw_linkAccount _ _ \<Rightarrow> st\<lparr>pp_linkError := Some (formatApiError err (t ''pages.accounts.feedback.linkFailed'' []))\<rparr>
      | pw_unlinkAccount _ \<Rightarrow> toast_in (formatApiError err (t ''pages.accounts.feedback.unlinkFailed'' [])) False st
      | pw_deliverContract _ \<Rightarrow>
          toast_in (if status = Some 404 then t ''inbox.deliverContract.notIssued'' [] else formatApiError err (t ''common.error'' [])) False st
      | pw_issueContract _ \<Rightarrow> toast_in (t ''pages.participants.contractDownloadError'' []) False st)"

definition people_dispatch :: "translate \<Rightarrow> people_job \<Rightarrow> people_state \<Rightarrow> people_state" where
  "people_dispatch t j st =
     (let st' = st\<lparr>pp_queued := remove1 j (pp_queued st)\<rparr>
      in if takes_scope (pj_write j) \<longrightarrow> assertWritable st (pj_scope j) True
         then st'\<lparr>pp_sent := j # pp_sent st', pp_requests := pp_requests st' @ [(pj_write j, pj_scope j)]\<rparr>
         else people_error t j None OtherError st')"

definition people_fail :: "translate \<Rightarrow> people_job \<Rightarrow> int option \<Rightarrow> api_error \<Rightarrow> people_state \<Rightarrow> people_state" where
  "people_fail t j status err st = people_error t j status err (st\<lparr>pp_sent := remove1 j (pp_sent st)\<rparr>)"

text \<open>\<open>onSuccess\<close> and \<open>then\<close>.\<close>

definition people_answer :: "translate \<Rightarrow> people_job \<Rightarrow> people_reply \<Rightarrow> people_state \<Rightarrow> people_state" where
  "people_answer t j link st =
     (let st' = st\<lparr>pp_sent := remove1 j (pp_sent st)\<rparr>;
          notice = (\<lambda>i message. \<lparr>on_participantName = participantDisplayName t st i, on_onboardingUrl = re_url link,
            on_onboardingExpiresAt = re_expires link, on_message = t message []\<rparr>)
      in if takes_scope (pj_write j) \<and> \<not> isCurrent st' (pj_scope j) then st'
         else case pj_write j of
           pw_create _ \<Rightarrow> toast_in (t ''pages.participants.messages.created'' []) True (st'\<lparr>pp_showModal := False\<rparr>)
         | pw_update _ _ \<Rightarrow> toast_in (t ''pages.participants.messages.updated'' []) True (st'\<lparr>pp_editingId := None, pp_showModal := False\<rparr>)
         | pw_delete _ \<Rightarrow> toast_in (t ''pages.participants.messages.deleted'' []) True st'
         | pw_sendLink i \<Rightarrow> toast_in (t ''pages.participants.messages.onboardingLinkSent''
               [(''email'', JStr (case find (\<lambda>p. par_id p = i) (nullish (pp_data st) []) of Some p \<Rightarrow> par_email p | None \<Rightarrow> []))]) True
             (st'\<lparr>pp_notice := Some (notice i ''pages.participants.messages.onboardingLinkSentDetail'')\<rparr>)
         | pw_copyLink i \<Rightarrow> st'\<lparr>pp_notice := Some (notice i ''pages.participants.messages.onboardingLinkCopiedDetail'')\<rparr>
         | pw_revokeLink _ \<Rightarrow> toast_in (t ''pages.participants.messages.onboardingLinkRevoked'' []) True st'
         | pw_linkAccount _ _ \<Rightarrow>
             toast_in (t ''pages.accounts.feedback.linkSuccess'' []) True (st'\<lparr>pp_linkTarget := None, pp_linkError := None\<rparr>)
         | pw_unlinkAccount _ \<Rightarrow> toast_in (t ''pages.accounts.feedback.unlinkSuccess'' []) True st'
         | pw_deliverContract _ \<Rightarrow> toast_in (t (if 0 < re_delivered link then ''inbox.deliverContract.delivered''
               else ''inbox.deliverContract.alreadyDelivered'') []) True st'
         | pw_issueContract _ \<Rightarrow> st')"

datatype people_event = pe_render "string option" bool "int option" | pe_unmount | pe_load "Participant list option"
  | pe_edit string | pe_create | pe_close | pe_follow string bool string bool | pe_submit ParticipantInput | pe_delete Scope string
  | pe_link people_write | pe_filter string ParticipantReadinessFilter | pe_dismiss
  | pe_openLink string string | pe_closeLink | pe_submitLink int | pe_unlink Scope string | pe_deliver string | pe_download string
  | pe_dispatch people_job | pe_fail people_job "int option" api_error | pe_answer people_job people_reply

fun people_do :: "translate \<Rightarrow> people_event \<Rightarrow> people_state \<Rightarrow> people_state" where
  "people_do t (pe_render zev canWrite account) st = people_render zev canWrite account st"
| "people_do t pe_unmount st = st\<lparr>ws_current := None\<rparr>"
| "people_do t (pe_load ps) st = st\<lparr>pp_data := ps\<rparr>"
| "people_do t (pe_edit i) st = startEdit i st"
| "people_do t pe_create st = openCreateModal t st"
| "people_do t pe_close st = closeModal st"
| "people_do t (pe_follow i f today managed) st = follow_link i f today managed st"
| "people_do t (pe_submit payload) st = submit_people t payload st"
| "people_do t (pe_delete scope i) st = confirmDeleteParticipant scope i st"
| "people_do t (pe_link w) st = enqueue w (ws_scope st) st"
| "people_do t (pe_filter s f) st = st\<lparr>pp_searchTerm := s, pp_readinessFilter := f\<rparr>"
| "people_do t pe_dismiss st = st\<lparr>pp_notice := None\<rparr>"
| "people_do t (pe_dispatch j) st = people_dispatch t j st"
| "people_do t (pe_openLink i name) st = openLink i name st"
| "people_do t pe_closeLink st = st\<lparr>pp_linkTarget := None\<rparr>"
| "people_do t (pe_submitLink userId) st = submitLink userId st"
| "people_do t (pe_unlink scope i) st = enqueue (pw_unlinkAccount i) scope st"
| "people_do t (pe_deliver i) st = deliverContractToInbox i st"
| "people_do t (pe_download i) st = downloadContract i st"
| "people_do t (pe_fail j status err) st = people_fail t j status err st"
| "people_do t (pe_answer j link) st = people_answer t j link st"

text \<open>
  The form is submitted while it is open, the three link actions are those of a card, and a request goes through its
  stages in order. The menu of a card is for accounts that may write; the confirmation of unlinking is closed when the
  scope changes, so it is answered in the scope it was asked in; the dialog of the link stays.
\<close>

fun people_can :: "people_event \<Rightarrow> people_state \<Rightarrow> bool" where
  "people_can (pe_render _ _ _) st \<longleftrightarrow> ws_current st \<noteq> None"
| "people_can (pe_submit _) st \<longleftrightarrow> pp_showModal st"
| "people_can (pe_link w) st \<longleftrightarrow> (\<exists>i. w = pw_sendLink i \<or> w = pw_copyLink i \<or> w = pw_revokeLink i)"
| "people_can (pe_dispatch j) st \<longleftrightarrow> j \<in> set (pp_queued st)"
| "people_can (pe_openLink _ _) st \<longleftrightarrow> sc_canWrite (ws_scope st) \<and> \<not> account_pending st"
| "people_can (pe_submitLink _) st \<longleftrightarrow> pp_linkTarget st \<noteq> None \<and> \<not> account_pending st"
| "people_can (pe_unlink scope _) st \<longleftrightarrow> isCurrent st scope \<and> sc_canWrite scope"
| "people_can (pe_deliver _) st \<longleftrightarrow> sc_canWrite (ws_scope st)"
| "people_can (pe_fail j _ _) st \<longleftrightarrow> j \<in> set (pp_sent st)"
| "people_can (pe_answer j _) st \<longleftrightarrow> j \<in> set (pp_sent st)"
| "people_can _ st \<longleftrightarrow> True"

definition people_step :: "translate \<Rightarrow> people_state \<Rightarrow> people_event \<Rightarrow> people_state \<Rightarrow> bool" where
  "people_step t st e st' \<longleftrightarrow> people_can e st \<and> st' = people_do t e st"

abbreviation people_steps :: "translate \<Rightarrow> people_state \<Rightarrow> people_state \<Rightarrow> bool" where
  "people_steps t \<equiv> (\<lambda>x y. \<exists>e. people_step t x e y)\<^sup>*\<^sup>*"

definition people_start :: "Scope \<Rightarrow> people_state" where
  "people_start sc =
     \<lparr>ws_scope = sc, ws_current = Some sc, pp_data = None, pp_editingId = None, pp_showModal = False, pp_focusValidTo = False,
      pp_notice = None, pp_searchTerm = [], pp_readinessFilter = show_active, pp_highlightedId = None, pp_queued = [], pp_sent = [],
      pp_requests = [], pp_toasts = [], pp_linkTarget = None, pp_linkError = None\<rparr>"

section \<open>Requests of the page\<close>

fun people_names :: "people_write \<Rightarrow> string option" where
  "people_names (pw_create p) = Some (pin_zev p)"
| "people_names (pw_update _ p) = Some (pin_zev p)"
| "people_names _ = None"

lemmas people_ops = people_render_def startEdit_def openCreateModal_def closeModal_def follow_link_def enqueue_def submit_people_def
  confirmDeleteParticipant_def toast_in_def openLink_def submitLink_def send_now_def deliverContractToInbox_def downloadContract_def

text \<open>What an error or an answer leaves alone.\<close>

lemma people_error_keeps:
  "pp_requests (people_error t j status err st) = pp_requests st" "pp_queued (people_error t j status err st) = pp_queued st"
  "ws_current (people_error t j status err st) = ws_current st" "pp_sent (people_error t j status err st) = pp_sent st"
  "pp_showModal (people_error t j status err st) = pp_showModal st" "pp_editingId (people_error t j status err st) = pp_editingId st"
  by (simp_all add: people_error_def toast_in_def split: people_write.split)

lemma people_answer_keeps:
  "pp_requests (people_answer t j link st) = pp_requests st" "pp_queued (people_answer t j link st) = pp_queued st"
  by (simp_all add: people_answer_def toast_in_def Let_def split: people_write.split)

text \<open>The requests that took the scope they were submitted in.\<close>

definition scoped_requests :: "people_state \<Rightarrow> (people_write \<times> Scope) list" where
  "scoped_requests st = filter (\<lambda>r. takes_scope (fst r)) (pp_requests st)"

lemma people_request_only_by_dispatch:
  assumes "people_step t st e st'" "scoped_requests st' \<noteq> scoped_requests st"
  obtains j where "assertWritable st (pj_scope j) True" "j \<in> set (pp_queued st)"
    "pp_requests st' = pp_requests st @ [(pj_write j, pj_scope j)]" "takes_scope (pj_write j)"
proof (cases e)
  case (pe_dispatch j)
  then show ?thesis
    using assms that [of j] by (auto simp: scoped_requests_def people_step_def people_dispatch_def people_error_keeps Let_def split: if_splits)
qed (use assms in \<open>auto simp: scoped_requests_def people_step_def people_ops people_fail_def people_error_keeps people_answer_keeps Let_def
  split: if_splits option.splits\<close>)

text \<open>Every request is one more entry of the log.\<close>

lemma people_request_logged:
  assumes "people_step t st e st'" "pp_requests st' \<noteq> pp_requests st"
  obtains w scope where "pp_requests st' = pp_requests st @ [(w, scope)]"
proof (cases e)
  case (pe_dispatch j)
  then show ?thesis
    using assms that [of "pj_write j" "pj_scope j"] by (auto simp: people_step_def people_dispatch_def people_error_keeps Let_def split: if_splits)
next
  case (pe_deliver i)
  then show ?thesis using assms(1) that by (simp add: people_step_def people_ops)
next
  case (pe_download i)
  then show ?thesis using assms that by (auto simp: people_step_def people_ops split: if_splits)
qed (use assms in \<open>auto simp: people_step_def people_ops people_fail_def people_error_keeps people_answer_keeps Let_def
  split: if_splits option.splits\<close>)

lemma people_queued_names:
  assumes "people_step t st e st'" "j \<in> set (pp_queued st')" "j \<notin> set (pp_queued st)" "people_names (pj_write j) \<noteq> None"
  shows "people_names (pj_write j) = sc_selectedZevId (pj_scope j)"
proof (cases e)
  case (pe_dispatch i)
  then have "set (pp_queued st') \<subseteq> set (pp_queued st)"
    using assms(1) set_remove1_subset [of i "pp_queued st"] by (auto simp: people_step_def people_dispatch_def people_error_keeps Let_def split: if_splits)
  with assms(2,3) show ?thesis by blast
next
  case (pe_submit payload)
  then show ?thesis
    using assms by (cases "sc_selectedZevId (ws_scope st)") (auto simp: people_step_def people_ops truthy_def Let_def split: if_splits)
qed (use assms in \<open>auto simp: people_step_def people_ops people_fail_def people_error_keeps people_answer_keeps Let_def
  split: if_splits option.splits\<close>)

interpretation people: scoped_writes "people_step t" ws_current "\<lambda>st. set (pp_queued st)" scoped_requests pj_write pj_scope people_names
  for t
proof
  fix st e st' and j :: people_job
  assume "people_step t st e st'" "j \<in> set (pp_queued st')" "j \<notin> set (pp_queued st)" "people_names (pj_write j) \<noteq> None"
  then show "people_names (pj_write j) = sc_selectedZevId (pj_scope j)" by (rule people_queued_names)
next
  fix st e st'
  assume "people_step t st e st'" "scoped_requests st' \<noteq> scoped_requests st"
  then obtain j where "assertWritable st (pj_scope j) True" "j \<in> set (pp_queued st)"
      "pp_requests st' = pp_requests st @ [(pj_write j, pj_scope j)]" "takes_scope (pj_write j)" by (rule people_request_only_by_dispatch)
  then show "\<exists>j \<in> set (pp_queued st). scoped_requests st' = scoped_requests st @ [(pj_write j, pj_scope j)] \<and> ws_current st = Some (pj_scope j)
      \<and> sc_canWrite (pj_scope j) \<and> truthy (sc_selectedZevId (pj_scope j))"
    by (auto simp: assertWritable_def isCurrent_def scoped_requests_def)
qed

text \<open>
  C13: whatever the user does and whenever answers come, a request of the page other than linking or unlinking an
  account and delivering or issuing a contract (so: a save, a deletion, an onboarding link) goes out only while the scope it was
  made in is current, its account may write and it has a community; a saved participant names that community. The four
  others take no scope.
\<close>

theorem participant_requests_in_scope:
  assumes "people_steps t (people_start sc) st" "people_step t st e st'" "pp_requests st' \<noteq> pp_requests st"
  shows "\<exists>w scope. pp_requests st' = pp_requests st @ [(w, scope)]
    \<and> ((\<forall>i u. w \<noteq> pw_linkAccount i u \<and> w \<noteq> pw_unlinkAccount i \<and> w \<noteq> pw_deliverContract i \<and> w \<noteq> pw_issueContract i) \<longrightarrow>
        ws_current st = Some scope \<and> sc_canWrite scope
        \<and> (\<exists>zev. sc_selectedZevId scope = Some zev \<and> zev \<noteq> [] \<and> (people_names w \<noteq> None \<longrightarrow> people_names w = Some zev)))"
proof -
  obtain w scope where r: "pp_requests st' = pp_requests st @ [(w, scope)]" using people_request_logged [OF assms(2,3)] by blast
  show ?thesis
  proof (cases "takes_scope w")
    case True
    then have "scoped_requests st' = scoped_requests st @ [(w, scope)]" by (simp add: scoped_requests_def r)
    moreover have "pp_queued (people_start sc) = []" by (simp add: people_start_def)
    ultimately show ?thesis using people.request_in_scope [OF assms(1) _ assms(2)] r by fastforce
  next
    case False
    then show ?thesis using r by (cases w) auto
  qed
qed

definition community_scope :: Scope where
  "community_scope = \<lparr>sc_number = 0, sc_selectedZevId = Some ''z'', sc_canWrite = True, sc_accountId = Some 1, sc_scopeKey = None\<rparr>"

definition people_run :: "translate \<Rightarrow> people_event list \<Rightarrow> people_state \<Rightarrow> people_state" where
  "people_run t es st = foldl (\<lambda>st e. people_do t e st) st es"

lemma people_run_steps: "people_steps t st st1 \<Longrightarrow> people_can e st1 \<Longrightarrow> people_steps t st (people_do t e st1)"
  by (rule rtranclp.rtrancl_into_rtrancl) (auto simp: people_step_def)

definition create_job :: people_job where
  "create_job = \<lparr>pj_write = pw_create (mapParticipantFormValuesToInput new_person ''z''), pj_scope = community_scope\<rparr>"

theorem participant_requests_in_scope_witness:
  "\<exists>st. people_steps (\<lambda>key _. key) (people_start community_scope) st \<and> create_job \<in> set (pp_queued st)
     \<and> ws_current (people_do (\<lambda>key _. key) (pe_dispatch create_job) st) = Some community_scope
     \<and> people_names (pj_write create_job) = Some ''z''"
proof -
  define st where "st = people_run (\<lambda>key _. key) [pe_create, pe_submit (mapParticipantFormValuesToInput new_person ''z'')] (people_start community_scope)"
  note run = people_run_def people_ops people_start_def community_scope_def truthy_def Let_def isCurrent_def
  have own: "(mapParticipantFormValuesToInput new_person ''z'')\<lparr>pin_zev := ''z''\<rparr> = mapParticipantFormValuesToInput new_person ''z''"
    by code_simp
  have queued: "pp_queued st = [create_job]"
    by (simp add: st_def run create_job_def own)
  have "st = people_do (\<lambda>key _. key) (pe_submit (mapParticipantFormValuesToInput new_person ''z''))
      (people_do (\<lambda>key _. key) pe_create (people_start community_scope))" by (simp add: st_def people_run_def)
  then have steps: "people_steps (\<lambda>key _. key) (people_start community_scope) st"
    by (simp only:) (intro people_run_steps rtranclp.rtrancl_refl; simp add: run)
  have w: "assertWritable st community_scope True" "pp_requests st = []"
    by (simp_all add: st_def run assertWritable_def)
  have sent: "pp_requests (people_do (\<lambda>key _. key) (pe_dispatch create_job) st) = [(pj_write create_job, community_scope)]"
    using w by (simp add: people_dispatch_def create_job_def Let_def)
  have e: "people_step (\<lambda>key _. key) st (pe_dispatch create_job) (people_do (\<lambda>key _. key) (pe_dispatch create_job) st)"
    using queued by (simp add: people_step_def)
  have "ws_current st = Some community_scope \<and> people_names (pj_write create_job) = Some ''z''"
    using participant_requests_in_scope [OF steps e] sent w(2) by (auto simp: create_job_def community_scope_def)
  moreover have "ws_current (people_do (\<lambda>key _. key) (pe_dispatch create_job) st) = ws_current st"
    by (simp add: people_dispatch_def people_error_keeps Let_def)
  ultimately show ?thesis using steps queued by auto
qed

text \<open>
  The dialog that links an account is closed neither by a new scope nor by its request: opened in a community that may be
  written, it still sends after another one, that may not, was selected.
\<close>

lemma link_outlives_scope:
  fixes t name
  defines "st \<equiv> people_run t [pe_openLink ''p'' name, pe_render (Some ''y'') False (Some 1), pe_submitLink 7] (people_start community_scope)"
  shows "people_steps t (people_start community_scope) st" "\<not> sc_canWrite (ws_scope st)"
    "pp_requests (people_do t (pe_dispatch \<lparr>pj_write = pw_linkAccount ''p'' 7, pj_scope = ws_scope st\<rparr>) st) = [(pw_linkAccount ''p'' 7, ws_scope st)]"
proof -
  note run = people_run_def people_ops people_start_def community_scope_def truthy_def Let_def useWriteScope_def account_pending_def
  have st: "st = people_do t (pe_submitLink 7) (people_do t (pe_render (Some ''y'') False (Some 1)) (people_do t (pe_openLink ''p'' name) (people_start community_scope)))"
    by (simp add: st_def people_run_def)
  show "people_steps t (people_start community_scope) st"
    unfolding st by (intro people_run_steps rtranclp.rtrancl_refl) (simp_all add: run)
  show "\<not> sc_canWrite (ws_scope st)" by (simp add: st_def run)
  show "pp_requests (people_do t (pe_dispatch \<lparr>pj_write = pw_linkAccount ''p'' 7, pj_scope = ws_scope st\<rparr>) st) = [(pw_linkAccount ''p'' 7, ws_scope st)]"
    by (simp add: st_def run people_dispatch_def)
qed

text \<open>
  The page guards its scope, but not which form is open. An answer that comes after the user has closed the
  saved form and opened another participant's closes that form too, with what was typed in it.
\<close>

definition save_of :: "string \<Rightarrow> ParticipantInput \<Rightarrow> people_job" where
  "save_of i payload = \<lparr>pj_write = pw_update i (payload\<lparr>pin_zev := ''z''\<rparr>), pj_scope = community_scope\<rparr>"

lemma late_save_closes_other_form:
  fixes t payload
  defines "st \<equiv> people_run t [pe_edit ''a'', pe_submit payload, pe_dispatch (save_of ''a'' payload), pe_close, pe_edit ''b''] (people_start community_scope)"
  shows "people_steps t (people_start community_scope) st" "pp_showModal st \<and> pp_editingId st = Some ''b''"
    "\<not> pp_showModal (people_do t (pe_answer (save_of ''a'' payload) link) st)"
proof -
  note run = people_run_def people_ops people_start_def community_scope_def save_of_def people_dispatch_def assertWritable_def isCurrent_def
    truthy_def Let_def
  show "pp_showModal st \<and> pp_editingId st = Some ''b''" by (simp add: st_def run)
  show "\<not> pp_showModal (people_do t (pe_answer (save_of ''a'' payload) link) st)" by (simp add: st_def run people_answer_def)
  have r: "people_run t (es @ [e]) s = people_do t e (people_run t es s)" "people_run t [] s = s" for es e s
    by (simp_all add: people_run_def)
  have st: "st = people_run t ((((([] @ [pe_edit ''a'']) @ [pe_submit payload]) @ [pe_dispatch (save_of ''a'' payload)]) @ [pe_close]) @ [pe_edit ''b''])
      (people_start community_scope)" by (simp add: st_def)
  show "people_steps t (people_start community_scope) st"
    unfolding st r by (intro people_run_steps rtranclp.rtrancl_refl) (simp_all add: run)
qed

end
