(* ===== verification/Invoice_Actions.thy ===== *)
theory Invoice_Actions
  imports Invoices Tariff_Errors Write_Scope
begin

text \<open>
  What an operator can do with the invoices of a period: \<open>features/invoices/useInvoiceActions.tsx\<close> (the actions a row and
  the whole period offer, when they are locked, the requests they make and what their answers do) and
  \<open>useEmailDelivery.ts\<close> (waiting for queued e-mails), as one machine. A user clicks an offered action that is not
  disabled; a mutation has one slot with its variables and what it noted when it was submitted. Icons, labels and
  the invalidation of cached queries are left out, and the pages around the hook are events.

  The theorem: no invoice is ever in two open sends, whether by its row or by the batch.
\<close>

section \<open>Waiting for e-mails\<close>

definition EMAIL_DELIVERY_TIMEOUT_MS :: int where
  "EMAIL_DELIVERY_TIMEOUT_MS = 90000"

record EmailTarget =
  et_invoiceId :: string
  et_previousLogId :: "string option"
  et_announce :: bool

record email_watch =
  ew_until :: int
  ew_targets :: "EmailTarget list"

definition invoice_by_id :: "InvoicePeriodParticipantRow list \<Rightarrow> string \<Rightarrow> Invoice option" where
  "invoice_by_id rows i = Option.bind (find (\<lambda>row. map_option inv_id (row_invoice row) = Some i) rows) row_invoice"

datatype settlement = settled_done | settled_sent | settled_failed

definition settled :: "(string \<Rightarrow> int option) \<Rightarrow> InvoicePeriodParticipantRow list \<Rightarrow> EmailTarget \<Rightarrow> settlement option" where
  "settled dateParse rows target =
     (case invoice_by_id rows (et_invoiceId target) of
        None \<Rightarrow> None
      | Some invoice \<Rightarrow>
          if inv_status invoice \<in> set [''paid'', ''cancelled''] then Some settled_done
          else case getLatestEmailLog dateParse (Some invoice) of
            None \<Rightarrow> None
          | Some latest \<Rightarrow>
              if Some (log_id latest) \<noteq> et_previousLogId target
              then if log_status latest = ''sent'' then Some settled_sent
                   else if log_status latest = ''failed'' then Some settled_failed else None
              else None)"

definition track :: "int \<Rightarrow> EmailTarget list \<Rightarrow> email_watch option \<Rightarrow> email_watch option" where
  "track now targets current =
     Some \<lparr>ew_until = now + EMAIL_DELIVERY_TIMEOUT_MS,
       ew_targets = filter (\<lambda>old. \<not> list_ex (\<lambda>target. et_invoiceId target = et_invoiceId old) targets)
         (case current of None \<Rightarrow> [] | Some w \<Rightarrow> ew_targets w) @ targets\<rparr>"

definition isTracking :: "email_watch option \<Rightarrow> string \<Rightarrow> bool" where
  "isTracking watch i = (case watch of None \<Rightarrow> False | Some w \<Rightarrow> list_ex (\<lambda>target. et_invoiceId target = i) (ew_targets w))"

definition anyTracking :: "email_watch option \<Rightarrow> bool" where
  "anyTracking watch \<longleftrightarrow> watch \<noteq> None"

text \<open>The effect after a render: settled targets leave the watch; whether a delivery is to be announced.\<close>

definition watch_effect :: "(string \<Rightarrow> int option) \<Rightarrow> InvoicePeriodParticipantRow list \<Rightarrow> email_watch option \<Rightarrow> email_watch option \<times> bool" where
  "watch_effect dateParse rows watch =
     (case watch of None \<Rightarrow> (None, False)
      | Some w \<Rightarrow>
          let outstanding = filter (\<lambda>target. settled dateParse rows target = None) (ew_targets w)
          in if length outstanding < length (ew_targets w)
             then (if outstanding \<noteq> [] then Some (w\<lparr>ew_targets := outstanding\<rparr>) else None,
                   list_ex (\<lambda>target. et_announce target \<and> settled dateParse rows target = Some settled_sent) (ew_targets w))
             else (watch, False))"

section \<open>Mutations\<close>

datatype mutation = mu_generate | mu_pdf | mu_approve | mu_delete | mu_email | mu_markSent | mu_markPaid | mu_recordPayment
  | mu_generateAll | mu_approveAll | mu_sendAll | mu_generateAllPdfs | mu_downloadAllPdfs

text \<open>The variables of the pending call and what \<open>onMutate\<close> noted: the scope, the e-mails to wait for, the participants.\<close>

record slot =
  sl_variable :: string
  sl_scope :: Scope
  sl_targets :: "EmailTarget list"
  sl_participants :: "string list"

datatype invoice_request = rq_generate string string string | rq_pdf string | rq_approve string | rq_delete string | rq_email string
  | rq_markSent string | rq_markPaid string | rq_payment string string string string
  | rq_batch mutation string string string

record action_state = scope_state +
  ac_rows :: "InvoicePeriodParticipantRow list"
  ac_generationParticipantIds :: "string list"
  ac_canGenerate :: bool
  ac_userRole :: "string option"
  ac_period :: "string \<times> string"
  ac_slots :: "(mutation \<times> slot) list"
  ac_watch :: "email_watch option"
  ac_requests :: "invoice_request list"
  ac_toasts :: "toast list"
  ac_pdfQueued :: "string list list"

definition isPending :: "action_state \<Rightarrow> mutation \<Rightarrow> bool" where
  "isPending st m \<longleftrightarrow> map_of (ac_slots st) m \<noteq> None"

definition pending_for :: "action_state \<Rightarrow> mutation \<Rightarrow> string \<Rightarrow> bool" where
  "pending_for st m i = (case map_of (ac_slots st) m of None \<Rightarrow> False | Some s \<Rightarrow> sl_variable s = i)"

section \<open>Permissions and locks\<close>

definition isSendable :: "InvoicePeriodParticipantRow \<Rightarrow> bool" where
  "isSendable row \<longleftrightarrow> map_option inv_status (row_invoice row) = Some ''approved'' \<and> truthy (row_participant_email row)"

definition hasDeletePermission :: "Invoice \<Rightarrow> string option \<Rightarrow> bool" where
  "hasDeletePermission invoice role \<longleftrightarrow>
     (if \<not> js_eq (js_Number_or0 (inv_paid_chf invoice)) (Fin 0) then False
      else if role = Some ''admin'' then True
      else (inv_status invoice = ''draft'' \<or> inv_status invoice = ''cancelled'') \<and> \<not> truthy (inv_approved_at invoice))"

definition anyBatchPending :: "action_state \<Rightarrow> bool" where
  "anyBatchPending st \<longleftrightarrow> isPending st mu_generateAll \<or> isPending st mu_approveAll \<or> isPending st mu_sendAll
     \<or> isPending st mu_generateAllPdfs \<or> isPending st mu_downloadAllPdfs"

definition paymentPending :: "action_state \<Rightarrow> bool" where
  "paymentPending st \<longleftrightarrow> isPending st mu_markPaid \<or> isPending st mu_recordPayment"

definition isSending :: "action_state \<Rightarrow> string \<Rightarrow> bool" where
  "isSending st i \<longleftrightarrow> isTracking (ac_watch st) i \<or> pending_for st mu_email i
     \<or> isPending st mu_sendAll \<and> list_ex (\<lambda>row. map_option inv_id (row_invoice row) = Some i \<and> isSendable row) (ac_rows st)"

definition rowSendLocked :: "action_state \<Rightarrow> string \<Rightarrow> bool" where
  "rowSendLocked st i \<longleftrightarrow> isPending st mu_email \<or> isPending st mu_sendAll \<or> isSending st i"

definition getRowWork :: "action_state \<Rightarrow> InvoicePeriodParticipantRow \<Rightarrow> InvoiceRowWork" where
  "getRowWork st row =
     \<lparr>generating = (pending_for st mu_generate (row_participant_id row)
        \<or> row_participant_id row \<in> set (ac_generationParticipantIds st) \<and> liveInvoice row = None),
      pdfPending = (case row_invoice row of None \<Rightarrow> False | Some i \<Rightarrow> pending_for st mu_pdf (inv_id i)),
      sending = (case row_invoice row of None \<Rightarrow> False | Some i \<Rightarrow> isSending st (inv_id i))\<rparr>"

definition is_eligible :: "InvoicePeriodParticipantRow \<Rightarrow> bool" where
  "is_eligible row \<longleftrightarrow> row_generation_eligibility row = Some eligible"

definition generationPending :: "action_state \<Rightarrow> bool" where
  "generationPending st \<longleftrightarrow> isPending st mu_generate \<or> list_ex (\<lambda>i.
     \<not> list_ex (\<lambda>row. row_participant_id row = i \<and> liveInvoice row \<noteq> None) (ac_rows st)) (ac_generationParticipantIds st)"

section \<open>Offered actions\<close>

datatype click = ck_review string | ck_generate string | ck_approve string | ck_send string | ck_markPaid string | ck_markSent string
  | ck_recordPayment string | ck_delete string | ck_openPdf string | ck_pdf string | ck_batch mutation

record ActionMenuItem =
  am_key :: string
  am_click :: click
  am_disabled :: bool

definition item :: "string \<Rightarrow> click \<Rightarrow> bool \<Rightarrow> ActionMenuItem" where
  "item key c disabled = \<lparr>am_key = key, am_click = c, am_disabled = disabled\<rparr>"

definition generate_item :: "action_state \<Rightarrow> string \<Rightarrow> InvoicePeriodParticipantRow \<Rightarrow> ActionMenuItem" where
  "generate_item st key row = item key (ck_generate (row_participant_id row))
     (isPending st mu_generate \<or> isPending st mu_generateAll \<or> generating (getRowWork st row))"

definition getPrimaryRowAction :: "action_state \<Rightarrow> InvoicePeriodParticipantRow \<Rightarrow> ActionMenuItem option" where
  "getPrimaryRowAction st row =
     (case liveInvoice row of
        None \<Rightarrow>
          if row_generation_eligibility row = Some blocked \<and> truthy (row_eligibility_invoice_id row)
          then Some (item ''review-conflict'' (ck_review (nullish (row_eligibility_invoice_id row) [])) False)
          else if row_generation_eligibility row \<noteq> None \<and> row_generation_eligibility row \<noteq> Some eligible then None
          else Some (generate_item st ''generate'' row)
      | Some invoice \<Rightarrow>
          if inv_status invoice = ''draft'' then Some (item ''approve'' (ck_approve (inv_id invoice)) (isPending st mu_approve))
          else if inv_status invoice = ''approved'' then Some (item ''send-email'' (ck_send (inv_id invoice)) (rowSendLocked st (inv_id invoice)))
          else if inv_status invoice = ''sent'' then Some (item ''mark-paid'' (ck_markPaid (inv_id invoice)) (paymentPending st))
          else None)"

definition opt_item :: "bool \<Rightarrow> ActionMenuItem \<Rightarrow> ActionMenuItem list" where
  "opt_item c i = (if c then [i] else [])"

definition getRowMenuItems :: "action_state \<Rightarrow> InvoicePeriodParticipantRow \<Rightarrow> ActionMenuItem list" where
  "getRowMenuItems st row =
     (case row_invoice row of None \<Rightarrow> []
      | Some invoice \<Rightarrow>
          let i = inv_id invoice;
              destination = (if row_generation_eligibility row \<noteq> None \<and> row_generation_eligibility row \<noteq> Some eligible
                then row_eligibility_invoice_id row else None)
          in (if inv_status invoice = ''draft''
              then if truthy destination \<and> (row_generation_eligibility row = Some blocked \<or> row_generation_eligibility row = Some covered)
                   then [item ''review-conflict'' (ck_review (nullish destination [])) False]
                   else [generate_item st ''generate-again'' row]
              else [])
             @ opt_item (inv_status invoice = ''approved'') (item ''mark-sent'' (ck_markSent i) (isPending st mu_markSent))
             @ opt_item (canRecordPayment invoice) (item ''record-payment'' (ck_recordPayment i) (paymentPending st))
             @ opt_item (hasDeletePermission invoice (ac_userRole st)) (item ''delete'' (ck_delete i) (isPending st mu_delete))
             @ opt_item (truthy (inv_pdf_url invoice)) (item ''open-pdf'' (ck_openPdf i) False)
             @ [item (if truthy (inv_pdf_url invoice) then ''regenerate-pdf'' else ''generate-pdf'') (ck_pdf i) (isPending st mu_pdf)]
             @ opt_item (inv_status invoice = ''sent'') (item ''resend-email'' (ck_send i) (rowSendLocked st i)))"

definition workflowActions :: "(string \<Rightarrow> int option) \<Rightarrow> action_state \<Rightarrow> ActionMenuItem list" where
  "workflowActions dateParse st =
     (let counts = invoiceRowCounts dateParse (ac_rows st) (getRowWork st);
          sendableCount = length (filter isSendable (ac_rows st));
          generationCandidateCount = length (filter is_eligible (ac_rows st))
      in opt_item (ac_canGenerate st \<and> 0 < generationCandidateCount)
           (item ''generate-all'' (ck_batch mu_generateAll) (anyBatchPending st \<or> generationPending st))
         @ opt_item (0 < n_drafts counts) (item ''approve-all'' (ck_batch mu_approveAll) (anyBatchPending st))
         @ opt_item (0 < sendableCount) (item ''send-all'' (ck_batch mu_sendAll)
             (anyBatchPending st \<or> isPending st mu_email \<or> anyTracking (ac_watch st))))"

definition recommendedBatchAction :: "(string \<Rightarrow> int option) \<Rightarrow> action_state \<Rightarrow> ActionMenuItem option" where
  "recommendedBatchAction dateParse st = nth_opt (workflowActions dateParse st) 0"

definition batchMenuItems :: "(string \<Rightarrow> int option) \<Rightarrow> action_state \<Rightarrow> ActionMenuItem list" where
  "batchMenuItems dateParse st = workflowActions dateParse st
     @ opt_item (0 < n_invoices (invoiceRowCounts dateParse (ac_rows st) (getRowWork st)))
         (item ''generate-all-pdfs'' (ck_batch mu_generateAllPdfs) (anyBatchPending st))"

definition offered :: "(string \<Rightarrow> int option) \<Rightarrow> action_state \<Rightarrow> ActionMenuItem set" where
  "offered dateParse st = set (batchMenuItems dateParse st)
     \<union> (\<Union>row \<in> set (ac_rows st). set_option (getPrimaryRowAction st row) \<union> set (getRowMenuItems st row))"

section \<open>Clicks and requests\<close>

record action_env =
  ae_t :: translate
  ae_host :: host
  ae_settings :: AppSettings

abbreviation parse_in :: "action_env \<Rightarrow> string \<Rightarrow> int option" where
  "parse_in env \<equiv> h_dateParse (ae_host env)"

definition say :: "string \<Rightarrow> bool \<Rightarrow> action_state \<Rightarrow> action_state" where
  "say message success st = st\<lparr>ac_toasts := ac_toasts st @ [\<lparr>to_message = message, to_success = success\<rparr>]\<rparr>"

definition mutate ::
  "mutation \<Rightarrow> string \<Rightarrow> EmailTarget list \<Rightarrow> string list \<Rightarrow> invoice_request \<Rightarrow> action_state \<Rightarrow> action_state" where
  "mutate m variable targets participants request st =
     st\<lparr>ac_slots := AList.update m \<lparr>sl_variable = variable, sl_scope = ws_scope st, sl_targets = targets, sl_participants = participants\<rparr>
          (ac_slots st), ac_requests := ac_requests st @ [request]\<rparr>"

definition target_of :: "(string \<Rightarrow> int option) \<Rightarrow> bool \<Rightarrow> Invoice \<Rightarrow> EmailTarget" where
  "target_of dateParse announce invoice =
     \<lparr>et_invoiceId = inv_id invoice, et_previousLogId = map_option log_id (getLatestEmailLog dateParse (Some invoice)), et_announce = announce\<rparr>"

text \<open>\<open>previousLogId\<close> of a row that is no longer there is null.\<close>

definition send_target :: "(string \<Rightarrow> int option) \<Rightarrow> action_state \<Rightarrow> string \<Rightarrow> EmailTarget" where
  "send_target dateParse st i =
     \<lparr>et_invoiceId = i, et_previousLogId = map_option log_id (getLatestEmailLog dateParse (invoice_by_id (ac_rows st) i)), et_announce = True\<rparr>"

definition batch_targets :: "(string \<Rightarrow> int option) \<Rightarrow> action_state \<Rightarrow> EmailTarget list" where
  "batch_targets dateParse st =
     map (target_of dateParse False) (List.map_filter row_invoice (filter isSendable (ac_rows st)))"

definition batch_request :: "action_state \<Rightarrow> mutation \<Rightarrow> invoice_request" where
  "batch_request st m = rq_batch m (nullish (sc_selectedZevId (ws_scope st)) []) (fst (ac_period st)) (snd (ac_period st))"

fun do_click :: "action_env \<Rightarrow> click \<Rightarrow> action_state \<Rightarrow> action_state" where
  "do_click env (ck_generate p) st = mutate mu_generate p [] [] (rq_generate p (fst (ac_period st)) (snd (ac_period st))) st"
| "do_click env (ck_approve i) st = mutate mu_approve i [] [] (rq_approve i) st"
| "do_click env (ck_send i) st = mutate mu_email i [send_target (parse_in env) st i] [] (rq_email i) st"
| "do_click env (ck_markPaid i) st = mutate mu_markPaid i [] [] (rq_markPaid i) st"
| "do_click env (ck_markSent i) st = mutate mu_markSent i [] [] (rq_markSent i) st"
| "do_click env (ck_pdf i) st = mutate mu_pdf i [] [] (rq_pdf i) st"
| "do_click env (ck_batch m) st = mutate m []
     (if m = mu_sendAll then batch_targets (parse_in env) st else [])
     (if m = mu_generateAll then map row_participant_id (filter is_eligible (ac_rows st)) else []) (batch_request st m) st"
| "do_click env _ st = st"

definition showGenerationError :: "action_env \<Rightarrow> api_error \<Rightarrow> string \<Rightarrow> action_state \<Rightarrow> action_state" where
  "showGenerationError env err fallback st =
     (case dynamicPriceGapPayload err of
        Some gap \<Rightarrow> say (ae_t env ''pages.invoices.messages.dynamicPriceGap'' [(''tariff'', JStr (pg_tariff_name gap)),
            (''timestamp'', JStr (formatDateTime (ae_host env) (Some (pg_missing_at gap)) (ae_settings env)))]) False st
      | None \<Rightarrow>
          let payload = apiErrorPayload err
          in say (if Option.bind payload (\<lambda>v. json_get v ''code'') = Some (JStr ''invalid_dynamic_tariff'')
             then ae_t env ''pages.invoices.messages.invalidDynamicTariff''
               [(''tariff'', nullish (Option.bind payload (\<lambda>v. json_get v ''tariff_name'')) JNull)]
             else formatApiError err fallback) False st)"

text \<open>\<open>recordRowPayment\<close>: one payment at a time, and only in the scope it was entered in.\<close>

definition recordRowPayment :: "action_env \<Rightarrow> string \<Rightarrow> string \<Rightarrow> string \<Rightarrow> string \<Rightarrow> action_state \<Rightarrow> action_state" where
  "recordRowPayment env i amount paidOn note st =
     (if paymentPending st then st
      else if assertWritable st (ws_scope st) True then mutate mu_recordPayment i [] [] (rq_payment i amount paidOn note) st
      else if isCurrent st (ws_scope st)
      then say (formatApiError OtherError (ae_t env ''pages.invoiceDetail.payments.recordFailed'' [])) False st else st)"

record batch_answer =
  ba_queued :: int
  ba_skipped :: int
  ba_approved :: int

fun success_text :: "action_env \<Rightarrow> mutation \<Rightarrow> batch_answer \<Rightarrow> string option" where
  "success_text env mu_generate _ = Some (ae_t env ''pages.invoices.messages.generated'' [])"
| "success_text env mu_pdf _ = Some (ae_t env ''pages.invoices.messages.pdfGenerated'' [])"
| "success_text env mu_approve _ = Some (ae_t env ''pages.invoices.messages.approved'' [])"
| "success_text env mu_delete _ = Some (ae_t env ''pages.invoices.messages.deleted'' [])"
| "success_text env mu_email _ = Some (ae_t env ''pages.invoices.messages.emailQueued'' [])"
| "success_text env mu_markSent _ = Some (ae_t env ''pages.invoices.markedSent'' [])"
| "success_text env mu_markPaid _ = Some (ae_t env ''pages.invoices.messages.markedPaid'' [])"
| "success_text env mu_recordPayment _ = Some (ae_t env ''pages.invoiceDetail.payments.recorded'' [])"
| "success_text env mu_approveAll a = Some (ae_t env ''pages.invoices.batch.approvedAll'' [(''n'', JNum (Fin (of_int (ba_approved a))))])"
| "success_text env mu_sendAll a = Some (if 0 < ba_skipped a
     then ae_t env ''pages.invoices.batch.sentAllWithSkipped'' [(''queued'', JNum (Fin (of_int (ba_queued a)))), (''skipped'', JNum (Fin (of_int (ba_skipped a))))]
     else ae_t env ''pages.invoices.batch.sentAll'' [(''n'', JNum (Fin (of_int (ba_queued a))))])"
| "success_text env _ _ = None"

text \<open>The answers that only count in the scope the call was made in.\<close>

fun scope_bound :: "mutation \<Rightarrow> bool" where
  "scope_bound m \<longleftrightarrow> m \<in> {mu_generate, mu_email, mu_recordPayment, mu_generateAll, mu_sendAll, mu_generateAllPdfs}"

definition answer :: "action_env \<Rightarrow> int \<Rightarrow> mutation \<Rightarrow> batch_answer \<Rightarrow> action_state \<Rightarrow> action_state" where
  "answer env now m a st =
     (case map_of (ac_slots st) m of None \<Rightarrow> st
      | Some s \<Rightarrow>
          let st' = st\<lparr>ac_slots := AList.delete m (ac_slots st)\<rparr>;
              st'' = (case success_text env m a of None \<Rightarrow> st' | Some message \<Rightarrow> say message True st')
          in if scope_bound m \<and> \<not> isCurrent st' (sl_scope s) then st'
             else case m of
               mu_generate \<Rightarrow> st''\<lparr>ac_pdfQueued := ac_pdfQueued st'' @ [[sl_variable s]]\<rparr>
             | mu_generateAll \<Rightarrow> st''\<lparr>ac_pdfQueued := ac_pdfQueued st'' @ [sl_participants s]\<rparr>
             | mu_generateAllPdfs \<Rightarrow> st''\<lparr>ac_pdfQueued := ac_pdfQueued st'' @ [[]]\<rparr>
             | mu_email \<Rightarrow> st''\<lparr>ac_watch := track now (sl_targets s) (ac_watch st'')\<rparr>
             | mu_sendAll \<Rightarrow> if 0 < ba_queued a \<and> sl_targets s \<noteq> []
                 then st''\<lparr>ac_watch := track now (sl_targets s) (ac_watch st'')\<rparr> else st''
             | _ \<Rightarrow> st'')"

fun failure_key :: "mutation \<Rightarrow> string" where
  "failure_key mu_generate = ''pages.invoices.messages.generateFailed''"
| "failure_key mu_pdf = ''pages.invoices.messages.generatePdfFailed''"
| "failure_key mu_approve = ''pages.invoices.messages.approveFailed''"
| "failure_key mu_delete = ''pages.invoices.messages.deleteFailed''"
| "failure_key mu_email = ''pages.invoices.messages.sendEmailFailed''"
| "failure_key mu_markSent = ''pages.invoices.messages.markSentFailed''"
| "failure_key mu_markPaid = ''pages.invoices.messages.markPaidFailed''"
| "failure_key mu_recordPayment = ''pages.invoiceDetail.payments.recordFailed''"
| "failure_key mu_generateAll = ''pages.invoices.batch.generateAllFailed''"
| "failure_key mu_approveAll = ''pages.invoices.batch.approveAllFailed''"
| "failure_key mu_sendAll = ''pages.invoices.batch.sendAllFailed''"
| "failure_key mu_generateAllPdfs = ''pages.invoices.batch.generateAllPdfsFailed''"
| "failure_key mu_downloadAllPdfs = ''pages.invoices.batch.downloadFailed''"

definition fail :: "action_env \<Rightarrow> mutation \<Rightarrow> api_error \<Rightarrow> action_state \<Rightarrow> action_state" where
  "fail env m err st =
     (case map_of (ac_slots st) m of None \<Rightarrow> st
      | Some s \<Rightarrow>
          let st' = st\<lparr>ac_slots := AList.delete m (ac_slots st)\<rparr>; fallback = ae_t env (failure_key m) []
          in if m = mu_generate \<or> m = mu_generateAll then showGenerationError env err fallback st'
             else if m = mu_recordPayment \<and> \<not> isCurrent st' (sl_scope s) then st'
             else say (formatApiError err fallback) False st')"

text \<open>A render with new arguments: the key of the scope is the period, and tracking ends with the scope.\<close>

definition action_render :: "string option \<Rightarrow> bool \<Rightarrow> int option \<Rightarrow> string \<times> string \<Rightarrow> action_state \<Rightarrow> action_state" where
  "action_render zev canWrite account period st =
     (let sc = useWriteScope zev canWrite account (Some (fst period @ ''|'' @ snd period)) (ws_scope st)
      in if sc = ws_scope st then st else st\<lparr>ws_scope := sc, ws_current := Some sc, ac_period := period, ac_watch := None\<rparr>)"

text \<open>New rows, followed by the effect of the watch.\<close>

definition action_rows :: "action_env \<Rightarrow> InvoicePeriodParticipantRow list \<Rightarrow> string list \<Rightarrow> action_state \<Rightarrow> action_state" where
  "action_rows env rows generationIds st =
     (case watch_effect (parse_in env) rows (ac_watch st) of
        (watch, announced) \<Rightarrow>
          let st' = st\<lparr>ac_rows := rows, ac_generationParticipantIds := generationIds, ac_watch := watch\<rparr>
          in if announced then say (ae_t env ''pages.invoices.messages.emailSentSuccess'' []) True st' else st')"

definition delivery_timeout :: "action_env \<Rightarrow> action_state \<Rightarrow> action_state" where
  "delivery_timeout env st = say (ae_t env ''pages.invoices.messages.emailPollingTimeout'' []) False (st\<lparr>ac_watch := None\<rparr>)"

text \<open>Each invoice of the period stands in one row.\<close>

definition rows_ok :: "InvoicePeriodParticipantRow list \<Rightarrow> bool" where
  "rows_ok rows \<longleftrightarrow> distinct (map inv_id (List.map_filter row_invoice rows))"

inductive action_step :: "action_env \<Rightarrow> action_state \<Rightarrow> action_state \<Rightarrow> bool" for env where
  click: "i \<in> offered (parse_in env) st \<Longrightarrow> \<not> am_disabled i \<Longrightarrow> action_step env st (do_click env (am_click i) st)"
| delete: "action_step env st (mutate mu_delete i [] [] (rq_delete i) st)"
| payment: "action_step env st (recordRowPayment env i amount paidOn note st)"
| download: "\<not> anyBatchPending st \<Longrightarrow> action_step env st (mutate mu_downloadAllPdfs [] [] [] (batch_request st mu_downloadAllPdfs) st)"
| render: "action_step env st (action_render zev canWrite account period st)"
| rows: "rows_ok rows \<Longrightarrow> action_step env st (action_rows env rows generationIds st)"
| timeout: "ac_watch st = Some w \<Longrightarrow> action_step env st (delivery_timeout env st)"
| answered: "action_step env st (answer env now m a st)"
| failed: "action_step env st (fail env m err st)"

definition action_start :: "action_state \<Rightarrow> bool" where
  "action_start st \<longleftrightarrow> ac_slots st = [] \<and> ac_watch st = None \<and> rows_ok (ac_rows st) \<and> ac_requests st = []"

section \<open>Sends never overlap\<close>

text \<open>The invoices of the sends that are open: asked for by a row, by the batch, or waited for.\<close>

fun slot_ids :: "slot option \<Rightarrow> string list" where
  "slot_ids None = []"
| "slot_ids (Some s) = map et_invoiceId (sl_targets s)"

fun watch_ids :: "email_watch option \<Rightarrow> string list" where
  "watch_ids None = []"
| "watch_ids (Some w) = map et_invoiceId (ew_targets w)"

definition open_sends :: "action_state \<Rightarrow> string list" where
  "open_sends st = slot_ids (map_of (ac_slots st) mu_email) @ slot_ids (map_of (ac_slots st) mu_sendAll) @ watch_ids (ac_watch st)"

text \<open>While the batch is asked for, nothing else is open; a row's send waits for its own invoice; and every invoice has one row.\<close>

definition send_inv :: "action_state \<Rightarrow> bool" where
  "send_inv st \<longleftrightarrow> distinct (open_sends st) \<and> rows_ok (ac_rows st)
     \<and> (isPending st mu_sendAll \<longrightarrow> \<not> isPending st mu_email \<and> ac_watch st = None)
     \<and> (\<forall>s. map_of (ac_slots st) mu_email = Some s \<longrightarrow> map et_invoiceId (sl_targets s) = [sl_variable s])"

lemma slots_update [simp]: "map_of (AList.update m s xs) k = (if k = m then Some s else map_of xs k)"
  by (simp add: update_conv')

lemma slots_delete [simp]: "map_of (AList.delete m xs) k = (if k = m then None else map_of xs k)"
  by (simp add: delete_conv')

lemma mutate_fields [simp]:
  "map_of (ac_slots (mutate m v ts ps r st)) k =
     (if k = m then Some \<lparr>sl_variable = v, sl_scope = ws_scope st, sl_targets = ts, sl_participants = ps\<rparr> else map_of (ac_slots st) k)"
  "ac_watch (mutate m v ts ps r st) = ac_watch st" "ac_rows (mutate m v ts ps r st) = ac_rows st"
  "ac_requests (mutate m v ts ps r st) = ac_requests st @ [r]"
  by (simp_all add: mutate_def)

lemma say_fields [simp]:
  "ac_slots (say message ok st) = ac_slots st" "ac_watch (say message ok st) = ac_watch st" "ac_rows (say message ok st) = ac_rows st"
  "ac_requests (say message ok st) = ac_requests st"
  by (simp_all add: say_def)

text \<open>Which items send: those of a row for that invoice, locked with it; no row item is a batch.\<close>

fun row_click_ok :: "action_state \<Rightarrow> click \<Rightarrow> bool \<Rightarrow> bool" where
  "row_click_ok st (ck_send x) d \<longleftrightarrow> d = rowSendLocked st x"
| "row_click_ok st (ck_batch m) d \<longleftrightarrow> False"
| "row_click_ok st _ d \<longleftrightarrow> True"

fun batch_click_ok :: "action_state \<Rightarrow> click \<Rightarrow> bool \<Rightarrow> bool" where
  "batch_click_ok st (ck_batch m) d \<longleftrightarrow> m \<in> {mu_generateAll, mu_approveAll, mu_sendAll, mu_generateAllPdfs}
     \<and> (m = mu_sendAll \<longrightarrow> d = (anyBatchPending st \<or> isPending st mu_email \<or> anyTracking (ac_watch st)))"
| "batch_click_ok st _ d \<longleftrightarrow> False"

lemma item_sel: "am_click (item k c d) = c" "am_disabled (item k c d) = d"
  by (simp_all add: item_def)

lemma list_all_opt_item: "list_all P (opt_item c x) \<longleftrightarrow> (c \<longrightarrow> P x)"
  by (simp add: opt_item_def)

lemmas menu_simps = item_sel list_all_opt_item generate_item_def Let_def

lemma row_menu_ok: "list_all (\<lambda>i. row_click_ok st (am_click i) (am_disabled i)) (getRowMenuItems st row)"
  by (cases "row_invoice row") (simp_all add: getRowMenuItems_def menu_simps)

lemma primary_ok: "getPrimaryRowAction st row = Some i \<Longrightarrow> row_click_ok st (am_click i) (am_disabled i)"
  by (cases "liveInvoice row") (auto simp: getPrimaryRowAction_def menu_simps split: if_splits)

lemma batch_menu_ok: "list_all (\<lambda>i. batch_click_ok st (am_click i) (am_disabled i)) (batchMenuItems dp st)"
  by (simp add: batchMenuItems_def workflowActions_def menu_simps)

lemma offered_ok:
  assumes "i \<in> offered dp st"
  shows "row_click_ok st (am_click i) (am_disabled i) \<or> batch_click_ok st (am_click i) (am_disabled i)"
proof -
  consider "i \<in> set (batchMenuItems dp st)" | row where "getPrimaryRowAction st row = Some i" | row where "i \<in> set (getRowMenuItems st row)"
    using assms unfolding offered_def by (elim UnE UN_E) (simp_all add: option.set_sel elem_set)
  then show ?thesis
    using row_menu_ok [of st] primary_ok [of st] batch_menu_ok [of st dp] unfolding list_all_iff by cases blast+
qed

lemma offered_click:
  assumes "i \<in> offered dp st" "\<not> am_disabled i"
  shows "am_click i = ck_send x \<Longrightarrow> \<not> rowSendLocked st x"
    "am_click i = ck_batch m \<Longrightarrow> m \<in> {mu_generateAll, mu_approveAll, mu_sendAll, mu_generateAllPdfs}"
    "am_click i = ck_batch mu_sendAll \<Longrightarrow> \<not> isPending st mu_sendAll \<and> \<not> isPending st mu_email \<and> ac_watch st = None"
  using offered_ok [OF assms(1)] assms(2) by (auto simp: anyBatchPending_def anyTracking_def)

text \<open>Only these parts of the state matter for the open sends.\<close>

lemma send_inv_cong:
  assumes "send_inv st" "ac_watch st' = ac_watch st" "rows_ok (ac_rows st')"
    and "map_of (ac_slots st') mu_email = map_of (ac_slots st) mu_email" "map_of (ac_slots st') mu_sendAll = map_of (ac_slots st) mu_sendAll"
  shows "send_inv st'"
  using assms by (simp add: send_inv_def open_sends_def isPending_def)

lemma send_inv_mutate: "send_inv st \<Longrightarrow> m \<noteq> mu_email \<Longrightarrow> m \<noteq> mu_sendAll \<Longrightarrow> send_inv (mutate m v ts ps r st)"
  by (rule send_inv_cong [of st]) (simp_all add: send_inv_def)

lemma send_inv_say: "send_inv st \<Longrightarrow> send_inv (say message ok st)"
  by (rule send_inv_cong [of st]) (simp_all add: send_inv_def)

lemma distinct_sendable: "distinct (map inv_id (List.map_filter row_invoice rows)) \<Longrightarrow>
    distinct (map inv_id (List.map_filter row_invoice (filter P rows)))"
proof -
  assume "distinct (map inv_id (List.map_filter row_invoice rows))"
  then have "distinct (map (inv_id \<circ> (the \<circ> row_invoice)) (filter P (filter (\<lambda>x. row_invoice x \<noteq> None) rows)))"
    unfolding List.map_filter_def map_map by (rule distinct_map_filter)
  then show ?thesis by (simp add: List.map_filter_def conj_commute)
qed

lemma batch_target_ids: "rows_ok (ac_rows st) \<Longrightarrow> distinct (map et_invoiceId (batch_targets dp st))"
  using distinct_sendable [of "ac_rows st" isSendable] by (simp add: batch_targets_def target_of_def rows_ok_def comp_def)

lemma not_locked: "\<not> rowSendLocked st x \<Longrightarrow> \<not> isPending st mu_email \<and> \<not> isPending st mu_sendAll \<and> \<not> isTracking (ac_watch st) x"
  by (simp add: rowSendLocked_def isSending_def)

lemma send_inv_click:
  assumes "send_inv st" "i \<in> offered (parse_in env) st" "\<not> am_disabled i"
  shows "send_inv (do_click env (am_click i) st)"
proof (cases "am_click i")
  case (ck_send x)
  note free = not_locked [OF offered_click(1) [OF assms(2,3) ck_send]]
  then have "x \<notin> set (watch_ids (ac_watch st))"
    by (cases "ac_watch st") (auto simp: isTracking_def list_ex_iff)
  then show ?thesis
    using assms(1) free ck_send by (auto simp: send_inv_def open_sends_def isPending_def send_target_def)
next
  case (ck_batch m)
  show ?thesis
  proof (cases "m = mu_sendAll")
    case True
    then have "map_of (ac_slots st) mu_email = None" "ac_watch st = None"
      using offered_click(3) [OF assms(2,3)] ck_batch by (simp_all add: isPending_def)
    then show ?thesis
      using assms(1) ck_batch True batch_target_ids [of st] by (simp add: send_inv_def open_sends_def isPending_def)
  next
    case False
    then show ?thesis
      using offered_click(2) [OF assms(2,3) ck_batch] ck_batch send_inv_mutate [OF assms(1)] by auto
  qed
qed (simp_all add: assms(1) send_inv_mutate)

lemma track_ids:
  "distinct (map et_invoiceId ts) \<Longrightarrow> distinct (watch_ids w) \<Longrightarrow>
     distinct (watch_ids (track now ts w))"
  by (cases w) (auto simp: track_def distinct_map_filter list_ex_iff)

lemma watch_effect_ids:
  "distinct (watch_ids w) \<Longrightarrow>
     distinct (watch_ids (fst (watch_effect dp rows w)))
     \<and> set (watch_ids (fst (watch_effect dp rows w)))
       \<subseteq> set (watch_ids w)
     \<and> (w = None \<longrightarrow> fst (watch_effect dp rows w) = None)"
  by (cases w) (auto simp: watch_effect_def Let_def distinct_map_filter)

lemma answer_fields:
  "map_of (ac_slots (answer env now m a st)) k = (if k = m then None else map_of (ac_slots st) k)"
  "ac_rows (answer env now m a st) = ac_rows st" "ac_requests (answer env now m a st) = ac_requests st"
  by (cases m; simp add: answer_def Let_def split: option.split)+

lemma answer_watch:
  "ac_watch (answer env now m a st) = ac_watch st \<or>
   (\<exists>s. map_of (ac_slots st) m = Some s \<and> m \<in> {mu_email, mu_sendAll} \<and> ac_watch (answer env now m a st) = track now (sl_targets s) (ac_watch st))"
  by (cases m) (simp_all add: answer_def Let_def split: option.split)

lemma send_inv_answer:
  assumes "send_inv st"
  shows "send_inv (answer env now m a st)"
proof -
  have d: "distinct (slot_ids (map_of (ac_slots st) mu_email))" "distinct (slot_ids (map_of (ac_slots st) mu_sendAll))" "distinct (watch_ids (ac_watch st))"
    using assms by (simp_all add: send_inv_def open_sends_def)
  show ?thesis
    using answer_watch [of env now m a st]
  proof
    assume "ac_watch (answer env now m a st) = ac_watch st"
    then show ?thesis
      using assms by (cases "m = mu_email"; cases "m = mu_sendAll") (auto simp: send_inv_def open_sends_def isPending_def answer_fields)
  next
    assume "\<exists>s. map_of (ac_slots st) m = Some s \<and> m \<in> {mu_email, mu_sendAll} \<and> ac_watch (answer env now m a st) = track now (sl_targets s) (ac_watch st)"
    then obtain s where s: "map_of (ac_slots st) m = Some s" "m \<in> {mu_email, mu_sendAll}"
        "ac_watch (answer env now m a st) = track now (sl_targets s) (ac_watch st)" by blast
    then have "distinct (watch_ids (ac_watch (answer env now m a st)))" using d by (auto intro: track_ids)
    moreover have "map_of (ac_slots (answer env now m a st)) mu_email = None" "map_of (ac_slots (answer env now m a st)) mu_sendAll = None"
      using s(1,2) assms by (auto simp: answer_fields send_inv_def isPending_def)
    ultimately show ?thesis using assms by (simp add: send_inv_def open_sends_def isPending_def answer_fields)
  qed
qed

lemma send_inv_fail: "send_inv st \<Longrightarrow> send_inv (fail env m err st)"
  by (auto simp: fail_def Let_def showGenerationError_def send_inv_def open_sends_def isPending_def split: option.splits)

lemma send_inv_rows:
  assumes "send_inv st" "rows_ok rows"
  shows "send_inv (action_rows env rows ids st)"
proof -
  obtain w announced where e: "watch_effect (parse_in env) rows (ac_watch st) = (w, announced)" by fastforce
  have "distinct (watch_ids (ac_watch st))"
    using assms(1) by (simp add: send_inv_def open_sends_def)
  from watch_effect_ids [OF this, of "parse_in env" rows] show ?thesis
    using assms e by (auto simp: send_inv_def open_sends_def action_rows_def isPending_def Let_def)
qed

lemma send_inv_step: "action_step env st st' \<Longrightarrow> send_inv st \<Longrightarrow> send_inv st'"
proof (induction rule: action_step.induct)
  case (render st zev canWrite account period)
  then show ?case by (auto simp: action_render_def Let_def send_inv_def open_sends_def isPending_def)
next
  case (payment st i amount paidOn remark)
  then show ?case by (simp add: recordRowPayment_def send_inv_mutate send_inv_say)
next
  case (timeout st w)
  then show ?case by (auto simp: delivery_timeout_def send_inv_def open_sends_def isPending_def)
qed (simp_all add: send_inv_click send_inv_answer send_inv_fail send_inv_rows send_inv_mutate)

lemma send_inv_reachable: "(action_step env)\<^sup>*\<^sup>* st st' \<Longrightarrow> action_start st \<Longrightarrow> send_inv st'"
proof (induction rule: rtranclp_induct)
  case base
  then show ?case by (simp add: action_start_def send_inv_def open_sends_def isPending_def)
qed (rule send_inv_step)

lemma step_requests:
  assumes "action_step env st st'" "ac_requests st' = ac_requests st @ [r]"
  shows "r = rq_email i \<Longrightarrow> \<not> rowSendLocked st i" "r = rq_batch mu_sendAll z s u \<Longrightarrow> \<not> isPending st mu_sendAll \<and> \<not> isPending st mu_email \<and> ac_watch st = None"
proof -
  have "(r = rq_email i \<longrightarrow> \<not> rowSendLocked st i) \<and> (r = rq_batch mu_sendAll z s u \<longrightarrow> \<not> isPending st mu_sendAll \<and> \<not> isPending st mu_email \<and> ac_watch st = None)"
    using assms(1)
  proof (cases rule: action_step.cases)
    case (click item)
    then show ?thesis
      using assms(2) offered_click(1) [OF click(2,3)] offered_click(3) [OF click(2,3)]
      by (cases "am_click item") (auto simp: batch_request_def)
  qed (use assms(2) in \<open>auto simp: recordRowPayment_def batch_request_def action_render_def action_rows_def delivery_timeout_def fail_def
    showGenerationError_def answer_fields Let_def split: if_splits option.splits prod.splits\<close>)
  then show "r = rq_email i \<Longrightarrow> \<not> rowSendLocked st i"
    "r = rq_batch mu_sendAll z s u \<Longrightarrow> \<not> isPending st mu_sendAll \<and> \<not> isPending st mu_email \<and> ac_watch st = None" by blast+
qed

text \<open>
  C5: rows and batch share one lock: whatever is clicked and answered, no invoice is in two open sends at once. An invoice is
  sent by its row only while it is in no open send, and the batch is sent only while no send is open at all.
\<close>

theorem sends_never_overlap:
  assumes "action_start st0" "(action_step env)\<^sup>*\<^sup>* st0 st"
  shows "distinct (open_sends st)
    \<and> (\<forall>st' i. action_step env st st' \<and> ac_requests st' = ac_requests st @ [rq_email i] \<longrightarrow> i \<notin> set (open_sends st))
    \<and> (\<forall>st' z s u. action_step env st st' \<and> ac_requests st' = ac_requests st @ [rq_batch mu_sendAll z s u] \<longrightarrow> open_sends st = [])"
proof -
  have inv: "send_inv st" using send_inv_reachable [OF assms(2,1)] .
  have "i \<notin> set (open_sends st)" if "\<not> rowSendLocked st i" for i
    using not_locked [OF that] by (cases "ac_watch st") (auto simp: open_sends_def isPending_def isTracking_def list_ex_iff)
  moreover have "open_sends st = []" if "\<not> isPending st mu_sendAll \<and> \<not> isPending st mu_email \<and> ac_watch st = None"
    using that by (simp add: open_sends_def isPending_def)
  ultimately show ?thesis using inv step_requests by (auto simp: send_inv_def)
qed

definition approved_invoice :: Invoice where
  "approved_invoice = \<lparr>inv_id = ''i'', inv_status = ''approved'', inv_due_date = None, inv_total_chf = ''10.00'', inv_credit_applied_chf = None,
     inv_amount_due_chf = None, inv_paid_chf = None, inv_outstanding_chf = None, inv_credits = None, inv_credit_applications = None,
     inv_pdf_url = None, inv_pdf_status = None, inv_last_email_status = None, inv_email_logs = None, inv_needs_data_review = False,
     inv_approved_at = Some ''2026-02-01''\<rparr>"

definition approved_row :: InvoicePeriodParticipantRow where
  "approved_row = \<lparr>row_participant_id = ''p'', row_participant_email = Some ''a@b.ch'', row_party_id = ''q'', row_invoice = Some approved_invoice,
     row_generation_eligibility = None, row_eligibility_invoice_id = None, row_metering_data_complete = True, row_metering_points_total = 1\<rparr>"

definition quarter_page :: action_state where
  "quarter_page = (let sc = \<lparr>sc_number = 0, sc_selectedZevId = Some ''z'', sc_canWrite = True, sc_accountId = Some 1, sc_scopeKey = Some ''2026-01-01|2026-03-31''\<rparr>
     in \<lparr>ws_scope = sc, ws_current = Some sc, ac_rows = [approved_row], ac_generationParticipantIds = [], ac_canGenerate = True,
       ac_userRole = Some ''zev_owner'', ac_period = (''2026-01-01'', ''2026-03-31''), ac_slots = [], ac_watch = None, ac_requests = [],
       ac_toasts = [], ac_pdfQueued = []\<rparr>)"

definition plain_action_env :: action_env where
  "plain_action_env = \<lparr>ae_t = (\<lambda>key _. key), ae_host = example_host, ae_settings = DEFAULT_APP_SETTINGS\<rparr>"

theorem sends_never_overlap_witness:
  "open_sends (do_click plain_action_env (ck_send ''i'') quarter_page) = [''i''] \<and> ''i'' \<notin> set (open_sends quarter_page)"
proof -
  have start: "action_start quarter_page"
    by (simp add: action_start_def quarter_page_def rows_ok_def approved_row_def List.map_filter_def Let_def)
  have off: "item ''send-email'' (ck_send ''i'') False \<in> offered (parse_in plain_action_env) quarter_page"
    by (simp add: offered_def quarter_page_def approved_row_def approved_invoice_def getPrimaryRowAction_def liveInvoice_def item_def
      rowSendLocked_def isPending_def isSending_def isTracking_def pending_for_def Let_def)
  have step: "action_step plain_action_env quarter_page (do_click plain_action_env (ck_send ''i'') quarter_page)"
    using action_step.click [OF off] by (simp add: item_def)
  moreover have "ac_requests (do_click plain_action_env (ck_send ''i'') quarter_page) = ac_requests quarter_page @ [rq_email ''i'']" by simp
  moreover have "open_sends (do_click plain_action_env (ck_send ''i'') quarter_page) = [''i'']"
    by (simp add: open_sends_def send_target_def quarter_page_def Let_def)
  ultimately show ?thesis using sends_never_overlap [OF start rtranclp.rtrancl_refl] by blast
qed

end
