(* ===== verification/Metering_Labels.thy ===== *)
theory Metering_Labels
  imports Metering_Points Tariff_Errors
begin

text \<open>
  How readings are labelled (\<open>frontend/src/lib/meteringLabels.ts\<close>): the buckets of a chart and the
  timestamps of the raw table, in the business time zone, the quality codes, the direction of a reading and the name of
  a metering point. The host's date parser, its month names and the text of the zone offset are arguments.

  The theorem: two readings at different minutes never have the same timestamp label, also in the hour that the end
  of summer time repeats; the text of the offset is what tells them apart.
\<close>

section \<open>Buckets\<close>

record bucket_parts =
  bp_dayPadded :: string
  bp_monthPadded :: string
  bp_monthShort :: string
  bp_year :: string
  bp_hoursPadded :: string
  bp_minutesPadded :: string

definition bucketParts :: "(instant \<Rightarrow> int) \<Rightarrow> (int \<Rightarrow> string) \<Rightarrow> instant \<Rightarrow> bucket_parts" where
  "bucketParts off monthShort date =
     (let p = zonedParts off date
      in \<lparr>bp_dayPadded = pad (zp_day p), bp_monthPadded = pad (zp_month p), bp_monthShort = monthShort (zp_month p),
          bp_year = int_str (zp_year p), bp_hoursPadded = pad (zp_hours p), bp_minutesPadded = pad (zp_minutes p)\<rparr>)"

record label_host = host +
  h_monthShort :: "int \<Rightarrow> string"
  h_offsetText :: "instant \<Rightarrow> string option"

abbreviation parts_of :: "label_host \<Rightarrow> instant \<Rightarrow> bucket_parts" where
  "parts_of h \<equiv> bucketParts (h_off h) (h_monthShort h)"

definition formatBucketShortDate :: "label_host \<Rightarrow> string \<Rightarrow> AppSettings \<Rightarrow> string" where
  "formatBucketShortDate h bucket settings =
     (case h_dateParse h bucket of None \<Rightarrow> bucket
      | Some date \<Rightarrow>
          let p = parts_of h date
          in case date_format_short settings of
               dd_dot_MM_dot_yyyy \<Rightarrow> bp_dayPadded p @ ''.'' @ bp_monthPadded p @ ''.'' @ bp_year p
             | dd_slash_MM_slash_yyyy \<Rightarrow> bp_dayPadded p @ ''/'' @ bp_monthPadded p @ ''/'' @ bp_year p
             | MM_slash_dd_slash_yyyy \<Rightarrow> bp_monthPadded p @ ''/'' @ bp_dayPadded p @ ''/'' @ bp_year p
             | yyyy_MM_dd \<Rightarrow> bp_year p @ ''-'' @ bp_monthPadded p @ ''-'' @ bp_dayPadded p
             | _ \<Rightarrow> bucket)"

fun write_date_time :: "bucket_parts \<Rightarrow> DateTimeFormat \<Rightarrow> string" where
  "write_date_time p dt_dd_dot = bp_dayPadded p @ ''.'' @ bp_monthPadded p @ ''.'' @ bp_year p @ '' '' @ bp_hoursPadded p @ '':'' @ bp_minutesPadded p"
| "write_date_time p dt_dd_slash = bp_dayPadded p @ ''/'' @ bp_monthPadded p @ ''/'' @ bp_year p @ '' '' @ bp_hoursPadded p @ '':'' @ bp_minutesPadded p"
| "write_date_time p dt_MM_slash = bp_monthPadded p @ ''/'' @ bp_dayPadded p @ ''/'' @ bp_year p @ '' '' @ bp_hoursPadded p @ '':'' @ bp_minutesPadded p"
| "write_date_time p dt_iso = bp_year p @ ''-'' @ bp_monthPadded p @ ''-'' @ bp_dayPadded p @ '' '' @ bp_hoursPadded p @ '':'' @ bp_minutesPadded p"

definition formatBucketDateTime :: "label_host \<Rightarrow> string \<Rightarrow> AppSettings \<Rightarrow> string" where
  "formatBucketDateTime h bucket settings =
     (case h_dateParse h bucket of None \<Rightarrow> bucket | Some date \<Rightarrow> write_date_time (parts_of h date) (date_time_format settings))"

definition formatBucketMonthYear :: "label_host \<Rightarrow> string \<Rightarrow> string" where
  "formatBucketMonthYear h bucket =
     (case h_dateParse h bucket of None \<Rightarrow> bucket | Some date \<Rightarrow> bp_monthShort (parts_of h date) @ '' '' @ bp_year (parts_of h date))"

datatype bucket_resolution = by_day | by_hour | by_month

definition formatMeteringBucketLabel :: "label_host \<Rightarrow> string \<Rightarrow> bucket_resolution \<Rightarrow> AppSettings \<Rightarrow> string" where
  "formatMeteringBucketLabel h bucket resolution settings =
     (case resolution of by_hour \<Rightarrow> formatBucketDateTime h bucket settings
      | by_month \<Rightarrow> formatBucketMonthYear h bucket
      | by_day \<Rightarrow> formatBucketShortDate h bucket settings)"

definition formatMeteringTimestamp :: "label_host \<Rightarrow> string \<Rightarrow> AppSettings \<Rightarrow> string" where
  "formatMeteringTimestamp h value settings =
     (case h_dateParse h value of None \<Rightarrow> value
      | Some date \<Rightarrow> formatBucketDateTime h value settings @ '' '' @ nullish (h_offsetText h date) ''undefined'')"

section \<open>Codes, directions and names\<close>

definition conditionLabel :: "string \<Rightarrow> translate \<Rightarrow> string" where
  "conditionLabel condition translate =
     (if condition = [] then translate ''pages.meteringData.rawTable.conditionValid'' []
      else if condition = ''56'' then translate ''pages.meteringData.rawTable.conditionEstimated'' [] @ '' (56)''
      else if condition = ''21'' then translate ''pages.meteringData.rawTable.conditionTemporary'' [] @ '' (21)''
      else translate ''pages.meteringData.rawTable.conditionOther'' [(''code'', JStr condition)])"

definition outReadingLabelKey :: "meter_type option \<Rightarrow> string \<Rightarrow> string \<Rightarrow> string" where
  "outReadingLabelKey meterType whenProduction otherwise = (if meterType = Some mt_production then whenProduction else otherwise)"

fun meter_type_text :: "meter_type \<Rightarrow> string" where
  "meter_type_text mt_consumption = ''consumption''"
| "meter_type_text mt_production = ''production''"
| "meter_type_text mt_bidirectional = ''bidirectional''"

definition meteringPointOptionLabel :: "MeteringPoint \<Rightarrow> string option \<Rightarrow> translate \<Rightarrow> string" where
  "meteringPointOptionLabel mp zevName translate =
     join middle_dot ([mp_meter_id mp, translate (''pages.meteringPoints.meterTypes.'' @ meter_type_text (mp_meter_type mp)) []]
       @ (if \<not> mp_is_active mp then [translate ''pages.meteringPoints.inactive'' []] else [])
       @ (if truthy zevName then [nullish zevName []] else []))"

section \<open>Labels tell minutes apart\<close>

text \<open>
  What the labels rest on, from 1900 on (the local mean times before it have seconds): the zone is whole minutes from
  UTC, and its offset text, which is there for every instant, differs when the offset does.
\<close>

definition since_1900 :: "instant \<Rightarrow> bool" where
  "since_1900 a \<longleftrightarrow> - 2208988800000 \<le> a"

definition offset_named :: "label_host \<Rightarrow> bool" where
  "offset_named h \<longleftrightarrow> (\<forall>a. since_1900 a \<longrightarrow> 60000 dvd h_off h a \<and> h_offsetText h a \<noteq> None)
     \<and> (\<forall>a b. since_1900 a \<longrightarrow> since_1900 b \<longrightarrow> h_offsetText h a = h_offsetText h b \<longrightarrow> h_off h a = h_off h b)"

abbreviation wall :: "label_host \<Rightarrow> instant \<Rightarrow> int" where
  "wall h a \<equiv> a + h_off h a"

text \<open>The clock of a wall time; kept folded, since division by large numerals is slow to simplify.\<close>

definition wall_day :: "int \<Rightarrow> int" where
  "wall_day w = w div day_ms"

definition wall_hour :: "int \<Rightarrow> int" where
  "wall_hour w = w mod day_ms div 3600000"

definition wall_minute :: "int \<Rightarrow> int" where
  "wall_minute w = w mod day_ms mod 3600000 div 60000"

lemma clock_range: "0 \<le> wall_hour w" "wall_hour w < 100" "0 \<le> wall_minute w" "wall_minute w < 100"
proof -
  have "0 \<le> w mod day_ms" "w mod day_ms < 86400000" "0 \<le> w mod day_ms mod 3600000" "w mod day_ms mod 3600000 < 3600000" by simp_all
  then show "0 \<le> wall_hour w" "wall_hour w < 100" "0 \<le> wall_minute w" "wall_minute w < 100"
    unfolding wall_hour_def wall_minute_def by linarith+
qed

lemma zoned_clock: "zonedParts off a = \<lparr>zp_year = YearFromDay (wall_day (a + off a)), zp_month = MonthFromDay (wall_day (a + off a)) + 1,
    zp_day = DateFromDay (wall_day (a + off a)), zp_hours = wall_hour (a + off a), zp_minutes = wall_minute (a + off a)\<rparr>"
  unfolding zonedParts_def Let_def wall_day_def wall_hour_def wall_minute_def by (rule refl)

lemma clock_digs: "0 \<le> n \<Longrightarrow> n < 100 \<Longrightarrow> pad n = digs 2 (nat n)"
  by (simp add: pad_def padStart_2)

lemma parts_as_digs:
  assumes "padded_year (wall_day (wall h a))"
  shows "bp_dayPadded (parts_of h a) = digs 2 (nat (DateFromDay (wall_day (wall h a))))"
    "bp_monthPadded (parts_of h a) = digs 2 (nat (MonthFromDay (wall_day (wall h a)) + 1))"
    "bp_year (parts_of h a) = digs 4 (nat (YearFromDay (wall_day (wall h a))))"
    "bp_hoursPadded (parts_of h a) = digs 2 (nat (wall_hour (wall h a)))"
    "bp_minutesPadded (parts_of h a) = digs 2 (nat (wall_minute (wall h a)))"
  using parts_digs [OF assms] clock_range [of "wall h a"]
  by (simp_all add: bucketParts_def zoned_clock Let_def clock_digs del: digs.simps)

lemma minute_multiple: "60000 dvd w \<Longrightarrow> w = wall_day w * day_ms + (wall_hour w * 3600000 + wall_minute w * 60000)"
proof -
  assume "60000 dvd w"
  then have "60000 dvd w mod day_ms mod 3600000" by (simp add: dvd_mod)
  then have "w mod day_ms mod 3600000 = wall_minute w * 60000" unfolding wall_minute_def by (rule dvd_div_mult_self [symmetric])
  then have "w mod day_ms = wall_hour w * 3600000 + wall_minute w * 60000" unfolding wall_hour_def by (metis div_mult_mod_eq)
  then show ?thesis unfolding wall_day_def by (metis div_mult_mod_eq)
qed

lemma minute_of: "60000 dvd w \<Longrightarrow> 60000 dvd v \<Longrightarrow> wall_day w = wall_day v \<Longrightarrow> wall_hour w = wall_hour v \<Longrightarrow> wall_minute w = wall_minute v \<Longrightarrow> w = v"
  using minute_multiple [of w] minute_multiple [of v] by simp

lemma digs_inj:
  assumes "digs k (nat x) = digs k (nat y)" "0 \<le> x" "x < 10 ^ k" "0 \<le> y" "y < 10 ^ k"
  shows "x = y"
proof -
  have "nat x < 10 ^ k" "nat y < 10 ^ k" using assms by (simp_all add: nat_less_iff)
  then have "nat x = nat y" using digs_eq_mod [OF assms(1)] by simp
  then show ?thesis using assms by (simp add: eq_nat_nat_iff)
qed

definition fixed_widths :: "bucket_parts \<Rightarrow> bool" where
  "fixed_widths p \<longleftrightarrow> length (bp_dayPadded p) = 2 \<and> length (bp_monthPadded p) = 2 \<and> length (bp_year p) = 4
     \<and> length (bp_hoursPadded p) = 2 \<and> length (bp_minutesPadded p) = 2"

lemma write_date_time_inj:
  assumes "fixed_widths p" "fixed_widths q" "write_date_time p f = write_date_time q f"
  shows "bp_dayPadded p = bp_dayPadded q \<and> bp_monthPadded p = bp_monthPadded q \<and> bp_year p = bp_year q
    \<and> bp_hoursPadded p = bp_hoursPadded q \<and> bp_minutesPadded p = bp_minutesPadded q"
  using assms by (cases f) (simp_all add: fixed_widths_def)

lemma length_write_date_time: "fixed_widths p \<Longrightarrow> length (write_date_time p f) = 16"
  by (cases f) (simp_all add: fixed_widths_def)

lemma parts_widths: "padded_year (wall_day (wall h a)) \<Longrightarrow> fixed_widths (parts_of h a)"
  using length_digs by (simp add: fixed_widths_def parts_as_digs del: digs.simps)

lemma date_time_determines:
  assumes "padded_year (wall_day (wall h a))" "padded_year (wall_day (wall h b))" "60000 dvd wall h a" "60000 dvd wall h b"
    and "write_date_time (parts_of h a) f = write_date_time (parts_of h b) f"
  shows "wall h a = wall h b"
proof -
  let ?d = "\<lambda>x. wall_day (wall h x)"
  have eq: "digs 2 (nat (DateFromDay (?d a))) = digs 2 (nat (DateFromDay (?d b)))
      \<and> digs 2 (nat (MonthFromDay (?d a) + 1)) = digs 2 (nat (MonthFromDay (?d b) + 1))
      \<and> digs 4 (nat (YearFromDay (?d a))) = digs 4 (nat (YearFromDay (?d b)))
      \<and> digs 2 (nat (wall_hour (wall h a))) = digs 2 (nat (wall_hour (wall h b)))
      \<and> digs 2 (nat (wall_minute (wall h a))) = digs 2 (nat (wall_minute (wall h b)))"
    using write_date_time_inj [OF parts_widths [OF assms(1)] parts_widths [OF assms(2)] assms(5)]
    unfolding parts_as_digs [OF assms(1)] parts_as_digs [OF assms(2)] .
  have "DateFromDay (?d a) = DateFromDay (?d b)"
    using eq date_range [of "?d a"] date_range [of "?d b"] by (intro digs_inj [of 2]) simp_all
  moreover have "MonthFromDay (?d a) + 1 = MonthFromDay (?d b) + 1"
    using eq month_range [of "?d a"] month_range [of "?d b"] by (intro digs_inj [of 2]) simp_all
  moreover have "YearFromDay (?d a) = YearFromDay (?d b)"
    using eq assms(1,2) by (intro digs_inj [of 4]) simp_all
  ultimately have "?d a = ?d b" by - (rule day_eqI, simp_all)
  moreover have "wall_hour (wall h a) = wall_hour (wall h b)"
    using eq clock_range [of "wall h a"] clock_range [of "wall h b"] by (intro digs_inj [of 2]) simp_all
  moreover have "wall_minute (wall h a) = wall_minute (wall h b)"
    using eq clock_range [of "wall h a"] clock_range [of "wall h b"] by (intro digs_inj [of 2]) simp_all
  ultimately show ?thesis by (rule minute_of [OF assms(3,4)])
qed

text \<open>
  C22: two readings of the raw table at different minutes never have the same label, whatever the date and time format;
  in the repeated hour of autumn, where the date and time agree, the offset written after them differs.
\<close>

theorem timestamp_labels_differ:
  assumes "offset_named h" "h_dateParse h v = Some a" "h_dateParse h u = Some b" "60000 dvd a" "60000 dvd b"
    and "since_1900 a" "since_1900 b"
    and "padded_year (wall_day (wall h a))" "padded_year (wall_day (wall h b))"
    and "formatMeteringTimestamp h v settings = formatMeteringTimestamp h u settings"
  shows "a = b"
proof -
  have eq: "write_date_time (parts_of h a) (date_time_format settings) @ '' '' @ nullish (h_offsetText h a) ''undefined''
      = write_date_time (parts_of h b) (date_time_format settings) @ '' '' @ nullish (h_offsetText h b) ''undefined''"
    using assms(2,3,10) by (simp add: formatMeteringTimestamp_def formatBucketDateTime_def)
  note len = length_write_date_time [OF parts_widths [OF assms(8)]] length_write_date_time [OF parts_widths [OF assms(9)]]
  note parts = iffD1 [OF append_eq_append_conv eq, OF disjI1, OF trans [OF len(1) len(2) [symmetric]]]
  have dt: "write_date_time (parts_of h a) (date_time_format settings) = write_date_time (parts_of h b) (date_time_format settings)"
    by (rule conjunct1 [OF parts])
  have off: "nullish (h_offsetText h a) ''undefined'' = nullish (h_offsetText h b) ''undefined''"
    using conjunct2 [OF parts] by simp
  have some: "h_offsetText h a \<noteq> None" "h_offsetText h b \<noteq> None" and whole: "60000 dvd h_off h a" "60000 dvd h_off h b"
    and named: "h_offsetText h a = h_offsetText h b \<Longrightarrow> h_off h a = h_off h b"
    using assms(1,6,7) unfolding offset_named_def by blast+
  have "h_off h a = h_off h b" using off some by (intro named) auto
  moreover have "wall h a = wall h b" using date_time_determines [OF assms(8,9) _ _ dt] assms(4,5) whole by (simp add: dvd_add)
  ultimately show ?thesis by simp
qed

text \<open>The night of 25 October 2026: half past two, twice.\<close>

definition autumn_host :: label_host where
  "autumn_host = \<lparr>h_dateParse = (\<lambda>s. map_of [(''first'', 1792888200000), (''second'', 1792891800000)] s), h_monthLong = (\<lambda>_. []),
     h_off = (\<lambda>a. if a < 1792890000000 then 7200000 else 3600000), h_monthShort = (\<lambda>_. []),
     h_offsetText = (\<lambda>a. Some (if a < 1792890000000 then ''GMT+02:00'' else ''GMT+01:00''))\<rparr>"

theorem timestamp_labels_differ_witness:
  "formatBucketDateTime autumn_host ''first'' DEFAULT_APP_SETTINGS = formatBucketDateTime autumn_host ''second'' DEFAULT_APP_SETTINGS
   \<and> formatMeteringTimestamp autumn_host ''first'' DEFAULT_APP_SETTINGS \<noteq> formatMeteringTimestamp autumn_host ''second'' DEFAULT_APP_SETTINGS"
proof -
  have h: "offset_named autumn_host" "h_dateParse autumn_host ''first'' = Some 1792888200000" "h_dateParse autumn_host ''second'' = Some 1792891800000"
    by (simp_all add: offset_named_def autumn_host_def)
  have m: "60000 dvd (1792888200000 :: int)" "60000 dvd (1792891800000 :: int)" "since_1900 1792888200000" "since_1900 1792891800000"
    by (simp_all add: since_1900_def)
  have y: "padded_year (wall_day (wall autumn_host 1792888200000))" "padded_year (wall_day (wall autumn_host 1792891800000))"
    by code_simp+
  have "formatBucketDateTime autumn_host ''first'' DEFAULT_APP_SETTINGS = formatBucketDateTime autumn_host ''second'' DEFAULT_APP_SETTINGS"
    by (simp add: formatBucketDateTime_def bucketParts_def zonedParts_def autumn_host_def)
  moreover have "(1792888200000 :: int) \<noteq> 1792891800000" by simp
  ultimately show ?thesis using timestamp_labels_differ [OF h m y] by blast
qed

end
