(* ===== verification/Feasibility.thy ===== *)
theory Feasibility
  imports JS_Text
begin

text \<open>
  The feasibility calculator's form (\<open>frontend/src/features/feasibility/useFeasibilityForm.ts\<close>): what the schema
  accepts, how production, internal price and the participants' totals are resolved, the conversion when the price
  mode is switched, the request that is sent and what a prefill does to the form. All arithmetic is on doubles.

  The theorem: a form the schema accepts yields a request the calculator can read: both rates have four decimals and lie
  between 0 and 1, the horizon is a whole number of 1 to 50 years, every row has a name, and every amount the form
  computes is written with the number of decimals of its field.
\<close>

section \<open>The form\<close>

datatype InternalEnergyPriceMode = absolute_price | percentage_of_retail

datatype AnnualProductionMode = absolute_production | from_kwp

datatype EnergyInputMode = aggregate | by_participants

record ParticipantFormRow =
  fr_name :: string
  fr_annual_production_kwh :: string
  fr_annual_consumption_kwh :: string

definition emptyParticipantRow :: ParticipantFormRow where
  "emptyParticipantRow = \<lparr>fr_name = [], fr_annual_production_kwh = ''0'', fr_annual_consumption_kwh = ''0''\<rparr>"

record FeasibilityFormValues =
  ff_energy_input_mode :: EnergyInputMode
  ff_annual_production_mode :: AnnualProductionMode
  ff_annual_production_kwh :: string
  ff_pv_kwp :: string
  ff_specific_yield_kwh_per_kwp :: string
  ff_annual_consumption_kwh :: string
  ff_participants :: "ParticipantFormRow list"
  ff_self_consumption_rate_pct :: string
  ff_retail_price_chf_per_kwh :: string
  ff_feed_in_price_chf_per_kwh :: string
  ff_internal_energy_price_mode :: InternalEnergyPriceMode
  ff_internal_energy_price_chf_per_kwh :: string
  ff_internal_energy_price_pct_of_retail :: string
  ff_annual_opex_chf :: string
  ff_capex_chf :: string
  ff_horizon_years :: string
  ff_discount_rate_pct :: string

definition isNonNegativeNumber :: "string \<Rightarrow> bool" where
  "isNonNegativeNumber value = (if trim value = [] then False else let n = js_Number value in n \<noteq> NaN \<and> js_le (Fin 0) n)"

definition isPercentage :: "string \<Rightarrow> bool" where
  "isPercentage value =
     (if trim value = [] then False else let n = js_Number value in n \<noteq> NaN \<and> js_le (Fin 0) n \<and> js_le n (Fin 100))"

definition isHorizon :: "string \<Rightarrow> bool" where
  "isHorizon v = (let n = js_Number v in num_int n \<noteq> None \<and> js_le (Fin 1) n \<and> js_le n (Fin 50))"

definition participantRowSchema :: "ParticipantFormRow \<Rightarrow> bool" where
  "participantRowSchema row \<longleftrightarrow> isNonNegativeNumber (fr_annual_production_kwh row) \<and> isNonNegativeNumber (fr_annual_consumption_kwh row)"

text \<open>The schema has no messages of its own: it accepts or it does not.\<close>

definition feasibilityFormSchema :: "FeasibilityFormValues \<Rightarrow> bool" where
  "feasibilityFormSchema values \<longleftrightarrow>
     isNonNegativeNumber (ff_annual_production_kwh values) \<and> isNonNegativeNumber (ff_pv_kwp values)
     \<and> isNonNegativeNumber (ff_specific_yield_kwh_per_kwp values) \<and> isNonNegativeNumber (ff_annual_consumption_kwh values)
     \<and> list_all participantRowSchema (ff_participants values) \<and> isPercentage (ff_self_consumption_rate_pct values)
     \<and> isNonNegativeNumber (ff_retail_price_chf_per_kwh values) \<and> isNonNegativeNumber (ff_feed_in_price_chf_per_kwh values)
     \<and> isNonNegativeNumber (ff_internal_energy_price_chf_per_kwh values) \<and> isNonNegativeNumber (ff_internal_energy_price_pct_of_retail values)
     \<and> isNonNegativeNumber (ff_annual_opex_chf values) \<and> isNonNegativeNumber (ff_capex_chf values)
     \<and> isHorizon (ff_horizon_years values) \<and> isPercentage (ff_discount_rate_pct values)"

definition defaultFeasibilityFormValues :: FeasibilityFormValues where
  "defaultFeasibilityFormValues = \<lparr>ff_energy_input_mode = aggregate, ff_annual_production_mode = absolute_production,
     ff_annual_production_kwh = ''10000'', ff_pv_kwp = ''10'', ff_specific_yield_kwh_per_kwp = ''950'',
     ff_annual_consumption_kwh = ''8000'', ff_participants = [], ff_self_consumption_rate_pct = ''50'',
     ff_retail_price_chf_per_kwh = ''0.32'', ff_feed_in_price_chf_per_kwh = ''0.09'',
     ff_internal_energy_price_mode = absolute_price, ff_internal_energy_price_chf_per_kwh = ''0.20'',
     ff_internal_energy_price_pct_of_retail = ''62.5'', ff_annual_opex_chf = ''300'', ff_capex_chf = ''2000'',
     ff_horizon_years = ''20'', ff_discount_rate_pct = ''3''\<rparr>"

section \<open>What the form resolves to\<close>

definition toFixedString :: "jsnum \<Rightarrow> nat \<Rightarrow> string" where
  "toFixedString value decimalPlaces = to_fixed decimalPlaces value"

definition resolveAnnualProductionKwh :: "FeasibilityFormValues \<Rightarrow> jsnum" where
  "resolveAnnualProductionKwh values =
     (if ff_annual_production_mode values = from_kwp
      then js_mul (js_Number (ff_pv_kwp values)) (js_Number (ff_specific_yield_kwh_per_kwp values))
      else js_Number (ff_annual_production_kwh values))"

definition resolveInternalEnergyPriceChf :: "FeasibilityFormValues \<Rightarrow> jsnum" where
  "resolveInternalEnergyPriceChf values =
     (if ff_internal_energy_price_mode values = percentage_of_retail
      then js_div (js_mul (js_Number (ff_retail_price_chf_per_kwh values)) (js_Number (ff_internal_energy_price_pct_of_retail values))) (Fin 100)
      else js_Number (ff_internal_energy_price_chf_per_kwh values))"

definition trimNumber :: "jsnum \<Rightarrow> nat \<Rightarrow> string" where
  "trimNumber value decimals = num_str (js_Number (to_fixed decimals value))"

text \<open>The field to set on a switch, and its value.\<close>

datatype converted_price = set_pct_of_retail string | set_chf_per_kwh string

definition convertedInternalPriceForMode :: "FeasibilityFormValues \<Rightarrow> InternalEnergyPriceMode \<Rightarrow> converted_price option" where
  "convertedInternalPriceForMode values newMode =
     (let retail = js_Number (ff_retail_price_chf_per_kwh values)
      in if \<not> js_isFinite retail \<or> js_le retail (Fin 0) then None
         else if newMode = percentage_of_retail
         then let absolute = js_Number (ff_internal_energy_price_chf_per_kwh values)
              in if \<not> js_isFinite absolute then None
                 else Some (set_pct_of_retail (trimNumber (js_mul (js_div absolute retail) (Fin 100)) 4))
         else let pct = js_Number (ff_internal_energy_price_pct_of_retail values)
              in if \<not> js_isFinite pct then None
                 else Some (set_chf_per_kwh (trimNumber (js_div (js_mul retail pct) (Fin 100)) 5)))"

text \<open>Switching the mode on the page: the converted field first, then the mode.\<close>

definition switch_price_mode :: "InternalEnergyPriceMode \<Rightarrow> FeasibilityFormValues \<Rightarrow> FeasibilityFormValues" where
  "switch_price_mode newMode values =
     (case convertedInternalPriceForMode values newMode of
        None \<Rightarrow> values
      | Some (set_pct_of_retail v) \<Rightarrow> values\<lparr>ff_internal_energy_price_pct_of_retail := v\<rparr>
      | Some (set_chf_per_kwh v) \<Rightarrow> values\<lparr>ff_internal_energy_price_chf_per_kwh := v\<rparr>)\<lparr>ff_internal_energy_price_mode := newMode\<rparr>"

definition namedParticipantRows :: "FeasibilityFormValues \<Rightarrow> ParticipantFormRow list" where
  "namedParticipantRows values =
     (if ff_energy_input_mode values \<noteq> by_participants then []
      else filter (\<lambda>row. trim (fr_name row) \<noteq> []) (ff_participants values))"

text \<open>\<open>Number(text || '0')\<close>.\<close>

definition amount :: "string \<Rightarrow> jsnum" where
  "amount text = js_Number (or_str (Some text) ''0'')"

definition resolveParticipantTotals :: "FeasibilityFormValues \<Rightarrow> jsnum \<times> jsnum" where
  "resolveParticipantTotals values =
     (let rows = namedParticipantRows values
      in (foldl (\<lambda>sum row. js_add sum (amount (fr_annual_production_kwh row))) (Fin 0) rows,
          foldl (\<lambda>sum row. js_add sum (amount (fr_annual_consumption_kwh row))) (Fin 0) rows))"

section \<open>The request\<close>

record FeasibilityParticipantInput =
  fpi_name :: string
  fpi_annual_production_kwh :: string
  fpi_annual_consumption_kwh :: string

record FeasibilityInput =
  fi_annual_production_kwh :: string
  fi_annual_consumption_kwh :: string
  fi_self_consumption_rate :: string
  fi_retail_price_chf_per_kwh :: string
  fi_feed_in_price_chf_per_kwh :: string
  fi_internal_energy_price_chf_per_kwh :: string
  fi_annual_opex_chf :: string
  fi_capex_chf :: string
  fi_horizon_years :: jsnum
  fi_discount_rate :: string
  fi_participants :: "FeasibilityParticipantInput list"

definition useParticipants :: "FeasibilityFormValues \<Rightarrow> bool" where
  "useParticipants values \<longleftrightarrow> ff_energy_input_mode values = by_participants \<and> 0 < length (namedParticipantRows values)"

definition mapFormValuesToPayload :: "FeasibilityFormValues \<Rightarrow> FeasibilityInput" where
  "mapFormValuesToPayload values =
     (let rows = namedParticipantRows values; participantTotals = resolveParticipantTotals values
      in \<lparr>fi_annual_production_kwh =
            (if useParticipants values then toFixedString (fst participantTotals) 4 else toFixedString (resolveAnnualProductionKwh values) 4),
          fi_annual_consumption_kwh = (if useParticipants values then toFixedString (snd participantTotals) 4 else ff_annual_consumption_kwh values),
          fi_self_consumption_rate = toFixedString (js_div (js_Number (ff_self_consumption_rate_pct values)) (Fin 100)) 4,
          fi_retail_price_chf_per_kwh = ff_retail_price_chf_per_kwh values,
          fi_feed_in_price_chf_per_kwh = ff_feed_in_price_chf_per_kwh values,
          fi_internal_energy_price_chf_per_kwh = toFixedString (resolveInternalEnergyPriceChf values) 5,
          fi_annual_opex_chf = ff_annual_opex_chf values,
          fi_capex_chf = ff_capex_chf values,
          fi_horizon_years = js_Number (ff_horizon_years values),
          fi_discount_rate = toFixedString (js_div (js_Number (ff_discount_rate_pct values)) (Fin 100)) 4,
          fi_participants =
            (if useParticipants values
             then map (\<lambda>row. \<lparr>fpi_name = fr_name row,
                    fpi_annual_production_kwh = toFixedString (amount (fr_annual_production_kwh row)) 4,
                    fpi_annual_consumption_kwh = toFixedString (amount (fr_annual_consumption_kwh row)) 4\<rparr>) rows
             else [])\<rparr>)"

section \<open>Prefill\<close>

record FeasibilityPrefillParticipant =
  fpp_name :: string
  fpp_annual_production_kwh :: string
  fpp_annual_consumption_kwh :: string
  fpp_has_metering_data :: bool

record FeasibilityPrefill =
  fp_participants :: "FeasibilityPrefillParticipant list"
  fp_self_consumption_rate :: "string option"
  fp_retail_price_chf_per_kwh :: "string option"
  fp_feed_in_price_chf_per_kwh :: "string option"
  fp_internal_energy_price_chf_per_kwh :: "string option"

definition applyPrefillToFormValues :: "FeasibilityPrefill \<Rightarrow> FeasibilityFormValues \<Rightarrow> FeasibilityFormValues" where
  "applyPrefillToFormValues prefill current =
     current\<lparr>ff_energy_input_mode := by_participants,
       ff_participants := map (\<lambda>p. \<lparr>fr_name = fpp_name p, fr_annual_production_kwh = fpp_annual_production_kwh p,
         fr_annual_consumption_kwh = fpp_annual_consumption_kwh p\<rparr>) (fp_participants prefill),
       ff_self_consumption_rate_pct := (case fp_self_consumption_rate prefill of
           Some r \<Rightarrow> num_str (js_Number (to_fixed 2 (js_mul (js_Number r) (Fin 100))))
         | None \<Rightarrow> ff_self_consumption_rate_pct current),
       ff_retail_price_chf_per_kwh := nullish (fp_retail_price_chf_per_kwh prefill) (ff_retail_price_chf_per_kwh current),
       ff_feed_in_price_chf_per_kwh := nullish (fp_feed_in_price_chf_per_kwh prefill) (ff_feed_in_price_chf_per_kwh current),
       ff_internal_energy_price_mode := absolute_price,
       ff_internal_energy_price_chf_per_kwh :=
         nullish (fp_internal_energy_price_chf_per_kwh prefill) (ff_internal_energy_price_chf_per_kwh current)\<rparr>"

section \<open>The request can be read\<close>

lemma payload_names: "map fpi_name (fi_participants (mapFormValuesToPayload values)) = map fr_name (namedParticipantRows values)"
  by (simp add: mapFormValuesToPayload_def useParticipants_def Let_def namedParticipantRows_def)

text \<open>\<open>s\<close> is \<open>x\<close> with \<open>k\<close> decimals: within half a unit of the last one.\<close>

definition writes :: "nat \<Rightarrow> jsnum \<Rightarrow> string \<Rightarrow> bool" where
  "writes k x s \<longleftrightarrow> (\<exists>m q. x = Fin q \<and> s = nat_str (m div 10 ^ k) @ ''.'' @ digs k m \<and> \<bar>of_nat m - q * 10 ^ k\<bar> \<le> 1 / 2)"

text \<open>From \<open>10\<^sup>2\<^sup>1\<close> on, \<open>toFixed\<close> writes an exponent.\<close>

definition in_range :: "jsnum \<Rightarrow> bool" where
  "in_range x = (case x of Fin q \<Rightarrow> q < 10 ^ 21 | _ \<Rightarrow> False)"

definition rate_text :: "string \<Rightarrow> bool" where
  "rate_text s \<longleftrightarrow> s = ''1.0000'' \<or> (\<exists>m < 10000. s = ''0.'' @ digs 4 m)"

lemma nonneg_cases: "js_le (Fin 0) x \<longleftrightarrow> x = Infty True \<or> (\<exists>q \<ge> 0. x = Fin q)"
  by (cases x) (auto simp: js_le_def js_eq_def less_le)

lemma nonneg_to_num: "0 \<le> q \<Longrightarrow> js_le (Fin 0) (to_num q)"
  using fl_nonneg [of q] by (simp add: nonneg_cases to_num_def Let_def less_le)

lemma nonneg_add: "js_le (Fin 0) x \<Longrightarrow> js_le (Fin 0) y \<Longrightarrow> js_le (Fin 0) (js_add x y)"
  using nonneg_to_num by (cases x; cases y) (simp_all add: nonneg_cases)

lemma nonneg_mul: "js_le (Fin 0) x \<Longrightarrow> js_le (Fin 0) y \<Longrightarrow> js_mul x y = NaN \<or> js_le (Fin 0) (js_mul x y)"
  using nonneg_to_num by (cases x; cases y) (simp_all add: nonneg_cases)

lemma nonneg_percent: "js_le (Fin 0) x \<Longrightarrow> js_le (Fin 0) (js_div x (Fin 100))"
  using nonneg_to_num by (cases x) (simp_all add: nonneg_cases)

lemma nonneg_Number: "isNonNegativeNumber s \<Longrightarrow> js_le (Fin 0) (js_Number s)"
  by (simp add: isNonNegativeNumber_def Let_def split: if_splits)

lemma nonneg_amount: "isNonNegativeNumber s \<Longrightarrow> js_le (Fin 0) (amount s)"
  using nonneg_Number [of s] by (auto simp: amount_def or_str_def isNonNegativeNumber_def trim_def)

lemma nonneg_total: "list_all (\<lambda>r. js_le (Fin 0) (f r)) rows \<Longrightarrow> js_le (Fin 0) acc \<Longrightarrow> js_le (Fin 0) (foldl (\<lambda>sum r. js_add sum (f r)) acc rows)"
  by (induction rows arbitrary: acc) (simp_all add: nonneg_add)

lemma writes_fixed:
  assumes "x = NaN \<or> js_le (Fin 0) x" "in_range x" "0 < k"
  shows "writes k x (toFixedString x k)"
proof -
  obtain q where q: "x = Fin q" "0 \<le> q" "q < 10 ^ 21" using assms by (cases x) (auto simp: in_range_def nonneg_cases)
  then have "toFixedString x k = fixed_pos k q" by (simp add: toFixedString_def to_fixed_def)
  then show ?thesis using fixed_nearest [OF q(2), of k] q(1) assms(3) by (auto simp: writes_def fixed_pos_def Let_def)
qed

lemma percentage_rate:
  assumes "isPercentage s"
  shows "rate_text (toFixedString (js_div (js_Number s) (Fin 100)) 4) \<and> writes 4 (js_div (js_Number s) (Fin 100)) (toFixedString (js_div (js_Number s) (Fin 100)) 4)"
proof -
  have "js_le (Fin 0) (js_Number s)" "js_le (js_Number s) (Fin 100)" using assms by (simp_all add: isPercentage_def Let_def split: if_splits)
  then obtain q where q: "js_Number s = Fin q" "0 \<le> q" "q \<le> 100" by (cases "js_Number s") (auto simp: nonneg_cases js_le_def js_eq_def)
  then obtain r where r: "js_div (js_Number s) (Fin 100) = Fin r" "0 \<le> r" "r \<le> 1" using to_num_unit [of "q / 100"] by auto
  define m where "m = nat \<lfloor>r * 10 ^ 4 + 1 / 2\<rfloor>"
  have "r * 10 ^ 4 + 1 / 2 < of_int 10001" using r(3) by simp
  then have "\<lfloor>r * 10 ^ 4 + 1 / 2\<rfloor> < 10001" by (simp only: floor_less_iff)
  then have "m \<le> 10000" unfolding m_def by (simp only: nat_le_iff)
  have f: "fixed_pos 4 r = nat_str (m div 10 ^ 4) @ ''.'' @ digs 4 m" unfolding fixed_pos_def Let_def m_def by (rule if_not_P) simp
  have rate_text: "rate_text (fixed_pos 4 r)"
  proof (cases "m = 10000")
    case True
    have "digs 4 (nat 10000) = ''0000''" "nat_str 1 = ''1''" unfolding digs_nat by code_simp+
    then have "nat_str (10000 div 10 ^ 4) @ ''.'' @ digs 4 10000 = ''1.0000''" by (simp del: digs.simps)
    then show ?thesis unfolding rate_text_def f True by (rule disjI1)
  next
    case False
    then have "m < 10000" using \<open>m \<le> 10000\<close> by simp
    moreover have "nat_str 0 = ''0''" by code_simp
    ultimately have "fixed_pos 4 r = ''0.'' @ digs 4 m" unfolding f by (simp del: digs.simps)
    then show ?thesis using \<open>m < 10000\<close> unfolding rate_text_def by blast
  qed
  moreover have "toFixedString (Fin r) 4 = fixed_pos 4 r" using r(2,3) by (simp add: toFixedString_def to_fixed_def)
  moreover have "writes 4 (Fin r) (toFixedString (Fin r) 4)" using r(2,3) by (intro writes_fixed) (auto simp: nonneg_cases in_range_def)
  ultimately show ?thesis using rate_text unfolding r(1) by (simp only:)
qed

lemma horizon_range: "isHorizon s \<Longrightarrow> \<exists>n. 1 \<le> n \<and> n \<le> 50 \<and> js_Number s = Fin (of_int n)"
  by (auto simp: isHorizon_def Let_def num_int_Some js_le_def js_eq_def less_le)

text \<open>The numbers the form computes for a request.\<close>

definition computed_amounts :: "FeasibilityFormValues \<Rightarrow> jsnum list" where
  "computed_amounts values = resolveInternalEnergyPriceChf values #
     (if useParticipants values
      then [fst (resolveParticipantTotals values), snd (resolveParticipantTotals values)]
        @ concat (map (\<lambda>row. [amount (fr_annual_production_kwh row), amount (fr_annual_consumption_kwh row)]) (namedParticipantRows values))
      else [resolveAnnualProductionKwh values])"

definition typed_amounts :: "FeasibilityInput \<Rightarrow> string list" where
  "typed_amounts p = [fi_retail_price_chf_per_kwh p, fi_feed_in_price_chf_per_kwh p, fi_annual_opex_chf p, fi_capex_chf p]"

definition row_written :: "ParticipantFormRow \<Rightarrow> FeasibilityParticipantInput \<Rightarrow> bool" where
  "row_written row r \<longleftrightarrow> fpi_name r = fr_name row \<and> trim (fpi_name r) \<noteq> []
     \<and> writes 4 (amount (fr_annual_production_kwh row)) (fpi_annual_production_kwh r)
     \<and> writes 4 (amount (fr_annual_consumption_kwh row)) (fpi_annual_consumption_kwh r)"

text \<open>
  C14: what a form the schema accepts sends, as long as no amount it computes reaches \<open>10\<^sup>2\<^sup>1\<close>. Both rates are written
  with four decimals between 0 and 1, the horizon is a whole number of 1 to 50 years, and the rows are exactly the named
  rows. The amounts the form computes (the internal price, the production, the totals and the amounts of the rows) are written
  to half a unit of the last decimal of their field. The prices of retail and feed-in, the costs and, without
  rows, the consumption are sent as they were typed, which is a number that is not negative.
\<close>

theorem feasibility_request_readable:
  assumes "feasibilityFormSchema values" "list_all in_range (computed_amounts values)"
  shows "let p = mapFormValuesToPayload values; rows = namedParticipantRows values in
      rate_text (fi_self_consumption_rate p) \<and> rate_text (fi_discount_rate p)
    \<and> (\<exists>n. 1 \<le> n \<and> n \<le> 50 \<and> fi_horizon_years p = Fin (of_int n))
    \<and> writes 5 (resolveInternalEnergyPriceChf values) (fi_internal_energy_price_chf_per_kwh p)
    \<and> typed_amounts p = [ff_retail_price_chf_per_kwh values, ff_feed_in_price_chf_per_kwh values, ff_annual_opex_chf values, ff_capex_chf values]
    \<and> list_all isNonNegativeNumber (typed_amounts p)
    \<and> (if rows = [] then fi_participants p = [] \<and> writes 4 (resolveAnnualProductionKwh values) (fi_annual_production_kwh p)
           \<and> fi_annual_consumption_kwh p = ff_annual_consumption_kwh values \<and> isNonNegativeNumber (fi_annual_consumption_kwh p)
         else list_all2 row_written rows (fi_participants p)
           \<and> writes 4 (fst (resolveParticipantTotals values)) (fi_annual_production_kwh p)
           \<and> writes 4 (snd (resolveParticipantTotals values)) (fi_annual_consumption_kwh p))"
proof -
  let ?rows = "namedParticipantRows values"
  have use_rows: "useParticipants values \<longleftrightarrow> ?rows \<noteq> []" by (auto simp: useParticipants_def namedParticipantRows_def)
  have rows_ok: "list_all participantRowSchema ?rows" "list_all (\<lambda>row. trim (fr_name row) \<noteq> []) ?rows"
    using assms(1) by (auto simp: feasibilityFormSchema_def namedParticipantRows_def list_all_iff)
  have amounts: "list_all (\<lambda>row. js_le (Fin 0) (amount (fr_annual_production_kwh row)) \<and> js_le (Fin 0) (amount (fr_annual_consumption_kwh row))) ?rows"
    using rows_ok(1) by (auto simp: list_all_iff participantRowSchema_def intro: nonneg_amount)
  have zero: "js_le (Fin 0) (Fin 0)" by (simp add: nonneg_cases)
  have price: "resolveInternalEnergyPriceChf values = NaN \<or> js_le (Fin 0) (resolveInternalEnergyPriceChf values)"
  proof (cases "ff_internal_energy_price_mode values")
    case percentage_of_retail
    then show ?thesis using assms(1) nonneg_percent nonneg_mul [OF nonneg_Number nonneg_Number,
        of "ff_retail_price_chf_per_kwh values" "ff_internal_energy_price_pct_of_retail values"]
      by (auto simp: resolveInternalEnergyPriceChf_def feasibilityFormSchema_def)
  qed (use assms(1) nonneg_Number in \<open>auto simp: resolveInternalEnergyPriceChf_def feasibilityFormSchema_def\<close>)
  have production: "resolveAnnualProductionKwh values = NaN \<or> js_le (Fin 0) (resolveAnnualProductionKwh values)"
    using assms(1) nonneg_mul [OF nonneg_Number nonneg_Number] nonneg_Number
    by (auto simp: resolveAnnualProductionKwh_def feasibilityFormSchema_def)
  have totals: "js_le (Fin 0) (fst (resolveParticipantTotals values))" "js_le (Fin 0) (snd (resolveParticipantTotals values))"
    using amounts nonneg_total [of "\<lambda>row. amount (fr_annual_production_kwh row)" ?rows "Fin 0"]
      nonneg_total [of "\<lambda>row. amount (fr_annual_consumption_kwh row)" ?rows "Fin 0"] zero
    by (simp_all add: resolveParticipantTotals_def Let_def list_all_iff)
  have range: "in_range (resolveInternalEnergyPriceChf values)"
      "?rows = [] \<Longrightarrow> in_range (resolveAnnualProductionKwh values)"
      "?rows \<noteq> [] \<Longrightarrow> in_range (fst (resolveParticipantTotals values)) \<and> in_range (snd (resolveParticipantTotals values))"
      "row \<in> set ?rows \<Longrightarrow> in_range (amount (fr_annual_production_kwh row)) \<and> in_range (amount (fr_annual_consumption_kwh row))" for row
    using assms(2) use_rows by (auto simp: computed_amounts_def list_all_iff)
  let ?p = "mapFormValuesToPayload values"
  have "rate_text (fi_self_consumption_rate ?p)" "rate_text (fi_discount_rate ?p)"
      "\<exists>n. 1 \<le> n \<and> n \<le> 50 \<and> fi_horizon_years ?p = Fin (of_int n)"
    using assms(1) percentage_rate horizon_range by (simp_all add: mapFormValuesToPayload_def feasibilityFormSchema_def Let_def)
  moreover have "writes 5 (resolveInternalEnergyPriceChf values) (fi_internal_energy_price_chf_per_kwh ?p)"
    using writes_fixed [OF price range(1)] by (simp add: mapFormValuesToPayload_def Let_def)
  moreover have "typed_amounts ?p = [ff_retail_price_chf_per_kwh values, ff_feed_in_price_chf_per_kwh values, ff_annual_opex_chf values, ff_capex_chf values]"
      "list_all isNonNegativeNumber (typed_amounts ?p)"
    using assms(1) by (simp_all add: typed_amounts_def mapFormValuesToPayload_def feasibilityFormSchema_def Let_def)
  moreover have "fi_participants ?p = [] \<and> writes 4 (resolveAnnualProductionKwh values) (fi_annual_production_kwh ?p)
      \<and> fi_annual_consumption_kwh ?p = ff_annual_consumption_kwh values \<and> isNonNegativeNumber (ff_annual_consumption_kwh values)" if "?rows = []"
    using that use_rows assms(1) writes_fixed [OF production range(2) [OF that]]
    by (simp add: mapFormValuesToPayload_def feasibilityFormSchema_def Let_def)
  moreover have "list_all2 row_written ?rows (fi_participants ?p)" if "?rows \<noteq> []"
    using that use_rows rows_ok(2) amounts range(4) writes_fixed
    by (auto simp: mapFormValuesToPayload_def Let_def list_all2_conv_all_nth list_all_length row_written_def)
  moreover have "writes 4 (fst (resolveParticipantTotals values)) (fi_annual_production_kwh ?p)
      \<and> writes 4 (snd (resolveParticipantTotals values)) (fi_annual_consumption_kwh ?p)" if "?rows \<noteq> []"
    using that use_rows writes_fixed [OF disjI2 [OF totals(1)]] writes_fixed [OF disjI2 [OF totals(2)]] range(3)
    by (simp add: mapFormValuesToPayload_def Let_def)
  ultimately show ?thesis by (cases "?rows = []") (simp_all add: Let_def)
qed

text \<open>Two named rows and one still without a name.\<close>

definition shared_roof :: FeasibilityFormValues where
  "shared_roof = defaultFeasibilityFormValues\<lparr>ff_energy_input_mode := by_participants,
     ff_participants := [\<lparr>fr_name = ''Haus A'', fr_annual_production_kwh = ''9000'', fr_annual_consumption_kwh = ''4500''\<rparr>, emptyParticipantRow,
       \<lparr>fr_name = ''Haus B'', fr_annual_production_kwh = ''0'', fr_annual_consumption_kwh = ''90''\<rparr>]\<rparr>"

theorem feasibility_request_readable_witness:
  "map fpi_name (fi_participants (mapFormValuesToPayload shared_roof)) = [''Haus A'', ''Haus B'']
   \<and> rate_text (fi_self_consumption_rate (mapFormValuesToPayload shared_roof))
   \<and> writes 5 (resolveInternalEnergyPriceChf shared_roof) (fi_internal_energy_price_chf_per_kwh (mapFormValuesToPayload shared_roof))"
proof -
  have h: "feasibilityFormSchema shared_roof" "list_all in_range (computed_amounts shared_roof)" by code_simp+
  have "map fr_name (namedParticipantRows shared_roof) = [''Haus A'', ''Haus B'']" by code_simp
  then show ?thesis using payload_names [of shared_roof] feasibility_request_readable [OF h] by (simp add: Let_def)
qed

section \<open>Unnamed rows\<close>

text \<open>
  A row without a name is left out of the request, but the schema still checks its amounts: an unnamed row with a
  cleared amount keeps the whole form from being recomputed, also in the mode that does not use the rows.
\<close>

lemma unnamed_row_blocks:
  assumes "row \<in> set (ff_participants values)" "trim (fr_name row) = []" "trim (fr_annual_production_kwh row) = []"
  shows "row \<notin> set (namedParticipantRows values) \<and> \<not> feasibilityFormSchema values"
  using assms by (auto simp: namedParticipantRows_def feasibilityFormSchema_def list_all_iff participantRowSchema_def isNonNegativeNumber_def)

text \<open>So does a cleared field of the production mode that is not in use.\<close>

lemma hidden_field_blocks:
  "ff_annual_production_mode values = from_kwp \<Longrightarrow> trim (ff_annual_production_kwh values) = [] \<Longrightarrow> \<not> feasibilityFormSchema values"
  by (simp add: feasibilityFormSchema_def isNonNegativeNumber_def)

section \<open>Prefill and the price mode\<close>

text \<open>What a prefill could not determine stays as it was.\<close>

lemma prefill_keeps:
  "fp_retail_price_chf_per_kwh prefill = None \<Longrightarrow> ff_retail_price_chf_per_kwh (applyPrefillToFormValues prefill v) = ff_retail_price_chf_per_kwh v"
  "fp_self_consumption_rate prefill = None \<Longrightarrow> ff_self_consumption_rate_pct (applyPrefillToFormValues prefill v) = ff_self_consumption_rate_pct v"
  "ff_horizon_years (applyPrefillToFormValues prefill v) = ff_horizon_years v"
  by (simp_all add: applyPrefillToFormValues_def)

text \<open>Switching the mode never changes the retail price, and without a positive one only the mode flips.\<close>

lemma switch_keeps_retail: "ff_retail_price_chf_per_kwh (switch_price_mode m v) = ff_retail_price_chf_per_kwh v"
  by (simp add: switch_price_mode_def split: option.split converted_price.split)

lemma switch_without_retail:
  "\<not> js_less (Fin 0) (js_Number (ff_retail_price_chf_per_kwh v)) \<Longrightarrow> switch_price_mode m v = v\<lparr>ff_internal_energy_price_mode := m\<rparr>"
  by (cases "js_Number (ff_retail_price_chf_per_kwh v)")
    (auto simp: switch_price_mode_def convertedInternalPriceForMode_def Let_def js_isFinite_def js_le_def js_eq_def)

text \<open>On the starting values the switch keeps the effective price: 0.20 is 62.5 percent of 0.32.\<close>

lemma default_price_switch:
  "convertedInternalPriceForMode defaultFeasibilityFormValues percentage_of_retail = Some (set_pct_of_retail ''62.5'')"
  by code_simp

end
