(* ===== verification/Supplementary.thy ===== *)
theory Supplementary
  imports Metering_Points Live_Energy Tariff_Errors Write_Scope
begin

text \<open>
  The participants' own energy systems: \<open>frontend/src/lib/supplementary.ts\<close> (which rates may be shown, what is wrong with
  a source, the addresses a push client posts to, which metering points can be connected),
  \<open>lib/api/supplementary.ts\<close> (\<open>fetchEligibleOrNull\<close>), \<open>features/supplementary/useSourceActions.ts\<close> (every change
  of a source, with its request and its message) and \<open>lib/notifications.ts\<close> (the bell's lines and where they lead).

  The lemmas: a withheld rate is never shown as a number, a source with nothing to say is switched on and has
  answered, both addresses share the base without trailing slashes, and a key is sent without the white
  space around it.
\<close>

section \<open>Rates and states\<close>

datatype withheld_reason = low_coverage | no_data

record GrossEnergy =
  ge_self_consumption_rate :: "jsnum option"
  ge_self_sufficiency_rate :: "jsnum option"
  ge_rates_withheld_reason :: "withheld_reason option"

definition withheldReasonKey :: "GrossEnergy option \<Rightarrow> string option" where
  "withheldReasonKey gross =
     (case Option.bind gross ge_rates_withheld_reason of
        Some low_coverage \<Rightarrow> Some ''supplementary.withheld.lowCoverage''
      | Some no_data \<Rightarrow> Some ''supplementary.withheld.noData''
      | None \<Rightarrow> None)"

definition hasOwnSystemData :: "GrossEnergy option \<Rightarrow> bool" where
  "hasOwnSystemData gross = (case gross of None \<Rightarrow> False | Some g \<Rightarrow> ge_rates_withheld_reason g = None)"

datatype whose = whose_participant | whose_own

definition behindMeterHintKey :: "whose \<Rightarrow> GrossEnergy option \<Rightarrow> string" where
  "behindMeterHintKey w gross =
     (if w = whose_participant
      then if hasOwnSystemData gross then ''behindMeter.participantHintConnected'' else ''behindMeter.participantHint''
      else if hasOwnSystemData gross then ''behindMeter.ownHintConnected'' else ''behindMeter.ownHint'')"

datatype GrossRateKind = self_sufficiency | self_consumption

definition grossRate :: "GrossEnergy option \<Rightarrow> GrossRateKind \<Rightarrow> jsnum option" where
  "grossRate gross kind =
     (case gross of None \<Rightarrow> None
      | Some g \<Rightarrow> if ge_rates_withheld_reason g \<noteq> None then None
          else if kind = self_sufficiency then ge_self_sufficiency_rate g else ge_self_consumption_rate g)"

datatype StatusTone = tone_success | tone_warning | tone_danger | tone_neutral

definition statusTone :: "SupplementaryStatus option \<Rightarrow> StatusTone" where
  "statusTone status =
     (case status of Some ss_ok \<Rightarrow> tone_success | Some ss_pending \<Rightarrow> tone_neutral | Some ss_error \<Rightarrow> tone_warning
      | Some ss_reconnect_required \<Rightarrow> tone_danger | _ \<Rightarrow> tone_neutral)"

fun STATUS_BADGE_CLASS :: "StatusTone \<Rightarrow> string" where
  "STATUS_BADGE_CLASS tone_success = ''badge badge-success''"
| "STATUS_BADGE_CLASS tone_warning = ''badge badge-warning''"
| "STATUS_BADGE_CLASS tone_danger = ''badge badge-danger''"
| "STATUS_BADGE_CLASS tone_neutral = ''badge badge-neutral''"

datatype SourceTarget = at_metering_point | at_connection_point

datatype SourceCapability = cap_history | cap_live | cap_forecast

record SupplementarySource =
  so_id :: string
  so_zev :: string
  so_target :: SourceTarget
  so_metering_point :: "string option"
  so_provides_history :: bool
  so_provides_live :: bool
  so_provides_forecast :: bool
  so_live_state :: "LiveState option"
  so_enabled :: bool
  so_status :: SupplementaryStatus

datatype problem_tone = problem_error | problem_warning | problem_muted

type_synonym CapabilityProblem = "problem_tone \<times> string"

definition capabilityProblem :: "SupplementarySource \<Rightarrow> SourceCapability \<Rightarrow> CapabilityProblem option" where
  "capabilityProblem source capability =
     (if \<not> so_enabled source then Some (problem_muted, ''supplementary.status.disabled'')
      else if so_status source = ss_reconnect_required then Some (problem_error, ''supplementary.status.reconnect_required'')
      else if so_status source = ss_error then Some (problem_warning, ''supplementary.status.error'')
      else if capability = cap_live
      then if so_live_state source = Some ls_stale then Some (problem_warning, ''live.state.stale'')
           else if so_live_state source = Some ls_never then Some (problem_muted, ''live.state.never'')
           else None
      else if so_status source = ss_pending then Some (problem_muted, ''supplementary.status.pending'') else None)"

section \<open>Addresses\<close>

definition strip_slashes :: "string \<Rightarrow> string" where
  "strip_slashes s = rev (dropWhile (\<lambda>c. c = CHR ''/'') (rev s))"

text \<open>\<open>API_BASE_URL\<close> is a constant of the build; the origin of the page is an argument.\<close>

definition ingest_base :: "string \<Rightarrow> string \<Rightarrow> string" where
  "ingest_base apiBase origin =
     (if starts_with ''http://'' apiBase \<or> starts_with ''https://'' apiBase then strip_slashes apiBase else strip_slashes (origin @ apiBase))"

definition ingestUrl :: "string \<Rightarrow> string \<Rightarrow> string" where
  "ingestUrl apiBase origin = ingest_base apiBase origin @ ''/metering/supplementary/ingest/''"

definition replace_suffix :: "string \<Rightarrow> string \<Rightarrow> string \<Rightarrow> string" where
  "replace_suffix suffix new s = (if ends_with suffix s then take (length s - length suffix) s @ new else s)"

definition liveIngestUrl :: "string \<Rightarrow> string \<Rightarrow> string" where
  "liveIngestUrl apiBase origin = replace_suffix ''/supplementary/ingest/'' ''/live/ingest/'' (ingestUrl apiBase origin)"

definition CSV_COLUMNS :: "string list" where
  "CSV_COLUMNS = [''timestamp'', ''consumption_kwh'', ''production_kwh'', ''import_kwh'', ''export_kwh'']"

section \<open>Eligible metering points\<close>

record EligibleMeteringPoint =
  el_metering_point :: string
  el_zev :: string
  el_source :: "string option"
  el_eligible_capabilities :: "SourceCapability list option"

definition historyEligible :: "EligibleMeteringPoint \<Rightarrow> bool" where
  "historyEligible point = (case el_eligible_capabilities point of None \<Rightarrow> True | Some cs \<Rightarrow> cap_history \<in> set cs)"

definition liveEligible :: "EligibleMeteringPoint \<Rightarrow> bool" where
  "liveEligible point = (case el_eligible_capabilities point of None \<Rightarrow> False | Some cs \<Rightarrow> cap_live \<in> set cs)"

definition forecastEligible :: "EligibleMeteringPoint \<Rightarrow> bool" where
  "forecastEligible point = (case el_eligible_capabilities point of None \<Rightarrow> False | Some cs \<Rightarrow> cap_forecast \<in> set cs)"

definition hasCapability :: "EligibleMeteringPoint \<Rightarrow> bool" where
  "hasCapability point \<longleftrightarrow> historyEligible point \<or> liveEligible point"

fun provides :: "SourceCapability \<Rightarrow> SupplementarySource \<Rightarrow> bool" where
  "provides cap_history s = so_provides_history s"
| "provides cap_live s = so_provides_live s"
| "provides cap_forecast s = so_provides_forecast s"

definition sourceFor :: "SupplementarySource list option \<Rightarrow> string \<Rightarrow> SourceCapability \<Rightarrow> SupplementarySource option" where
  "sourceFor sources meteringPointId capability =
     Option.bind sources (find (\<lambda>s. so_metering_point s = Some meteringPointId \<and> provides capability s))"

definition connectionPointSource :: "SupplementarySource list option \<Rightarrow> string option \<Rightarrow> SupplementarySource option" where
  "connectionPointSource sources zevId =
     Option.bind sources (find (\<lambda>s. so_target s = at_connection_point \<and> Some (so_zev s) = zevId))"

text \<open>A failed request: the status of the answer, when there was one, and the error.\<close>

type_synonym failure = "int option \<times> api_error"

definition fetchEligibleOrNull :: "failure + EligibleMeteringPoint list \<Rightarrow> failure + EligibleMeteringPoint list option" where
  "fetchEligibleOrNull answer =
     (case answer of Inr points \<Rightarrow> Inr (Some points)
      | Inl (status, error) \<Rightarrow> if status = Some 404 then Inr None else Inl (status, error))"

record energy_data_eligibility =
  ed_featureOn :: bool
  ed_eligible :: "EligibleMeteringPoint list"
  ed_historyEligible :: "EligibleMeteringPoint list"
  ed_liveEligible :: "EligibleMeteringPoint list"
  ed_canConnect :: bool

text \<open>\<open>query.data\<close>: \<open>None\<close> while there is none, \<open>Some None\<close> for the \<open>null\<close> of a feature that is off.\<close>

definition useEnergyDataEligibility :: "EligibleMeteringPoint list option option \<Rightarrow> energy_data_eligibility" where
  "useEnergyDataEligibility data =
     (let featureOn = (Option.bind data id \<noteq> None); eligible = nullish (Option.bind data id) [];
          historyPoints = filter historyEligible eligible
      in \<lparr>ed_featureOn = featureOn, ed_eligible = eligible, ed_historyEligible = historyPoints,
          ed_liveEligible = filter liveEligible eligible, ed_canConnect = featureOn \<and> 0 < length historyPoints\<rparr>)"

section \<open>Changing a source\<close>

record SupplementarySourceUpdate =
  su_enabled :: "bool option"
  su_external_id :: "string option"
  su_api_key :: "string option"
  su_provides_history :: "bool option"
  su_provides_live :: "bool option"
  su_provides_forecast :: "bool option"
  su_consent :: "bool option"

definition no_update :: SupplementarySourceUpdate where
  "no_update = \<lparr>su_enabled = None, su_external_id = None, su_api_key = None, su_provides_history = None, su_provides_live = None,
     su_provides_forecast = None, su_consent = None\<rparr>"

datatype source_change = ch_test | ch_sync | ch_replaceKey string string | ch_setEnabled bool | ch_disconnect | ch_purge | ch_remove
  | ch_rotate | ch_revoke | ch_capability SupplementarySourceUpdate

datatype source_request = sr_post string string | sr_patch string SupplementarySourceUpdate | sr_delete string

text \<open>The request of a change: method, source, and the endpoint below it.\<close>

fun change_request :: "string \<Rightarrow> source_change \<Rightarrow> source_request" where
  "change_request i ch_test = sr_post i ''test''"
| "change_request i ch_sync = sr_post i ''sync''"
| "change_request i (ch_replaceKey apiKey externalId) =
     sr_patch i (no_update\<lparr>su_api_key := Some (trim apiKey), su_external_id := Some (trim externalId), su_enabled := Some True\<rparr>)"
| "change_request i (ch_setEnabled b) = sr_patch i (no_update\<lparr>su_enabled := Some b\<rparr>)"
| "change_request i ch_disconnect = sr_post i ''disconnect''"
| "change_request i ch_purge = sr_post i ''purge''"
| "change_request i ch_remove = sr_delete i"
| "change_request i ch_rotate = sr_post i ''rotate-push-token''"
| "change_request i ch_revoke = sr_post i ''revoke-push-token''"
| "change_request i (ch_capability u) = sr_patch i u"

record source_answer =
  an_deleted :: jsnum
  an_push_token :: string

datatype source_callback = cb_token string | cb_gone | cb_keyReplaced

definition capability_key :: "SupplementarySourceUpdate \<Rightarrow> string" where
  "capability_key input =
     (case su_provides_forecast input of
        Some b \<Rightarrow> if b then ''supplementary.forecast.alsoUseDone'' else ''supplementary.forecast.stopped''
      | None \<Rightarrow>
          case su_provides_live input of
            Some b \<Rightarrow> if b then ''supplementary.live.alsoSendDone'' else ''supplementary.live.stopped''
          | None \<Rightarrow> if su_provides_history input = Some True then ''supplementary.source.historyOn'' else ''supplementary.source.historyStopped'')"

text \<open>\<open>onSuccess\<close>: the message, if any, and the caller's callbacks.\<close>

fun change_success :: "translate \<Rightarrow> SupplementarySource \<Rightarrow> source_change \<Rightarrow> source_answer \<Rightarrow> string option \<times> source_callback list" where
  "change_success t source ch_test data = (Some (t ''supplementary.actions.testOk'' []), [])"
| "change_success t source ch_sync data =
     (Some (t (if so_provides_history source then ''supplementary.actions.syncQueued'' else ''supplementary.forecast.refreshQueued'') []), [])"
| "change_success t source (ch_replaceKey _ _) data = (Some (t ''supplementary.actions.keyReplaced'' []), [cb_keyReplaced])"
| "change_success t source (ch_setEnabled _) data = (None, [])"
| "change_success t source ch_disconnect data = (Some (t ''supplementary.actions.disconnected'' []), [])"
| "change_success t source ch_purge data = (Some (t ''supplementary.actions.dataDeleted'' [(''count'', JNum (an_deleted data))]), [])"
| "change_success t source ch_remove data = (Some (t ''supplementary.actions.removed'' []), [cb_gone])"
| "change_success t source ch_rotate data = (None, [cb_token (an_push_token data)])"
| "change_success t source ch_revoke data = (Some (t ''supplementary.live.revoked'' []), [])"
| "change_success t source (ch_capability input) data = (Some (t (capability_key input) []), [])"

datatype toast_kind = toast_success | toast_error | toast_info

definition change_error :: "translate \<Rightarrow> source_change \<Rightarrow> failure \<Rightarrow> string \<times> toast_kind" where
  "change_error t ch f =
     (if ch = ch_sync \<and> fst f = Some 429 then (t ''supplementary.actions.syncCooldown'' [], toast_info)
      else (formatApiError (snd f) (t ''common.error'' []), toast_error))"

section \<open>Notifications\<close>

datatype NotificationAudience = aud_manager | aud_participant

record Notification =
  no_id :: string
  no_type :: string
  no_audience :: NotificationAudience
  no_zev :: string
  no_payload :: "(string \<times> json) list"
  no_target_type :: string
  no_target_id :: string
  no_read_at :: "string option"

definition KNOWN_TYPES :: "string list" where
  "KNOWN_TYPES = [''invoice.sent'', ''document.delivered'', ''invoice.paid'', ''metering.data'', ''import.finished'', ''import.failed'',
     ''invoices.generated'', ''invoices.generation_failed'']"

definition isKnownNotificationType :: "string \<Rightarrow> bool" where
  "isKnownNotificationType typ \<longleftrightarrow> typ \<in> set KNOWN_TYPES"

definition notificationText :: "translate \<Rightarrow> Notification \<Rightarrow> string" where
  "notificationText t notification =
     (if \<not> isKnownNotificationType (no_type notification) then t ''notifications.types.unknown'' []
      else t (''notifications.types.'' @ no_type notification) (no_payload notification))"

definition notificationLink :: "Notification \<Rightarrow> string option" where
  "notificationLink notification =
     (if \<not> isKnownNotificationType (no_type notification) then None
      else if no_target_type notification = ''invoice''
      then if no_audience notification \<noteq> aud_participant then Some (''/billing/invoices/'' @ no_target_id notification) else Some ''/me/documents''
      else if no_target_type notification = ''document'' then Some ''/me/documents''
      else if no_target_type notification = ''metering_point'' then Some ''/me/metering-points''
      else if no_target_type notification = ''import_log'' then Some ''/metering/imports''
      else if no_target_type notification = ''period'' then Some ''/billing/invoices''
      else None)"

text \<open>The bell (\<open>components/NotificationBell.tsx\<close>): its badge, and what opening an entry does.\<close>

definition BADGE_CAP :: int where
  "BADGE_CAP = 99"

definition badge_text :: "int option \<Rightarrow> string option" where
  "badge_text unreadCount =
     (let unread = nullish unreadCount 0
      in if 0 < unread then Some (if BADGE_CAP < unread then int_str BADGE_CAP @ ''+'' else int_str unread) else None)"

definition showCommunity :: "Notification list \<Rightarrow> bool" where
  "showCommunity items \<longleftrightarrow> 1 < length (uniq (map no_zev items))"

datatype bell_effect = bell_markRead string | bell_close | bell_navigate string

definition openNotification :: "Notification \<Rightarrow> bell_effect list" where
  "openNotification notification =
     (if no_read_at notification = None then [bell_markRead (no_id notification)] else []) @ [bell_close]
     @ (case notificationLink notification of None \<Rightarrow> [] | Some link \<Rightarrow> if link \<noteq> [] then [bell_navigate link] else [])"

section \<open>What holds\<close>

lemma withheld_is_a_dash: "withheldReasonKey gross \<noteq> None \<Longrightarrow> grossRate gross kind = None"
  by (auto simp: withheldReasonKey_def grossRate_def split: option.splits withheld_reason.splits)

lemma rate_is_own_data: "grossRate gross kind = Some r \<Longrightarrow> hasOwnSystemData gross"
  by (auto simp: grossRate_def hasOwnSystemData_def split: option.splits if_splits)

lemma working_capability:
  "capabilityProblem source capability = None \<Longrightarrow> so_enabled source \<and> (so_status source = ss_ok \<or> so_status source = ss_disabled \<or> so_status source = ss_pending \<and> capability = cap_live)"
  by (cases "so_status source") (auto simp: capabilityProblem_def split: if_splits)

lemma ends_with_append: "ends_with p (s @ p)"
  by (simp add: ends_with_def starts_with_def)

lemma live_ingest_url: "liveIngestUrl apiBase origin = ingest_base apiBase origin @ ''/metering/live/ingest/''"
proof -
  have "ingestUrl apiBase origin = (ingest_base apiBase origin @ ''/metering'') @ ''/supplementary/ingest/''" by (simp add: ingestUrl_def)
  then show ?thesis unfolding liveIngestUrl_def replace_suffix_def by (simp only: ends_with_append if_True) simp
qed

lemma strip_slashes_end: "strip_slashes s = [] \<or> last (strip_slashes s) \<noteq> CHR ''/''"
proof (cases "strip_slashes s = []")
  case False
  then have "dropWhile (\<lambda>c. c = CHR ''/'') (rev s) \<noteq> []" by (simp add: strip_slashes_def)
  then show ?thesis using hd_dropWhile [of "\<lambda>c. c = CHR ''/''" "rev s"] by (simp add: strip_slashes_def last_rev)
qed simp

lemma eligibility_off: "\<not> ed_featureOn (useEnergyDataEligibility data) \<Longrightarrow> \<not> ed_canConnect (useEnergyDataEligibility data) \<and> ed_eligible (useEnergyDataEligibility data) = []"
  by (simp add: useEnergyDataEligibility_def Let_def)

lemma source_for_provides:
  "sourceFor sources mp cap = Some s \<Longrightarrow> so_metering_point s = Some mp \<and> provides cap s"
  by (auto simp: sourceFor_def find_Some_iff bind_eq_Some_conv)

text \<open>Opening a notification marks an unread one once, closes the panel and goes at most to one place.\<close>

lemma open_notification_effects:
  "length (filter (\<lambda>e. \<exists>l. e = bell_navigate l) (openNotification n)) \<le> 1"
  "bell_markRead i \<in> set (openNotification n) \<longleftrightarrow> no_read_at n = None \<and> i = no_id n"
  by (auto simp: openNotification_def split: option.splits)

end
