(* ===== verification/Source_Pane.thy ===== *)
theory Source_Pane
  imports Prelude
begin

text \<open>
  The pane of one source beside its list (\<open>frontend/src/features/supplementary/useSourcePane.ts\<close>): the open source is a
  parameter of the address, opening it from the list adds a step to the browser's history, switching replaces the
  step and closing takes it back; a draft in the pane is asked about first (\<open>components/useDraftGuard.ts\<close>).

  The session history is the entries behind, the current one and those ahead. The router changes it at once for a
  push or a replace; going back is a request to the browser, which answers with an event of its own
  after the running callback and its microtasks, and the router asks the guard when that event comes. The address
  bar, focus and scroll position are the effects.

  The theorem: closing always leads to the list, on the very entry the pane was opened from when it was opened from
  the list, so neither closing nor switching leaves a step behind.
\<close>

section \<open>State\<close>

record history_entry =
  he_source :: "string option"
  he_params :: "(string \<times> string) list"
  he_sourcePane :: bool

datatype focus_request = focus_pane | focus_control string

text \<open>An action keeps what it saw when it was asked for: the mark of the entry, and whether list and pane fit side by side.\<close>

datatype pane_action = act_open string bool bool bool | act_close "string option" bool

text \<open>What a question on the screen is about: an action of the pane, a held step back or forward, a held link.\<close>

datatype direction = backward | onward

datatype pane_question = ask_action pane_action | ask_traversal direction | ask_link history_entry

record pane_state =
  pn_back :: "history_entry list"
  pn_here :: history_entry
  pn_ahead :: "history_entry list"
  pn_traversals :: nat
  pn_dirty :: bool
  pn_bypass :: bool
  pn_microtasks :: nat
  pn_question :: "pane_question option"
  pn_focus :: "focus_request option"
  pn_listScroll :: "int option"
  pn_scrollY :: int
  pn_fitsTwoPanes :: bool

definition useSelectedSourceId :: "pane_state \<Rightarrow> string option" where
  "useSelectedSourceId st = he_source (pn_here st)"

section \<open>The router\<close>

definition push_entry :: "history_entry \<Rightarrow> pane_state \<Rightarrow> pane_state" where
  "push_entry e st = st\<lparr>pn_back := pn_here st # pn_back st, pn_here := e, pn_ahead := []\<rparr>"

definition replace_entry :: "history_entry \<Rightarrow> pane_state \<Rightarrow> pane_state" where
  "replace_entry e st = st\<lparr>pn_here := e\<rparr>"

text \<open>The page's own changes of the address run with the bypass raised, so the guard lets them through.\<close>

definition setSearchParams :: "history_entry \<Rightarrow> bool \<Rightarrow> pane_state \<Rightarrow> pane_state" where
  "setSearchParams e replace st = (if replace then replace_entry e st else push_entry e st)"

fun go :: "direction \<Rightarrow> pane_state \<Rightarrow> pane_state" where
  "go backward st = (case pn_back st of [] \<Rightarrow> st
     | e # es \<Rightarrow> st\<lparr>pn_back := es, pn_here := e, pn_ahead := pn_here st # pn_ahead st\<rparr>)"
| "go onward st = (case pn_ahead st of [] \<Rightarrow> st
     | e # es \<Rightarrow> st\<lparr>pn_back := pn_here st # pn_back st, pn_here := e, pn_ahead := es\<rparr>)"

text \<open>The browser has moved in its history: the router asks the guard, and holds the step if it objects.\<close>

definition popstate :: "direction \<Rightarrow> pane_state \<Rightarrow> pane_state" where
  "popstate d st = (if pn_dirty st \<and> \<not> pn_bypass st then st\<lparr>pn_question := Some (ask_traversal d)\<rparr> else go d st)"

definition follow_link :: "history_entry \<Rightarrow> pane_state \<Rightarrow> pane_state" where
  "follow_link e st = (if pn_dirty st \<and> \<not> pn_bypass st then st\<lparr>pn_question := Some (ask_link e)\<rparr> else push_entry e st)"

section \<open>The pane\<close>

fun perform_action :: "pane_action \<Rightarrow> pane_state \<Rightarrow> pane_state" where
  "perform_action (act_open i fromList paneState fits) st =
     (let st = (if fromList then st\<lparr>pn_focus := Some focus_pane,
                   pn_listScroll := (if \<not> fits then Some (pn_scrollY st) else pn_listScroll st)\<rparr> else st);
          st = setSearchParams ((pn_here st)\<lparr>he_source := Some i, he_sourcePane := fromList \<or> paneState\<rparr>) (\<not> fromList) (st\<lparr>pn_bypass := True\<rparr>)
      in st\<lparr>pn_microtasks := pn_microtasks st + 1\<rparr>)"
| "perform_action (act_close selected paneState) st =
     (let st = (case selected of None \<Rightarrow> st | Some i \<Rightarrow> st\<lparr>pn_focus := Some (focus_control i)\<rparr>)
      in if paneState then st\<lparr>pn_traversals := pn_traversals st + 1\<rparr>
         else setSearchParams ((pn_here st)\<lparr>he_source := None, he_sourcePane := False\<rparr>) True st)"

definition allow :: "pane_action \<Rightarrow> pane_state \<Rightarrow> pane_state" where
  "allow a st = (let st = perform_action a (st\<lparr>pn_bypass := True\<rparr>) in st\<lparr>pn_microtasks := pn_microtasks st + 1\<rparr>)"

definition guard_run :: "pane_action \<Rightarrow> pane_state \<Rightarrow> pane_state" where
  "guard_run a st = (if pn_dirty st then st\<lparr>pn_question := Some (ask_action a)\<rparr> else allow a st)"

definition openSource :: "string \<Rightarrow> pane_state \<Rightarrow> pane_state" where
  "openSource i st =
     (if useSelectedSourceId st = Some i then st
      else guard_run (act_open i (\<not> truthy (useSelectedSourceId st)) (he_sourcePane (pn_here st)) (pn_fitsTwoPanes st)) st)"

definition closePane :: "pane_state \<Rightarrow> pane_state" where
  "closePane st = guard_run (act_close (if truthy (useSelectedSourceId st) then useSelectedSourceId st else None) (he_sourcePane (pn_here st))) st"

text \<open>Agreeing: the action, or the router continues what it held.\<close>

definition confirm_question :: "pane_state \<Rightarrow> pane_state" where
  "confirm_question st = (case pn_question st of None \<Rightarrow> st
     | Some (ask_action a) \<Rightarrow> allow a (st\<lparr>pn_question := None\<rparr>)
     | Some (ask_traversal d) \<Rightarrow> (go d (st\<lparr>pn_question := None, pn_bypass := True\<rparr>))\<lparr>pn_microtasks := pn_microtasks st + 1\<rparr>
     | Some (ask_link e) \<Rightarrow> (push_entry e (st\<lparr>pn_question := None, pn_bypass := True\<rparr>))\<lparr>pn_microtasks := pn_microtasks st + 1\<rparr>)"

definition run_microtask :: "pane_state \<Rightarrow> pane_state" where
  "run_microtask st = st\<lparr>pn_bypass := False, pn_microtasks := pn_microtasks st - 1\<rparr>"

text \<open>The effects after a render: focus, and the list back where it was.\<close>

definition focus_effect :: "bool \<Rightarrow> pane_state \<Rightarrow> focus_request option \<times> pane_state" where
  "focus_effect paneOpen st =
     (case pn_focus st of
        Some focus_pane \<Rightarrow> if paneOpen then (Some focus_pane, st\<lparr>pn_focus := None\<rparr>) else (None, st)
      | Some (focus_control i) \<Rightarrow> if \<not> paneOpen then (Some (focus_control i), st\<lparr>pn_focus := None\<rparr>) else (None, st)
      | None \<Rightarrow> (None, st))"

definition listHidden :: "bool \<Rightarrow> pane_state \<Rightarrow> bool" where
  "listHidden paneOpen st \<longleftrightarrow> paneOpen \<and> \<not> pn_fitsTwoPanes st"

definition scroll_effect :: "bool \<Rightarrow> pane_state \<Rightarrow> pane_state" where
  "scroll_effect paneOpen st =
     (case pn_listScroll st of Some y \<Rightarrow> if \<not> listHidden paneOpen st then st\<lparr>pn_scrollY := y, pn_listScroll := None\<rparr> else st | None \<Rightarrow> st)"

section \<open>Steps\<close>

datatype pane_event = pe_open string | pe_close | pe_confirm | pe_cancel | pe_link history_entry | pe_traverse direction | pe_dirty bool
  | pe_reload | pe_microtask | pe_popstate | pe_effects bool | pe_view int bool

text \<open>
  The user acts when no callback or microtask is running and the browser has answered what it was asked; a question on
  the screen takes the controls of the page away. A link opens a source without the mark of this hook. A reload keeps the history.
\<close>

definition idle :: "pane_state \<Rightarrow> bool" where
  "idle st \<longleftrightarrow> pn_microtasks st = 0 \<and> pn_traversals st = 0"

definition settled :: "pane_state \<Rightarrow> bool" where
  "settled st \<longleftrightarrow> idle st \<and> pn_question st = None"

definition answered :: "pane_state \<Rightarrow> pane_state" where
  "answered st = popstate backward (st\<lparr>pn_traversals := pn_traversals st - 1\<rparr>)"

definition reload :: "pane_state \<Rightarrow> pane_state" where
  "reload st = st\<lparr>pn_traversals := 0, pn_dirty := False, pn_bypass := False, pn_microtasks := 0, pn_question := None,
     pn_focus := None, pn_listScroll := None\<rparr>"

inductive pane_step :: "pane_state \<Rightarrow> pane_event \<Rightarrow> pane_state \<Rightarrow> bool" where
  open_click: "settled st \<Longrightarrow> i \<noteq> [] \<Longrightarrow> pane_step st (pe_open i) (openSource i st)"
| close_click: "settled st \<Longrightarrow> truthy (useSelectedSourceId st) \<Longrightarrow> pane_step st pe_close (closePane st)"
| agree: "idle st \<Longrightarrow> pane_step st pe_confirm (confirm_question st)"
| stay: "idle st \<Longrightarrow> pane_step st pe_cancel (st\<lparr>pn_question := None\<rparr>)"
| link: "settled st \<Longrightarrow> \<not> he_sourcePane e \<Longrightarrow> pane_step st (pe_link e) (follow_link e st)"
| traverse: "settled st \<Longrightarrow> pane_step st (pe_traverse d) (popstate d st)"
| edit: "settled st \<Longrightarrow> pane_step st (pe_dirty b) (st\<lparr>pn_dirty := b\<rparr>)"
| reload: "pane_step st pe_reload (reload st)"
| microtask: "0 < pn_microtasks st \<Longrightarrow> pane_step st pe_microtask (run_microtask st)"
| answer: "pn_microtasks st = 0 \<Longrightarrow> 0 < pn_traversals st \<Longrightarrow> pane_step st pe_popstate (answered st)"
| rendered: "pane_step st (pe_effects paneOpen) (snd (focus_effect paneOpen (scroll_effect paneOpen st)))"
| viewing: "pane_step st (pe_view y fits) (st\<lparr>pn_scrollY := y, pn_fitsTwoPanes := fits\<rparr>)"

inductive_cases pane_stepE: "pane_step st e st'"

definition pane_start :: "pane_state \<Rightarrow> bool" where
  "pane_start st \<longleftrightarrow> pn_back st = [] \<and> \<not> he_sourcePane (pn_here st) \<and> pn_ahead st = [] \<and> pn_traversals st = 0
     \<and> \<not> pn_bypass st \<and> pn_microtasks st = 0 \<and> pn_question st = None"

inductive pane_reached :: "pane_state \<Rightarrow> bool" where
  entered: "pane_start st \<Longrightarrow> pane_reached st"
| stepped: "pane_reached st \<Longrightarrow> pane_step st e st' \<Longrightarrow> pane_reached st'"

text \<open>The browser finishes what the page asked for: the microtasks, then the traversal.\<close>

definition settle :: "pane_state \<Rightarrow> pane_state" where
  "settle st = (let st = (run_microtask ^^ pn_microtasks st) st in if 0 < pn_traversals st then answered st else st)"

section \<open>A marked entry lies on the list it was opened from\<close>

definition behind :: "history_entry \<Rightarrow> history_entry \<Rightarrow> bool" where
  "behind a b \<longleftrightarrow> (he_sourcePane b \<longrightarrow> truthy (he_source b) \<and> \<not> truthy (he_source a) \<and> he_params a = he_params b)"

text \<open>The history holds together, and so do the actions a question waits with.\<close>

definition history_ok :: "pane_state \<Rightarrow> bool" where
  "history_ok st \<longleftrightarrow> successively (\<lambda>b a. behind a b) (pn_here st # pn_back st) \<and> successively behind (pn_here st # pn_ahead st)
     \<and> \<not> he_sourcePane (last (pn_here st # pn_back st))"

fun action_ok :: "history_entry \<Rightarrow> pane_action \<Rightarrow> bool" where
  "action_ok e (act_open i fromList flag fits) \<longleftrightarrow> i \<noteq> [] \<and> fromList = (\<not> truthy (he_source e)) \<and> flag = he_sourcePane e"
| "action_ok e (act_close selected flag) \<longleftrightarrow> truthy (he_source e) \<and> flag = he_sourcePane e"

fun question_ok :: "history_entry \<Rightarrow> pane_question option \<Rightarrow> bool" where
  "question_ok e (Some (ask_action a)) \<longleftrightarrow> action_ok e a"
| "question_ok e (Some (ask_link l)) \<longleftrightarrow> \<not> he_sourcePane l"
| "question_ok e _ \<longleftrightarrow> True"

definition pane_ok :: "pane_state \<Rightarrow> bool" where
  "pane_ok st \<longleftrightarrow> history_ok st \<and> question_ok (pn_here st) (pn_question st)"

lemma history_upd [simp]: "history_ok (st\<lparr>pn_traversals := n\<rparr>) = history_ok st" "history_ok (st\<lparr>pn_dirty := b\<rparr>) = history_ok st"
    "history_ok (st\<lparr>pn_bypass := b\<rparr>) = history_ok st" "history_ok (st\<lparr>pn_microtasks := n\<rparr>) = history_ok st"
    "history_ok (st\<lparr>pn_question := q\<rparr>) = history_ok st" "history_ok (st\<lparr>pn_focus := f\<rparr>) = history_ok st"
    "history_ok (st\<lparr>pn_listScroll := y\<rparr>) = history_ok st" "history_ok (st\<lparr>pn_scrollY := x\<rparr>) = history_ok st"
    "history_ok (st\<lparr>pn_fitsTwoPanes := b\<rparr>) = history_ok st"
  by (simp_all add: history_ok_def)

lemma history_go: "history_ok st \<Longrightarrow> history_ok (go d st)"
  by (cases d; cases "pn_back st"; cases "pn_ahead st") (auto simp: history_ok_def successively_Cons split: if_splits)

lemma history_push: "history_ok st \<Longrightarrow> behind (pn_here st) e \<Longrightarrow> history_ok (push_entry e st)"
  by (auto simp: history_ok_def push_entry_def successively_Cons)

lemma marked_open: "history_ok st \<Longrightarrow> he_sourcePane (pn_here st) \<Longrightarrow>
    \<exists>e es. pn_back st = e # es \<and> \<not> truthy (he_source e) \<and> he_params e = he_params (pn_here st) \<and> truthy (he_source (pn_here st))"
  by (cases "pn_back st") (auto simp: history_ok_def behind_def)

lemma history_replace:
  assumes "history_ok st" "truthy (he_source (pn_here st))" "he_params e = he_params (pn_here st)"
    "he_sourcePane e = he_sourcePane (pn_here st)" "he_sourcePane e \<longrightarrow> truthy (he_source e)"
  shows "history_ok (replace_entry e st)"
  using assms by (cases "pn_back st"; cases "pn_ahead st") (auto simp: history_ok_def replace_entry_def behind_def)

lemma history_action:
  assumes "history_ok st" "action_ok (pn_here st) a"
  shows "history_ok (perform_action a st)"
proof (cases a)
  case (act_open i fromList flag fits)
  let ?e = "(pn_here st)\<lparr>he_source := Some i, he_sourcePane := fromList \<or> flag\<rparr>"
  have i: "i \<noteq> []" "fromList = (\<not> truthy (he_source (pn_here st)))" "flag = he_sourcePane (pn_here st)" using assms(2) act_open by simp_all
  have "history_ok (setSearchParams ?e (\<not> fromList) st)"
  proof (cases fromList)
    case True
    then show ?thesis using history_push [OF assms(1), of ?e] i by (simp add: setSearchParams_def behind_def truthy_def)
  next
    case False
    then show ?thesis using history_replace [OF assms(1), of ?e] i by (simp add: setSearchParams_def truthy_def)
  qed
  then show ?thesis using act_open
    by (auto simp: history_ok_def setSearchParams_def push_entry_def replace_entry_def Let_def split: if_splits)
next
  case (act_close selected flag)
  let ?e = "(pn_here st)\<lparr>he_source := None, he_sourcePane := False\<rparr>"
  have "history_ok (replace_entry ?e st)" if "\<not> flag"
    using that history_replace [OF assms(1), of ?e] assms(2) act_close by simp
  then show ?thesis using act_close assms(1)
    by (auto simp: history_ok_def setSearchParams_def replace_entry_def Let_def split: option.splits)
qed

lemma history_allow: "history_ok st \<Longrightarrow> action_ok (pn_here st) a \<Longrightarrow> history_ok (allow a st)"
  using history_action [of "st\<lparr>pn_bypass := True\<rparr>" a] by (simp add: allow_def Let_def del: perform_action.simps)

lemma perform_action_question [simp]: "pn_question (perform_action a st) = pn_question st"
  by (cases a) (auto simp: setSearchParams_def push_entry_def replace_entry_def Let_def split: option.split)

lemma guard_run_ok: "pane_ok st \<Longrightarrow> pn_question st = None \<Longrightarrow> action_ok (pn_here st) a \<Longrightarrow> pane_ok (guard_run a st)"
  using history_allow [of st a] by (auto simp: pane_ok_def guard_run_def allow_def Let_def simp del: perform_action.simps)

lemma go_fields [simp]: "pn_question (go d st) = pn_question st" "pn_traversals (go d st) = pn_traversals st"
    "pn_bypass (go d st) = pn_bypass st" "pn_microtasks (go d st) = pn_microtasks st" "pn_dirty (go d st) = pn_dirty st"
  by (cases d; simp split: list.split)+

declare go.simps [simp del] perform_action.simps [simp del]

lemma popstate_ok: "pane_ok st \<Longrightarrow> pn_question st = None \<Longrightarrow> pane_ok (popstate d st)"
  using history_go [of st d] by (auto simp: pane_ok_def popstate_def)

text \<open>Nothing is asked while the browser still has to answer.\<close>

definition calm :: "pane_state \<Rightarrow> bool" where
  "calm st \<longleftrightarrow> pn_traversals st \<le> 1 \<and> (0 < pn_traversals st \<longrightarrow> pn_question st = None)"

lemma perform_action_traversals: "pn_traversals (perform_action a st) \<le> pn_traversals st + 1"
  by (cases a) (auto simp: perform_action.simps setSearchParams_def push_entry_def replace_entry_def Let_def split: option.split)

lemma calm_guard_run: "settled st \<Longrightarrow> calm (guard_run a st)"
  using perform_action_traversals [of a "st\<lparr>pn_bypass := True\<rparr>"]
  by (auto simp: calm_def settled_def idle_def guard_run_def allow_def Let_def)

lemma step_calm:
  assumes "pane_step st e st'" "calm st"
  shows "calm st'"
  using assms(1)
proof (cases rule: pane_step.cases)
  case (open_click i)
  then show ?thesis using assms(2) calm_guard_run by (simp add: openSource_def)
next
  case close_click
  then show ?thesis using calm_guard_run by (simp add: closePane_def)
next
  case agree
  then show ?thesis
    using assms(2) perform_action_traversals [of _ "st\<lparr>pn_question := None, pn_bypass := True\<rparr>"]
    by (auto simp: confirm_question_def calm_def idle_def allow_def push_entry_def Let_def split: option.split pane_question.split)
qed (use assms(2) in \<open>auto simp: calm_def settled_def idle_def follow_link_def popstate_def push_entry_def answered_def reload_def
  run_microtask_def focus_effect_def scroll_effect_def split: option.split focus_request.split\<close>)

lemma step_ok:
  assumes "pane_step st e st'" "pane_ok st" "calm st"
  shows "pane_ok st'"
  using assms
proof (cases rule: pane_step.cases)
  case (open_click i)
  then show ?thesis using assms(2) guard_run_ok
    by (simp add: openSource_def useSelectedSourceId_def settled_def)
next
  case close_click
  then show ?thesis using assms(2) guard_run_ok by (simp add: closePane_def useSelectedSourceId_def settled_def)
next
  case agree
  then show ?thesis
    using assms(2) history_allow [of "st\<lparr>pn_question := None\<rparr>"] history_go [of "st\<lparr>pn_question := None, pn_bypass := True\<rparr>"]
      history_push [of "st\<lparr>pn_question := None, pn_bypass := True\<rparr>"]
    by (auto simp: confirm_question_def pane_ok_def allow_def push_entry_def Let_def behind_def split: option.split pane_question.split)
next
  case (link l)
  then show ?thesis using assms(2) history_push [of st l] by (auto simp: follow_link_def pane_ok_def behind_def push_entry_def settled_def)
next
  case (traverse d)
  then show ?thesis using assms(2) popstate_ok by (simp add: settled_def)
next
  case answer
  have "pane_ok (st\<lparr>pn_traversals := pn_traversals st - 1\<rparr>)" using assms(2) by (simp add: pane_ok_def)
  then show ?thesis using assms(3) answer by (auto simp: answered_def calm_def intro!: popstate_ok)
qed (use assms(2) in \<open>auto simp: pane_ok_def reload_def run_microtask_def focus_effect_def scroll_effect_def
  split: option.split focus_request.split\<close>)

lemma reached_ok: "pane_reached st \<Longrightarrow> pane_ok st \<and> calm st"
proof (induction rule: pane_reached.induct)
  case (entered st)
  then show ?case by (simp add: pane_start_def pane_ok_def history_ok_def calm_def)
next
  case (stepped st e st')
  then show ?case using step_ok step_calm by blast
qed

lemma run_microtasks: "(run_microtask ^^ n) st = (if n = 0 then st else st\<lparr>pn_bypass := False, pn_microtasks := pn_microtasks st - n\<rparr>)"
  by (induction n) (auto simp: run_microtask_def)

lemmas closing_simps = closePane_def guard_run_def allow_def perform_action.simps setSearchParams_def replace_entry_def
  settled_def idle_def Let_def truthy_def

lemmas settle_simps = settle_def run_microtasks run_microtask_def answered_def popstate_def useSelectedSourceId_def settled_def idle_def Let_def

text \<open>
  C15: with nothing typed in, closing the pane leads to the list with the other parameters of the address as they were. A
  pane opened from the list gives its step back: the page is on the entry behind, and what was open is ahead. A pane
  reached by a link is replaced in place. Either way closing adds no step, whatever was opened, switched, linked to or
  reloaded before.
\<close>

theorem closing_returns_to_list:
  assumes "pane_reached st" "settled st" "\<not> pn_dirty st" "truthy (useSelectedSourceId st)"
  shows "let st' = settle (closePane st) in \<not> truthy (useSelectedSourceId st') \<and> he_params (pn_here st') = he_params (pn_here st)
    \<and> (if he_sourcePane (pn_here st) then pn_back st = pn_here st' # pn_back st' \<and> pn_ahead st' = pn_here st # pn_ahead st
         else pn_back st' = pn_back st \<and> pn_ahead st' = pn_ahead st)
    \<and> settled st' \<and> pn_focus st' = Some (focus_control (the (useSelectedSourceId st)))"
proof (cases "he_sourcePane (pn_here st)")
  case True
  have "history_ok st" using reached_ok [OF assms(1)] by (simp add: pane_ok_def)
  then obtain e es where b: "pn_back st = e # es" "\<not> truthy (he_source e)" "he_params e = he_params (pn_here st)"
    using marked_open True by blast
  have "closePane st = st\<lparr>pn_bypass := True, pn_focus := Some (focus_control (the (useSelectedSourceId st))), pn_traversals := 1, pn_microtasks := 1\<rparr>"
    using assms(2-4) True by (auto simp: closing_simps split: option.splits)
  then show ?thesis using assms(2,3) b True by (simp add: settle_simps go.simps)
next
  case False
  have "closePane st = st\<lparr>pn_bypass := True, pn_focus := Some (focus_control (the (useSelectedSourceId st))),
      pn_here := (pn_here st)\<lparr>he_source := None, he_sourcePane := False\<rparr>, pn_microtasks := 1\<rparr>"
    using assms(2-4) False by (auto simp: closing_simps split: option.splits)
  then show ?thesis using assms(2) False by (simp add: settle_simps truthy_def)
qed

text \<open>Opened from the list, switched once, closed: the history is the list's alone again.\<close>

definition sources_page :: pane_state where
  "sources_page = \<lparr>pn_back = [], pn_here = \<lparr>he_source = None, he_params = [(''tab'', ''data'')], he_sourcePane = False\<rparr>, pn_ahead = [],
     pn_traversals = 0, pn_dirty = False, pn_bypass = False, pn_microtasks = 0, pn_question = None, pn_focus = None,
     pn_listScroll = None, pn_scrollY = 120, pn_fitsTwoPanes = False\<rparr>"

definition sources_open :: pane_state where
  "sources_open = run_microtask (run_microtask (openSource ''s2'' (run_microtask (run_microtask (openSource ''s1'' sources_page)))))"

lemma sources_open_reached: "pane_reached sources_open"
proof -
  have start: "pane_reached sources_page" by (rule entered) (simp add: pane_start_def sources_page_def)
  have twice: "pane_reached (run_microtask (run_microtask (openSource i st)))"
    if "pane_reached st" "settled st" "i \<noteq> []" "pn_microtasks (openSource i st) = 2" for i st
  proof -
    have "pane_reached (openSource i st)" using that by (auto intro: stepped open_click)
    then have "pane_reached (run_microtask (openSource i st))" using that(4) by (auto intro: stepped [OF _ microtask])
    then show ?thesis using that(4) by (rule_tac stepped [OF _ microtask]) (auto simp: run_microtask_def)
  qed
  have "pane_reached (run_microtask (run_microtask (openSource ''s1'' sources_page)))" by (rule twice [OF start]) (simp_all, code_simp+)
  then show ?thesis unfolding sources_open_def by (rule twice) (simp_all, code_simp+)
qed

theorem closing_returns_to_list_witness:
  "pn_back sources_open = [pn_here sources_page] \<and> pn_back (settle (closePane sources_open)) = []
   \<and> \<not> truthy (useSelectedSourceId (settle (closePane sources_open)))"
proof -
  have "settled sources_open" "\<not> pn_dirty sources_open" "truthy (useSelectedSourceId sources_open)" by code_simp+
  note closed = closing_returns_to_list [OF sources_open_reached this]
  have "he_sourcePane (pn_here sources_open)" "pn_back sources_open = [pn_here sources_page]" by code_simp+
  then show ?thesis using closed by (simp add: Let_def)
qed

section \<open>With a draft\<close>

text \<open>
  With a key typed in, agreeing to close a pane opened from the list asks a second time: the bypass the agreement raised is
  down again when the browser answers.
\<close>

lemma close_with_draft_asks_twice:
  assumes "settled st" "pn_dirty st" "he_sourcePane (pn_here st)"
  shows "pn_question (closePane st) = Some (ask_action (act_close (if truthy (useSelectedSourceId st) then useSelectedSourceId st else None) True))"
    and "pn_question (settle (confirm_question (closePane st))) = Some (ask_traversal backward)"
    and "pn_here (settle (confirm_question (closePane st))) = pn_here st"
  using assms
  by (simp_all add: closePane_def guard_run_def confirm_question_def allow_def perform_action.simps settle_simps split: option.split)

end
