(* ===== verification/Spec2Isabelle.thy ===== *)
theory Spec2Isabelle
  imports
    Billing_Params Billing_Navigation Business_Day Band_Coverage Tariff_Model Price_Gaps
    Transfer_Sections Invoices Overview Backups Restore Imports Zev_Form Api_Client Progression
    Live_Energy Documents Session Passkeys Price_History Metering_Points Formatting Tariff_Errors
    Tariff_Forms Tariff_Editor Write_Scope Rate_Lines Draft_Guard Participants Invoice_Actions
    Metering_Labels Feasibility Supplementary Source_Pane
begin

text \<open>
  OpenZEV administers and bills self-consumption energy communities (ZEV, vZEV, LEG). A Django backend
  stores meters, tariffs and invoices; a TypeScript single-page application (\<open>src/frontend/src\<close>) is
  what managers and participants use. This library models the rules of the frontend, that is the code that
  decides something: which period is billed, which hours a tariff prices, who may write, what an import
  or a restore may do, what a list shows. All paths below are relative to \<open>src/frontend/src\<close>.

  \<^bold>\<open>How the program is put together.\<close> Pages call hooks, hooks call pure functions of \<open>lib\<close> and
  \<open>features\<close> on records of \<open>types/api.ts\<close> that \<open>lib/api\<close> fetches. The records are read-only
  snapshots of the server; the state the frontend owns is the query string of the URL (the billing
  period), the selected community (\<open>lib/managedZev.tsx\<close>), the forms, and the polling of queued work.
  The records become HOL records with the source's fields, the unions become datatypes, each function
  becomes a function of the same name, and each hook a step function on a state record.

  \<^bold>\<open>JavaScript.\<close> \<open>Prelude\<close> holds strings, \<open>slice\<close>, \<open>split\<close>, \<open>Map\<close>, \<open>Set\<close>, find-or-push loops and
  stable sorting; \<open>Calendar\<close> the proleptic Gregorian calendar of \<open>Date\<close> with its normalisation of
  months and days; \<open>JS_Number\<close> doubles with correct rounding, \<open>Number(s)\<close> and \<open>parseInt\<close>; \<open>JS_Text\<close>
  \<open>String(x)\<close>, \<open>toFixed\<close> and JSON.

  \<^bold>\<open>Periods.\<close> \<open>Dates\<close> models \<open>lib/dates.ts\<close> and \<open>dateRangePresets.ts\<close>, \<open>Business_Day\<close> the civil days
  of the Swiss time zone over the contract \<open>business_zone\<close>: an instant is printed as a date exactly when
  it lies between that day's and the next day's start, also on days of 23 and 25 hours.
  \<open>Billing_Period\<close> models \<open>lib/billingPeriod.ts\<close> over the abstract grid \<open>period_grid\<close>, of which the
  source's functions are shown to be the cells, the steps and the enumeration; \<open>Billing_Navigation\<close>
  proves the arrows, the presets, the first billable period, the periods of a year and the ranges
  accepted from a URL. \<open>Billing_Params\<close> models \<open>lib/useBillingPeriodParams.ts\<close> with \<open>updateParams\<close>: the
  effect that reconciles the URL with the community is a step function, and it is proved to settle
  after at most two runs.

  \<^bold>\<open>Tariffs.\<close> \<open>Recurrence\<close> (\<open>features/tariffs/recurrence.ts\<close>, \<open>bands.ts\<close>), \<open>Band_Coverage\<close>
  (\<open>bandCoverage.ts\<close>: the reported gaps are exactly the seconds without a price), \<open>Tariff_Model\<close>
  (\<open>validity.ts\<close>, \<open>vseImportSelection.ts\<close>, \<open>dynamicSources.ts\<close>, \<open>tariffOverview.ts\<close>), \<open>Price_Gaps\<close>
  (\<open>dynamicPriceGaps.ts\<close>), \<open>Progression\<close> (\<open>progression/progression.ts\<close>) and \<open>Price_History\<close>
  (\<open>priceHistory.ts\<close>: the stretches of a seasonal version tile its validity and carry the bands of each
  day's month). Writing them: \<open>Tariff_Forms\<close> (\<open>useTariffForms.ts\<close>, \<open>TariffDraftBands.tsx\<close> and the decisions of the two
  form components) shows that accepted forms send well-formed requests, that an unchanged edit sends the tariff
  back, and that the drafted bands, from a verdict of the server on and while they stay on the screen, refine a list of bands
  paired with their messages; \<open>Tariff_Errors\<close> (\<open>errors.ts\<close>) that
  no coded error of a refusal is lost; \<open>Tariff_Editor\<close> (\<open>useTariffCrud.ts\<close>, \<open>useTariffVersions.ts\<close>) that late answers
  touch only the editing session they belong to. \<open>Rate_Lines\<close> (\<open>rateLines.ts\<close>, \<open>priceDelta.ts\<close>, \<open>useTariffDisplay.ts\<close>)
  shows that the price differences of a version are exactly those of the bands that moved, and that new prices of the same
  bands are announced as prices.

  \<^bold>\<open>Writing from a page.\<close> \<open>Write_Scope\<close> (\<open>lib/useWriteScope.ts\<close>) holds the identity of a scope and two interfaces:
  \<open>edit_session\<close>, of which the two hooks of the tariff editor are instances, and \<open>scoped_writes\<close>, a machine whose queue is
  filled under the current scope and checked when a request goes out, of which the tariff editor (\<open>crud_writes\<close>) and the
  participants page (\<open>people\<close>) are instances: in both, every request that takes a scope names the community it was submitted under while
  that is still current and writable. \<open>Participants\<close> (\<open>features/participants\<close>, \<open>pages/ParticipantsPage.tsx\<close>) also
  has the form, its requests and the list, and the four requests that take no scope (linking and unlinking an account,
  delivering and issuing a contract). \<open>Draft_Guard\<close> (\<open>components/useUnsavedInput.ts\<close>, \<open>useDraftGuard.ts\<close>,
  \<open>FormModal.tsx\<close>) shows that nothing the user does drops unsaved input unless they agree to exactly that (the parent that
  opened a form can still take it away); \<open>Source_Pane\<close>
  (\<open>features/supplementary/useSourcePane.ts\<close>) that closing a pane gives back the history step it took.
  \<open>Feasibility\<close> (\<open>features/feasibility/useFeasibilityForm.ts\<close>) shows, on doubles, that an accepted form sends rates, years and
  the amounts it computes in the decimals of their fields, and the typed ones as they were typed.

  \<^bold>\<open>Communities and accounts.\<close> \<open>Access\<close> models the memberships and the provider of the selected
  community as a state machine with an invariant on every reachable state, and who may write;
  \<open>Session\<close> the asynchronous sign-in, impersonation, logout and preference saves of \<open>lib/auth.tsx\<close> as a
  machine whose pending requests are answered in any order; \<open>Passkeys\<close> the WebAuthn bridge;
  \<open>Zev_Form\<close> the settings form and the IBAN check; \<open>Transfer_Sections\<close> the closed selections of an
  export; \<open>Metering_Points\<close> (\<open>features/meteringPoints/useMeteringPointForms.ts\<close>) the assignments of a meter with the
  guidance for the next one, data health, sorting and grouping; \<open>Metering_Labels\<close> (\<open>lib/meteringLabels.ts\<close>) the labels of readings, distinct for
  distinct minutes; \<open>Supplementary\<close> (\<open>lib/supplementary.ts\<close>, \<open>useSourceActions.ts\<close>, \<open>lib/notifications.ts\<close>) the sources of own
  energy data and the notifications; \<open>Backups\<close> destinations and schedules; \<open>Restore\<close> (\<open>features/backups/BackupRestoreSection.tsx\<close>) the restore of a
  community as a machine in which, on steady runs, only what was previewed is restored; \<open>Imports\<close> the import wizard and the
  batch upload.

  \<^bold>\<open>Results.\<close> \<open>Invoices\<close> models the rows of a billing period, their problems and progress, the filters,
  the render watch and the public invoice; \<open>Invoice_Actions\<close> (\<open>useInvoiceActions.tsx\<close>, \<open>useEmailDelivery.ts\<close>) the
  offered actions with their locks as a machine in which no invoice is ever in two sends; \<open>Overview\<close> the cards and alerts of the start page;
  \<open>Documents\<close> the in- and outbox and the charge form; \<open>Live_Energy\<close> live readings, the chart of the
  day, forecasts and roof planes; \<open>Api_Client\<close> error texts and the following of page links; \<open>Formatting\<close>
  (\<open>lib/appSettings.tsx\<close>, \<open>lib/numbers.ts\<close>) dates and numbers as the user reads them.

  \<^bold>\<open>Arguments of the model.\<close> What the browser or a library provides is an argument: the clock, the
  offset of the time zone, \<open>Date.parse\<close>, \<open>toISOString\<close>, the collation of \<open>localeCompare\<close>, upper and
  lower case, the translation function, the \<open>URL\<close> parser and the HTTP request. Where a theorem needs
  something of such an argument, the hypothesis says what, and a witness instantiates it.

  \<^bold>\<open>Bounds and loops.\<close> Loops over a list are recursive functions. The loops whose end depends on
  computed dates or numbers (\<open>periods_loop\<close>, \<open>years_loop\<close>) are partial functions into an option and
  are proved to return. \<open>fetchAllPages\<close> is bounded by the source's own limit of 200 pages.
  \<open>String(x)\<close> searches at most 17 significant digits, which identify every double.
  Theorems about periods hold for the years 1000 to 9997 or so (\<open>era_day\<close>), where the
  four-digit years of the code's string comparisons are the years of the calendar.

  \<^bold>\<open>Simplifications.\<close> White space is the ASCII white space; negative zero is zero; list lengths and
  counters are integers without the bound of 53 bits; of the widest API records the model keeps the fields
  that modelled code reads.

  \<^bold>\<open>Defects found.\<close> Where the code does something else than it means to, a lemma shows a run: a percentage change that
  reads as a new schedule (\<open>Rate_Lines\<close>), a party without e-mail that gets no second participation and a late save that
  closes another form and a link dialog that outlives its scope (\<open>Participants\<close>), an old verdict on another band and a saving
  blocked by an editor that is gone (\<open>Tariff_Forms\<close>), a restore from a backup that was not the one previewed (\<open>Restore\<close>), a second
  question on closing a pane (\<open>Source_Pane\<close>), an unnamed row that blocks
  the calculator (\<open>Feasibility\<close>), a late save of an earlier session (\<open>Session\<close>).

  \<^bold>\<open>Not modelled.\<close> The pages and components (markup) beyond the decisions named above, the translations (text), the
  query keys with the invalidation of cached queries, the wrappers of single HTTP requests (each forwards its
  arguments), the hooks that only configure a query, and what only touches the DOM (focus and inertness of dialogs, object
  URLs). The backend is a separate program in another language.
\<close>

end
